(* ===== verification/Rust_Prelude.thy ===== *)
theory Rust_Prelude
  imports Main "HOL-Library.Word" "HOL-Library.AList" "HOL-Library.Char_ord"
    "HOL-Library.List_Lexorder" "HOL-Library.Monad_Syntax" "HOL-Library.Sublist"
begin

text \<open>
  Shared vocabulary of the development: the machine integers, the parts of Rust's
  standard library the program uses (string and slice operations, the binary search
  of slices, \<open>HashMap\<close> as an association list with distinct keys, results
  as sums), and the lemmas about them that the component theories share.

  Strings are the bytes of Rust's UTF-8 strings, so \<open>length\<close> is \<open>str::len\<close> and
  string order is the bytewise order of \<open>Ord for str\<close>. A result
  \<open>Result<T, E>\<close> is a sum, \<open>Inl\<close> the error.
\<close>

unbundle bit_operations_syntax

type_synonym u8 = "8 word"
type_synonym u64 = "64 word"

named_theorems str_simps \<open>the standard string operations, unfolded\<close>
named_theorems wf_intros \<open>operations that keep the invariant of their component\<close>

section \<open>Results\<close>

fun and_then :: "'e + 'a \<Rightarrow> ('a \<Rightarrow> 'e + 'b) \<Rightarrow> 'e + 'b" where
  "and_then (Inl e) f = Inl e"
| "and_then (Inr a) f = f a"

fun ok :: "'e + 'a \<Rightarrow> 'a option" where
  "ok (Inl e) = None"
| "ok (Inr a) = Some a"

definition unwrap_or :: "'a option \<Rightarrow> 'a \<Rightarrow> 'a" where
  "unwrap_or x d = (case x of None \<Rightarrow> d | Some a \<Rightarrow> a)"

lemma unwrap_or_simps [simp]:
  "unwrap_or None d = d" "unwrap_or (Some a) d = a"
  by (simp_all add: unwrap_or_def)

lemma and_then_Inr: "and_then r f = Inr b \<longleftrightarrow> (\<exists>a. r = Inr a \<and> f a = Inr b)"
  by (cases r) auto

lemma ok_eq_Some [simp]: "ok r = Some a \<longleftrightarrow> r = Inr a"
  by (cases r) auto

section \<open>Files\<close>

text \<open>
  \<open>std::fs::write\<close> opens the file, which empties it or creates it, and then writes: a write ends well, or is refused
  before the file is touched, or breaks off and leaves the first bytes of the new content.
\<close>

datatype write_outcome = Written | Refused | Cut nat

definition write_file ::
  "write_outcome \<Rightarrow> 'p \<Rightarrow> 'b list \<Rightarrow> ('p \<rightharpoonup> 'b list) \<Rightarrow> bool \<times> ('p \<rightharpoonup> 'b list)" where
  "write_file w path content fs =
     (case w of
        Written \<Rightarrow> (True, fs(path \<mapsto> content))
      | Refused \<Rightarrow> (False, fs)
      | Cut n \<Rightarrow> (False, fs(path \<mapsto> take n content)))"

lemma write_file_Written [simp]: "write_file Written path content fs = (True, fs(path \<mapsto> content))"
  by (simp add: write_file_def)

lemma write_file_True: "write_file w path content fs = (True, fs') \<longleftrightarrow> w = Written \<and> fs' = fs(path \<mapsto> content)"
  by (auto simp: write_file_def split: write_outcome.splits)

lemma write_file_other: "write_file w path content fs = (b, fs') \<Longrightarrow> q \<noteq> path \<Longrightarrow> fs' q = fs q"
  by (auto simp: write_file_def split: write_outcome.splits)

section \<open>Strings\<close>

fun strip_prefix :: "string \<Rightarrow> string \<Rightarrow> string option" where
  "strip_prefix [] s = Some s"
| "strip_prefix (p # ps) [] = None"
| "strip_prefix (p # ps) (c # cs) = (if p = c then strip_prefix ps cs else None)"

definition starts_with :: "string \<Rightarrow> string \<Rightarrow> bool" where
  "starts_with s p \<longleftrightarrow> strip_prefix p s \<noteq> None"

definition trim_start :: "char \<Rightarrow> string \<Rightarrow> string" where
  "trim_start c s = dropWhile (\<lambda>x. x = c) s"

definition trim_end :: "char \<Rightarrow> string \<Rightarrow> string" where
  "trim_end c s = rev (dropWhile (\<lambda>x. x = c) (rev s))"

fun split_on :: "char \<Rightarrow> string \<Rightarrow> string list" where
  "split_on c [] = [[]]"
| "split_on c (x # xs) =
     (if x = c then [] # split_on c xs
      else (case split_on c xs of [] \<Rightarrow> [[x]] | w # ws \<Rightarrow> (x # w) # ws))"

fun split_once :: "char \<Rightarrow> string \<Rightarrow> (string \<times> string) option" where
  "split_once c [] = None"
| "split_once c (x # xs) =
     (if x = c then Some ([], xs)
      else map_option (\<lambda>(a, b). (x # a, b)) (split_once c xs))"

text \<open>\<open>rsplit_once\<close> splits at the last occurrence.\<close>

definition rsplit_once :: "char \<Rightarrow> string \<Rightarrow> (string \<times> string) option" where
  "rsplit_once c s = map_option (\<lambda>(a, b). (rev b, rev a)) (split_once c (rev s))"

definition rfind :: "char \<Rightarrow> string \<Rightarrow> nat option" where
  "rfind c s = map_option (\<lambda>(a, b). length a) (rsplit_once c s)"

fun join :: "string \<Rightarrow> string list \<Rightarrow> string" where
  "join sep [] = []"
| "join sep [w] = w"
| "join sep (w # v # ws) = w @ sep @ join sep (v # ws)"

fun contains_str :: "string \<Rightarrow> string \<Rightarrow> bool" where
  "contains_str pat [] \<longleftrightarrow> pat = []"
| "contains_str pat (c # cs) \<longleftrightarrow> starts_with (c # cs) pat \<or> contains_str pat cs"

lemma strip_prefix_Some: "strip_prefix p s = Some r \<longleftrightarrow> s = p @ r"
  by (induction p s rule: strip_prefix.induct) auto

lemma strip_prefix_append [simp]: "strip_prefix p (p @ r) = Some r"
  by (simp add: strip_prefix_Some)

lemma starts_with_iff: "starts_with s p \<longleftrightarrow> (\<exists>r. s = p @ r)"
  by (simp add: starts_with_def strip_prefix_Some)

lemma split_on_nonempty [simp]: "split_on c s \<noteq> []"
  by (induction s) (auto split: list.splits)

lemma split_on_no_sep: "w \<in> set (split_on c s) \<Longrightarrow> c \<notin> set w"
  by (induction s arbitrary: w) (auto split: if_splits list.splits)

lemma join_Cons: "ws \<noteq> [] \<Longrightarrow> join sep (w # ws) = w @ sep @ join sep ws"
  by (cases ws) auto

lemma join_split_on: "join [c] (split_on c s) = s"
proof (induction s)
  case Nil
  then show ?case by simp
next
  case (Cons x xs)
  obtain w ws where "split_on c xs = w # ws"
    by (meson list.exhaust split_on_nonempty)
  with Cons show ?case by (cases ws) (auto simp: join_Cons)
qed

lemma split_once_Some: "split_once c s = Some (a, b) \<longleftrightarrow> s = a @ c # b \<and> c \<notin> set a"
proof (induction s arbitrary: a)
  case Nil
  then show ?case by simp
next
  case (Cons x xs)
  then show ?case by (cases a) auto
qed

lemma split_once_None: "split_once c s = None \<longleftrightarrow> c \<notin> set s"
  by (induction s) auto

lemma rsplit_once_Some: "rsplit_once c s = Some (a, b) \<longleftrightarrow> s = a @ c # b \<and> c \<notin> set b"
proof -
  have "rsplit_once c s = Some (a, b) \<longleftrightarrow> split_once c (rev s) = Some (rev b, rev a)"
    by (auto simp: rsplit_once_def)
  also have "\<dots> \<longleftrightarrow> rev s = rev b @ c # rev a \<and> c \<notin> set b"
    by (simp add: split_once_Some)
  also have "rev s = rev b @ c # rev a \<longleftrightarrow> s = a @ c # b"
    by (metis append.assoc append_Cons append_Nil rev.simps(2) rev_append rev_rev_ident)
  finally show ?thesis .
qed

lemma rsplit_once_None: "rsplit_once c s = None \<longleftrightarrow> c \<notin> set s"
  by (simp add: rsplit_once_def split_once_None)

text \<open>
  \<open>Path::join\<close>: an absolute argument replaces the base. Slicing a string off a
  character boundary panics; a byte that continues a UTF-8 character is 10xxxxxx.
\<close>

definition path_join :: "string \<Rightarrow> string \<Rightarrow> string" where
  "path_join base p =
     (if starts_with p ''/'' then p
      else if base = [] then p
      else if last base = CHR ''/'' then base @ p
      else base @ ''/'' @ p)"

definition is_char_boundary :: "string \<Rightarrow> nat \<Rightarrow> bool" where
  "is_char_boundary s i \<longleftrightarrow>
     i = 0 \<or> i = length s \<or>
     (i < length s \<and> (let b = (of_char (s ! i) :: nat) in b < 128 \<or> 192 \<le> b))"

text \<open>
  \<open>Path::starts_with\<close> compares whole components; repeated and trailing slashes do not
  count, nor does a component "." that is not the first.
\<close>

definition path_components :: "string \<Rightarrow> string list" where
  "path_components p =
     (if starts_with p ''/'' then [''/''] else []) @
     (let ws = filter (\<lambda>w. w \<noteq> []) (split_on (CHR ''/'') p) in
      if starts_with p ''/'' then filter (\<lambda>w. w \<noteq> ''.'') ws
      else (case ws of [] \<Rightarrow> [] | w # ws' \<Rightarrow> w # filter (\<lambda>w. w \<noteq> ''.'') ws'))"

definition path_starts_with :: "string \<Rightarrow> string \<Rightarrow> bool" where
  "path_starts_with p base \<longleftrightarrow> prefix (path_components base) (path_components p)"

text \<open>
  \<open>str::trim\<close> removes the characters with the Unicode property White_Space, here by their
  UTF-8 bytes.
\<close>

definition ws_chars :: "string list" where
  "ws_chars = map (map char_of)
     [[9], [10], [11], [12], [13], [32], [194, 133], [194, 160], [225, 154, 128],
      [226, 128, 128], [226, 128, 129], [226, 128, 130], [226, 128, 131], [226, 128, 132],
      [226, 128, 133], [226, 128, 134], [226, 128, 135], [226, 128, 136], [226, 128, 137],
      [226, 128, 138], [226, 128, 168], [226, 128, 169], [226, 128, 175], [226, 129, 159],
      [227, 128, 128 :: nat]]"

lemma ws_chars_nonempty: "\<forall>w \<in> set ws_chars. w \<noteq> []"
  by (simp add: ws_chars_def)

function strip_any :: "string list \<Rightarrow> string \<Rightarrow> string" where
  "strip_any ws s =
     (case List.find (\<lambda>w. w \<noteq> [] \<and> starts_with s w) ws of
        None \<Rightarrow> s
      | Some w \<Rightarrow> strip_any ws (drop (length w) s))"
  by pat_completeness auto
termination
proof (relation "measure (\<lambda>(ws, s). length s)")
  fix ws s w
  assume "List.find (\<lambda>w. w \<noteq> [] \<and> starts_with s w) ws = Some w"
  then have "w \<noteq> []" "starts_with s w" by (auto simp: find_Some_iff)
  then have "length (drop (length w) s) < length s"
    by (cases w) (auto simp: starts_with_iff)
  then show "((ws, drop (length w) s), (ws, s)) \<in> measure (\<lambda>(ws, s). length s)" by simp
qed simp

declare strip_any.simps [simp del]

definition trim :: "string \<Rightarrow> string" where
  "trim s = rev (strip_any (map rev ws_chars) (rev (strip_any ws_chars s)))"

text \<open>\<open>to_string\<close> of an unsigned integer.\<close>

definition digit_char :: "nat \<Rightarrow> char" where
  "digit_char d = char_of (48 + d)"

fun nat_str :: "nat \<Rightarrow> string" where
  "nat_str n = (if n < 10 then [digit_char n] else nat_str (n div 10) @ [digit_char (n mod 10)])"

declare nat_str.simps [simp del]

section \<open>Binary search of slices\<close>

text \<open>
  \<open>slice::binary_search_by\<close>: \<open>Inr i\<close> is \<open>Ok(i)\<close>, \<open>Inl i\<close> is \<open>Err(i)\<close>.
\<close>

datatype ordering = Less | Equal | Greater

definition cmp_of :: "'a::linorder \<Rightarrow> 'a \<Rightarrow> ordering" where
  "cmp_of a b = (if a < b then Less else if a = b then Equal else Greater)"

lemma cmp_of_iff:
  "cmp_of a b = Less \<longleftrightarrow> a < b" "cmp_of a b = Equal \<longleftrightarrow> a = b" "cmp_of a b = Greater \<longleftrightarrow> b < a"
  by (auto simp: cmp_of_def)

function bsearch_loop :: "(nat \<Rightarrow> ordering) \<Rightarrow> nat \<Rightarrow> nat \<Rightarrow> nat + nat" where
  "bsearch_loop f left right =
     (if left < right then
        (let mid = left + (right - left) div 2 in
         case f mid of
           Less \<Rightarrow> bsearch_loop f (Suc mid) right
         | Greater \<Rightarrow> bsearch_loop f left mid
         | Equal \<Rightarrow> Inr mid)
      else Inl left)"
  by pat_completeness auto
termination
  by (relation "measure (\<lambda>(f, left, right). right - left)") auto

declare bsearch_loop.simps [simp del]

definition binary_search_by :: "('a \<Rightarrow> ordering) \<Rightarrow> 'a list \<Rightarrow> nat + nat" where
  "binary_search_by f xs = bsearch_loop (\<lambda>i. f (xs ! i)) 0 (length xs)"

text \<open>A comparator is consistent with the slice when it reads Less, then Equal, then Greater.\<close>

definition search_order :: "(nat \<Rightarrow> ordering) \<Rightarrow> nat \<Rightarrow> bool" where
  "search_order f n \<longleftrightarrow> (\<forall>i j. i < j \<longrightarrow> j < n \<longrightarrow>
     (f j = Less \<longrightarrow> f i = Less) \<and> (f i = Greater \<longrightarrow> f j = Greater))"

lemma bsearch_loop_spec:
  assumes "search_order f n" "left \<le> right" "right \<le> n"
    and "\<forall>i<left. f i = Less" "\<forall>i. right \<le> i \<and> i < n \<longrightarrow> f i = Greater"
  shows "case bsearch_loop f left right of
      Inr m \<Rightarrow> m < n \<and> f m = Equal
    | Inl p \<Rightarrow> p \<le> n \<and> (\<forall>i<p. f i = Less) \<and> (\<forall>i. p \<le> i \<and> i < n \<longrightarrow> f i = Greater)"
  using assms
proof (induction f left right rule: bsearch_loop.induct)
  case (1 f left right)
  note prems = 1(3-7)
  show ?case
  proof (cases "left < right")
    case False
    with prems show ?thesis by (subst bsearch_loop.simps) auto
  next
    case True
    define mid where "mid = left + (right - left) div 2"
    have mid: "left \<le> mid" "mid < right" "mid < n"
      using True prems(3) by (auto simp: mid_def)
    show ?thesis
    proof (cases "f mid")
      case Less
      have "\<forall>i<Suc mid. f i = Less"
        using Less prems(1) mid(3) by (auto simp: search_order_def less_Suc_eq)
      with 1(1)[OF True mid_def] Less prems mid
      show ?thesis by (subst bsearch_loop.simps) (simp add: True mid_def[symmetric] Let_def)
    next
      case Equal
      with mid True show ?thesis
        by (subst bsearch_loop.simps) (simp add: mid_def[symmetric] Let_def)
    next
      case Greater
      have "\<forall>i. mid \<le> i \<and> i < n \<longrightarrow> f i = Greater"
        using Greater prems(1) mid(3) by (auto simp: search_order_def le_less)
      with 1(2)[OF True mid_def] Greater prems mid
      show ?thesis by (subst bsearch_loop.simps) (simp add: True mid_def[symmetric] Let_def)
    qed
  qed
qed

lemma binary_search_by_spec:
  assumes "search_order (\<lambda>i. f (xs ! i)) (length xs)"
  shows "case binary_search_by f xs of
      Inr m \<Rightarrow> m < length xs \<and> f (xs ! m) = Equal
    | Inl p \<Rightarrow> p \<le> length xs \<and> (\<forall>i<p. f (xs ! i) = Less) \<and>
        (\<forall>i. p \<le> i \<and> i < length xs \<longrightarrow> f (xs ! i) = Greater)"
  unfolding binary_search_by_def by (rule bsearch_loop_spec [OF assms]) auto

lemma find_SomeD: "List.find P xs = Some x \<Longrightarrow> x \<in> set xs \<and> P x"
  by (auto simp: find_Some_iff)

section \<open>Hash maps\<close>

text \<open>
  A hash map that the source iterates over is an association list with distinct keys, in
  the iteration order. Where the values carry their key, \<open>keyed f\<close> says that every
  value is stored under it.
\<close>

definition keyed :: "('v \<Rightarrow> 'k) \<Rightarrow> ('k \<times> 'v) list \<Rightarrow> bool" where
  "keyed f al \<longleftrightarrow> distinct (map fst al) \<and> (\<forall>kv \<in> set al. f (snd kv) = fst kv)"

lemma keyed_Nil [simp]: "keyed f []"
  by (simp add: keyed_def)

lemma set_AList_update_subset: "set (AList.update k v al) \<subseteq> insert (k, v) (set al)"
  by (induction al) auto

lemma keyed_update: "keyed f al \<Longrightarrow> f v = k \<Longrightarrow> keyed f (AList.update k v al)"
  using set_AList_update_subset [of k v al] by (auto simp: keyed_def distinct_update)

lemma distinct_map_filter: "distinct (map f xs) \<Longrightarrow> distinct (map f (filter P xs))"
  by (induction xs) auto

lemma keyed_filter: "keyed f al \<Longrightarrow> keyed f (filter P al)"
  by (auto simp: keyed_def distinct_map_filter)

lemma keyed_delete: "keyed f al \<Longrightarrow> keyed f (AList.delete k al)"
  by (auto simp: keyed_def AList.delete_eq distinct_map_filter)

lemma keyed_map_of: "keyed f al \<Longrightarrow> map_of al k = Some v \<Longrightarrow> f v = k"
  by (auto simp: keyed_def dest!: map_of_SomeD)

lemma keyed_names: "keyed f al \<Longrightarrow> map f (map snd al) = map fst al"
  by (auto simp: keyed_def)

lemma keyed_inj: "keyed f al \<Longrightarrow> inj_on f (snd ` set al)"
  by (auto simp: keyed_def inj_on_def) (metis eq_key_imp_eq_value fst_conv snd_conv)

section \<open>Little-endian bytes\<close>

fun le_bytes :: "nat \<Rightarrow> nat \<Rightarrow> u8 list" where
  "le_bytes 0 n = []"
| "le_bytes (Suc k) n = of_nat (n mod 256) # le_bytes k (n div 256)"

fun le_nat :: "u8 list \<Rightarrow> nat" where
  "le_nat [] = 0"
| "le_nat (b # bs) = unat b + 256 * le_nat bs"

lemma le_bytes_numeral:
  "le_bytes (numeral k) n = of_nat (n mod 256) # le_bytes (pred_numeral k) (n div 256)"
  by (simp only: numeral_eq_Suc [of k] le_bytes.simps)

definition to_le_bytes :: "u64 \<Rightarrow> u8 list" where
  "to_le_bytes w = le_bytes 8 (unat w)"

definition from_le_bytes :: "u8 list \<Rightarrow> u64" where
  "from_le_bytes bs = of_nat (le_nat bs)"

lemma length_le_bytes [simp]: "length (le_bytes k n) = k"
  by (induction k arbitrary: n) auto

lemma le_nat_le_bytes: "le_nat (le_bytes k n) = n mod 256 ^ k"
proof (induction k arbitrary: n)
  case 0
  then show ?case by simp
next
  case (Suc k)
  have "unat (of_nat (n mod 256) :: u8) = n mod 256"
    by (simp add: unat_of_nat)
  with Suc show ?case by (simp add: mod_mult2_eq add.commute)
qed

lemma length_to_le_bytes [simp]: "length (to_le_bytes w) = 8"
  by (simp add: to_le_bytes_def)

lemma from_to_le_bytes [simp]: "from_le_bytes (to_le_bytes w) = w"
proof -
  have "unat w < 256 ^ 8" using unsigned_less[of w, where 'a = nat] by simp
  then show ?thesis by (simp add: from_le_bytes_def to_le_bytes_def le_nat_le_bytes)
qed

section \<open>Word intervals\<close>

lemma card_word_interval: "card {a ..< b :: u64} = unat b - unat a"
proof -
  have "unat ` {a ..< b} = {unat a ..< unat b}"
  proof (intro set_eqI iffI)
    fix n assume n: "n \<in> {unat a ..< unat b}"
    then have "n < 2 ^ 64" using unsigned_less[of b, where 'a = nat] by auto
    then have u: "unat (of_nat n :: u64) = n" by (simp add: unat_of_nat)
    with n have "(of_nat n :: u64) \<in> {a ..< b}"
      by (simp add: word_le_nat_alt word_less_nat_alt)
    with u show "n \<in> unat ` {a ..< b}" by (metis imageI)
  qed (auto simp: word_le_nat_alt word_less_nat_alt)
  moreover have "inj_on unat {a ..< b}"
    by (rule inj_onI) (simp only: word_unat_eq_iff)
  ultimately show ?thesis by (metis card_atLeastLessThan card_image)
qed

end
