(* ===== verification/Numbers.thy ===== *)
theory Numbers
  imports Rust_Prelude
begin

text \<open>
  Numerals as the standard library reads them: digits in a radix, the value of a row of
  digits, \<open>str::parse\<close> for an unsigned type, and that it reads back what \<open>to_string\<close> prints.
\<close>

definition digit_value :: "nat \<Rightarrow> char \<Rightarrow> nat option" where
  "digit_value radix c =
     (let n = of_char c;
          v = (if 48 \<le> n \<and> n \<le> 57 then n - 48
               else if 65 \<le> n \<and> n \<le> 90 then n - 55
               else if 97 \<le> n \<and> n \<le> 122 then n - 87
               else 36)
      in if v < radix then Some v else None)"

definition is_digit :: "nat \<Rightarrow> char \<Rightarrow> bool" where
  "is_digit radix c \<longleftrightarrow> digit_value radix c \<noteq> None"

definition span_digits :: "nat \<Rightarrow> string \<Rightarrow> string \<times> string" where
  "span_digits radix s =
     (takeWhile (is_digit radix) s, dropWhile (is_digit radix) s)"

definition digits_value :: "nat \<Rightarrow> string \<Rightarrow> nat" where
  "digits_value radix ds =
     foldl (\<lambda>n c. n * radix + (case digit_value radix c of Some v \<Rightarrow> v | None \<Rightarrow> 0)) 0 ds"

text \<open>
  \<open>str::parse\<close> for an unsigned type with the given number of values: an optional plus sign
  and decimal digits.
\<close>

definition parse_unsigned :: "nat \<Rightarrow> string \<Rightarrow> nat option" where
  "parse_unsigned bound s =
     (let ds = (case s of CHR ''+'' # r \<Rightarrow> if r = [] then s else r | _ \<Rightarrow> s) in
      if ds \<noteq> [] \<and> list_all (is_digit 10) ds \<and> digits_value 10 ds < bound
      then Some (digits_value 10 ds) else None)"

definition parse_u64 :: "string \<Rightarrow> u64 option" where
  "parse_u64 s = map_option of_nat (parse_unsigned (2 ^ 64) s)"

text \<open>
  \<open>str::parse\<close> for a signed type: an optional sign and decimal digits, between the bounds.
\<close>

definition parse_signed :: "int \<Rightarrow> int \<Rightarrow> string \<Rightarrow> int option" where
  "parse_signed lo hi s =
     (let (negative, ds) = (case s of CHR ''-'' # r \<Rightarrow> (True, r) | CHR ''+'' # r \<Rightarrow> (False, r) | _ \<Rightarrow> (False, s));
          v = (if negative then - int (digits_value 10 ds) else int (digits_value 10 ds))
      in if ds \<noteq> [] \<and> list_all (is_digit 10) ds \<and> lo \<le> v \<and> v \<le> hi then Some v else None)"

definition parse_i32 :: "string \<Rightarrow> int option" where
  "parse_i32 s = parse_signed (- (2 ^ 31)) (2 ^ 31 - 1) s"

definition parse_i64 :: "string \<Rightarrow> int option" where
  "parse_i64 s = parse_signed (- (2 ^ 63)) (2 ^ 63 - 1) s"

text \<open>\<open>to_string\<close> of a signed integer.\<close>

definition int_str :: "int \<Rightarrow> string" where
  "int_str n = (if n < 0 then CHR ''-'' # nat_str (nat (- n)) else nat_str (nat n))"

lemma digit_char_value: "d < 10 \<Longrightarrow> digit_value 10 (digit_char d) = Some d"
  by (simp add: digit_value_def digit_char_def)

lemma nat_str_digits:
  "nat_str n \<noteq> [] \<and> list_all (is_digit 10) (nat_str n) \<and>
     digits_value 10 (nat_str n) = n"
proof (induction n rule: nat_str.induct)
  case (1 n)
  show ?case
  proof (cases "n < 10")
    case True
    then show ?thesis
      by (subst (1 2 3) nat_str.simps) (simp add: digits_value_def digit_char_value is_digit_def)
  next
    case False
    moreover have "is_digit 10 (digit_char (n mod 10))" by (simp add: is_digit_def digit_char_value)
    ultimately show ?thesis
      using 1 by (subst (1 2 3) nat_str.simps) (simp add: digits_value_def digit_char_value)
  qed
qed

lemma nat_str_no: "\<not> is_digit 10 c \<Longrightarrow> c \<notin> set (nat_str n)"
  using nat_str_digits [of n] by (auto simp: list_all_iff)

lemma parse_unsigned_nat_str [simp]: "n < bound \<Longrightarrow> parse_unsigned bound (nat_str n) = Some n"
proof -
  assume n: "n < bound"
  have "CHR ''+'' \<notin> set (nat_str n)"
    by (rule nat_str_no) (simp add: is_digit_def digit_value_def)
  then have "(case nat_str n of CHR ''+'' # r \<Rightarrow> if r = [] then nat_str n else r | _ \<Rightarrow> nat_str n) = nat_str n"
    by (cases "nat_str n") (auto split: char.split bool.split)
  with n nat_str_digits [of n] show ?thesis by (simp only: parse_unsigned_def Let_def) simp
qed

lemma parse_u64_nat_str [simp]: "parse_u64 (nat_str (unat w)) = Some w"
proof -
  have "unat w < 2 ^ 64" using unsigned_less [of w] by simp
  then show ?thesis by (simp only: parse_u64_def parse_unsigned_nat_str) simp
qed

section \<open>Trimming numbers\<close>

lemma strip_any_stop: "\<forall>w \<in> set ws. hd w \<noteq> c \<Longrightarrow> strip_any ws (c # r) = c # r"
proof -
  assume a: "\<forall>w \<in> set ws. hd w \<noteq> c"
  have "List.find (\<lambda>w. w \<noteq> [] \<and> starts_with (c # r) w) ws = None"
    unfolding find_None_iff
  proof clarify
    fix w assume "w \<in> set ws" "w \<noteq> []" "starts_with (c # r) w"
    with a show False by (cases w) (auto simp: starts_with_iff)
  qed
  then show ?thesis by (subst strip_any.simps) simp
qed

lemma ws_heads: "\<forall>w \<in> set ws_chars. \<not> is_digit 10 (hd w)"
  by (simp add: ws_chars_def is_digit_def digit_value_def)

lemma ws_rev_heads: "\<forall>w \<in> set (map rev ws_chars). \<not> is_digit 10 (hd w)"
  by (simp add: ws_chars_def is_digit_def digit_value_def)

lemma ws_rev_percent: "\<forall>w \<in> set (map rev ws_chars). hd w \<noteq> CHR ''%''"
  by (simp add: ws_chars_def char_of_def)

lemma find_after: "\<forall>x \<in> set xs. \<not> P x \<Longrightarrow> P y \<Longrightarrow> List.find P (xs @ y # ys) = Some y"
  by (induction xs) auto

lemma space_position:
  "ws_chars = take 5 ws_chars @ '' '' # drop 6 ws_chars"
  "\<forall>w \<in> set (take 5 ws_chars). w \<noteq> [] \<and> hd w \<noteq> CHR '' ''"
  by (simp_all add: ws_chars_def char_of_def bit_0)

lemma trim_number:
  assumes "is_digit 10 c"
  shows "trim (CHR '' '' # c # ds @ ''%'') = c # ds @ ''%''" "trim (CHR '' '' # c # ds) = trim (c # ds)"
proof -
  have "\<not> starts_with (CHR '' '' # r) w" if "w \<in> set (take 5 ws_chars)" for w r
    using space_position(2) that by (cases w) (auto simp: starts_with_iff)
  then have "List.find (\<lambda>w. w \<noteq> [] \<and> starts_with (CHR '' '' # r) w) ws_chars = Some '' ''" for r
    by (subst space_position(1), subst find_after) (auto simp: starts_with_iff)
  then have space: "strip_any ws_chars (CHR '' '' # r) = strip_any ws_chars r" for r
    by (subst strip_any.simps) simp
  have start: "strip_any ws_chars (c # r) = c # r" for r
    using ws_heads assms by (intro strip_any_stop) auto
  have "strip_any (map rev ws_chars) (CHR ''%'' # r) = CHR ''%'' # r" for r
    by (rule strip_any_stop [OF ws_rev_percent])
  then show "trim (CHR '' '' # c # ds @ ''%'') = c # ds @ ''%''"
    by (simp add: trim_def space start)
  show "trim (CHR '' '' # c # ds) = trim (c # ds)" by (simp add: trim_def space start)
qed

lemma trim_digits: "ds \<noteq> [] \<Longrightarrow> list_all (is_digit 10) ds \<Longrightarrow> trim ds = ds"
proof -
  assume a: "ds \<noteq> []" "list_all (is_digit 10) ds"
  obtain c r where c: "ds = c # r" using a(1) by (cases ds) auto
  obtain e q where e: "rev ds = e # q" using a(1) by (cases "rev ds") auto
  have "e \<in> set ds" using e by (metis list.set_intros(1) set_rev)
  then have "is_digit 10 c" "is_digit 10 e" using a(2) c by (auto simp: list_all_iff)
  then have "strip_any ws_chars (c # r) = c # r" "strip_any (map rev ws_chars) (e # q) = e # q"
    using ws_heads ws_rev_heads by (auto intro!: strip_any_stop)
  then show ?thesis by (simp add: trim_def flip: c e)
qed

end
