(* ===== verification/Block_Map.thy ===== *)
theory Block_Map
  imports Rust_Prelude
begin

text \<open>
  The block map of \<open>mosaicfs-vfs/src/block_map.rs\<close>: the byte ranges of a file that
  the cache holds, as a sorted vector of half-open intervals. The model keeps the
  vector and the source's loops; the abstraction \<open>bytes\<close> reads it as the set of the
  bytes present, and every operation is shown to implement the set operation it
  stands for.
\<close>

section \<open>Data and operations\<close>

text \<open>\<open>std::ops::Range<u64>\<close>\<close>

datatype byte_range = Range64 (r_start: u64) (r_end: u64)

record block_map =
  intervals :: "byte_range list"

definition new_map :: block_map where
  "new_map = \<lparr>intervals = []\<rparr>"

function from_bytes_at :: "u8 list \<Rightarrow> nat \<Rightarrow> byte_range list" where
  "from_bytes_at data offset =
     (if offset + 16 \<le> length data then
        (let s = from_le_bytes (take 8 (drop offset data));
             e = from_le_bytes (take 8 (drop (offset + 8) data))
         in (if s < e then [Range64 s e] else []) @ from_bytes_at data (offset + 16))
      else [])"
  by pat_completeness auto
termination
  by (relation "measure (\<lambda>(data, offset). length data - offset)") auto

declare from_bytes_at.simps [simp del]

definition from_bytes :: "u8 list \<Rightarrow> block_map" where
  "from_bytes data = \<lparr>intervals = from_bytes_at data 0\<rparr>"

definition to_bytes :: "block_map \<Rightarrow> u8 list" where
  "to_bytes bm =
     concat (map (\<lambda>r. to_le_bytes (r_start r) @ to_le_bytes (r_end r)) (intervals bm))"

definition offset_order :: "u64 \<Rightarrow> byte_range \<Rightarrow> ordering" where
  "offset_order offset r =
     (if offset < r_start r then Greater else if r_end r \<le> offset then Less else Equal)"

definition contains :: "block_map \<Rightarrow> u64 \<Rightarrow> bool" where
  "contains bm offset =
     (case binary_search_by (offset_order offset) (intervals bm) of
        Inr _ \<Rightarrow> True | Inl _ \<Rightarrow> False)"

definition range_present :: "block_map \<Rightarrow> byte_range \<Rightarrow> bool" where
  "range_present bm q =
     (if r_end q \<le> r_start q then True
      else list_ex (\<lambda>r. r_start r \<le> r_start q \<and> r_end q \<le> r_end r) (intervals bm))"

text \<open>The loop of \<open>missing_ranges\<close> from the position of its cursor, with the final push.\<close>

fun missing_from :: "u64 \<Rightarrow> u64 \<Rightarrow> byte_range list \<Rightarrow> byte_range list" where
  "missing_from qe cursor [] = (if cursor < qe then [Range64 cursor qe] else [])"
| "missing_from qe cursor (r # rs) =
     (if qe \<le> r_start r then (if cursor < qe then [Range64 cursor qe] else [])
      else if r_end r \<le> cursor then missing_from qe cursor rs
      else (if cursor < r_start r then [Range64 cursor (min (r_start r) qe)] else []) @
        missing_from qe (max cursor (r_end r)) rs)"

definition missing_ranges :: "block_map \<Rightarrow> byte_range \<Rightarrow> byte_range list" where
  "missing_ranges bm q =
     (if r_end q \<le> r_start q then []
      else missing_from (r_end q) (r_start q) (intervals bm))"

text \<open>
  The scan of \<open>insert\<close> over the enumerated intervals: the merged bounds so far and the
  positions \<open>first\<close> and \<open>stop\<close> (the source's \<open>last\<close>) of the run to replace.
\<close>

fun merge_scan ::
  "nat \<Rightarrow> u64 \<Rightarrow> u64 \<Rightarrow> nat \<Rightarrow> nat \<Rightarrow> byte_range list \<Rightarrow> u64 \<times> u64 \<times> nat \<times> nat" where
  "merge_scan i ms me first stop [] = (ms, me, first, stop)"
| "merge_scan i ms me first stop (r # rs) =
     (if r_end r < ms \<or> me < r_start r then merge_scan (Suc i) ms me first stop rs
      else merge_scan (Suc i) (min ms (r_start r)) (max me (r_end r))
        (if i < first then i else first) (Suc i) rs)"

definition insert_at :: "nat \<Rightarrow> 'a \<Rightarrow> 'a list \<Rightarrow> 'a list" where
  "insert_at i x xs = take i xs @ x # drop i xs"

definition insert_range :: "block_map \<Rightarrow> byte_range \<Rightarrow> block_map" where
  "insert_range bm new =
     (if r_end new \<le> r_start new then bm
      else
        (let (ms, me, first, stop) =
           merge_scan 0 (r_start new) (r_end new) (length (intervals bm)) 0 (intervals bm)
         in if stop \<le> first then
              (let pos = (case binary_search_by (\<lambda>r. cmp_of (r_start r) (r_start new))
                                (intervals bm) of Inr p \<Rightarrow> p | Inl p \<Rightarrow> p)
               in \<lparr>intervals = insert_at pos new (intervals bm)\<rparr>)
            else
              \<lparr>intervals = insert_at first (Range64 ms me)
                 (take first (intervals bm) @ drop stop (intervals bm))\<rparr>))"

definition interval_count :: "block_map \<Rightarrow> nat" where
  "interval_count bm = length (intervals bm)"

text \<open>The sum wraps as \<open>u64\<close> does in a release build.\<close>

definition cached_bytes :: "block_map \<Rightarrow> u64" where
  "cached_bytes bm = sum_list (map (\<lambda>r. r_end r - r_start r) (intervals bm))"

fun coalesce :: "u64 \<Rightarrow> byte_range \<Rightarrow> byte_range list \<Rightarrow> byte_range list" where
  "coalesce gap current [] = [current]"
| "coalesce gap current (m # ms) =
     (if r_start m - r_end current \<le> gap
      then coalesce gap (Range64 (r_start current) (r_end m)) ms
      else current # coalesce gap m ms)"

definition coalesced_missing :: "block_map \<Rightarrow> byte_range \<Rightarrow> u64 \<Rightarrow> byte_range list" where
  "coalesced_missing bm q gap =
     (let missing = missing_ranges bm q in
      case missing of
        [] \<Rightarrow> missing
      | [m] \<Rightarrow> missing
      | m # m' # ms \<Rightarrow> coalesce gap m (m' # ms))"

section \<open>Abstraction and invariant\<close>

definition range_set :: "byte_range \<Rightarrow> u64 set" where
  "range_set r = {r_start r ..< r_end r}"

definition ranges_set :: "byte_range list \<Rightarrow> u64 set" where
  "ranges_set rs = (\<Union>r \<in> set rs. range_set r)"

definition bytes :: "block_map \<Rightarrow> u64 set" where
  "bytes bm = ranges_set (intervals bm)"

text \<open>The comment on the field: sorted, non-overlapping, non-adjacent, and no empty interval.\<close>

definition separated :: "byte_range list \<Rightarrow> bool" where
  "separated rs \<longleftrightarrow>
     sorted_wrt (\<lambda>a b. r_end a < r_start b) rs \<and> (\<forall>r \<in> set rs. r_start r < r_end r)"

definition wf_map :: "block_map \<Rightarrow> bool" where
  "wf_map bm \<longleftrightarrow> separated (intervals bm)"

lemma ranges_set_simps [simp]:
  "ranges_set [] = {}"
  "ranges_set (r # rs) = range_set r \<union> ranges_set rs"
  "ranges_set (rs @ rs') = ranges_set rs \<union> ranges_set rs'"
  by (auto simp: ranges_set_def)

lemma mem_range_set [simp]: "b \<in> range_set r \<longleftrightarrow> r_start r \<le> b \<and> b < r_end r"
  by (simp add: range_set_def)

lemma mem_ranges_set: "b \<in> ranges_set rs \<longleftrightarrow> (\<exists>r \<in> set rs. r_start r \<le> b \<and> b < r_end r)"
  by (auto simp: ranges_set_def)

lemma separated_simps [simp]:
  "separated []"
  "separated (r # rs) \<longleftrightarrow>
     r_start r < r_end r \<and> (\<forall>x \<in> set rs. r_end r < r_start x) \<and> separated rs"
  by (auto simp: separated_def)

lemma separated_append:
  "separated (xs @ ys) \<longleftrightarrow>
     separated xs \<and> separated ys \<and> (\<forall>x \<in> set xs. \<forall>y \<in> set ys. r_end x < r_start y)"
  by (auto simp: separated_def sorted_wrt_append)

lemma separated_nth:
  assumes "separated rs" "i < j" "j < length rs"
  shows "r_end (rs ! i) < r_start (rs ! j)" "r_start (rs ! i) < r_end (rs ! i)"
    "r_start (rs ! j) < r_end (rs ! j)"
  using assms by (auto simp: separated_def sorted_wrt_iff_nth_less)

section \<open>Lookup\<close>

lemma offset_order_consistent:
  assumes "separated rs"
  shows "search_order (\<lambda>i. offset_order b (rs ! i)) (length rs)"
  unfolding search_order_def
proof (intro allI impI)
  fix i j assume ij: "i < j" "j < length rs"
  note s = separated_nth [OF assms ij]
  show "(offset_order b (rs ! j) = Less \<longrightarrow> offset_order b (rs ! i) = Less) \<and>
    (offset_order b (rs ! i) = Greater \<longrightarrow> offset_order b (rs ! j) = Greater)"
    using s by (auto simp: offset_order_def split: if_splits)
qed

lemma contains_iff: "wf_map bm \<Longrightarrow> contains bm b \<longleftrightarrow> b \<in> bytes bm"
proof -
  assume "wf_map bm"
  then have "separated (intervals bm)" by (simp add: wf_map_def)
  from binary_search_by_spec [OF offset_order_consistent [OF this]]
  have spec: "case binary_search_by (offset_order b) (intervals bm) of
      Inr m \<Rightarrow> m < length (intervals bm) \<and> offset_order b (intervals bm ! m) = Equal
    | Inl p \<Rightarrow> p \<le> length (intervals bm) \<and>
        (\<forall>i<p. offset_order b (intervals bm ! i) = Less) \<and>
        (\<forall>i. p \<le> i \<and> i < length (intervals bm) \<longrightarrow>
          offset_order b (intervals bm ! i) = Greater)" .
  have hit: "offset_order b r = Equal \<longleftrightarrow> r_start r \<le> b \<and> b < r_end r" for r
    by (auto simp: offset_order_def)
  show ?thesis
  proof (cases "binary_search_by (offset_order b) (intervals bm)")
    case (Inr m)
    with spec have "intervals bm ! m \<in> set (intervals bm)"
      "offset_order b (intervals bm ! m) = Equal" by auto
    with Inr hit show ?thesis by (auto simp: contains_def bytes_def mem_ranges_set)
  next
    case (Inl p)
    have "\<forall>i < length (intervals bm). offset_order b (intervals bm ! i) \<noteq> Equal"
    proof (intro allI impI)
      fix i assume "i < length (intervals bm)"
      with spec Inl show "offset_order b (intervals bm ! i) \<noteq> Equal"
        by (cases "i < p") auto
    qed
    then have "\<forall>r \<in> set (intervals bm). offset_order b r \<noteq> Equal"
      by (metis in_set_conv_nth)
    with Inl hit show ?thesis by (auto simp: contains_def bytes_def mem_ranges_set)
  qed
qed

text \<open>
  No gap of a separated list can be jumped: an interval of bytes that are all present
  lies in one of the intervals.
\<close>

lemma separated_cover_one:
  assumes "separated rs" "a < b" "{a ..< b} \<subseteq> ranges_set rs"
  shows "\<exists>r \<in> set rs. r_start r \<le> a \<and> b \<le> r_end r"
proof -
  from assms have "a \<in> ranges_set rs" by auto
  then obtain r where r: "r \<in> set rs" "r_start r \<le> a" "a < r_end r"
    by (auto simp: mem_ranges_set)
  show ?thesis
  proof (cases "b \<le> r_end r")
    case True
    with r show ?thesis by blast
  next
    case False
    with r have "r_end r \<in> {a ..< b}" by (simp add: not_le less_imp_le)
    with assms(3) have "r_end r \<in> ranges_set rs" by blast
    then obtain r' where r': "r' \<in> set rs" "r_start r' \<le> r_end r" "r_end r < r_end r'"
      by (auto simp: mem_ranges_set)
    from r(1) obtain i where i: "i < length rs" "r = rs ! i" by (metis in_set_conv_nth)
    from r'(1) obtain j where j: "j < length rs" "r' = rs ! j" by (metis in_set_conv_nth)
    show ?thesis
    proof (cases i j rule: linorder_cases)
      case less
      with separated_nth(1) [OF assms(1) less j(1)] i j r' show ?thesis by auto
    next
      case equal
      with i j r' show ?thesis by auto
    next
      case greater
      with separated_nth [OF assms(1) greater i(1)] i j r' show ?thesis
        by (meson less_trans not_less_iff_gr_or_eq)
    qed
  qed
qed

lemma range_present_iff:
  assumes "wf_map bm"
  shows "range_present bm q \<longleftrightarrow> range_set q \<subseteq> bytes bm"
proof (cases "r_start q < r_end q")
  case False
  then show ?thesis by (auto simp: range_present_def range_set_def)
next
  case True
  have "(\<exists>r \<in> set (intervals bm). r_start r \<le> r_start q \<and> r_end q \<le> r_end r) \<longleftrightarrow>
      range_set q \<subseteq> bytes bm" (is "?l \<longleftrightarrow> ?r")
  proof
    assume ?l
    then obtain r where "r \<in> set (intervals bm)" "r_start r \<le> r_start q" "r_end q \<le> r_end r"
      by blast
    then have "b \<in> bytes bm" if "b \<in> range_set q" for b
      using that by (auto simp: bytes_def mem_ranges_set intro: order_trans less_le_trans)
    then show ?r by blast
  next
    assume ?r
    with separated_cover_one [of "intervals bm", OF _ True] assms show ?l
      by (auto simp: wf_map_def bytes_def range_set_def)
  qed
  with True show ?thesis by (auto simp: range_present_def list_ex_iff)
qed

section \<open>Missing ranges\<close>

lemma missing_from_bounds:
  "m \<in> set (missing_from qe c rs) \<Longrightarrow> c \<le> r_start m \<and> r_start m < r_end m \<and> r_end m \<le> qe"
  by (induction qe c rs rule: missing_from.induct) (auto split: if_splits)

lemma missing_from_set:
  "separated rs \<Longrightarrow> ranges_set (missing_from qe c rs) = {c ..< qe} - ranges_set rs"
proof (induction qe c rs rule: missing_from.induct)
  case (1 qe c)
  then show ?case by auto
next
  case (2 qe c r rs)
  have after: "\<And>b. b \<in> ranges_set rs \<Longrightarrow> r_end r < b"
    using 2(3) by (auto simp: mem_ranges_set)
  show ?case
  proof (cases "qe \<le> r_start r")
    case True
    then have "{c ..< qe} \<inter> ranges_set (r # rs) = {}"
      using 2(3) after by (force simp: range_set_def)
    with True show ?thesis by auto
  next
    case F: False
    show ?thesis
    proof (cases "r_end r \<le> c")
      case True
      with F 2(1)[OF F True] 2(3) show ?thesis by auto
    next
      case False
      then have m: "max c (r_end r) = r_end r" by simp
      have IH: "ranges_set (missing_from qe (r_end r) rs) = {r_end r ..< qe} - ranges_set rs"
        using 2(2)[OF F False] 2(3) m by simp
      have before: "b \<notin> ranges_set rs" if "b < r_start r" for b
        using after [of b] 2(3) that by (auto dest: less_trans)
      have "{c ..< qe} - (range_set r \<union> ranges_set rs) =
          {c ..< r_start r} \<union> ({r_end r ..< qe} - ranges_set rs)"
        using F False 2(3) before by (auto simp: range_set_def not_le)
      with F False m IH show ?thesis by (auto simp: range_set_def)
    qed
  qed
qed

lemma missing_from_separated:
  "separated rs \<Longrightarrow> separated (missing_from qe c rs)"
proof (induction qe c rs rule: missing_from.induct)
  case (1 qe c)
  then show ?case by auto
next
  case (2 qe c r rs)
  show ?case
  proof (cases "qe \<le> r_start r \<or> r_end r \<le> c")
    case True
    with 2 show ?thesis by auto
  next
    case False
    then have m: "max c (r_end r) = r_end r" and F: "\<not> qe \<le> r_start r" "\<not> r_end r \<le> c"
      by auto
    have s: "separated (missing_from qe (r_end r) rs)"
      using 2(2)[OF F] 2(3) m by simp
    have "\<And>x. x \<in> set (missing_from qe (r_end r) rs) \<Longrightarrow> r_end r \<le> r_start x"
      by (simp add: missing_from_bounds)
    moreover have "r_start r < r_end r" using 2(3) by simp
    ultimately show ?thesis
      using s F m by (auto simp: min_def intro: less_le_trans)
  qed
qed

lemma missing_ranges_set:
  "wf_map bm \<Longrightarrow> ranges_set (missing_ranges bm q) = range_set q - bytes bm"
  by (auto simp: missing_ranges_def missing_from_set wf_map_def bytes_def range_set_def)

lemma missing_ranges_separated:
  "wf_map bm \<Longrightarrow> separated (missing_ranges bm q)"
  by (simp add: missing_ranges_def missing_from_separated wf_map_def)

lemma missing_ranges_bounds:
  "m \<in> set (missing_ranges bm q) \<Longrightarrow>
     r_start q \<le> r_start m \<and> r_start m < r_end m \<and> r_end m \<le> r_end q"
  by (auto simp: missing_ranges_def dest: missing_from_bounds split: if_splits)

section \<open>Insertion\<close>

text \<open>
  On a separated list the scan cuts it in three: the intervals that end before the new
  range, the run that touches it, and the intervals that start after it.
\<close>

definition left_part :: "u64 \<Rightarrow> byte_range list \<Rightarrow> byte_range list" where
  "left_part ns rs = takeWhile (\<lambda>r. r_end r < ns) rs"

definition touching :: "u64 \<Rightarrow> u64 \<Rightarrow> byte_range list \<Rightarrow> byte_range list" where
  "touching ns ne rs = takeWhile (\<lambda>r. r_start r \<le> ne) (dropWhile (\<lambda>r. r_end r < ns) rs)"

definition right_part :: "u64 \<Rightarrow> u64 \<Rightarrow> byte_range list \<Rightarrow> byte_range list" where
  "right_part ns ne rs = dropWhile (\<lambda>r. r_start r \<le> ne) (dropWhile (\<lambda>r. r_end r < ns) rs)"

lemma three_parts: "rs = left_part ns rs @ touching ns ne rs @ right_part ns ne rs"
  by (simp add: left_part_def touching_def right_part_def)

lemma left_part_end: "r \<in> set (left_part ns rs) \<Longrightarrow> r_end r < ns"
  unfolding left_part_def by (metis set_takeWhileD)

lemma separated_dropWhile_end:
  "separated rs \<Longrightarrow> r \<in> set (dropWhile (\<lambda>r. r_end r < ns) rs) \<Longrightarrow> ns \<le> r_end r"
proof (induction rs)
  case Nil
  then show ?case by simp
next
  case (Cons x xs)
  show ?case
  proof (cases "r_end x < ns")
    case True
    with Cons show ?thesis by simp
  next
    case False
    have "ns \<le> r_end y" if "y \<in> set xs" for y
    proof -
      have "r_start y < r_end y" "r_end x < r_start y"
        using Cons.prems(1) that by (auto simp: separated_def)
      with False show ?thesis by order
    qed
    with False Cons.prems(2) show ?thesis by auto
  qed
qed

lemma separated_dropWhile_start:
  "separated rs \<Longrightarrow> r \<in> set (dropWhile (\<lambda>r. r_start r \<le> ne) rs) \<Longrightarrow> ne < r_start r"
proof (induction rs)
  case Nil
  then show ?case by simp
next
  case (Cons x xs)
  show ?case
  proof (cases "r_start x \<le> ne")
    case True
    with Cons show ?thesis by simp
  next
    case False
    have "ne < r_start y" if "y \<in> set xs" for y
    proof -
      have "r_start x < r_end x" "r_end x < r_start y"
        using Cons.prems(1) that by auto
      with False show ?thesis by order
    qed
    with False Cons.prems(2) show ?thesis by auto
  qed
qed

lemma separated_dropWhile: "separated rs \<Longrightarrow> separated (dropWhile P rs)"
  by (metis separated_append takeWhile_dropWhile_id)

lemma touching_bounds:
  assumes "separated rs" "r \<in> set (touching ns ne rs)"
  shows "ns \<le> r_end r" "r_start r \<le> ne"
  using assms separated_dropWhile_end [OF assms(1)]
  unfolding touching_def by (meson set_takeWhileD)+

lemma right_part_start:
  "separated rs \<Longrightarrow> r \<in> set (right_part ns ne rs) \<Longrightarrow> ne < r_start r"
  unfolding right_part_def by (rule separated_dropWhile_start [OF separated_dropWhile])

lemma merge_scan_skip:
  "\<forall>r \<in> set xs. r_end r < ms \<Longrightarrow>
     merge_scan i ms me f l (xs @ ys) = merge_scan (i + length xs) ms me f l ys"
  by (induction xs arbitrary: i) auto

lemma merge_scan_beyond:
  "\<forall>r \<in> set xs. me < r_start r \<Longrightarrow> merge_scan i ms me f l xs = (ms, me, f, l)"
  by (induction xs arbitrary: i) auto

lemma merge_scan_run:
  assumes "separated (xs @ ys)" "xs \<noteq> []"
    and "\<forall>r \<in> set xs. ms \<le> r_end r \<and> r_start r \<le> me" "\<forall>r \<in> set ys. me < r_start r"
  shows "merge_scan i ms me f l (xs @ ys) =
    (min ms (r_start (hd xs)), max me (r_end (last xs)), min f i, i + length xs)"
  using assms
proof (induction xs arbitrary: i ms f l)
  case Nil
  then show ?case by simp
next
  case (Cons m xs)
  have m: "ms \<le> r_end m" "r_start m \<le> me" "r_start m < r_end m" using Cons.prems by auto
  have f: "(if i < f then i else f) = min f i" by simp
  show ?case
  proof (cases xs)
    case Nil
    with Cons.prems have "\<forall>r \<in> set ys. max me (r_end m) < r_start r" by auto
    from merge_scan_beyond [OF this] m Nil show ?thesis by (auto simp: not_less not_le)
  next
    case (Cons x xs')
    have x: "r_end m < r_start x" "r_start x \<le> me" using Cons Cons.prems by auto
    have "r_end m \<le> me" using x by order
    then have me: "max me (r_end m) = me" by simp
    have "r_start m \<le> r_start x" using m x by order
    then have ms: "min (min ms (r_start m)) (r_start x) = min ms (r_start m)"
      by (simp add: min.assoc min_absorb1)
    have "\<forall>r \<in> set xs. min ms (r_start m) \<le> r_end r \<and> r_start r \<le> me"
      using Cons.prems by (auto simp: min_le_iff_disj)
    with Cons.IH [of "min ms (r_start m)" "Suc i" "min f i" "Suc i"] Cons.prems Cons
    have "merge_scan (Suc i) (min ms (r_start m)) me (min f i) (Suc i) (xs @ ys) =
        (min (min ms (r_start m)) (r_start x), max me (r_end (last xs)),
         min (min f i) (Suc i), Suc i + length xs)"
      by simp
    with m me ms f Cons show ?thesis by (auto simp: not_less not_le)
  qed
qed

lemma insertion_point:
  assumes "separated (ls @ rs)" "\<forall>r \<in> set ls. r_start r < s" "\<forall>r \<in> set rs. s < r_start r"
  shows "binary_search_by (\<lambda>r. cmp_of (r_start r) s) (ls @ rs) = Inl (length ls)"
proof -
  let ?xs = "ls @ rs" and ?f = "\<lambda>r. cmp_of (r_start r) s"
  have side: "if i < length ls then r_start (?xs ! i) < s else s < r_start (?xs ! i)"
    if "i < length ?xs" for i
    using that assms(2,3) by (auto simp: nth_append)
  have less: "?f (?xs ! i) = Less \<longleftrightarrow> i < length ls" if "i < length ?xs" for i
    using side [OF that] by (auto simp: cmp_of_def split: if_splits)
  have greater: "?f (?xs ! i) = Greater \<longleftrightarrow> length ls \<le> i" if "i < length ?xs" for i
    using side [OF that] by (auto simp: cmp_of_def split: if_splits)
  have "search_order (\<lambda>i. ?f (?xs ! i)) (length ?xs)"
    unfolding search_order_def using less greater by (auto simp del: length_append)
  from binary_search_by_spec [OF this] show ?thesis
  proof (cases "binary_search_by ?f ?xs")
    case (Inr m)
    with binary_search_by_spec [OF \<open>search_order _ _\<close>] less [of m] greater [of m]
    show ?thesis by (auto simp: not_le)
  next
    case (Inl p)
    with binary_search_by_spec [OF \<open>search_order _ _\<close>]
    have p: "p \<le> length ?xs" "\<forall>i<p. ?f (?xs ! i) = Less"
      "\<forall>i. p \<le> i \<and> i < length ?xs \<longrightarrow> ?f (?xs ! i) = Greater" by auto
    have "\<not> length ls < p"
    proof
      assume h: "length ls < p"
      with p(1) have "length ls < length ?xs" by linarith
      from less [OF this] p(2) h show False by simp
    qed
    moreover have "\<not> p < length ls" using p(3) greater [of p] by auto
    ultimately show ?thesis using Inl by simp
  qed
qed

lemma intervals_insert:
  assumes "wf_map bm" "r_start new < r_end new"
  defines "ls \<equiv> left_part (r_start new) (intervals bm)"
    and "ts \<equiv> touching (r_start new) (r_end new) (intervals bm)"
    and "rs \<equiv> right_part (r_start new) (r_end new) (intervals bm)"
  shows "intervals (insert_range bm new) =
    ls @ (if ts = [] then new
          else Range64 (min (r_start new) (r_start (hd ts))) (max (r_end new) (r_end (last ts)))) # rs"
proof -
  let ?iv = "intervals bm" and ?n = "length (intervals bm)"
  have sep: "separated ?iv" using assms(1) by (simp add: wf_map_def)
  have parts: "?iv = ls @ ts @ rs"
    unfolding ls_def ts_def rs_def by (rule three_parts)
  have ls: "\<forall>r \<in> set ls. r_end r < r_start new"
    unfolding ls_def by (blast dest: left_part_end)
  have ts: "\<forall>r \<in> set ts. r_start new \<le> r_end r \<and> r_start r \<le> r_end new"
    unfolding ts_def using touching_bounds [OF sep] by blast
  have rs: "\<forall>r \<in> set rs. r_end new < r_start r"
    unfolding rs_def using right_part_start [OF sep] by blast
  have scan: "merge_scan 0 (r_start new) (r_end new) ?n 0 ?iv =
      merge_scan (length ls) (r_start new) (r_end new) ?n 0 (ts @ rs)"
    unfolding parts by (simp add: merge_scan_skip [OF ls])
  show ?thesis
  proof (cases "ts = []")
    case True
    have sep': "separated (ls @ rs)" using sep parts True by simp
    have "\<forall>r \<in> set ls. r_start r < r_start new"
    proof
      fix r assume "r \<in> set ls"
      with ls sep' have "r_start r < r_end r" "r_end r < r_start new"
        by (auto simp: separated_append separated_def)
      then show "r_start r < r_start new" by order
    qed
    moreover have "\<forall>r \<in> set rs. r_start new < r_start r"
      using rs assms(2) by (auto intro: less_trans)
    ultimately have "binary_search_by (\<lambda>r. cmp_of (r_start r) (r_start new)) (ls @ rs) =
        Inl (length ls)"
      by (rule insertion_point [OF sep'])
    with True scan parts merge_scan_beyond [OF rs] assms(2) show ?thesis
      by (simp add: insert_range_def insert_at_def not_le)
  next
    case False
    have "separated (ts @ rs)" using sep parts by (simp add: separated_append)
    from merge_scan_run [OF this False ts rs, of "length ls" ?n 0] scan parts
    have "merge_scan 0 (r_start new) (r_end new) ?n 0 ?iv =
        (min (r_start new) (r_start (hd ts)), max (r_end new) (r_end (last ts)),
         length ls, length ls + length ts)" by simp
    with False assms(2) show ?thesis
      by (auto simp: insert_range_def insert_at_def parts not_le)
  qed
qed

lemma separated_hd_last:
  assumes "separated ts" "r \<in> set ts"
  shows "r_start (hd ts) \<le> r_start r" "r_end r \<le> r_end (last ts)"
proof -
  from assms(2) obtain i where i: "i < length ts" "r = ts ! i" by (metis in_set_conv_nth)
  show "r_start (hd ts) \<le> r_start r"
  proof (cases "i = 0")
    case True
    with i show ?thesis by (simp add: hd_conv_nth)
  next
    case False
    with i separated_nth [OF assms(1), of 0 i] show ?thesis
      by (cases ts) (auto simp: hd_conv_nth)
  qed
  show "r_end r \<le> r_end (last ts)"
  proof (cases "i = length ts - 1")
    case True
    moreover have "ts \<noteq> []" using assms(2) by auto
    ultimately show ?thesis using i by (simp add: last_conv_nth)
  next
    case False
    with i have j: "i < length ts - 1" "length ts - 1 < length ts" by linarith+
    have "r_end r < r_end (ts ! (length ts - 1))"
      using separated_nth [OF assms(1) j] i by (auto intro: less_trans)
    moreover have "ts \<noteq> []" using assms(2) by auto
    ultimately show ?thesis by (simp add: last_conv_nth)
  qed
qed

text \<open>Merging the run with the new range loses and adds no byte.\<close>

lemma merged_range_set:
  assumes "separated ts" "ts \<noteq> []" "r_start new < r_end new"
    and "\<forall>r \<in> set ts. r_start new \<le> r_end r \<and> r_start r \<le> r_end new"
  shows "range_set (Range64 (min (r_start new) (r_start (hd ts))) (max (r_end new) (r_end (last ts))))
    = range_set new \<union> ranges_set ts"
proof (intro set_eqI iffI)
  fix b assume "b \<in> range_set new \<union> ranges_set ts"
  then show "b \<in> range_set (Range64 (min (r_start new) (r_start (hd ts)))
      (max (r_end new) (r_end (last ts))))"
    using separated_hd_last [OF assms(1)]
    by (auto simp: mem_ranges_set min_le_iff_disj less_max_iff_disj
        intro: order_trans less_le_trans)
next
  fix b assume "b \<in> range_set (Range64 (min (r_start new) (r_start (hd ts)))
      (max (r_end new) (r_end (last ts))))"
  then have b: "r_start new \<le> b \<or> r_start (hd ts) \<le> b" "b < r_end new \<or> b < r_end (last ts)"
    by (auto simp: min_le_iff_disj less_max_iff_disj)
  have ends: "hd ts \<in> set ts" "last ts \<in> set ts" using assms(2) by auto
  consider "r_start new \<le> b" "b < r_end new" | "b < r_start new" | "r_end new \<le> b"
    by fastforce
  then show "b \<in> range_set new \<union> ranges_set ts"
  proof cases
    case 2
    then have "r_start (hd ts) \<le> b" "b < r_end (hd ts)"
      using b(1) assms(4) ends(1) by (auto intro: less_le_trans)
    with ends show ?thesis by (auto simp: mem_ranges_set)
  next
    case 3
    then have "b < r_end (last ts)" "r_start (last ts) \<le> b"
      using b(2) assms(4) ends(2) by (auto intro: order_trans)
    with ends show ?thesis by (auto simp: mem_ranges_set)
  qed (auto)
qed

lemma insert_range_spec:
  assumes "wf_map bm"
  shows "wf_map (insert_range bm new) \<and> bytes (insert_range bm new) = bytes bm \<union> range_set new"
proof (cases "r_start new < r_end new")
  case False
  then show ?thesis using assms by (auto simp: insert_range_def range_set_def)
next
  case True
  let ?iv = "intervals bm" and ?s = "r_start new" and ?e = "r_end new"
  define ls ts rs where parts: "ls = left_part ?s ?iv" "ts = touching ?s ?e ?iv"
    "rs = right_part ?s ?e ?iv"
  have sep: "separated ?iv" using assms by (simp add: wf_map_def)
  have iv: "?iv = ls @ ts @ rs" unfolding parts by (rule three_parts)
  define merged where "merged = (if ts = [] then new
    else Range64 (min ?s (r_start (hd ts))) (max ?e (r_end (last ts))))"
  have ins: "intervals (insert_range bm new) = ls @ merged # rs"
    using intervals_insert [OF assms True] by (simp add: parts merged_def)
  have seps: "separated ls" "separated ts" "separated rs"
    using sep iv by (auto simp: separated_append)
  have ts: "\<forall>r \<in> set ts. ?s \<le> r_end r \<and> r_start r \<le> ?e"
    unfolding parts using touching_bounds [OF sep] by blast
  have set: "range_set merged = range_set new \<union> ranges_set ts"
    using merged_range_set [OF seps(2) _ True ts] by (auto simp: merged_def)
  have l: "r_end r < r_start merged" if "r \<in> set ls" for r
  proof -
    have "r_end r < ?s" using that unfolding parts(1) by (rule left_part_end)
    with that sep show ?thesis by (auto simp: merged_def iv separated_append)
  qed
  have r: "r_end merged < r_start r" if "r \<in> set rs" for r
  proof -
    have "?e < r_start r" using that unfolding parts(3) by (rule right_part_start [OF sep])
    with that sep show ?thesis by (auto simp: merged_def iv separated_append)
  qed
  have ne: "r_start merged < r_end merged"
    using True by (auto simp: merged_def min_less_iff_disj less_max_iff_disj)
  have "wf_map (insert_range bm new)"
    using seps l r ne sep iv by (simp add: wf_map_def ins separated_append)
  moreover have "bytes (insert_range bm new) = bytes bm \<union> range_set new"
    by (auto simp: bytes_def ins iv set)
  ultimately show ?thesis ..
qed

lemmas wf_insert = insert_range_spec [THEN conjunct1, wf_intros]
lemmas bytes_insert = insert_range_spec [THEN conjunct2]

lemma wf_new [wf_intros]: "wf_map new_map"
  by (simp add: wf_map_def new_map_def)

lemma bytes_new: "bytes new_map = {}"
  by (simp add: bytes_def new_map_def)

section \<open>Sizes\<close>

lemma finite_ranges_set: "finite (ranges_set rs)"
  by (rule finite_subset [OF subset_UNIV]) simp

lemma separated_after: "separated (r # rs) \<Longrightarrow> b \<in> ranges_set rs \<Longrightarrow> r_end r < b"
  by (auto simp: mem_ranges_set)

lemma separated_disjoint:
  "separated (r # rs) \<Longrightarrow> range_set r \<inter> ranges_set rs = {}"
proof -
  assume sep: "separated (r # rs)"
  have "b \<notin> ranges_set rs" if "b \<in> range_set r" for b
    using separated_after [OF sep, of b] that by (auto dest: less_asym)
  then show ?thesis by blast
qed

text \<open>
  The byte count never wraps: the intervals are disjoint parts of the 2^64 offsets, and
  the last offset belongs to none of them (an interval's end is exclusive).
\<close>

lemma cached_bytes_card:
  "separated rs \<Longrightarrow> unat (sum_list (map (\<lambda>r. r_end r - r_start r) rs)) = card (ranges_set rs)"
proof (induction rs)
  case Nil
  then show ?case by simp
next
  case (Cons r rs)
  let ?rest = "sum_list (map (\<lambda>r. r_end r - r_start r) rs)"
  have disj: "range_set r \<inter> ranges_set rs = {}" using Cons.prems by (rule separated_disjoint)
  have r: "card (range_set r) = unat (r_end r - r_start r)"
    using Cons.prems by (simp add: range_set_def card_word_interval unat_sub less_imp_le)
  have sum: "card (ranges_set (r # rs)) = unat (r_end r - r_start r) + unat ?rest"
    using Cons r disj by (simp add: card_Un_disjoint finite_ranges_set range_set_def)
  have "ranges_set (r # rs) \<subseteq> UNIV - {- 1}"
  proof -
    have "b < r_end x \<Longrightarrow> b \<noteq> - 1" for b and x :: byte_range
      using word_order.extremum [of "r_end x"] by auto
    then show ?thesis by (auto simp: ranges_set_def range_set_def)
  qed
  then have "card (ranges_set (r # rs)) \<le> card (UNIV - {- 1 :: u64})"
    by (intro card_mono) auto
  then have "unat (r_end r - r_start r) + unat ?rest < 2 ^ 64"
    using sum by (simp add: card_word)
  then have "unat ((r_end r - r_start r) + ?rest) = unat (r_end r - r_start r) + unat ?rest"
    by (simp add: unat_word_ariths)
  with sum show ?case by simp
qed

lemma cached_bytes_spec: "wf_map bm \<Longrightarrow> unat (cached_bytes bm) = card (bytes bm)"
  by (simp add: cached_bytes_def wf_map_def bytes_def cached_bytes_card)

section \<open>Serialization\<close>

lemma from_bytes_at_to_bytes:
  assumes "\<forall>r \<in> set rs. r_start r < r_end r"
  shows "from_bytes_at (pre @ concat (map (\<lambda>r. to_le_bytes (r_start r) @ to_le_bytes (r_end r)) rs))
    (length pre) = rs"
  using assms
proof (induction rs arbitrary: pre)
  case Nil
  then show ?case by (subst from_bytes_at.simps) simp
next
  case (Cons r rs)
  let ?rest = "concat (map (\<lambda>r. to_le_bytes (r_start r) @ to_le_bytes (r_end r)) rs)"
  have IH: "from_bytes_at (pre @ to_le_bytes (r_start r) @ to_le_bytes (r_end r) @ ?rest)
      (length pre + 16) = rs"
    using Cons.IH [of "pre @ to_le_bytes (r_start r) @ to_le_bytes (r_end r)"] Cons.prems
    by simp
  have "r_start r < r_end r" using Cons.prems by simp
  with IH show ?case
    by (subst from_bytes_at.simps) (simp add: Let_def)
qed

lemma from_to_bytes:
  "wf_map bm \<Longrightarrow> from_bytes (to_bytes bm) = bm"
  using from_bytes_at_to_bytes [of "intervals bm" "[]"]
  by (simp add: from_bytes_def to_bytes_def wf_map_def separated_def)

lemma length_to_bytes: "length (to_bytes bm) = 16 * interval_count bm"
proof -
  have "length (concat (map (\<lambda>r. to_le_bytes (r_start r) @ to_le_bytes (r_end r)) rs)) = 16 * length rs"
    for rs by (induction rs) auto
  then show ?thesis by (simp add: to_bytes_def interval_count_def)
qed

lemma from_bytes_at_nonempty:
  "r \<in> set (from_bytes_at data offset) \<Longrightarrow> r_start r < r_end r"
proof (induction data offset rule: from_bytes_at.induct)
  case (1 data offset)
  then show ?case
    by (subst (asm) (2) from_bytes_at.simps) (auto simp: Let_def split: if_splits)
qed

section \<open>Coalesced requests\<close>

text \<open>
  The requests are apart by more than the gap. The subtraction in \<open>coalesce\<close> is on
  \<open>u64\<close>; it never underflows, because \<open>missing_ranges\<close> yields separated ranges.
\<close>

definition apart :: "u64 \<Rightarrow> byte_range \<Rightarrow> byte_range \<Rightarrow> bool" where
  "apart gap a b \<longleftrightarrow>
     r_end a < r_start b \<and> unat gap < unat (r_start b) - unat (r_end a)"

lemma apart_later: "apart gap a b \<Longrightarrow> r_start b \<le> r_start c \<Longrightarrow> apart gap a c"
  by (auto simp: apart_def word_less_nat_alt word_le_nat_alt)

lemma separated_merge:
  assumes "separated (c # m # ms)"
  shows "separated (Range64 (r_start c) (r_end m) # ms)"
    "range_set c \<subseteq> range_set (Range64 (r_start c) (r_end m))"
    "range_set m \<subseteq> range_set (Range64 (r_start c) (r_end m))"
proof -
  have o: "r_start c < r_end c" "r_end c < r_start m" "r_start m < r_end m"
    using assms by auto
  then have "r_start c < r_end m" "r_end c < r_end m" "r_start c < r_start m" by order+
  with o assms show "separated (Range64 (r_start c) (r_end m) # ms)"
    "range_set c \<subseteq> range_set (Range64 (r_start c) (r_end m))"
    "range_set m \<subseteq> range_set (Range64 (r_start c) (r_end m))"
    by (auto simp: range_set_def)
qed

lemma coalesce_spec:
  assumes "separated (c # ms)"
  shows "ranges_set (c # ms) \<subseteq> ranges_set (coalesce gap c ms) \<and>
    (\<forall>x \<in> set (coalesce gap c ms).
       r_start c \<le> r_start x \<and> r_start x < r_end x \<and> r_end x \<le> r_end (last (c # ms))) \<and>
    sorted_wrt (apart gap) (coalesce gap c ms)"
  using assms
proof (induction gap c ms rule: coalesce.induct)
  case (1 gap c)
  then show ?case by simp
next
  case (2 gap c m ms)
  have o: "r_start c < r_end c" "r_end c < r_start m" "r_start m < r_end m"
    using 2(3) by auto
  show ?case
  proof (cases "r_start m - r_end c \<le> gap")
    case True
    let ?c = "Range64 (r_start c) (r_end m)"
    note merge = separated_merge [OF 2(3)]
    have "ranges_set (c # m # ms) \<subseteq> ranges_set (?c # ms)" using merge(2,3) by auto
    moreover have "r_end (last (?c # ms)) = r_end (last (c # m # ms))" by (cases ms) auto
    moreover have "coalesce gap c (m # ms) = coalesce gap ?c ms" using True by simp
    ultimately show ?thesis
      using 2(1) [OF True merge(1)] by (metis byte_range.sel(1) subset_trans)
  next
    case False
    have sep: "separated (m # ms)" using 2(3) by simp
    note IH = 2(2) [OF False sep]
    have "r_end c \<le> r_start m" using o by order
    then have gap: "apart gap c m"
      using False o by (simp add: apart_def word_le_nat_alt unat_sub)
    have "r_end c \<le> r_end (last (m # ms))"
    proof -
      have "r_end m \<le> r_end (last (m # ms))" using separated_hd_last(2) [OF sep, of m] by simp
      with o show ?thesis by order
    qed
    moreover have "r_start c \<le> r_start x" if "r_start m \<le> r_start x" for x
      using o that by order
    moreover have "apart gap c x" if "r_start m \<le> r_start x" for x
      using apart_later [OF gap that] .
    ultimately show ?thesis using IH False o by auto
  qed
qed

lemma coalesced_missing_cases:
  "missing_ranges bm q = [] \<and> coalesced_missing bm q gap = [] \<or>
   (\<exists>m ms. missing_ranges bm q = m # ms \<and> coalesced_missing bm q gap = coalesce gap m ms)"
proof (cases "missing_ranges bm q")
  case Nil
  then show ?thesis by (simp add: coalesced_missing_def)
next
  case (Cons m ms)
  then show ?thesis by (cases ms) (auto simp: coalesced_missing_def)
qed

section \<open>The interface of a sparse index\<close>

text \<open>
  What the cache and the read path need of an index of cached bytes, with the set of
  bytes as its meaning. The block map provides it.
\<close>

locale byte_index =
  fixes empty :: "'m"
    and insert :: "'m \<Rightarrow> byte_range \<Rightarrow> 'm"
    and member :: "'m \<Rightarrow> u64 \<Rightarrow> bool"
    and present :: "'m \<Rightarrow> byte_range \<Rightarrow> bool"
    and missing :: "'m \<Rightarrow> byte_range \<Rightarrow> byte_range list"
    and abs :: "'m \<Rightarrow> u64 set"
    and inv :: "'m \<Rightarrow> bool"
  assumes inv_empty: "inv empty"
    and inv_insert: "inv m \<Longrightarrow> inv (insert m r)"
    and abs_empty: "abs empty = {}"
    and abs_insert: "inv m \<Longrightarrow> abs (insert m r) = abs m \<union> range_set r"
    and member_abs: "inv m \<Longrightarrow> member m b \<longleftrightarrow> b \<in> abs m"
    and present_abs: "inv m \<Longrightarrow> present m r \<longleftrightarrow> range_set r \<subseteq> abs m"
    and missing_abs: "inv m \<Longrightarrow> ranges_set (missing m r) = range_set r - abs m"
    and missing_nonempty: "x \<in> set (missing m r) \<Longrightarrow> range_set x \<noteq> {}"
begin

lemma inv_foldl: "inv m \<Longrightarrow> inv (foldl insert m rs)"
  by (induction rs arbitrary: m) (auto simp: inv_insert)

lemma abs_foldl: "inv m \<Longrightarrow> abs (foldl insert m rs) = abs m \<union> ranges_set rs"
  by (induction rs arbitrary: m) (auto simp: inv_insert abs_insert)

lemma member_insert:
  "inv m \<Longrightarrow> member (insert m r) b \<longleftrightarrow> member m b \<or> b \<in> range_set r"
  by (simp add: member_abs inv_insert abs_insert)

lemma present_mono: "inv m \<Longrightarrow> present m r \<Longrightarrow> present (insert m r') r"
  by (auto simp: present_abs inv_insert abs_insert)

lemma missing_Nil: "inv m \<Longrightarrow> missing m r = [] \<longleftrightarrow> present m r"
proof
  assume "inv m" "missing m r = []"
  then show "present m r" using missing_abs [of m r] by (simp add: present_abs)
next
  assume inv: "inv m" and "present m r"
  then have "ranges_set (missing m r) = {}" by (simp add: present_abs missing_abs)
  then show "missing m r = []"
    using missing_nonempty [of "hd (missing m r)" m r] by (cases "missing m r") auto
qed

text \<open>Any requests that cover the missing bytes of a range complete it.\<close>

lemma fill_present:
  assumes "inv m" "ranges_set (missing m q) \<subseteq> ranges_set rs"
  shows "present (foldl insert m rs) q" "missing (foldl insert m rs) q = []"
proof -
  have "range_set q \<subseteq> abs (foldl insert m rs)"
    using assms by (auto simp: abs_foldl missing_abs)
  then show "present (foldl insert m rs) q" "missing (foldl insert m rs) q = []"
    using assms(1) by (simp_all add: present_abs missing_Nil inv_foldl)
qed

lemma reinsert_present: "inv m \<Longrightarrow> present m r \<Longrightarrow> abs (insert m r) = abs m"
  by (auto simp: abs_insert present_abs)

end

interpretation bmap: byte_index new_map insert_range contains range_present missing_ranges
  bytes wf_map
proof unfold_locales
  show "range_set x \<noteq> {}" if "x \<in> set (missing_ranges m r)" for x m r
    using missing_ranges_bounds [OF that] by (auto simp: range_set_def)
qed (simp_all add: wf_new wf_insert bytes_new bytes_insert contains_iff range_present_iff
  missing_ranges_set)

lemma coalesced_missing_covers:
  "wf_map bm \<Longrightarrow> ranges_set (missing_ranges bm q) \<subseteq> ranges_set (coalesced_missing bm q gap)"
  using coalesced_missing_cases [of bm q gap] missing_ranges_separated [of bm q] coalesce_spec
  by fastforce

lemma coalesced_missing_inside:
  assumes "wf_map bm" "x \<in> set (coalesced_missing bm q gap)"
  shows "range_set x \<subseteq> range_set q"
proof -
  from coalesced_missing_cases [of bm q gap] assms(2) obtain m ms where
    ms: "missing_ranges bm q = m # ms" "coalesced_missing bm q gap = coalesce gap m ms" by auto
  have "separated (m # ms)" using missing_ranges_separated [OF assms(1), of q] ms(1) by simp
  from coalesce_spec [OF this, of gap] assms(2) ms(2)
  have x: "r_start m \<le> r_start x" "r_end x \<le> r_end (last (m # ms))" by auto
  have "m \<in> set (missing_ranges bm q)" "last (m # ms) \<in> set (missing_ranges bm q)"
    using ms(1) by auto
  then have "r_start q \<le> r_start m" "r_end (last (m # ms)) \<le> r_end q"
    using missing_ranges_bounds by blast+
  with x show ?thesis by (auto simp: range_set_def intro: order_trans less_le_trans)
qed

lemma coalesced_missing_apart:
  "wf_map bm \<Longrightarrow> sorted_wrt (apart gap) (coalesced_missing bm q gap)"
  using coalesced_missing_cases [of bm q gap] missing_ranges_separated [of bm q] coalesce_spec
  by fastforce

section \<open>Properties\<close>

text \<open>C1: inserting a range keeps the map sorted, non-overlapping and non-adjacent, and adds
  exactly the bytes of the range.\<close>

theorem insert_range_correct:
  assumes "wf_map bm"
  shows "wf_map (insert_range bm new) \<and>
    (\<forall>b. contains (insert_range bm new) b = (contains bm b \<or> b \<in> range_set new))"
  using assms by (simp add: bmap.member_insert bmap.inv_insert)

theorem insert_range_correct_witness:
  "wf_map (insert_range \<lparr>intervals = [Range64 100 200, Range64 300 400]\<rparr> (Range64 150 350)) \<and>
   insert_range \<lparr>intervals = [Range64 100 200, Range64 300 400]\<rparr> (Range64 150 350) =
     \<lparr>intervals = [Range64 100 400]\<rparr>"
proof -
  have "wf_map \<lparr>intervals = [Range64 100 200, Range64 300 400]\<rparr>" by (simp add: wf_map_def)
  from insert_range_correct [OF this, of "Range64 150 350"] show ?thesis
    by (simp add: insert_range_def insert_at_def)
qed

text \<open>The missing ranges of a query are exactly its bytes that are not cached, as separated
  non-empty ranges inside the query; there is none exactly when the query is present.\<close>

lemma missing_ranges_exact:
  assumes "wf_map bm"
  shows "ranges_set (missing_ranges bm q) = {b. b \<in> range_set q \<and> \<not> contains bm b} \<and>
    separated (missing_ranges bm q) \<and>
    (\<forall>m \<in> set (missing_ranges bm q). r_start q \<le> r_start m \<and> r_end m \<le> r_end q) \<and>
    (missing_ranges bm q = [] \<longleftrightarrow> range_present bm q)"
  using assms missing_ranges_bounds [of _ bm q]
  by (auto simp: missing_ranges_set missing_ranges_separated bmap.missing_Nil contains_iff)

text \<open>C3: fetching the coalesced requests of a query and inserting what came back leaves the whole
  query present and nothing missing; the requests stay inside the query, and two of them are
  more than the gap apart.\<close>

theorem coalesced_fetch_completes:
  assumes "wf_map bm"
  shows "range_present (foldl insert_range bm (coalesced_missing bm q gap)) q \<and>
    missing_ranges (foldl insert_range bm (coalesced_missing bm q gap)) q = [] \<and>
    wf_map (foldl insert_range bm (coalesced_missing bm q gap)) \<and>
    (\<forall>x \<in> set (coalesced_missing bm q gap). range_set x \<subseteq> range_set q) \<and>
    sorted_wrt (apart gap) (coalesced_missing bm q gap)"
  using bmap.fill_present [OF assms coalesced_missing_covers [OF assms]]
    bmap.inv_foldl [OF assms] coalesced_missing_inside [OF assms] coalesced_missing_apart [OF assms]
  by auto

theorem coalesced_fetch_completes_witness:
  "coalesced_missing \<lparr>intervals = [Range64 10 20, Range64 30 60]\<rparr> (Range64 0 100) 10 =
     [Range64 0 30, Range64 60 100] \<and>
   range_present (foldl insert_range \<lparr>intervals = [Range64 10 20, Range64 30 60]\<rparr>
     (coalesced_missing \<lparr>intervals = [Range64 10 20, Range64 30 60]\<rparr> (Range64 0 100) 10))
     (Range64 0 100)"
proof -
  have "wf_map \<lparr>intervals = [Range64 10 20, Range64 30 60]\<rparr>" by (simp add: wf_map_def)
  from coalesced_fetch_completes [OF this, of "Range64 0 100" 10] show ?thesis
    by (simp add: coalesced_missing_def missing_ranges_def)
qed

text \<open>The 64-bit sum of the interval lengths never wraps: it is the number of cached bytes.\<close>

lemma cached_bytes_exact:
  assumes "wf_map bm"
  shows "unat (cached_bytes bm) = card {b. contains bm b}"
  using assms by (simp add: cached_bytes_spec contains_iff)

text \<open>A map written with \<open>to_bytes\<close> is read back unchanged by \<open>from_bytes\<close>.\<close>

lemma block_map_roundtrip:
  assumes "wf_map bm"
  shows "from_bytes (to_bytes bm) = bm \<and> length (to_bytes bm) = 16 * interval_count bm"
  using assms by (simp add: from_to_bytes length_to_bytes)

end
