(* ===== verification/Json.thy ===== *)
theory Json
  imports Rust_Prelude
begin

text \<open>
  The document values the program passes around (\<open>serde_json::Value\<close>) with the accessors
  the source uses, and the record of the third-party functions that the model takes as
  parameters: \<open>libs\<close>. An object is an association list; \<open>jset\<close> is the assignment
  \<open>doc["key"] = v\<close>, which panics on a value that is neither an object nor null.
\<close>

datatype jnum = PosInt u64 | NegInt int | Decimal string

datatype json =
  JNull
| JBool bool
| JNum jnum
| JStr string
| JArr "json list"
| JObj "(string \<times> json) list"

fun jget :: "string \<Rightarrow> json \<Rightarrow> json option" where
  "jget k (JObj kvs) = map_of kvs k"
| "jget k _ = None"

fun as_str :: "json \<Rightarrow> string option" where
  "as_str (JStr s) = Some s"
| "as_str _ = None"

fun as_bool :: "json \<Rightarrow> bool option" where
  "as_bool (JBool b) = Some b"
| "as_bool _ = None"

fun as_array :: "json \<Rightarrow> json list option" where
  "as_array (JArr xs) = Some xs"
| "as_array _ = None"

fun as_u64 :: "json \<Rightarrow> u64 option" where
  "as_u64 (JNum (PosInt n)) = Some n"
| "as_u64 _ = None"

fun as_i64 :: "json \<Rightarrow> int option" where
  "as_i64 (JNum (PosInt n)) = (if unat n < 2 ^ 63 then Some (uint n) else None)"
| "as_i64 (JNum (NegInt n)) = Some n"
| "as_i64 _ = None"

definition num_of_int :: "int \<Rightarrow> json" where
  "num_of_int n = JNum (if 0 \<le> n then PosInt (of_int n) else NegInt n)"

definition jget_str :: "string \<Rightarrow> json \<Rightarrow> string option" where
  "jget_str k j = Option.bind (jget k j) as_str"

text \<open>\<open>doc[k] = v\<close>; \<open>None\<close> is the panic.\<close>

fun jset :: "string \<Rightarrow> json \<Rightarrow> json \<Rightarrow> json option" where
  "jset k v (JObj kvs) = Some (JObj (AList.update k v kvs))"
| "jset k v JNull = Some (JObj [(k, v)])"
| "jset k v _ = None"

text \<open>\<open>if let Some(o) = doc.as_object_mut() { o.remove(k) }\<close>\<close>

fun jremove :: "string \<Rightarrow> json \<Rightarrow> json" where
  "jremove k (JObj kvs) = JObj (AList.delete k kvs)"
| "jremove k j = j"

fun is_object :: "json \<Rightarrow> bool" where
  "is_object (JObj _) = True"
| "is_object _ = False"

lemma jget_jset: "jset k v j = Some j' \<Longrightarrow> jget k' j' = (if k' = k then Some v else jget k' j)"
  by (cases j) (auto simp: update_conv')

lemma jset_object [simp]: "is_object j \<Longrightarrow> \<exists>j'. jset k v j = Some j' \<and> is_object j'"
  by (cases j) auto

lemma jset_is_object: "jset k v j = Some j' \<Longrightarrow> is_object j'"
  by (cases j) auto

lemma jget_jremove: "jget k' (jremove k j) = (if k' = k then None else jget k' j)"
  by (cases j) (auto simp: delete_conv')

lemma jget_str_jset: "jset k v j = Some j' \<Longrightarrow>
    jget_str k' j' = (if k' = k then as_str v else jget_str k' j)"
  by (simp add: jget_str_def jget_jset)

lemma as_u64_Some: "as_u64 j = Some n \<longleftrightarrow> j = JNum (PosInt n)"
  by (cases j rule: as_u64.cases) auto

lemma as_str_Some: "as_str j = Some s \<longleftrightarrow> j = JStr s"
  by (cases j) auto

lemma as_i64_num_of_int:
  assumes "- (2 ^ 63) \<le> n" "n < 2 ^ 63"
  shows "as_i64 (num_of_int n) = Some n"
proof (cases "0 \<le> n")
  case True
  have "uint (of_int n :: u64) = n" using True assms(2) by (simp add: uint_word_of_int_eq take_bit_int_eq_self)
  moreover from this have "unat (of_int n :: u64) < 2 ^ 63" using assms(2) True
    by (metis nat_less_numeral_power_cancel_iff unat_eq_nat_uint)
  ultimately show ?thesis using True by (simp add: num_of_int_def)
next
  case False
  then show ?thesis by (simp add: num_of_int_def)
qed

text \<open>Assignments in a row.\<close>

fun jset_all :: "(string \<times> json) list \<Rightarrow> json \<Rightarrow> json option" where
  "jset_all [] doc = Some doc"
| "jset_all ((k, v) # kvs) doc = Option.bind (jset k v doc) (jset_all kvs)"

lemma jset_all_jget:
  "jset_all kvs doc = Some d \<Longrightarrow>
     jget k d = (case map_of (rev kvs) k of Some v \<Rightarrow> Some v | None \<Rightarrow> jget k doc)"
  by (induction kvs doc rule: jset_all.induct)
    (auto simp: bind_eq_Some_conv jget_jset map_add_def split: option.splits if_splits)

lemma jset_all_object: "is_object doc \<Longrightarrow> \<exists>d. jset_all kvs doc = Some d \<and> is_object d"
proof (induction kvs arbitrary: doc)
  case Nil
  then show ?case by simp
next
  case (Cons kv kvs)
  obtain k v where kv: "kv = (k, v)" by (cases kv)
  obtain d where "jset k v doc = Some d" "is_object d"
    using jset_object [OF Cons.prems] by blast
  with Cons.IH show ?case by (simp add: kv)
qed

section \<open>Time and third-party functions\<close>

text \<open>
  A \<open>DateTime<Utc>\<close> is a count of nanoseconds; a duration is a difference of two. The
  whole units of a duration (\<open>num_days\<close>, \<open>num_hours\<close>, \<open>num_seconds\<close>) are truncated
  towards zero.
\<close>

type_synonym time = int

definition trunc_div :: "int \<Rightarrow> int \<Rightarrow> int" where
  "trunc_div a b = sgn a * sgn b * (\<bar>a\<bar> div \<bar>b\<bar>)"

definition num_seconds :: "int \<Rightarrow> int" where
  "num_seconds d = trunc_div d 1000000000"

definition num_hours :: "int \<Rightarrow> int" where
  "num_hours d = trunc_div d (3600 * 1000000000)"

definition num_days :: "int \<Rightarrow> int" where
  "num_days d = trunc_div d (86400 * 1000000000)"

lemma trunc_div_nonneg: "0 \<le> a \<Longrightarrow> 0 < b \<Longrightarrow> trunc_div a b = a div b"
  by (cases "a = 0") (simp_all add: trunc_div_def)

lemma trunc_div_mono_nonneg:
  "0 \<le> a \<Longrightarrow> a \<le> a' \<Longrightarrow> 0 < b \<Longrightarrow> trunc_div a b \<le> trunc_div a' b"
  by (simp add: trunc_div_nonneg zdiv_mono1)

text \<open>
  The functions of other crates the source calls, as one record of parameters:
  \<open>glob::Pattern\<close> and \<open>regex::Regex\<close> (\<open>None\<close> for a pattern that does not
  compile), \<open>hex::encode(Sha256::digest(_))\<close>, HMAC-SHA256 over bytes, \<open>hex::encode\<close>,
  chrono's RFC 3339 parser and its two printers (\<open>to_rfc3339\<close> and the one of its serde
  instance), \<open>urlencoding::encode\<close>, and \<open>serde_json\<close>'s printer.
\<close>

record libs =
  glob_matches :: "string \<Rightarrow> string \<Rightarrow> bool option"
  regex_matches :: "string \<Rightarrow> string \<Rightarrow> bool option"
  regex_escape :: "string \<Rightarrow> string"
  sha256_hex :: "string \<Rightarrow> string"
  hmac_sha256 :: "string \<Rightarrow> string \<Rightarrow> string"
  hex_encode :: "string \<Rightarrow> string"
  parse_time :: "string \<Rightarrow> time option"
  rfc3339 :: "time \<Rightarrow> string"
  serde_time :: "time \<Rightarrow> string"
  urlencode :: "string \<Rightarrow> string"
  json_text :: "json \<Rightarrow> string"

section \<open>A concrete instance\<close>

text \<open>
  Simple functions for the parameters, used where a statement is evaluated at a concrete
  input: patterns match themselves only, the digests are the identity, and a time is
  printed in unary.
\<close>

definition sample_print_time :: "time \<Rightarrow> string" where
  "sample_print_time t =
     (if 0 \<le> t then replicate (nat t) (CHR ''p'') else replicate (nat (- t)) (CHR ''m''))"

definition sample_parse_time :: "string \<Rightarrow> time option" where
  "sample_parse_time s =
     (if starts_with s ''m'' then Some (- int (length s)) else Some (int (length s)))"

definition sample_libs :: libs where
  "sample_libs =
     \<lparr>glob_matches = (\<lambda>p s. Some (p = s)),
      regex_matches = (\<lambda>p s. Some (p = s)),
      regex_escape = id,
      sha256_hex = id,
      hmac_sha256 = (\<lambda>k m. k @ ''|'' @ m),
      hex_encode = id,
      parse_time = sample_parse_time,
      rfc3339 = sample_print_time,
      serde_time = sample_print_time,
      urlencode = id,
      json_text = (\<lambda>j. case j of JStr s \<Rightarrow> s | _ \<Rightarrow> [])\<rparr>"

lemma sample_libs_simps [simp]:
  "glob_matches sample_libs = (\<lambda>p s. Some (p = s))"
  "regex_matches sample_libs = (\<lambda>p s. Some (p = s))"
  "regex_escape sample_libs = id"
  "sha256_hex sample_libs = id"
  "hmac_sha256 sample_libs = (\<lambda>k m. k @ ''|'' @ m)"
  "hex_encode sample_libs = id"
  "parse_time sample_libs = sample_parse_time"
  "rfc3339 sample_libs = sample_print_time"
  "serde_time sample_libs = sample_print_time"
  "urlencode sample_libs = id"
  by (simp_all add: sample_libs_def)

lemma sample_time_roundtrip: "sample_parse_time (sample_print_time t) = Some t"
proof (cases "0 \<le> t")
  case True
  then show ?thesis
    by (cases "nat t") (auto simp: sample_parse_time_def sample_print_time_def starts_with_iff)
next
  case False
  then obtain n where n: "nat (- t) = Suc n" by (metis not0_implies_Suc not_le zero_less_nat_eq neg_0_less_iff_less less_numeral_extra(3))
  from False show ?thesis
    by (auto simp: sample_parse_time_def sample_print_time_def starts_with_iff n) (use n in linarith)
qed

end
