(* ===== verification/Couch.thy ===== *)
theory Couch
  imports Json
begin

text \<open>
  The CouchDB client of \<open>mosaicfs-common/src/couchdb.rs\<close>. The HTTP transport
  (\<open>reqwest\<close> and the server behind it) is the parameter \<open>send\<close>, a function of the
  request and of the state of the outside world; every method of the client is the
  request it builds and its dispatch on the status of the response.

  The components that use the database do so through the record \<open>couch\<close> of these
  methods, so that each of them can be read with any database; \<open>http_couch\<close> is the
  record the client provides.
\<close>

section \<open>Transport\<close>

datatype http_method = GET | PUT | POST | DELETE

record http_request =
  rq_method :: http_method
  rq_url :: string
  rq_auth :: "string \<times> string"
  rq_query :: "(string \<times> string) list"
  rq_body :: "json option"

text \<open>\<open>rs_body\<close> is what reading the body as JSON gives, \<open>None\<close> when it is not JSON.\<close>

record http_response =
  rs_status :: nat
  rs_body :: "json option"

type_synonym 'w transport = "http_request \<Rightarrow> 'w \<Rightarrow> (string + http_response) \<times> 'w"

definition is_success :: "nat \<Rightarrow> bool" where
  "is_success st \<longleftrightarrow> 200 \<le> st \<and> st < 300"

section \<open>Client data\<close>

datatype couch_error =
  Http string
| CouchErr string string
| NotFound string
| Conflict string

record couch_response =
  cr_ok :: "bool option"
  cr_id :: "string option"
  cr_rev :: "string option"
  cr_error :: "string option"
  cr_reason :: "string option"

type_synonym bulk_doc_result = couch_response

record all_docs_row =
  row_id :: string
  row_key :: string
  row_value :: json
  row_doc :: "json option"

record all_docs_response =
  total_rows :: "u64 option"
  ad_rows :: "all_docs_row list"

record change_row =
  ch_seq :: json
  ch_id :: string
  ch_changes :: "string list"
  ch_deleted :: bool
  ch_doc :: "json option"

record changes_response =
  results :: "change_row list"
  last_seq :: json

record couch_client =
  base_url :: string
  db_name :: string
  auth :: "string \<times> string"

text \<open>
  Deserialization as \<open>serde\<close> derives it: an absent or null optional field is \<open>None\<close>, a
  field of the wrong type is an error, unknown fields are ignored.
\<close>

definition opt_read :: "(json \<Rightarrow> 'a option) \<Rightarrow> json option \<Rightarrow> 'a option option" where
  "opt_read conv v =
     (case v of
        None \<Rightarrow> Some None
      | Some JNull \<Rightarrow> Some None
      | Some j \<Rightarrow> map_option Some (conv j))"

definition opt_field :: "(json \<Rightarrow> 'a option) \<Rightarrow> string \<Rightarrow> json \<Rightarrow> 'a option option" where
  "opt_field conv k j = opt_read conv (jget k j)"

definition req_field :: "(json \<Rightarrow> 'a option) \<Rightarrow> string \<Rightarrow> json \<Rightarrow> 'a option" where
  "req_field conv k j = Option.bind (jget k j) conv"

definition default_field :: "(json \<Rightarrow> 'a option) \<Rightarrow> 'a \<Rightarrow> string \<Rightarrow> json \<Rightarrow> 'a option" where
  "default_field conv d k j = (case jget k j of None \<Rightarrow> Some d | Some v \<Rightarrow> conv v)"

fun list_of :: "(json \<Rightarrow> 'a option) \<Rightarrow> json \<Rightarrow> 'a list option" where
  "list_of conv (JArr xs) = those (map conv xs)"
| "list_of conv _ = None"

definition parse_couch_response :: "json \<Rightarrow> couch_response option" where
  "parse_couch_response j =
     (if is_object j then
        do {
          okay \<leftarrow> opt_field as_bool ''ok'' j;
          i \<leftarrow> opt_field as_str ''id'' j;
          rv \<leftarrow> opt_field as_str ''rev'' j;
          err \<leftarrow> opt_field as_str ''error'' j;
          reason \<leftarrow> opt_field as_str ''reason'' j;
          Some \<lparr>cr_ok = okay, cr_id = i, cr_rev = rv, cr_error = err, cr_reason = reason\<rparr>
        }
      else None)"

definition parse_row :: "json \<Rightarrow> all_docs_row option" where
  "parse_row j =
     (if is_object j then
        do {
          i \<leftarrow> req_field as_str ''id'' j;
          k \<leftarrow> req_field as_str ''key'' j;
          v \<leftarrow> default_field Some JNull ''value'' j;
          d \<leftarrow> opt_field Some ''doc'' j;
          Some \<lparr>row_id = i, row_key = k, row_value = v, row_doc = d\<rparr>
        }
      else None)"

definition parse_all_docs :: "json \<Rightarrow> all_docs_response option" where
  "parse_all_docs j =
     (if is_object j then
        do {
          n \<leftarrow> opt_field as_u64 ''total_rows'' j;
          rs \<leftarrow> req_field (list_of parse_row) ''rows'' j;
          Some \<lparr>total_rows = n, ad_rows = rs\<rparr>
        }
      else None)"

definition parse_change_row :: "json \<Rightarrow> change_row option" where
  "parse_change_row j =
     (if is_object j then
        do {
          sq \<leftarrow> default_field Some JNull ''seq'' j;
          i \<leftarrow> req_field as_str ''id'' j;
          cs \<leftarrow> default_field (list_of (req_field as_str ''rev'')) [] ''changes'' j;
          del \<leftarrow> default_field as_bool False ''deleted'' j;
          d \<leftarrow> opt_field Some ''doc'' j;
          Some \<lparr>ch_seq = sq, ch_id = i, ch_changes = cs, ch_deleted = del, ch_doc = d\<rparr>
        }
      else None)"

definition parse_changes :: "json \<Rightarrow> changes_response option" where
  "parse_changes j =
     (if is_object j then
        do {
          rs \<leftarrow> req_field (list_of parse_change_row) ''results'' j;
          sq \<leftarrow> req_field Some ''last_seq'' j;
          Some \<lparr>results = rs, last_seq = sq\<rparr>
        }
      else None)"

definition parse_find :: "json \<Rightarrow> json list option" where
  "parse_find j = (if is_object j then req_field (list_of Some) ''docs'' j else None)"

definition last_seq_string :: "libs \<Rightarrow> changes_response \<Rightarrow> string" where
  "last_seq_string lb c =
     (case last_seq c of JStr s \<Rightarrow> s | JNum n \<Rightarrow> json_text lb (JNum n) | v \<Rightarrow> json_text lb v)"

section \<open>Methods\<close>

definition new_client :: "string \<Rightarrow> string \<Rightarrow> string \<Rightarrow> string \<Rightarrow> couch_client" where
  "new_client url db user password =
     \<lparr>base_url = trim_end (CHR ''/'') url, db_name = db, auth = (user, password)\<rparr>"

text \<open>\<open>from_env\<close>: the environment as a map; \<open>None\<close> is the panic of \<open>expect\<close>.\<close>

definition client_from_env :: "(string \<rightharpoonup> string) \<Rightarrow> string \<Rightarrow> couch_client option" where
  "client_from_env env db =
     do {
       url \<leftarrow> env ''COUCHDB_URL'';
       user \<leftarrow> env ''COUCHDB_USER'';
       password \<leftarrow> env ''COUCHDB_PASSWORD'';
       Some (new_client url db user password)
     }"

definition db_url :: "couch_client \<Rightarrow> string" where
  "db_url c = base_url c @ ''/'' @ db_name c"

definition doc_url :: "libs \<Rightarrow> couch_client \<Rightarrow> string \<Rightarrow> string" where
  "doc_url lb c i = db_url c @ ''/'' @ urlencode lb i"

definition request :: "couch_client \<Rightarrow> http_method \<Rightarrow> string \<Rightarrow> json option \<Rightarrow> http_request" where
  "request c m url body =
     \<lparr>rq_method = m, rq_url = url, rq_auth = auth c, rq_query = [], rq_body = body\<rparr>"

text \<open>\<open>resp.json().await?\<close>\<close>

definition read_json :: "(json \<Rightarrow> 'a option) \<Rightarrow> http_response \<Rightarrow> couch_error + 'a" where
  "read_json parse r =
     (case Option.bind (rs_body r) parse of
        None \<Rightarrow> Inl (Http ''decode'')
      | Some a \<Rightarrow> Inr a)"

text \<open>The shared error tail: \<open>error\<close> and \<open>reason\<close> of the body, empty when absent.\<close>

definition error_body :: "http_response \<Rightarrow> couch_error + 'a" where
  "error_body r =
     and_then (read_json parse_couch_response r)
       (\<lambda>b. Inl (CouchErr (unwrap_or (cr_error b) []) (unwrap_or (cr_reason b) [])))"

definition dispatch ::
  "(string + http_response) \<times> 'w \<Rightarrow> (http_response \<Rightarrow> couch_error + 'a) \<Rightarrow>
     (couch_error + 'a) \<times> 'w" where
  "dispatch rw f =
     (case rw of
        (Inl e, w) \<Rightarrow> (Inl (Http e), w)
      | (Inr r, w) \<Rightarrow> (f r, w))"

definition ensure_db :: "'w transport \<Rightarrow> couch_client \<Rightarrow> 'w \<Rightarrow> (couch_error + unit) \<times> 'w" where
  "ensure_db send c w =
     dispatch (send (request c PUT (db_url c) None) w)
       (\<lambda>r. if rs_status r = 201 then Inr ()
            else if rs_status r = 412 then Inr ()
            else and_then (read_json parse_couch_response r)
              (\<lambda>b. Inl (CouchErr (unwrap_or (cr_error b) (''HTTP '' @ nat_str (rs_status r)))
                    (unwrap_or (cr_reason b) []))))"

definition get_document ::
  "libs \<Rightarrow> 'w transport \<Rightarrow> couch_client \<Rightarrow> string \<Rightarrow> 'w \<Rightarrow> (couch_error + json) \<times> 'w" where
  "get_document lb send c i w =
     dispatch (send (request c GET (doc_url lb c i) None) w)
       (\<lambda>r. if rs_status r = 200 then read_json Some r
            else if rs_status r = 404 then Inl (NotFound i)
            else error_body r)"

definition put_document ::
  "libs \<Rightarrow> 'w transport \<Rightarrow> couch_client \<Rightarrow> string \<Rightarrow> json \<Rightarrow> 'w \<Rightarrow>
     (couch_error + couch_response) \<times> 'w" where
  "put_document lb send c i doc w =
     dispatch (send (request c PUT (doc_url lb c i) (Some doc)) w)
       (\<lambda>r. if rs_status r = 201 \<or> rs_status r = 202 then read_json parse_couch_response r
            else if rs_status r = 409 then Inl (Conflict i)
            else error_body r)"

definition delete_document ::
  "libs \<Rightarrow> 'w transport \<Rightarrow> couch_client \<Rightarrow> string \<Rightarrow> string \<Rightarrow> 'w \<Rightarrow>
     (couch_error + couch_response) \<times> 'w" where
  "delete_document lb send c i rv w =
     dispatch (send (request c DELETE (doc_url lb c i @ ''?rev='' @ urlencode lb rv) None) w)
       (\<lambda>r. if rs_status r = 200 \<or> rs_status r = 202 then read_json parse_couch_response r
            else error_body r)"

definition bulk_docs ::
  "'w transport \<Rightarrow> couch_client \<Rightarrow> json list \<Rightarrow> 'w \<Rightarrow>
     (couch_error + bulk_doc_result list) \<times> 'w" where
  "bulk_docs send c docs w =
     dispatch (send (request c POST (db_url c @ ''/_bulk_docs'')
         (Some (JObj [(''docs'', JArr docs)]))) w)
       (\<lambda>r. if is_success (rs_status r) then read_json (list_of parse_couch_response) r
            else error_body r)"

definition changes ::
  "'w transport \<Rightarrow> couch_client \<Rightarrow> string \<Rightarrow> bool \<Rightarrow> u64 option \<Rightarrow> 'w \<Rightarrow>
     (couch_error + changes_response) \<times> 'w" where
  "changes send c since include_docs limit w =
     (let query = [(''since'', since)] @
            (if include_docs then [(''include_docs'', ''true'')] else []) @
            (case limit of None \<Rightarrow> [] | Some l \<Rightarrow> [(''limit'', nat_str (unat l))])
      in dispatch (send ((request c GET (db_url c @ ''/_changes'') None)\<lparr>rq_query := query\<rparr>) w)
           (\<lambda>r. if is_success (rs_status r) then read_json parse_changes r
                else error_body r))"

text \<open>The end key is the prefix followed by U+FFFF, whose UTF-8 bytes are EF BF BF.\<close>

definition last_char :: string where
  "last_char = map char_of [239, 191, 191 :: nat]"

definition all_docs_by_prefix ::
  "libs \<Rightarrow> 'w transport \<Rightarrow> couch_client \<Rightarrow> string \<Rightarrow> bool \<Rightarrow> 'w \<Rightarrow>
     (couch_error + all_docs_response) \<times> 'w" where
  "all_docs_by_prefix lb send c pre include_docs w =
     (let startkey = json_text lb (JStr pre);
          endkey = json_text lb (JStr (pre @ last_char));
          url = db_url c @ ''/_all_docs?startkey='' @ urlencode lb startkey @
                ''&endkey='' @ urlencode lb endkey @
                (if include_docs then ''&include_docs=true'' else [])
      in dispatch (send (request c GET url None) w)
           (\<lambda>r. if is_success (rs_status r) then read_json parse_all_docs r
                else error_body r))"

definition all_docs ::
  "'w transport \<Rightarrow> couch_client \<Rightarrow> bool \<Rightarrow> 'w \<Rightarrow> (couch_error + all_docs_response) \<times> 'w" where
  "all_docs send c include_docs w =
     dispatch (send (request c GET (db_url c @ ''/_all_docs'' @
         (if include_docs then ''?include_docs=true'' else [])) None) w)
       (\<lambda>r. if is_success (rs_status r) then read_json parse_all_docs r
            else error_body r)"

definition db_info :: "'w transport \<Rightarrow> couch_client \<Rightarrow> 'w \<Rightarrow> (couch_error + json) \<times> 'w" where
  "db_info send c w =
     dispatch (send (request c GET (db_url c) None) w)
       (\<lambda>r. if is_success (rs_status r) then read_json Some r else error_body r)"

definition delete_db :: "'w transport \<Rightarrow> couch_client \<Rightarrow> 'w \<Rightarrow> (couch_error + unit) \<times> 'w" where
  "delete_db send c w =
     dispatch (send (request c DELETE (db_url c) None) w)
       (\<lambda>r. if is_success (rs_status r) then Inr () else error_body r)"

definition find_docs ::
  "'w transport \<Rightarrow> couch_client \<Rightarrow> json \<Rightarrow> 'w \<Rightarrow> (couch_error + json list) \<times> 'w" where
  "find_docs send c selector w =
     dispatch (send (request c POST (db_url c @ ''/_find'')
         (Some (JObj [(''selector'', selector), (''limit'', JNum (PosInt 10000))]))) w)
       (\<lambda>r. if is_success (rs_status r) then read_json parse_find r else error_body r)"

definition index_fields :: "(string \<times> string list) list" where
  "index_fields =
     [(''idx-type'', [''type'']),
      (''idx-type-status'', [''type'', ''status'']),
      (''idx-type-node'', [''type'', ''source.node_id'']),
      (''idx-type-name'', [''type'', ''name'']),
      (''idx-credential-akid'', [''type'', ''access_key_id'']),
      (''idx-file-export-parent'', [''type'', ''source.export_parent'']),
      (''idx-label-rule-node'', [''type'', ''node_id'', ''enabled''])]"

definition index_payload :: "string \<times> string list \<Rightarrow> json" where
  "index_payload ix =
     JObj [(''index'', JObj [(''fields'', JArr (map JStr (snd ix)))]),
           (''ddoc'', JStr (fst ix)), (''name'', JStr (fst ix)), (''type'', JStr ''json'')]"

text \<open>An index the server refuses is only logged; a transport or decoding error ends the loop.\<close>

fun create_index_loop ::
  "'w transport \<Rightarrow> couch_client \<Rightarrow> (string \<times> string list) list \<Rightarrow> 'w \<Rightarrow>
     (couch_error + unit) \<times> 'w" where
  "create_index_loop send c [] w = (Inr (), w)"
| "create_index_loop send c (ix # ixs) w =
     (case dispatch (send (request c POST (db_url c @ ''/_index'') (Some (index_payload ix))) w)
        (\<lambda>r. if is_success (rs_status r) then Inr ()
             else and_then (read_json parse_couch_response r) (\<lambda>_. Inr ())) of
        (Inl e, w') \<Rightarrow> (Inl e, w')
      | (Inr _, w') \<Rightarrow> create_index_loop send c ixs w')"

definition create_indexes ::
  "'w transport \<Rightarrow> couch_client \<Rightarrow> 'w \<Rightarrow> (couch_error + unit) \<times> 'w" where
  "create_indexes send c w = create_index_loop send c index_fields w"

section \<open>The database as its clients see it\<close>

record 's couch =
  db_get :: "string \<Rightarrow> 's \<Rightarrow> (couch_error + json) \<times> 's"
  db_put :: "string \<Rightarrow> json \<Rightarrow> 's \<Rightarrow> (couch_error + couch_response) \<times> 's"
  db_delete :: "string \<Rightarrow> string \<Rightarrow> 's \<Rightarrow> (couch_error + couch_response) \<times> 's"
  db_bulk :: "json list \<Rightarrow> 's \<Rightarrow> (couch_error + bulk_doc_result list) \<times> 's"
  db_prefix :: "string \<Rightarrow> 's \<Rightarrow> (couch_error + all_docs_row list) \<times> 's"
  db_find :: "json \<Rightarrow> 's \<Rightarrow> (couch_error + json list) \<times> 's"

text \<open>\<open>db_prefix\<close> is \<open>all_docs_by_prefix(_, true)\<close>, the only way the callers use it.\<close>

definition http_couch :: "libs \<Rightarrow> 'w transport \<Rightarrow> couch_client \<Rightarrow> 'w couch" where
  "http_couch lb send c =
     \<lparr>db_get = get_document lb send c,
      db_put = put_document lb send c,
      db_delete = delete_document lb send c,
      db_bulk = bulk_docs send c,
      db_prefix = (\<lambda>pre w. map_prod (map_sum id ad_rows) id (all_docs_by_prefix lb send c pre True w)),
      db_find = find_docs send c\<rparr>"

definition row_docs :: "all_docs_row list \<Rightarrow> json list" where
  "row_docs rows = List.map_filter row_doc rows"

lemma row_docs_simps [simp]:
  "row_docs [] = []"
  "row_docs (r # rs) = (case row_doc r of Some d \<Rightarrow> d # row_docs rs | None \<Rightarrow> row_docs rs)"
  by (simp_all add: row_docs_def map_filter_simps split: option.split)

section \<open>A concrete database\<close>

text \<open>
  The database as an association list of documents, the simplest instance of the record;
  statements are evaluated on it.
\<close>

type_synonym store = "(string \<times> json) list"

definition sample_response :: "string \<Rightarrow> couch_response" where
  "sample_response i =
     \<lparr>cr_ok = Some True, cr_id = Some i, cr_rev = Some ''2-x'', cr_error = None, cr_reason = None\<rparr>"

definition sample_couch :: "store couch" where
  "sample_couch =
     \<lparr>db_get = (\<lambda>i s. (case map_of s i of Some d \<Rightarrow> Inr d | None \<Rightarrow> Inl (NotFound i), s)),
      db_put = (\<lambda>i d s. (Inr (sample_response i), AList.update i d s)),
      db_delete = (\<lambda>i rv s. (Inr (sample_response i), AList.delete i s)),
      db_bulk = (\<lambda>ds s. (Inr [], s)),
      db_prefix = (\<lambda>pre s.
        (Inr (map (\<lambda>(k, d). \<lparr>row_id = k, row_key = k, row_value = JNull, row_doc = Some d\<rparr>)
           (filter (\<lambda>(k, d). starts_with k pre) s)), s)),
      db_find = (\<lambda>sel s. (Inr (map snd s), s))\<rparr>"

lemma sample_couch_simps [simp]:
  "db_get sample_couch i s = (case map_of s i of Some d \<Rightarrow> Inr d | None \<Rightarrow> Inl (NotFound i), s)"
  "db_put sample_couch i d s = (Inr (sample_response i), AList.update i d s)"
  "db_delete sample_couch i rv s = (Inr (sample_response i), AList.delete i s)"
  "db_bulk sample_couch ds s = (Inr [], s)"
  "db_prefix sample_couch pre s =
     (Inr (map (\<lambda>(k, d). \<lparr>row_id = k, row_key = k, row_value = JNull, row_doc = Some d\<rparr>)
        (filter (\<lambda>(k, d). starts_with k pre) s)), s)"
  "db_find sample_couch sel s = (Inr (map snd s), s)"
  by (simp_all add: sample_couch_def)

text \<open>
  What the callers rely on when they read back a document: CouchDB adds the revision (and
  the identifier) and keeps the other fields.
\<close>

definition put_get_law :: "'s couch \<Rightarrow> bool" where
  "put_get_law db \<longleftrightarrow>
     (\<forall>i d s r s'. db_put db i d s = (Inr r, s') \<longrightarrow>
        (\<exists>d' s''. db_get db i s' = (Inr d', s'') \<and>
           (\<forall>f. f \<notin> {''_rev'', ''_id''} \<longrightarrow> jget f d' = jget f d)))"

lemma sample_put_get: "put_get_law sample_couch"
  by (auto simp: put_get_law_def update_conv')

section \<open>Recording the bulk writes\<close>

text \<open>
  The same database with a log of the payloads of the bulk writes, in the order of the
  calls: what a component sends can be stated without looking into the database.
\<close>

definition kept_log :: "('s \<Rightarrow> 'r \<times> 's) \<Rightarrow> 's \<times> 'l \<Rightarrow> 'r \<times> 's \<times> 'l" where
  "kept_log f sl = (case f (fst sl) of (r, s') \<Rightarrow> (r, s', snd sl))"

definition logged :: "'s couch \<Rightarrow> ('s \<times> json list list) couch" where
  "logged db =
     \<lparr>db_get = (\<lambda>i. kept_log (db_get db i)),
      db_put = (\<lambda>i d. kept_log (db_put db i d)),
      db_delete = (\<lambda>i rv. kept_log (db_delete db i rv)),
      db_bulk = (\<lambda>ds (s, log). case db_bulk db ds s of (r, s') \<Rightarrow> (r, s', log @ [ds])),
      db_prefix = (\<lambda>pre. kept_log (db_prefix db pre)),
      db_find = (\<lambda>sel. kept_log (db_find db sel))\<rparr>"

lemma logged_simps [simp]:
  "db_get (logged db) i = kept_log (db_get db i)"
  "db_put (logged db) i d = kept_log (db_put db i d)"
  "db_delete (logged db) i rv = kept_log (db_delete db i rv)"
  "db_bulk (logged db) ds (s, log) = (case db_bulk db ds s of (r, s') \<Rightarrow> (r, s', log @ [ds]))"
  "db_prefix (logged db) pre = kept_log (db_prefix db pre)"
  "db_find (logged db) sel = kept_log (db_find db sel)"
  by (simp_all add: logged_def)

lemma kept_log_snd [simp]: "snd (snd (kept_log f sl)) = snd sl"
  by (simp add: kept_log_def split: prod.split)

lemma kept_log_log: "kept_log f sl = (r, sl') \<Longrightarrow> snd sl' = snd sl"
  by (metis kept_log_snd snd_conv)

lemma kept_log_fst: "kept_log f (s, log) = (r, s', log') \<longleftrightarrow> f s = (r, s') \<and> log' = log"
  by (auto simp: kept_log_def split: prod.splits)

section \<open>A database that keeps documents\<close>

text \<open>
  What CouchDB documents for a single writer, relative to the documents \<open>docs s\<close> a state
  holds: reading does not change them; a write that is accepted stores the document, with
  its revision and identifier set, and nothing else; a refused one changes nothing; a
  range query lists the documents whose identifier has the prefix, each once.
\<close>

definition same_fields :: "json \<Rightarrow> json \<Rightarrow> bool" where
  "same_fields d' d \<longleftrightarrow> (\<forall>f. f \<noteq> ''_rev'' \<and> f \<noteq> ''_id'' \<longrightarrow> jget f d' = jget f d)"

definition reads_law :: "'s couch \<Rightarrow> ('s \<Rightarrow> string \<Rightarrow> json option) \<Rightarrow> bool" where
  "reads_law db docs \<longleftrightarrow>
     (\<forall>s i. db_get db i s = (case docs s i of Some d \<Rightarrow> Inr d | None \<Rightarrow> Inl (NotFound i), s)) \<and>
     (\<forall>s pre. \<exists>rows. db_prefix db pre s = (Inr rows, s) \<and> distinct (map row_id rows) \<and>
        (\<forall>r \<in> set rows. row_doc r \<noteq> None) \<and>
        (\<forall>i d. (\<exists>r \<in> set rows. row_id r = i \<and> row_doc r = Some d) \<longleftrightarrow>
           starts_with i pre \<and> docs s i = Some d))"

definition writes_law :: "'s couch \<Rightarrow> ('s \<Rightarrow> string \<Rightarrow> json option) \<Rightarrow> bool" where
  "writes_law db docs \<longleftrightarrow>
     (\<forall>s i d r s'. db_put db i d s = (r, s') \<longrightarrow>
        (case r of Inr _ \<Rightarrow> (\<exists>d'. same_fields d' d \<and> docs s' = (docs s)(i \<mapsto> d')) | Inl _ \<Rightarrow> docs s' = docs s)) \<and>
     (\<forall>s i rv r s'. db_delete db i rv s = (r, s') \<longrightarrow>
        (case r of Inr _ \<Rightarrow> docs s' = (docs s)(i := None) | Inl _ \<Rightarrow> docs s' = docs s))"

text \<open>No write fails: no conflict, no refusal, no lost connection.\<close>

definition accepts_writes :: "'s couch \<Rightarrow> bool" where
  "accepts_writes db \<longleftrightarrow> (\<forall>s i d. \<exists>r s'. db_put db i d s = (Inr r, s'))"

lemma same_fields_refl [simp]: "same_fields d d"
  by (simp add: same_fields_def)

lemma reads_law_get:
  "reads_law db docs \<Longrightarrow> db_get db i s = (case docs s i of Some d \<Rightarrow> Inr d | None \<Rightarrow> Inl (NotFound i), s)"
  by (simp add: reads_law_def)

lemma reads_law_prefix:
  assumes "reads_law db docs"
  obtains rows where "db_prefix db pre s = (Inr rows, s)" "distinct (map row_id rows)"
    "\<forall>r \<in> set rows. row_doc r \<noteq> None"
    "\<And>i d. (\<exists>r \<in> set rows. row_id r = i \<and> row_doc r = Some d) \<longleftrightarrow> starts_with i pre \<and> docs s i = Some d"
proof -
  obtain rows where rows: "db_prefix db pre s = (Inr rows, s) \<and> distinct (map row_id rows) \<and>
      (\<forall>r \<in> set rows. row_doc r \<noteq> None) \<and>
      (\<forall>i d. (\<exists>r \<in> set rows. row_id r = i \<and> row_doc r = Some d) \<longleftrightarrow> starts_with i pre \<and> docs s i = Some d)"
    using assms [unfolded reads_law_def, THEN conjunct2, THEN spec, THEN spec, of pre s] by (elim exE)
  show thesis
    by (rule that [of rows]) (use rows in simp_all)
qed

lemma writes_law_put:
  "writes_law db docs \<Longrightarrow> db_put db i d s = (Inr r, s') \<Longrightarrow>
     \<exists>d'. same_fields d' d \<and> docs s' = (docs s)(i \<mapsto> d')"
  by (fastforce simp: writes_law_def)

lemma writes_law_put_failed:
  "writes_law db docs \<Longrightarrow> db_put db i d s = (Inl e, s') \<Longrightarrow> docs s' = docs s"
  by (fastforce simp: writes_law_def)

lemma writes_law_delete:
  "writes_law db docs \<Longrightarrow> db_delete db i rv s = (Inr r, s') \<Longrightarrow> docs s' = (docs s)(i := None)"
  by (fastforce simp: writes_law_def)

lemma writes_law_delete_failed:
  "writes_law db docs \<Longrightarrow> db_delete db i rv s = (Inl e, s') \<Longrightarrow> docs s' = docs s"
  by (fastforce simp: writes_law_def)

text \<open>
  The concrete database with its listing made free of shadowed entries keeps the law.
\<close>

definition doc_row :: "string \<times> json \<Rightarrow> all_docs_row" where
  "doc_row e = \<lparr>row_id = fst e, row_key = fst e, row_value = JNull, row_doc = Some (snd e)\<rparr>"

definition store_couch :: "store couch" where
  "store_couch = sample_couch\<lparr>db_prefix := (\<lambda>pre s.
     (Inr (map doc_row (filter (\<lambda>e. starts_with (fst e) pre) (AList.clearjunk s))), s))\<rparr>"

lemma store_couch_simps [simp]:
  "db_get store_couch i s = (case map_of s i of Some d \<Rightarrow> Inr d | None \<Rightarrow> Inl (NotFound i), s)"
  "db_put store_couch i d s = (Inr (sample_response i), AList.update i d s)"
  "db_delete store_couch i rv s = (Inr (sample_response i), AList.delete i s)"
  "db_bulk store_couch ds s = (Inr [], s)"
  "db_prefix store_couch pre s =
     (Inr (map doc_row (filter (\<lambda>e. starts_with (fst e) pre) (AList.clearjunk s))), s)"
  "db_find store_couch sel s = (Inr (map snd s), s)"
  by (simp_all add: store_couch_def)

lemma doc_row_simps [simp]:
  "row_id (doc_row e) = fst e" "row_doc (doc_row e) = Some (snd e)"
  by (simp_all add: doc_row_def)

lemma store_couch_reads: "reads_law store_couch map_of"
proof -
  have rows: "(\<exists>r \<in> set (map doc_row (filter (\<lambda>e. starts_with (fst e) pre) (AList.clearjunk s))).
      row_id r = i \<and> row_doc r = Some d) \<longleftrightarrow> starts_with i pre \<and> map_of s i = Some d" for s :: store and pre i d
    using map_of_eq_Some_iff [OF distinct_clearjunk, of s i d] by (auto simp: map_of_clearjunk)
  have ids: "distinct (map row_id (map doc_row (filter (\<lambda>e. starts_with (fst e) pre) (AList.clearjunk s))))"
    for s :: store and pre
    by (simp add: o_def distinct_clearjunk distinct_map_filter)
  show ?thesis
    unfolding reads_law_def using rows ids by simp
qed

lemma store_couch_writes: "writes_law store_couch map_of"
  by (auto simp: writes_law_def update_conv' delete_conv' fun_eq_iff intro!: exI)

lemma store_couch_accepts: "accepts_writes store_couch"
  by (simp add: accepts_writes_def)

lemma accepts_put:
  assumes "accepts_writes db"
  obtains r s' where "db_put db i d s = (Inr r, s')"
  using assms unfolding accepts_writes_def by blast

end
