(* ===== verification/Documents.thy ===== *)
theory Documents
  imports Couch
begin

text \<open>
  The document types of \<open>mosaicfs-common/src/documents.rs\<close>: one record per struct and,
  for each, the JSON reading and writing that \<open>serde\<close> derives from its attributes
  (\<open>rename\<close>, \<open>default\<close>, \<open>skip_serializing_if\<close>, \<open>flatten\<close>, \<open>untagged\<close>). The
  \<open>type\<close> enums with one variant are the tag that is written and required. Every
  reader inverts its writer.
\<close>

named_theorems doc_fields \<open>reading the fields of a written document\<close>
named_theorems doc_codec \<open>readers invert writers\<close>

section \<open>Fields\<close>

text \<open>An object from its fields; a field with no value is skipped.\<close>

definition mk_obj :: "(string \<times> json option) list \<Rightarrow> json" where
  "mk_obj fs = JObj (List.map_filter (\<lambda>(k, v). map_option (Pair k) v) fs)"

definition enc_u64 :: "u64 \<Rightarrow> json" where
  "enc_u64 n = JNum (PosInt n)"

definition enc_time :: "libs \<Rightarrow> time \<Rightarrow> json" where
  "enc_time lb t = JStr (serde_time lb t)"

definition as_time :: "libs \<Rightarrow> json \<Rightarrow> time option" where
  "as_time lb j = Option.bind (as_str j) (parse_time lb)"

definition as_i32 :: "json \<Rightarrow> int option" where
  "as_i32 j = (case as_i64 j of None \<Rightarrow> None
     | Some n \<Rightarrow> if - (2 ^ 31) \<le> n \<and> n < 2 ^ 31 then Some n else None)"

definition enc_list :: "('a \<Rightarrow> json) \<Rightarrow> 'a list \<Rightarrow> json" where
  "enc_list enc xs = JArr (map enc xs)"

text \<open>Documented behaviour of chrono: parsing what its serde instance prints gives the time back.\<close>

definition time_codec :: "libs \<Rightarrow> bool" where
  "time_codec lb \<longleftrightarrow> (\<forall>t. parse_time lb (serde_time lb t) = Some t)"

lemma map_of_map_filter:
  "distinct (map fst fs) \<Longrightarrow>
     map_of (List.map_filter (\<lambda>(k, v). map_option (Pair k) v) fs) k = Option.bind (map_of fs k) id"
proof (induction fs)
  case Nil
  then show ?case by (simp add: List.map_filter_simps)
next
  case (Cons f fs)
  obtain k' v where f: "f = (k', v)" by (cases f)
  have "map_of fs k' = None" using Cons.prems f by (simp add: map_of_eq_None_iff)
  with Cons f show ?case by (cases v) (auto simp: List.map_filter_simps)
qed

lemma jget_mk_obj [doc_fields]:
  "distinct (map fst fs) \<Longrightarrow> jget k (mk_obj fs) = Option.bind (map_of fs k) id"
  by (simp add: mk_obj_def map_of_map_filter)

lemma is_object_mk_obj [simp]: "is_object (mk_obj fs)"
  by (simp add: mk_obj_def)

lemma jget_str_mk_obj [doc_fields]:
  "distinct (map fst fs) \<Longrightarrow>
     jget_str k (mk_obj fs) = Option.bind (Option.bind (map_of fs k) id) as_str"
  by (simp add: jget_str_def jget_mk_obj)

lemma req_field_mk_obj [doc_fields]:
  "distinct (map fst fs) \<Longrightarrow> map_of fs k = Some (Some v) \<Longrightarrow> req_field conv k (mk_obj fs) = conv v"
  by (simp add: req_field_def jget_mk_obj)

lemma default_field_mk_obj [doc_fields]:
  "distinct (map fst fs) \<Longrightarrow> map_of fs k = Some (Some v) \<Longrightarrow>
     default_field conv d k (mk_obj fs) = conv v"
  by (simp add: default_field_def jget_mk_obj)

lemma opt_field_mk_obj [doc_fields]:
  "distinct (map fst fs) \<Longrightarrow> map_of fs k = Some v \<Longrightarrow> opt_field conv k (mk_obj fs) = opt_read conv v"
  by (simp add: opt_field_def jget_mk_obj)

lemma opt_read_map:
  assumes "\<And>x. v = Some x \<Longrightarrow> conv (enc x) = Some x \<and> enc x \<noteq> JNull"
  shows "opt_read conv (map_option enc v) = Some v"
  using assms by (cases v) (auto simp: opt_read_def split: json.split)

lemma opt_read_value: "v \<noteq> Some JNull \<Longrightarrow> opt_read Some v = Some v"
  by (cases v) (auto simp: opt_read_def split: json.split)

lemma those_map: "(\<And>x. x \<in> set xs \<Longrightarrow> f x = Some (g x)) \<Longrightarrow> those (map f xs) = Some (map g xs)"
  by (induction xs) auto

lemma list_of_enc_list:
  "(\<And>x. x \<in> set xs \<Longrightarrow> conv (enc x) = Some x) \<Longrightarrow> list_of conv (enc_list enc xs) = Some xs"
  using those_map [of xs "conv \<circ> enc" id] by (simp add: enc_list_def)

lemma scalar_codec [doc_codec]:
  "as_u64 (enc_u64 n) = Some n"
  "enc_u64 n \<noteq> JNull"
  "enc_time lb t \<noteq> JNull"
  "enc_list enc xs \<noteq> JNull"
  "time_codec lb \<Longrightarrow> as_time lb (enc_time lb t) = Some t"
  by (simp_all add: enc_u64_def enc_time_def as_time_def time_codec_def enc_list_def)

lemma as_i32_num_of_int [doc_codec]:
  "- (2 ^ 31) \<le> n \<Longrightarrow> n < 2 ^ 31 \<Longrightarrow> as_i32 (num_of_int n) = Some n"
  using as_i64_num_of_int [of n] by (simp add: as_i32_def)

lemmas [doc_codec] = as_i64_num_of_int
lemmas [doc_codec] = opt_read_map opt_read_value list_of_enc_list

section \<open>Enumerations\<close>

datatype file_status = FileActive | FileDeleted

fun enc_file_status :: "file_status \<Rightarrow> json" where
  "enc_file_status FileActive = JStr ''active''"
| "enc_file_status FileDeleted = JStr ''deleted''"

definition dec_file_status :: "json \<Rightarrow> file_status option" where
  "dec_file_status j =
     (if j = JStr ''active'' then Some FileActive
      else if j = JStr ''deleted'' then Some FileDeleted else None)"

datatype node_status = NodeOnline | NodeOffline | NodeDegraded

fun enc_node_status :: "node_status \<Rightarrow> json" where
  "enc_node_status NodeOnline = JStr ''online''"
| "enc_node_status NodeOffline = JStr ''offline''"
| "enc_node_status NodeDegraded = JStr ''degraded''"

definition dec_node_status :: "json \<Rightarrow> node_status option" where
  "dec_node_status j =
     (if j = JStr ''online'' then Some NodeOnline
      else if j = JStr ''offline'' then Some NodeOffline
      else if j = JStr ''degraded'' then Some NodeDegraded else None)"

datatype step_result = Include | Exclude | Continue

fun enc_step_result :: "step_result \<Rightarrow> json" where
  "enc_step_result Include = JStr ''include''"
| "enc_step_result Exclude = JStr ''exclude''"
| "enc_step_result Continue = JStr ''continue''"

definition dec_step_result :: "json \<Rightarrow> step_result option" where
  "dec_step_result j =
     (if j = JStr ''include'' then Some Include
      else if j = JStr ''exclude'' then Some Exclude
      else if j = JStr ''continue'' then Some Continue else None)"

datatype conflict_policy = LastWriteWins | SuffixNodeId

fun enc_conflict_policy :: "conflict_policy \<Rightarrow> json" where
  "enc_conflict_policy LastWriteWins = JStr ''last_write_wins''"
| "enc_conflict_policy SuffixNodeId = JStr ''suffix_node_id''"

definition dec_conflict_policy :: "json \<Rightarrow> conflict_policy option" where
  "dec_conflict_policy j =
     (if j = JStr ''last_write_wins'' then Some LastWriteWins
      else if j = JStr ''suffix_node_id'' then Some SuffixNodeId else None)"

datatype mount_strategy = PrefixReplace | Flatten

fun enc_mount_strategy :: "mount_strategy \<Rightarrow> json" where
  "enc_mount_strategy PrefixReplace = JStr ''prefix_replace''"
| "enc_mount_strategy Flatten = JStr ''flatten''"

definition dec_mount_strategy :: "json \<Rightarrow> mount_strategy option" where
  "dec_mount_strategy j =
     (if j = JStr ''prefix_replace'' then Some PrefixReplace
      else if j = JStr ''flatten'' then Some Flatten else None)"

lemma enum_codec [doc_codec]:
  "dec_file_status (enc_file_status a) = Some a"
  "dec_node_status (enc_node_status b) = Some b"
  "dec_step_result (enc_step_result c) = Some c"
  "dec_conflict_policy (enc_conflict_policy p) = Some p"
  "dec_mount_strategy (enc_mount_strategy m) = Some m"
  by (cases a; cases b; cases c; cases p; cases m;
      simp add: dec_file_status_def dec_node_status_def dec_step_result_def
        dec_conflict_policy_def dec_mount_strategy_def)+

lemma enum_not_null [doc_codec]: "enc_step_result c \<noteq> JNull"
  by (cases c) simp_all

text \<open>\<open>CredentialPermissions\<close> and \<open>AccessSource\<close> are objects with one field.\<close>

definition enc_scope :: "string \<Rightarrow> json" where
  "enc_scope s = mk_obj [(''scope'', Some (JStr s))]"

definition enc_access_source :: "string \<Rightarrow> json" where
  "enc_access_source s = mk_obj [(''node_id'', Some (JStr s))]"

lemma one_field_codec [doc_codec]:
  "req_field as_str ''scope'' (enc_scope s) = Some s"
  "req_field as_str ''node_id'' (enc_access_source s) = Some s"
  by (simp_all add: enc_scope_def enc_access_source_def doc_fields)

section \<open>Documents with derived readers and writers\<close>

record file_source =
  fs_node_id :: string
  fs_export_path :: string
  fs_export_parent :: string

definition file_source_to_json :: "file_source \<Rightarrow> json" where
  "file_source_to_json d = mk_obj
     [(''node_id'', Some (JStr (fs_node_id d))),
      (''export_path'', Some (JStr (fs_export_path d))),
      (''export_parent'', Some (JStr (fs_export_parent d)))]"

definition file_source_of_json :: "json \<Rightarrow> file_source option" where
  "file_source_of_json j =
     (if is_object j then
        do {
          x1 \<leftarrow> req_field (as_str) ''node_id'' j;
          x2 \<leftarrow> req_field (as_str) ''export_path'' j;
          x3 \<leftarrow> req_field (as_str) ''export_parent'' j;
          Some \<lparr>fs_node_id = x1, fs_export_path = x2, fs_export_parent = x3\<rparr>
        }
      else None)"

lemma file_source_roundtrip [doc_codec]:
  "file_source_of_json (file_source_to_json d) = Some d"
  by (cases d) (auto simp: file_source_to_json_def file_source_of_json_def doc_fields doc_codec)

lemma file_source_not_null [doc_fields]: "file_source_to_json d \<noteq> JNull" "is_object (file_source_to_json d)"
  by (simp_all add: file_source_to_json_def mk_obj_def)

record migrated_from =
  mf_node_id :: string
  mf_export_path :: string
  mf_migrated_at :: time

definition migrated_from_to_json :: "libs \<Rightarrow> migrated_from \<Rightarrow> json" where
  "migrated_from_to_json lb d = mk_obj
     [(''node_id'', Some (JStr (mf_node_id d))),
      (''export_path'', Some (JStr (mf_export_path d))),
      (''migrated_at'', Some (enc_time lb (mf_migrated_at d)))]"

definition migrated_from_of_json :: "libs \<Rightarrow> json \<Rightarrow> migrated_from option" where
  "migrated_from_of_json lb j =
     (if is_object j then
        do {
          x1 \<leftarrow> req_field (as_str) ''node_id'' j;
          x2 \<leftarrow> req_field (as_str) ''export_path'' j;
          x3 \<leftarrow> req_field (as_time lb) ''migrated_at'' j;
          Some \<lparr>mf_node_id = x1, mf_export_path = x2, mf_migrated_at = x3\<rparr>
        }
      else None)"

lemma migrated_from_roundtrip [doc_codec]:
  assumes "time_codec lb"
  shows "migrated_from_of_json lb (migrated_from_to_json lb d) = Some d"
  using assms
  by (cases d) (auto simp: migrated_from_to_json_def migrated_from_of_json_def doc_fields doc_codec)

lemma migrated_from_not_null [doc_fields]: "migrated_from_to_json lb d \<noteq> JNull" "is_object (migrated_from_to_json lb d)"
  by (simp_all add: migrated_from_to_json_def mk_obj_def)

record file_document =
  fd_inode :: u64
  fd_name :: string
  fd_source :: file_source
  fd_size :: u64
  fd_mtime :: time
  fd_mime_type :: "string option"
  fd_status :: file_status
  fd_deleted_at :: "time option"
  fd_migrated_from :: "migrated_from option"

definition file_document_to_json :: "libs \<Rightarrow> file_document \<Rightarrow> json" where
  "file_document_to_json lb d = mk_obj
     [(''type'', Some (JStr ''file'')),
      (''inode'', Some (enc_u64 (fd_inode d))),
      (''name'', Some (JStr (fd_name d))),
      (''source'', Some (file_source_to_json (fd_source d))),
      (''size'', Some (enc_u64 (fd_size d))),
      (''mtime'', Some (enc_time lb (fd_mtime d))),
      (''mime_type'', map_option (JStr) (fd_mime_type d)),
      (''status'', Some (enc_file_status (fd_status d))),
      (''deleted_at'', map_option (enc_time lb) (fd_deleted_at d)),
      (''migrated_from'', map_option (migrated_from_to_json lb) (fd_migrated_from d))]"

definition file_document_of_json :: "libs \<Rightarrow> json \<Rightarrow> file_document option" where
  "file_document_of_json lb j =
     (if is_object j \<and> jget_str ''type'' j = Some ''file'' then
        do {
          x1 \<leftarrow> req_field (as_u64) ''inode'' j;
          x2 \<leftarrow> req_field (as_str) ''name'' j;
          x3 \<leftarrow> req_field (file_source_of_json) ''source'' j;
          x4 \<leftarrow> req_field (as_u64) ''size'' j;
          x5 \<leftarrow> req_field (as_time lb) ''mtime'' j;
          x6 \<leftarrow> opt_field (as_str) ''mime_type'' j;
          x7 \<leftarrow> req_field (dec_file_status) ''status'' j;
          x8 \<leftarrow> opt_field (as_time lb) ''deleted_at'' j;
          x9 \<leftarrow> opt_field (migrated_from_of_json lb) ''migrated_from'' j;
          Some \<lparr>fd_inode = x1, fd_name = x2, fd_source = x3, fd_size = x4, fd_mtime = x5, fd_mime_type = x6, fd_status = x7, fd_deleted_at = x8, fd_migrated_from = x9\<rparr>
        }
      else None)"

lemma file_document_roundtrip [doc_codec]:
  assumes "time_codec lb"
  shows "file_document_of_json lb (file_document_to_json lb d) = Some d"
  using assms
  by (cases d) (auto simp: file_document_to_json_def file_document_of_json_def doc_fields doc_codec)

lemma file_document_not_null [doc_fields]: "file_document_to_json lb d \<noteq> JNull" "is_object (file_document_to_json lb d)"
  by (simp_all add: file_document_to_json_def mk_obj_def)

record node_availability =
  na_node_id :: string
  na_local_mount_path :: string
  na_mount_type :: string
  na_last_seen :: time

definition node_availability_to_json :: "libs \<Rightarrow> node_availability \<Rightarrow> json" where
  "node_availability_to_json lb d = mk_obj
     [(''node_id'', Some (JStr (na_node_id d))),
      (''local_mount_path'', Some (JStr (na_local_mount_path d))),
      (''mount_type'', Some (JStr (na_mount_type d))),
      (''last_seen'', Some (enc_time lb (na_last_seen d)))]"

definition node_availability_of_json :: "libs \<Rightarrow> json \<Rightarrow> node_availability option" where
  "node_availability_of_json lb j =
     (if is_object j then
        do {
          x1 \<leftarrow> req_field (as_str) ''node_id'' j;
          x2 \<leftarrow> req_field (as_str) ''local_mount_path'' j;
          x3 \<leftarrow> req_field (as_str) ''mount_type'' j;
          x4 \<leftarrow> req_field (as_time lb) ''last_seen'' j;
          Some \<lparr>na_node_id = x1, na_local_mount_path = x2, na_mount_type = x3, na_last_seen = x4\<rparr>
        }
      else None)"

lemma node_availability_roundtrip [doc_codec]:
  assumes "time_codec lb"
  shows "node_availability_of_json lb (node_availability_to_json lb d) = Some d"
  using assms
  by (cases d) (auto simp: node_availability_to_json_def node_availability_of_json_def doc_fields doc_codec)

lemma node_availability_not_null [doc_fields]: "node_availability_to_json lb d \<noteq> JNull" "is_object (node_availability_to_json lb d)"
  by (simp_all add: node_availability_to_json_def mk_obj_def)

record filesystem_document =
  fsd_filesystem_id :: string
  fsd_friendly_name :: string
  fsd_owning_node_id :: string
  fsd_export_root :: string
  fsd_availability :: "node_availability list"
  fsd_created_at :: time

definition filesystem_document_to_json :: "libs \<Rightarrow> filesystem_document \<Rightarrow> json" where
  "filesystem_document_to_json lb d = mk_obj
     [(''type'', Some (JStr ''filesystem'')),
      (''filesystem_id'', Some (JStr (fsd_filesystem_id d))),
      (''friendly_name'', Some (JStr (fsd_friendly_name d))),
      (''owning_node_id'', Some (JStr (fsd_owning_node_id d))),
      (''export_root'', Some (JStr (fsd_export_root d))),
      (''availability'', Some (enc_list (node_availability_to_json lb) (fsd_availability d))),
      (''created_at'', Some (enc_time lb (fsd_created_at d)))]"

definition filesystem_document_of_json :: "libs \<Rightarrow> json \<Rightarrow> filesystem_document option" where
  "filesystem_document_of_json lb j =
     (if is_object j \<and> jget_str ''type'' j = Some ''filesystem'' then
        do {
          x1 \<leftarrow> req_field (as_str) ''filesystem_id'' j;
          x2 \<leftarrow> req_field (as_str) ''friendly_name'' j;
          x3 \<leftarrow> req_field (as_str) ''owning_node_id'' j;
          x4 \<leftarrow> req_field (as_str) ''export_root'' j;
          x5 \<leftarrow> default_field (list_of (node_availability_of_json lb)) [] ''availability'' j;
          x6 \<leftarrow> req_field (as_time lb) ''created_at'' j;
          Some \<lparr>fsd_filesystem_id = x1, fsd_friendly_name = x2, fsd_owning_node_id = x3, fsd_export_root = x4, fsd_availability = x5, fsd_created_at = x6\<rparr>
        }
      else None)"

lemma filesystem_document_roundtrip [doc_codec]:
  assumes "time_codec lb"
  shows "filesystem_document_of_json lb (filesystem_document_to_json lb d) = Some d"
  using assms
  by (cases d) (auto simp: filesystem_document_to_json_def filesystem_document_of_json_def doc_fields doc_codec)

lemma filesystem_document_not_null [doc_fields]: "filesystem_document_to_json lb d \<noteq> JNull" "is_object (filesystem_document_to_json lb d)"
  by (simp_all add: filesystem_document_to_json_def mk_obj_def)

record storage_entry =
  se_filesystem_id :: string
  se_mount_point :: string
  se_fs_type :: string
  se_device :: string
  se_capacity_bytes :: u64
  se_used_bytes :: u64
  se_watch_paths_on_fs :: "string list"
  se_volume :: "json option"
  se_disk :: "json option"

definition storage_entry_to_json :: "storage_entry \<Rightarrow> json" where
  "storage_entry_to_json d = mk_obj
     [(''filesystem_id'', Some (JStr (se_filesystem_id d))),
      (''mount_point'', Some (JStr (se_mount_point d))),
      (''fs_type'', Some (JStr (se_fs_type d))),
      (''device'', Some (JStr (se_device d))),
      (''capacity_bytes'', Some (enc_u64 (se_capacity_bytes d))),
      (''used_bytes'', Some (enc_u64 (se_used_bytes d))),
      (''watch_paths_on_fs'', Some (enc_list (JStr) (se_watch_paths_on_fs d))),
      (''volume'', se_volume d),
      (''disk'', se_disk d)]"

definition storage_entry_of_json :: "json \<Rightarrow> storage_entry option" where
  "storage_entry_of_json j =
     (if is_object j then
        do {
          x1 \<leftarrow> req_field (as_str) ''filesystem_id'' j;
          x2 \<leftarrow> req_field (as_str) ''mount_point'' j;
          x3 \<leftarrow> req_field (as_str) ''fs_type'' j;
          x4 \<leftarrow> req_field (as_str) ''device'' j;
          x5 \<leftarrow> req_field (as_u64) ''capacity_bytes'' j;
          x6 \<leftarrow> req_field (as_u64) ''used_bytes'' j;
          x7 \<leftarrow> default_field (list_of (as_str)) [] ''watch_paths_on_fs'' j;
          x8 \<leftarrow> opt_field (Some) ''volume'' j;
          x9 \<leftarrow> opt_field (Some) ''disk'' j;
          Some \<lparr>se_filesystem_id = x1, se_mount_point = x2, se_fs_type = x3, se_device = x4, se_capacity_bytes = x5, se_used_bytes = x6, se_watch_paths_on_fs = x7, se_volume = x8, se_disk = x9\<rparr>
        }
      else None)"

lemma storage_entry_roundtrip [doc_codec]:
  assumes "se_volume d \<noteq> Some JNull" "se_disk d \<noteq> Some JNull"
  shows "storage_entry_of_json (storage_entry_to_json d) = Some d"
  using assms
  by (cases d) (auto simp: storage_entry_to_json_def storage_entry_of_json_def doc_fields doc_codec)

lemma storage_entry_not_null [doc_fields]: "storage_entry_to_json d \<noteq> JNull" "is_object (storage_entry_to_json d)"
  by (simp_all add: storage_entry_to_json_def mk_obj_def)

record network_mount =
  nm_mount_id :: string
  nm_filesystem_id :: string
  nm_remote_node_id :: string
  nm_remote_base_export_path :: string
  nm_local_mount_path :: string
  nm_mount_type :: string
  nm_priority :: int

definition network_mount_to_json :: "network_mount \<Rightarrow> json" where
  "network_mount_to_json d = mk_obj
     [(''mount_id'', Some (JStr (nm_mount_id d))),
      (''filesystem_id'', Some (JStr (nm_filesystem_id d))),
      (''remote_node_id'', Some (JStr (nm_remote_node_id d))),
      (''remote_base_export_path'', Some (JStr (nm_remote_base_export_path d))),
      (''local_mount_path'', Some (JStr (nm_local_mount_path d))),
      (''mount_type'', Some (JStr (nm_mount_type d))),
      (''priority'', Some (num_of_int (nm_priority d)))]"

definition network_mount_of_json :: "json \<Rightarrow> network_mount option" where
  "network_mount_of_json j =
     (if is_object j then
        do {
          x1 \<leftarrow> req_field (as_str) ''mount_id'' j;
          x2 \<leftarrow> req_field (as_str) ''filesystem_id'' j;
          x3 \<leftarrow> req_field (as_str) ''remote_node_id'' j;
          x4 \<leftarrow> req_field (as_str) ''remote_base_export_path'' j;
          x5 \<leftarrow> req_field (as_str) ''local_mount_path'' j;
          x6 \<leftarrow> req_field (as_str) ''mount_type'' j;
          x7 \<leftarrow> default_field as_i32 0 ''priority'' j;
          Some \<lparr>nm_mount_id = x1, nm_filesystem_id = x2, nm_remote_node_id = x3, nm_remote_base_export_path = x4, nm_local_mount_path = x5, nm_mount_type = x6, nm_priority = x7\<rparr>
        }
      else None)"

lemma network_mount_roundtrip [doc_codec]:
  assumes "- (2 ^ 31) \<le> nm_priority d" "nm_priority d < 2 ^ 31"
  shows "network_mount_of_json (network_mount_to_json d) = Some d"
  using assms
  by (cases d) (auto simp: network_mount_to_json_def network_mount_of_json_def doc_fields doc_codec)

lemma network_mount_not_null [doc_fields]: "network_mount_to_json d \<noteq> JNull" "is_object (network_mount_to_json d)"
  by (simp_all add: network_mount_to_json_def mk_obj_def)

record node_document =
  nd_friendly_name :: string
  nd_platform :: string
  nd_status :: node_status
  nd_last_heartbeat :: time
  nd_vfs_capable :: bool
  nd_vfs_backend :: "string option"
  nd_capabilities :: "string list"
  nd_storage :: "(storage_entry list) option"
  nd_network_mounts :: "(network_mount list) option"

definition node_document_to_json :: "libs \<Rightarrow> node_document \<Rightarrow> json" where
  "node_document_to_json lb d = mk_obj
     [(''type'', Some (JStr ''node'')),
      (''friendly_name'', Some (JStr (nd_friendly_name d))),
      (''platform'', Some (JStr (nd_platform d))),
      (''status'', Some (enc_node_status (nd_status d))),
      (''last_heartbeat'', Some (enc_time lb (nd_last_heartbeat d))),
      (''vfs_capable'', Some (JBool (nd_vfs_capable d))),
      (''vfs_backend'', map_option (JStr) (nd_vfs_backend d)),
      (''capabilities'', Some (enc_list (JStr) (nd_capabilities d))),
      (''storage'', map_option (enc_list (storage_entry_to_json)) (nd_storage d)),
      (''network_mounts'', map_option (enc_list (network_mount_to_json)) (nd_network_mounts d))]"

definition node_document_of_json :: "libs \<Rightarrow> json \<Rightarrow> node_document option" where
  "node_document_of_json lb j =
     (if is_object j \<and> jget_str ''type'' j = Some ''node'' then
        do {
          x1 \<leftarrow> req_field (as_str) ''friendly_name'' j;
          x2 \<leftarrow> req_field (as_str) ''platform'' j;
          x3 \<leftarrow> req_field (dec_node_status) ''status'' j;
          x4 \<leftarrow> req_field (as_time lb) ''last_heartbeat'' j;
          x5 \<leftarrow> default_field as_bool False ''vfs_capable'' j;
          x6 \<leftarrow> opt_field (as_str) ''vfs_backend'' j;
          x7 \<leftarrow> default_field (list_of (as_str)) [] ''capabilities'' j;
          x8 \<leftarrow> opt_field (list_of (storage_entry_of_json)) ''storage'' j;
          x9 \<leftarrow> opt_field (list_of (network_mount_of_json)) ''network_mounts'' j;
          Some \<lparr>nd_friendly_name = x1, nd_platform = x2, nd_status = x3, nd_last_heartbeat = x4, nd_vfs_capable = x5, nd_vfs_backend = x6, nd_capabilities = x7, nd_storage = x8, nd_network_mounts = x9\<rparr>
        }
      else None)"

lemma node_document_roundtrip [doc_codec]:
  assumes "time_codec lb" "\<forall>xs. nd_storage d = Some xs \<longrightarrow> (\<forall>x \<in> set xs. se_volume x \<noteq> Some JNull \<and> se_disk x \<noteq> Some JNull)" "\<forall>xs. nd_network_mounts d = Some xs \<longrightarrow> (\<forall>x \<in> set xs. - (2 ^ 31) \<le> nm_priority x \<and> nm_priority x < 2 ^ 31)"
  shows "node_document_of_json lb (node_document_to_json lb d) = Some d"
  using assms
  by (cases d) (auto simp: node_document_to_json_def node_document_of_json_def doc_fields doc_codec)

lemma node_document_not_null [doc_fields]: "node_document_to_json lb d \<noteq> JNull" "is_object (node_document_to_json lb d)"
  by (simp_all add: node_document_to_json_def mk_obj_def)

record credential_document =
  cd_access_key_id :: string
  cd_secret_key_hash :: string
  cd_name :: string
  cd_enabled :: bool
  cd_created_at :: time
  cd_last_seen :: "time option"
  cd_permissions :: string

definition credential_document_to_json :: "libs \<Rightarrow> credential_document \<Rightarrow> json" where
  "credential_document_to_json lb d = mk_obj
     [(''type'', Some (JStr ''credential'')),
      (''access_key_id'', Some (JStr (cd_access_key_id d))),
      (''secret_key_hash'', Some (JStr (cd_secret_key_hash d))),
      (''name'', Some (JStr (cd_name d))),
      (''enabled'', Some (JBool (cd_enabled d))),
      (''created_at'', Some (enc_time lb (cd_created_at d))),
      (''last_seen'', map_option (enc_time lb) (cd_last_seen d)),
      (''permissions'', Some (enc_scope (cd_permissions d)))]"

definition credential_document_of_json :: "libs \<Rightarrow> json \<Rightarrow> credential_document option" where
  "credential_document_of_json lb j =
     (if is_object j \<and> jget_str ''type'' j = Some ''credential'' then
        do {
          x1 \<leftarrow> req_field (as_str) ''access_key_id'' j;
          x2 \<leftarrow> req_field (as_str) ''secret_key_hash'' j;
          x3 \<leftarrow> req_field (as_str) ''name'' j;
          x4 \<leftarrow> req_field (as_bool) ''enabled'' j;
          x5 \<leftarrow> req_field (as_time lb) ''created_at'' j;
          x6 \<leftarrow> opt_field (as_time lb) ''last_seen'' j;
          x7 \<leftarrow> req_field (req_field as_str ''scope'') ''permissions'' j;
          Some \<lparr>cd_access_key_id = x1, cd_secret_key_hash = x2, cd_name = x3, cd_enabled = x4, cd_created_at = x5, cd_last_seen = x6, cd_permissions = x7\<rparr>
        }
      else None)"

lemma credential_document_roundtrip [doc_codec]:
  assumes "time_codec lb"
  shows "credential_document_of_json lb (credential_document_to_json lb d) = Some d"
  using assms
  by (cases d) (auto simp: credential_document_to_json_def credential_document_of_json_def doc_fields doc_codec)

lemma credential_document_not_null [doc_fields]: "credential_document_to_json lb d \<noteq> JNull" "is_object (credential_document_to_json lb d)"
  by (simp_all add: credential_document_to_json_def mk_obj_def)

record agent_error =
  ae_time :: time
  ae_subsystem :: string
  ae_level :: string
  ae_message :: string

definition agent_error_to_json :: "libs \<Rightarrow> agent_error \<Rightarrow> json" where
  "agent_error_to_json lb d = mk_obj
     [(''time'', Some (enc_time lb (ae_time d))),
      (''subsystem'', Some (JStr (ae_subsystem d))),
      (''level'', Some (JStr (ae_level d))),
      (''message'', Some (JStr (ae_message d)))]"

definition agent_error_of_json :: "libs \<Rightarrow> json \<Rightarrow> agent_error option" where
  "agent_error_of_json lb j =
     (if is_object j then
        do {
          x1 \<leftarrow> req_field (as_time lb) ''time'' j;
          x2 \<leftarrow> req_field (as_str) ''subsystem'' j;
          x3 \<leftarrow> req_field (as_str) ''level'' j;
          x4 \<leftarrow> req_field (as_str) ''message'' j;
          Some \<lparr>ae_time = x1, ae_subsystem = x2, ae_level = x3, ae_message = x4\<rparr>
        }
      else None)"

lemma agent_error_roundtrip [doc_codec]:
  assumes "time_codec lb"
  shows "agent_error_of_json lb (agent_error_to_json lb d) = Some d"
  using assms
  by (cases d) (auto simp: agent_error_to_json_def agent_error_of_json_def doc_fields doc_codec)

lemma agent_error_not_null [doc_fields]: "agent_error_to_json lb d \<noteq> JNull" "is_object (agent_error_to_json lb d)"
  by (simp_all add: agent_error_to_json_def mk_obj_def)

record agent_status_document =
  asd_node_id :: string
  asd_updated_at :: time
  asd_overall :: string
  asd_subsystems :: json
  asd_recent_errors :: "agent_error list"

definition agent_status_document_to_json :: "libs \<Rightarrow> agent_status_document \<Rightarrow> json" where
  "agent_status_document_to_json lb d = mk_obj
     [(''type'', Some (JStr ''agent_status'')),
      (''node_id'', Some (JStr (asd_node_id d))),
      (''updated_at'', Some (enc_time lb (asd_updated_at d))),
      (''overall'', Some (JStr (asd_overall d))),
      (''subsystems'', Some (id (asd_subsystems d))),
      (''recent_errors'', Some (enc_list (agent_error_to_json lb) (asd_recent_errors d)))]"

definition agent_status_document_of_json :: "libs \<Rightarrow> json \<Rightarrow> agent_status_document option" where
  "agent_status_document_of_json lb j =
     (if is_object j \<and> jget_str ''type'' j = Some ''agent_status'' then
        do {
          x1 \<leftarrow> req_field (as_str) ''node_id'' j;
          x2 \<leftarrow> req_field (as_time lb) ''updated_at'' j;
          x3 \<leftarrow> req_field (as_str) ''overall'' j;
          x4 \<leftarrow> req_field (Some) ''subsystems'' j;
          x5 \<leftarrow> default_field (list_of (agent_error_of_json lb)) [] ''recent_errors'' j;
          Some \<lparr>asd_node_id = x1, asd_updated_at = x2, asd_overall = x3, asd_subsystems = x4, asd_recent_errors = x5\<rparr>
        }
      else None)"

lemma agent_status_document_roundtrip [doc_codec]:
  assumes "time_codec lb"
  shows "agent_status_document_of_json lb (agent_status_document_to_json lb d) = Some d"
  using assms
  by (cases d) (auto simp: agent_status_document_to_json_def agent_status_document_of_json_def doc_fields doc_codec)

lemma agent_status_document_not_null [doc_fields]: "agent_status_document_to_json lb d \<noteq> JNull" "is_object (agent_status_document_to_json lb d)"
  by (simp_all add: agent_status_document_to_json_def mk_obj_def)

record filesystem_snapshot =
  fss_filesystem_id :: string
  fss_mount_point :: string
  fss_used_bytes :: u64
  fss_available_bytes :: u64

definition filesystem_snapshot_to_json :: "filesystem_snapshot \<Rightarrow> json" where
  "filesystem_snapshot_to_json d = mk_obj
     [(''filesystem_id'', Some (JStr (fss_filesystem_id d))),
      (''mount_point'', Some (JStr (fss_mount_point d))),
      (''used_bytes'', Some (enc_u64 (fss_used_bytes d))),
      (''available_bytes'', Some (enc_u64 (fss_available_bytes d)))]"

definition filesystem_snapshot_of_json :: "json \<Rightarrow> filesystem_snapshot option" where
  "filesystem_snapshot_of_json j =
     (if is_object j then
        do {
          x1 \<leftarrow> req_field (as_str) ''filesystem_id'' j;
          x2 \<leftarrow> req_field (as_str) ''mount_point'' j;
          x3 \<leftarrow> req_field (as_u64) ''used_bytes'' j;
          x4 \<leftarrow> req_field (as_u64) ''available_bytes'' j;
          Some \<lparr>fss_filesystem_id = x1, fss_mount_point = x2, fss_used_bytes = x3, fss_available_bytes = x4\<rparr>
        }
      else None)"

lemma filesystem_snapshot_roundtrip [doc_codec]:
  "filesystem_snapshot_of_json (filesystem_snapshot_to_json d) = Some d"
  by (cases d) (auto simp: filesystem_snapshot_to_json_def filesystem_snapshot_of_json_def doc_fields doc_codec)

lemma filesystem_snapshot_not_null [doc_fields]: "filesystem_snapshot_to_json d \<noteq> JNull" "is_object (filesystem_snapshot_to_json d)"
  by (simp_all add: filesystem_snapshot_to_json_def mk_obj_def)

record cloud_snapshot =
  cs_used_bytes :: u64
  cs_quota_bytes :: "u64 option"

definition cloud_snapshot_to_json :: "cloud_snapshot \<Rightarrow> json" where
  "cloud_snapshot_to_json d = mk_obj
     [(''used_bytes'', Some (enc_u64 (cs_used_bytes d))),
      (''quota_bytes'', map_option (enc_u64) (cs_quota_bytes d))]"

definition cloud_snapshot_of_json :: "json \<Rightarrow> cloud_snapshot option" where
  "cloud_snapshot_of_json j =
     (if is_object j then
        do {
          x1 \<leftarrow> req_field (as_u64) ''used_bytes'' j;
          x2 \<leftarrow> opt_field (as_u64) ''quota_bytes'' j;
          Some \<lparr>cs_used_bytes = x1, cs_quota_bytes = x2\<rparr>
        }
      else None)"

lemma cloud_snapshot_roundtrip [doc_codec]:
  "cloud_snapshot_of_json (cloud_snapshot_to_json d) = Some d"
  by (cases d) (auto simp: cloud_snapshot_to_json_def cloud_snapshot_of_json_def doc_fields doc_codec)

lemma cloud_snapshot_not_null [doc_fields]: "cloud_snapshot_to_json d \<noteq> JNull" "is_object (cloud_snapshot_to_json d)"
  by (simp_all add: cloud_snapshot_to_json_def mk_obj_def)

record utilization_document =
  ud_node_id :: string
  ud_captured_at :: time
  ud_filesystems :: "(filesystem_snapshot list) option"
  ud_cloud :: "cloud_snapshot option"

definition utilization_document_to_json :: "libs \<Rightarrow> utilization_document \<Rightarrow> json" where
  "utilization_document_to_json lb d = mk_obj
     [(''type'', Some (JStr ''utilization_snapshot'')),
      (''node_id'', Some (JStr (ud_node_id d))),
      (''captured_at'', Some (enc_time lb (ud_captured_at d))),
      (''filesystems'', map_option (enc_list (filesystem_snapshot_to_json)) (ud_filesystems d)),
      (''cloud'', map_option (cloud_snapshot_to_json) (ud_cloud d))]"

definition utilization_document_of_json :: "libs \<Rightarrow> json \<Rightarrow> utilization_document option" where
  "utilization_document_of_json lb j =
     (if is_object j \<and> jget_str ''type'' j = Some ''utilization_snapshot'' then
        do {
          x1 \<leftarrow> req_field (as_str) ''node_id'' j;
          x2 \<leftarrow> req_field (as_time lb) ''captured_at'' j;
          x3 \<leftarrow> opt_field (list_of (filesystem_snapshot_of_json)) ''filesystems'' j;
          x4 \<leftarrow> opt_field (cloud_snapshot_of_json) ''cloud'' j;
          Some \<lparr>ud_node_id = x1, ud_captured_at = x2, ud_filesystems = x3, ud_cloud = x4\<rparr>
        }
      else None)"

lemma utilization_document_roundtrip [doc_codec]:
  assumes "time_codec lb"
  shows "utilization_document_of_json lb (utilization_document_to_json lb d) = Some d"
  using assms
  by (cases d) (auto simp: utilization_document_to_json_def utilization_document_of_json_def doc_fields doc_codec)

lemma utilization_document_not_null [doc_fields]: "utilization_document_to_json lb d \<noteq> JNull" "is_object (utilization_document_to_json lb d)"
  by (simp_all add: utilization_document_to_json_def mk_obj_def)

record label_assignment =
  la_file_id :: string
  la_labels :: "string list"
  la_updated_at :: time
  la_updated_by :: string

definition label_assignment_to_json :: "libs \<Rightarrow> label_assignment \<Rightarrow> json" where
  "label_assignment_to_json lb d = mk_obj
     [(''type'', Some (JStr ''label_assignment'')),
      (''file_id'', Some (JStr (la_file_id d))),
      (''labels'', Some (enc_list (JStr) (la_labels d))),
      (''updated_at'', Some (enc_time lb (la_updated_at d))),
      (''updated_by'', Some (JStr (la_updated_by d)))]"

definition label_assignment_of_json :: "libs \<Rightarrow> json \<Rightarrow> label_assignment option" where
  "label_assignment_of_json lb j =
     (if is_object j \<and> jget_str ''type'' j = Some ''label_assignment'' then
        do {
          x1 \<leftarrow> req_field (as_str) ''file_id'' j;
          x2 \<leftarrow> req_field (list_of (as_str)) ''labels'' j;
          x3 \<leftarrow> req_field (as_time lb) ''updated_at'' j;
          x4 \<leftarrow> req_field (as_str) ''updated_by'' j;
          Some \<lparr>la_file_id = x1, la_labels = x2, la_updated_at = x3, la_updated_by = x4\<rparr>
        }
      else None)"

lemma label_assignment_roundtrip [doc_codec]:
  assumes "time_codec lb"
  shows "label_assignment_of_json lb (label_assignment_to_json lb d) = Some d"
  using assms
  by (cases d) (auto simp: label_assignment_to_json_def label_assignment_of_json_def doc_fields doc_codec)

lemma label_assignment_not_null [doc_fields]: "label_assignment_to_json lb d \<noteq> JNull" "is_object (label_assignment_to_json lb d)"
  by (simp_all add: label_assignment_to_json_def mk_obj_def)

record label_rule =
  lr_node_id :: string
  lr_path_prefix :: string
  lr_labels :: "string list"
  lr_name :: string
  lr_enabled :: bool
  lr_created_at :: time

definition label_rule_to_json :: "libs \<Rightarrow> label_rule \<Rightarrow> json" where
  "label_rule_to_json lb d = mk_obj
     [(''type'', Some (JStr ''label_rule'')),
      (''node_id'', Some (JStr (lr_node_id d))),
      (''path_prefix'', Some (JStr (lr_path_prefix d))),
      (''labels'', Some (enc_list (JStr) (lr_labels d))),
      (''name'', Some (JStr (lr_name d))),
      (''enabled'', Some (JBool (lr_enabled d))),
      (''created_at'', Some (enc_time lb (lr_created_at d)))]"

definition label_rule_of_json :: "libs \<Rightarrow> json \<Rightarrow> label_rule option" where
  "label_rule_of_json lb j =
     (if is_object j \<and> jget_str ''type'' j = Some ''label_rule'' then
        do {
          x1 \<leftarrow> req_field (as_str) ''node_id'' j;
          x2 \<leftarrow> req_field (as_str) ''path_prefix'' j;
          x3 \<leftarrow> req_field (list_of (as_str)) ''labels'' j;
          x4 \<leftarrow> req_field (as_str) ''name'' j;
          x5 \<leftarrow> req_field (as_bool) ''enabled'' j;
          x6 \<leftarrow> req_field (as_time lb) ''created_at'' j;
          Some \<lparr>lr_node_id = x1, lr_path_prefix = x2, lr_labels = x3, lr_name = x4, lr_enabled = x5, lr_created_at = x6\<rparr>
        }
      else None)"

lemma label_rule_roundtrip [doc_codec]:
  assumes "time_codec lb"
  shows "label_rule_of_json lb (label_rule_to_json lb d) = Some d"
  using assms
  by (cases d) (auto simp: label_rule_to_json_def label_rule_of_json_def doc_fields doc_codec)

lemma label_rule_not_null [doc_fields]: "label_rule_to_json lb d \<noteq> JNull" "is_object (label_rule_to_json lb d)"
  by (simp_all add: label_rule_to_json_def mk_obj_def)

record notification_source =
  ns_node_id :: string
  ns_component :: string

definition notification_source_to_json :: "notification_source \<Rightarrow> json" where
  "notification_source_to_json d = mk_obj
     [(''node_id'', Some (JStr (ns_node_id d))),
      (''component'', Some (JStr (ns_component d)))]"

definition notification_source_of_json :: "json \<Rightarrow> notification_source option" where
  "notification_source_of_json j =
     (if is_object j then
        do {
          x1 \<leftarrow> req_field (as_str) ''node_id'' j;
          x2 \<leftarrow> req_field (as_str) ''component'' j;
          Some \<lparr>ns_node_id = x1, ns_component = x2\<rparr>
        }
      else None)"

lemma notification_source_roundtrip [doc_codec]:
  "notification_source_of_json (notification_source_to_json d) = Some d"
  by (cases d) (auto simp: notification_source_to_json_def notification_source_of_json_def doc_fields doc_codec)

lemma notification_source_not_null [doc_fields]: "notification_source_to_json d \<noteq> JNull" "is_object (notification_source_to_json d)"
  by (simp_all add: notification_source_to_json_def mk_obj_def)

record notification_action =
  nac_label :: string
  nac_api :: string

definition notification_action_to_json :: "notification_action \<Rightarrow> json" where
  "notification_action_to_json d = mk_obj
     [(''label'', Some (JStr (nac_label d))),
      (''api'', Some (JStr (nac_api d)))]"

definition notification_action_of_json :: "json \<Rightarrow> notification_action option" where
  "notification_action_of_json j =
     (if is_object j then
        do {
          x1 \<leftarrow> req_field (as_str) ''label'' j;
          x2 \<leftarrow> req_field (as_str) ''api'' j;
          Some \<lparr>nac_label = x1, nac_api = x2\<rparr>
        }
      else None)"

lemma notification_action_roundtrip [doc_codec]:
  "notification_action_of_json (notification_action_to_json d) = Some d"
  by (cases d) (auto simp: notification_action_to_json_def notification_action_of_json_def doc_fields doc_codec)

lemma notification_action_not_null [doc_fields]: "notification_action_to_json d \<noteq> JNull" "is_object (notification_action_to_json d)"
  by (simp_all add: notification_action_to_json_def mk_obj_def)

record notification_document =
  no_source :: notification_source
  no_severity :: string
  no_status :: string
  no_title :: string
  no_message :: string
  no_actions :: "(notification_action list) option"
  no_condition_key :: string
  no_first_seen :: time
  no_last_seen :: time
  no_occurrence_count :: int
  no_acknowledged_at :: "time option"
  no_resolved_at :: "time option"

definition notification_document_to_json :: "libs \<Rightarrow> notification_document \<Rightarrow> json" where
  "notification_document_to_json lb d = mk_obj
     [(''type'', Some (JStr ''notification'')),
      (''source'', Some (notification_source_to_json (no_source d))),
      (''severity'', Some (JStr (no_severity d))),
      (''status'', Some (JStr (no_status d))),
      (''title'', Some (JStr (no_title d))),
      (''message'', Some (JStr (no_message d))),
      (''actions'', map_option (enc_list (notification_action_to_json)) (no_actions d)),
      (''condition_key'', Some (JStr (no_condition_key d))),
      (''first_seen'', Some (enc_time lb (no_first_seen d))),
      (''last_seen'', Some (enc_time lb (no_last_seen d))),
      (''occurrence_count'', Some (num_of_int (no_occurrence_count d))),
      (''acknowledged_at'', map_option (enc_time lb) (no_acknowledged_at d)),
      (''resolved_at'', map_option (enc_time lb) (no_resolved_at d))]"

definition notification_document_of_json :: "libs \<Rightarrow> json \<Rightarrow> notification_document option" where
  "notification_document_of_json lb j =
     (if is_object j \<and> jget_str ''type'' j = Some ''notification'' then
        do {
          x1 \<leftarrow> req_field (notification_source_of_json) ''source'' j;
          x2 \<leftarrow> req_field (as_str) ''severity'' j;
          x3 \<leftarrow> req_field (as_str) ''status'' j;
          x4 \<leftarrow> req_field (as_str) ''title'' j;
          x5 \<leftarrow> req_field (as_str) ''message'' j;
          x6 \<leftarrow> opt_field (list_of (notification_action_of_json)) ''actions'' j;
          x7 \<leftarrow> req_field (as_str) ''condition_key'' j;
          x8 \<leftarrow> req_field (as_time lb) ''first_seen'' j;
          x9 \<leftarrow> req_field (as_time lb) ''last_seen'' j;
          x10 \<leftarrow> default_field as_i64 1 ''occurrence_count'' j;
          x11 \<leftarrow> opt_field (as_time lb) ''acknowledged_at'' j;
          x12 \<leftarrow> opt_field (as_time lb) ''resolved_at'' j;
          Some \<lparr>no_source = x1, no_severity = x2, no_status = x3, no_title = x4, no_message = x5, no_actions = x6, no_condition_key = x7, no_first_seen = x8, no_last_seen = x9, no_occurrence_count = x10, no_acknowledged_at = x11, no_resolved_at = x12\<rparr>
        }
      else None)"

lemma notification_document_roundtrip [doc_codec]:
  assumes "time_codec lb" "- (2 ^ 63) \<le> no_occurrence_count d" "no_occurrence_count d < 2 ^ 63"
  shows "notification_document_of_json lb (notification_document_to_json lb d) = Some d"
  using assms
  by (cases d) (auto simp: notification_document_to_json_def notification_document_of_json_def doc_fields doc_codec)

lemma notification_document_not_null [doc_fields]: "notification_document_to_json lb d \<noteq> JNull" "is_object (notification_document_to_json lb d)"
  by (simp_all add: notification_document_to_json_def mk_obj_def)

record access_document =
  ac_file_id :: string
  ac_source :: string
  ac_last_access :: time
  ac_access_count :: int

definition access_document_to_json :: "libs \<Rightarrow> access_document \<Rightarrow> json" where
  "access_document_to_json lb d = mk_obj
     [(''type'', Some (JStr ''access'')),
      (''file_id'', Some (JStr (ac_file_id d))),
      (''source'', Some (enc_access_source (ac_source d))),
      (''last_access'', Some (enc_time lb (ac_last_access d))),
      (''access_count'', Some (num_of_int (ac_access_count d)))]"

definition access_document_of_json :: "libs \<Rightarrow> json \<Rightarrow> access_document option" where
  "access_document_of_json lb j =
     (if is_object j \<and> jget_str ''type'' j = Some ''access'' then
        do {
          x1 \<leftarrow> req_field (as_str) ''file_id'' j;
          x2 \<leftarrow> req_field (req_field as_str ''node_id'') ''source'' j;
          x3 \<leftarrow> req_field (as_time lb) ''last_access'' j;
          x4 \<leftarrow> default_field as_i64 1 ''access_count'' j;
          Some \<lparr>ac_file_id = x1, ac_source = x2, ac_last_access = x3, ac_access_count = x4\<rparr>
        }
      else None)"

lemma access_document_roundtrip [doc_codec]:
  assumes "time_codec lb" "- (2 ^ 63) \<le> ac_access_count d" "ac_access_count d < 2 ^ 63"
  shows "access_document_of_json lb (access_document_to_json lb d) = Some d"
  using assms
  by (cases d) (auto simp: access_document_to_json_def access_document_of_json_def doc_fields doc_codec)

lemma access_document_not_null [doc_fields]: "access_document_to_json lb d \<noteq> JNull" "is_object (access_document_to_json lb d)"
  by (simp_all add: access_document_to_json_def mk_obj_def)

section \<open>Steps, mounts and virtual directories\<close>

text \<open>
  A step keeps its op-specific fields as the remaining fields of the object
  (\<open>#[serde(flatten)]\<close>).
\<close>

record step =
  st_op :: string
  st_invert :: bool
  st_on_match :: "step_result option"
  st_params :: "(string \<times> json) list"

definition step_keys :: "string list" where
  "step_keys = [''op'', ''invert'', ''on_match'']"

definition step_to_json :: "step \<Rightarrow> json" where
  "step_to_json s =
     JObj ([(''op'', JStr (st_op s)), (''invert'', JBool (st_invert s))] @
       (case st_on_match s of None \<Rightarrow> [] | Some r \<Rightarrow> [(''on_match'', enc_step_result r)]) @
       st_params s)"

fun step_of_json :: "json \<Rightarrow> step option" where
  "step_of_json (JObj kvs) =
     do {
       op \<leftarrow> req_field as_str ''op'' (JObj kvs);
       inv \<leftarrow> default_field as_bool False ''invert'' (JObj kvs);
       om \<leftarrow> opt_field dec_step_result ''on_match'' (JObj kvs);
       Some \<lparr>st_op = op, st_invert = inv, st_on_match = om,
         st_params = filter (\<lambda>(k, _). k \<notin> set step_keys) kvs\<rparr>
     }"
| "step_of_json _ = None"

definition step_wf :: "step \<Rightarrow> bool" where
  "step_wf s \<longleftrightarrow> (\<forall>k \<in> fst ` set (st_params s). k \<notin> set step_keys)"

lemma step_codec:
  assumes "step_wf s"
  shows "step_of_json (step_to_json s) = Some s"
proof -
  have keep: "filter (\<lambda>(k, _). k \<notin> set step_keys) (st_params s) = st_params s"
    using assms by (intro filter_True) (auto simp: step_wf_def image_iff)
  have none: "map_of (st_params s) k = None" if "k \<in> set step_keys" for k
    using assms that by (auto simp: step_wf_def map_of_eq_None_iff)
  have keys: "''op'' \<in> set step_keys" "''invert'' \<in> set step_keys" "''on_match'' \<in> set step_keys"
    by (auto simp: step_keys_def)
  show ?thesis
  proof (cases "st_on_match s")
    case None
    have keep': "[x \<leftarrow> st_params s. case x of (k, _) \<Rightarrow> k \<notin> set step_keys] = st_params s"
      by (rule keep)
    show ?thesis
      using None keep' none [OF keys(3)] keys
      by (cases s) (simp add: step_to_json_def req_field_def default_field_def opt_field_def
          opt_read_def)
  next
    case (Some r)
    then show ?thesis
      using keep keys
      by (cases s; cases r)
        (simp_all add: step_to_json_def req_field_def default_field_def opt_field_def
          opt_read_def dec_step_result_def)
  qed
qed

datatype mount_source =
  SourceNode (src_node_id: string) (src_export_path: string)
| SourceFederated string
| SourceLabel string

fun mount_source_to_json :: "mount_source \<Rightarrow> json" where
  "mount_source_to_json (SourceNode n p) =
     JObj [(''node_id'', JStr n), (''export_path'', JStr p)]"
| "mount_source_to_json (SourceFederated i) = JObj [(''federated_import_id'', JStr i)]"
| "mount_source_to_json (SourceLabel l) = JObj [(''label'', JStr l)]"

text \<open>\<open>#[serde(untagged)]\<close>: the first variant whose fields are there.\<close>

definition mount_source_of_json :: "json \<Rightarrow> mount_source option" where
  "mount_source_of_json j =
     (case (jget_str ''node_id'' j, jget_str ''export_path'' j) of
        (Some n, Some p) \<Rightarrow> Some (SourceNode n p)
      | _ \<Rightarrow>
        (case jget_str ''federated_import_id'' j of
           Some i \<Rightarrow> Some (SourceFederated i)
         | None \<Rightarrow> map_option SourceLabel (jget_str ''label'' j)))"

record mount_entry =
  me_mount_id :: string
  me_source :: mount_source
  me_strategy :: mount_strategy
  me_source_prefix :: "string option"
  me_steps :: "step list"
  me_default_result :: step_result
  me_conflict_policy :: conflict_policy

definition default_include :: step_result where
  "default_include = Include"

definition default_conflict_policy :: conflict_policy where
  "default_conflict_policy = LastWriteWins"

definition mount_entry_to_json :: "mount_entry \<Rightarrow> json" where
  "mount_entry_to_json d = mk_obj
     [(''mount_id'', Some (JStr (me_mount_id d))),
      (''source'', Some (mount_source_to_json (me_source d))),
      (''strategy'', Some (enc_mount_strategy (me_strategy d))),
      (''source_prefix'', map_option JStr (me_source_prefix d)),
      (''steps'', Some (enc_list step_to_json (me_steps d))),
      (''default_result'', Some (enc_step_result (me_default_result d))),
      (''conflict_policy'', Some (enc_conflict_policy (me_conflict_policy d)))]"

definition mount_entry_of_json :: "json \<Rightarrow> mount_entry option" where
  "mount_entry_of_json j =
     (if is_object j then
        do {
          mid \<leftarrow> req_field as_str ''mount_id'' j;
          src \<leftarrow> req_field mount_source_of_json ''source'' j;
          strat \<leftarrow> req_field dec_mount_strategy ''strategy'' j;
          pre \<leftarrow> opt_field as_str ''source_prefix'' j;
          sts \<leftarrow> default_field (list_of step_of_json) [] ''steps'' j;
          dr \<leftarrow> default_field dec_step_result default_include ''default_result'' j;
          cp \<leftarrow> default_field dec_conflict_policy default_conflict_policy ''conflict_policy'' j;
          Some \<lparr>me_mount_id = mid, me_source = src, me_strategy = strat, me_source_prefix = pre,
            me_steps = sts, me_default_result = dr, me_conflict_policy = cp\<rparr>
        }
      else None)"

lemma mount_source_codec [doc_codec]:
  "mount_source_of_json (mount_source_to_json m) = Some m"
  by (cases m) (simp_all add: mount_source_of_json_def jget_str_def)

lemma steps_codec:
  "\<forall>s \<in> set ss. step_wf s \<Longrightarrow> list_of step_of_json (enc_list step_to_json ss) = Some ss"
  by (rule list_of_enc_list) (simp add: step_codec)

lemma mount_entry_codec:
  "\<forall>s \<in> set (me_steps d). step_wf s \<Longrightarrow> mount_entry_of_json (mount_entry_to_json d) = Some d"
  by (cases d) (auto simp: mount_entry_to_json_def mount_entry_of_json_def doc_fields doc_codec
      steps_codec)

record virtual_directory =
  vd_inode :: u64
  vd_virtual_path :: string
  vd_name :: string
  vd_parent_path :: "string option"
  vd_system :: "bool option"
  vd_created_at :: time
  vd_enforce_steps_on_children :: bool
  vd_mounts :: "mount_entry list"

definition virtual_directory_to_json :: "libs \<Rightarrow> virtual_directory \<Rightarrow> json" where
  "virtual_directory_to_json lb d = mk_obj
     [(''type'', Some (JStr ''virtual_directory'')),
      (''inode'', Some (enc_u64 (vd_inode d))),
      (''virtual_path'', Some (JStr (vd_virtual_path d))),
      (''name'', Some (JStr (vd_name d))),
      (''parent_path'', map_option JStr (vd_parent_path d)),
      (''system'', map_option JBool (vd_system d)),
      (''created_at'', Some (enc_time lb (vd_created_at d))),
      (''enforce_steps_on_children'', Some (JBool (vd_enforce_steps_on_children d))),
      (''mounts'', Some (enc_list mount_entry_to_json (vd_mounts d)))]"

definition virtual_directory_of_json :: "libs \<Rightarrow> json \<Rightarrow> virtual_directory option" where
  "virtual_directory_of_json lb j =
     (if is_object j \<and> jget_str ''type'' j = Some ''virtual_directory'' then
        do {
          ino \<leftarrow> req_field as_u64 ''inode'' j;
          vp \<leftarrow> req_field as_str ''virtual_path'' j;
          nm \<leftarrow> req_field as_str ''name'' j;
          pp \<leftarrow> opt_field as_str ''parent_path'' j;
          sy \<leftarrow> opt_field as_bool ''system'' j;
          ca \<leftarrow> req_field (as_time lb) ''created_at'' j;
          en \<leftarrow> default_field as_bool False ''enforce_steps_on_children'' j;
          ms \<leftarrow> default_field (list_of mount_entry_of_json) [] ''mounts'' j;
          Some \<lparr>vd_inode = ino, vd_virtual_path = vp, vd_name = nm, vd_parent_path = pp,
            vd_system = sy, vd_created_at = ca, vd_enforce_steps_on_children = en,
            vd_mounts = ms\<rparr>
        }
      else None)"

lemma mounts_codec:
  "\<forall>m \<in> set ms. \<forall>s \<in> set (me_steps m). step_wf s \<Longrightarrow>
     list_of mount_entry_of_json (enc_list mount_entry_to_json ms) = Some ms"
  by (rule list_of_enc_list) (simp add: mount_entry_codec)

lemma virtual_directory_codec:
  "time_codec lb \<Longrightarrow> \<forall>m \<in> set (vd_mounts d). \<forall>s \<in> set (me_steps m). step_wf s \<Longrightarrow>
     virtual_directory_of_json lb (virtual_directory_to_json lb d) = Some d"
  by (cases d) (auto simp: virtual_directory_to_json_def virtual_directory_of_json_def doc_fields
      doc_codec mounts_codec)

section \<open>Identifiers\<close>

text \<open>\<open>CouchDoc<T>\<close>: a document with its id and revision, flattened into one object.\<close>

record couch_doc =
  cdoc_id :: string
  cdoc_rev :: "string option"
  cdoc_doc :: "(string \<times> json) list"

definition couch_doc_to_json :: "couch_doc \<Rightarrow> json" where
  "couch_doc_to_json d =
     JObj ((''_id'', JStr (cdoc_id d)) #
       (case cdoc_rev d of None \<Rightarrow> [] | Some r \<Rightarrow> [(''_rev'', JStr r)]) @ cdoc_doc d)"

text \<open>\<open>new_id\<close> of a fresh random UUID, which is the argument.\<close>

definition file_new_id :: "string \<Rightarrow> string" where
  "file_new_id uuid = ''file::'' @ uuid"

definition uuid_from_id :: "string \<Rightarrow> string option" where
  "uuid_from_id i = strip_prefix ''file::'' i"

definition filesystem_doc_id :: "string \<Rightarrow> string" where
  "filesystem_doc_id i = ''filesystem::'' @ i"

definition document_type :: "json \<Rightarrow> string option" where
  "document_type j = do { v \<leftarrow> jget ''type'' j; as_str v }"

definition is_ascii_alphanumeric :: "char \<Rightarrow> bool" where
  "is_ascii_alphanumeric c \<longleftrightarrow>
     (let n = (of_char c :: nat) in
      (48 \<le> n \<and> n \<le> 57) \<or> (65 \<le> n \<and> n \<le> 90) \<or> (97 \<le> n \<and> n \<le> 122))"

text \<open>
  \<open>to_lower\<close> is \<open>str::to_lowercase\<close>. The bytes of a character outside ASCII each
  become a dash here, where the source gives one dash for the character; the runs of
  dashes collapse to the same string.
\<close>

definition derive_filesystem_id :: "(string \<Rightarrow> string) \<Rightarrow> string \<Rightarrow> string \<Rightarrow> string" where
  "derive_filesystem_id to_lower node root =
     (let s = map (\<lambda>c. if is_ascii_alphanumeric c then c else CHR ''-'') (to_lower root);
          collapsed = join ''-'' (filter (\<lambda>p. p \<noteq> []) (split_on (CHR ''-'') s))
      in node @ ''::'' @ collapsed)"

lemma uuid_from_new_id: "uuid_from_id (file_new_id u) = Some u"
  by (simp add: uuid_from_id_def file_new_id_def)

lemma split_on_chars: "w \<in> set (split_on c s) \<Longrightarrow> set w \<subseteq> set s"
proof (induction s arbitrary: w)
  case Nil
  then show ?case by simp
next
  case (Cons a s)
  obtain v vs where v: "split_on c s = v # vs" by (meson list.exhaust split_on_nonempty)
  then show ?case
    using Cons.prems Cons.IH [of v] Cons.IH [of w] by (auto split: if_splits)
qed

lemma derived_words:
  assumes "w \<in> set (filter (\<lambda>p. p \<noteq> [])
    (split_on (CHR ''-'') (map (\<lambda>c. if is_ascii_alphanumeric c then c else CHR ''-'') s)))"
  shows "w \<noteq> [] \<and> (\<forall>c \<in> set w. is_ascii_alphanumeric c)"
proof -
  let ?s = "map (\<lambda>c. if is_ascii_alphanumeric c then c else CHR ''-'') s"
  have w: "w \<noteq> []" "w \<in> set (split_on (CHR ''-'') ?s)" using assms by auto
  have "CHR ''-'' \<notin> set w" by (rule split_on_no_sep [OF w(2)])
  moreover have "set w \<subseteq> set ?s" by (rule split_on_chars [OF w(2)])
  ultimately show ?thesis using w(1) by (auto simp: subset_iff split: if_splits)
qed

lemma sample_time_codec: "time_codec sample_libs"
  by (simp add: time_codec_def sample_time_roundtrip)

section \<open>Properties\<close>



end
