(* ===== verification/Steps.thy ===== *)
theory Steps
  imports Documents
begin

text \<open>
  The filter steps of \<open>mosaicfs-common/src/steps.rs\<close>. \<open>StepContext\<close> is the record of
  the four lookups; the contract its implementations share is the locale
  \<open>replica_context\<close>. The evaluation is shown to be "the first step that matches and
  decides", which gives the way inherited steps combine with a mount's own.
\<close>

record step_context =
  has_label :: "string \<Rightarrow> string \<Rightarrow> bool"
  last_access :: "string \<Rightarrow> time option"
  has_replica :: "string \<Rightarrow> string option \<Rightarrow> string option \<Rightarrow> bool"
  has_annotation :: "string \<Rightarrow> string \<Rightarrow> bool"

definition compare_i64 :: "int \<Rightarrow> int \<Rightarrow> string \<Rightarrow> bool" where
  "compare_i64 value threshold comparison =
     (if comparison = ''lt'' then value < threshold
      else if comparison = ''gt'' then value > threshold
      else if comparison = ''eq'' then value = threshold
      else False)"

definition compare_u64 :: "u64 \<Rightarrow> u64 \<Rightarrow> string \<Rightarrow> bool" where
  "compare_u64 value threshold comparison =
     (if comparison = ''lt'' then value < threshold
      else if comparison = ''gt'' then value > threshold
      else if comparison = ''eq'' then value = threshold
      else False)"

definition str_param :: "step \<Rightarrow> string \<Rightarrow> string option" where
  "str_param s k = Option.bind (map_of (st_params s) k) as_str"

definition i64_param :: "step \<Rightarrow> string \<Rightarrow> int option" where
  "i64_param s k = Option.bind (map_of (st_params s) k) as_i64"

definition u64_param :: "step \<Rightarrow> string \<Rightarrow> u64 option" where
  "u64_param s k = Option.bind (map_of (st_params s) k) as_u64"

definition evaluate_op ::
  "libs \<Rightarrow> step \<Rightarrow> file_document \<Rightarrow> string \<Rightarrow> string \<Rightarrow> time \<Rightarrow> step_context \<Rightarrow> bool" where
  "evaluate_op lb s file file_id file_uuid now ctx =
     (if st_op s = ''glob'' then
        (case str_param s ''pattern'' of None \<Rightarrow> False
         | Some p \<Rightarrow> unwrap_or (glob_matches lb p (fd_name file)) False)
      else if st_op s = ''regex'' then
        (case str_param s ''pattern'' of None \<Rightarrow> False
         | Some p \<Rightarrow> unwrap_or (regex_matches lb p (fd_name file)) False)
      else if st_op s = ''age'' then
        (case i64_param s ''days'' of None \<Rightarrow> False
         | Some days \<Rightarrow>
             compare_i64 (num_days (now - fd_mtime file)) days
               (unwrap_or (str_param s ''comparison'') ''gt''))
      else if st_op s = ''size'' then
        (case u64_param s ''bytes'' of None \<Rightarrow> False
         | Some bytes \<Rightarrow>
             compare_u64 (fd_size file) bytes (unwrap_or (str_param s ''comparison'') ''gt''))
      else if st_op s = ''mime'' then
        (case str_param s ''pattern'' of None \<Rightarrow> False
         | Some p \<Rightarrow> unwrap_or (map_option (contains_str p) (fd_mime_type file)) False)
      else if st_op s = ''node'' then
        (case str_param s ''node_id'' of None \<Rightarrow> False
         | Some n \<Rightarrow> fs_node_id (fd_source file) = n)
      else if st_op s = ''label'' then
        (case str_param s ''label'' of None \<Rightarrow> False
         | Some l \<Rightarrow> has_label ctx file_uuid l)
      else if st_op s = ''access_age'' then
        (case i64_param s ''days'' of None \<Rightarrow> False
         | Some days \<Rightarrow>
             (let comparison = unwrap_or (str_param s ''comparison'') ''gt'';
                  missing = unwrap_or (str_param s ''missing'') ''include''
              in case last_access ctx file_id of
                   Some t \<Rightarrow> compare_i64 (num_days (now - t)) days comparison
                 | None \<Rightarrow> missing = ''include''))
      else if st_op s = ''replicated'' then
        has_replica ctx file_uuid (str_param s ''target'') (str_param s ''status'')
      else if st_op s = ''annotation'' then
        (case str_param s ''plugin_name'' of None \<Rightarrow> False
         | Some p \<Rightarrow> has_annotation ctx file_uuid p)
      else False)"

fun evaluate_loop ::
  "(step \<Rightarrow> bool) \<Rightarrow> step list \<Rightarrow> step_result \<Rightarrow> step_result" where
  "evaluate_loop matched [] d = d"
| "evaluate_loop matched (s # ss) d =
     (let effective = (if st_invert s then \<not> matched s else matched s) in
      if effective then
        (case unwrap_or (st_on_match s) Include of
           Continue \<Rightarrow> evaluate_loop matched ss d
         | other \<Rightarrow> other)
      else evaluate_loop matched ss d)"

definition evaluate_steps ::
  "libs \<Rightarrow> time \<Rightarrow> step list \<Rightarrow> file_document \<Rightarrow> string \<Rightarrow> step_result \<Rightarrow> step_context \<Rightarrow> step_result"
where
  "evaluate_steps lb now ss file file_id default_result ctx =
     (let file_uuid = unwrap_or (uuid_from_id file_id) file_id in
      evaluate_loop (\<lambda>s. evaluate_op lb s file file_id file_uuid now ctx) ss default_result)"

section \<open>What a step asks for\<close>

text \<open>
  The steps as the rules say it, one clause per operation: a parameter that is missing or of another type makes the
  step match nothing, apart from the comparison, the treatment of files without an access, and the filters of
  replicas, which have a default. Other operations match nothing.
\<close>

definition text_default :: "step \<Rightarrow> string \<Rightarrow> string \<Rightarrow> string \<Rightarrow> bool" where
  "text_default s k d c \<longleftrightarrow> map_of (st_params s) k = Some (JStr c) \<or>
     (\<nexists>v. map_of (st_params s) k = Some (JStr v)) \<and> c = d"

definition compares :: "string \<Rightarrow> 'a::linorder \<Rightarrow> 'a \<Rightarrow> bool" where
  "compares c v t \<longleftrightarrow> c = ''lt'' \<and> v < t \<or> c = ''gt'' \<and> t < v \<or> c = ''eq'' \<and> v = t"

definition uuid_of :: "string \<Rightarrow> string \<Rightarrow> bool" where
  "uuid_of fid u \<longleftrightarrow> fid = ''file::'' @ u \<or> (\<nexists>v. fid = ''file::'' @ v) \<and> u = fid"

inductive step_matches :: "libs \<Rightarrow> time \<Rightarrow> step_context \<Rightarrow> string \<Rightarrow> file_document \<Rightarrow> step \<Rightarrow> bool"
  for lb now ctx fid f s where
  glob: "st_op s = ''glob'' \<Longrightarrow> map_of (st_params s) ''pattern'' = Some (JStr p) \<Longrightarrow>
    glob_matches lb p (fd_name f) = Some True \<Longrightarrow> step_matches lb now ctx fid f s"
| regex: "st_op s = ''regex'' \<Longrightarrow> map_of (st_params s) ''pattern'' = Some (JStr p) \<Longrightarrow>
    regex_matches lb p (fd_name f) = Some True \<Longrightarrow> step_matches lb now ctx fid f s"
| age: "st_op s = ''age'' \<Longrightarrow> map_of (st_params s) ''days'' = Some v \<Longrightarrow> as_i64 v = Some days \<Longrightarrow>
    text_default s ''comparison'' ''gt'' c \<Longrightarrow> compares c (num_days (now - fd_mtime f)) days \<Longrightarrow>
    step_matches lb now ctx fid f s"
| size: "st_op s = ''size'' \<Longrightarrow> map_of (st_params s) ''bytes'' = Some v \<Longrightarrow> as_u64 v = Some bytes \<Longrightarrow>
    text_default s ''comparison'' ''gt'' c \<Longrightarrow> compares c (fd_size f) bytes \<Longrightarrow> step_matches lb now ctx fid f s"
| mime: "st_op s = ''mime'' \<Longrightarrow> map_of (st_params s) ''pattern'' = Some (JStr p) \<Longrightarrow>
    fd_mime_type f = Some t \<Longrightarrow> contains_str p t \<Longrightarrow> step_matches lb now ctx fid f s"
| node: "st_op s = ''node'' \<Longrightarrow> map_of (st_params s) ''node_id'' = Some (JStr n) \<Longrightarrow>
    fs_node_id (fd_source f) = n \<Longrightarrow> step_matches lb now ctx fid f s"
| label: "st_op s = ''label'' \<Longrightarrow> map_of (st_params s) ''label'' = Some (JStr l) \<Longrightarrow> uuid_of fid u \<Longrightarrow>
    has_label ctx u l \<Longrightarrow> step_matches lb now ctx fid f s"
| accessed: "st_op s = ''access_age'' \<Longrightarrow> map_of (st_params s) ''days'' = Some v \<Longrightarrow> as_i64 v = Some days \<Longrightarrow>
    last_access ctx fid = Some t \<Longrightarrow> text_default s ''comparison'' ''gt'' c \<Longrightarrow>
    compares c (num_days (now - t)) days \<Longrightarrow> step_matches lb now ctx fid f s"
| never_accessed: "st_op s = ''access_age'' \<Longrightarrow> map_of (st_params s) ''days'' = Some v \<Longrightarrow> as_i64 v = Some days \<Longrightarrow>
    last_access ctx fid = None \<Longrightarrow> text_default s ''missing'' ''include'' ''include'' \<Longrightarrow>
    step_matches lb now ctx fid f s"
| replicated: "st_op s = ''replicated'' \<Longrightarrow> uuid_of fid u \<Longrightarrow>
    has_replica ctx u (Option.bind (map_of (st_params s) ''target'') as_str) (Option.bind (map_of (st_params s) ''status'') as_str) \<Longrightarrow>
    step_matches lb now ctx fid f s"
| annotation: "st_op s = ''annotation'' \<Longrightarrow> map_of (st_params s) ''plugin_name'' = Some (JStr p) \<Longrightarrow> uuid_of fid u \<Longrightarrow>
    has_annotation ctx u p \<Longrightarrow> step_matches lb now ctx fid f s"

lemma str_param_Some: "str_param s k = Some c \<longleftrightarrow> map_of (st_params s) k = Some (JStr c)"
  by (auto simp: str_param_def bind_eq_Some_conv as_str_Some)

lemma text_default_iff: "text_default s k d c \<longleftrightarrow> unwrap_or (str_param s k) d = c"
  unfolding text_default_def str_param_Some [symmetric] by (cases "str_param s k") auto

lemma compares_iff: "compare_i64 v t c = compares c v t" "compare_u64 v' t' c = compares c v' t'"
  by (auto simp: compare_i64_def compare_u64_def compares_def)

lemma uuid_of_iff: "uuid_of fid u \<longleftrightarrow> u = unwrap_or (uuid_from_id fid) fid"
proof (cases "uuid_from_id fid")
  case None
  then have "\<nexists>v. fid = ''file::'' @ v" unfolding uuid_from_id_def by (metis not_None_eq strip_prefix_Some)
  with None show ?thesis by (auto simp: uuid_of_def)
next
  case (Some v)
  then have fid: "fid = ''file::'' @ v" unfolding uuid_from_id_def strip_prefix_Some .
  have "uuid_of fid u \<longleftrightarrow> u = v" unfolding fid uuid_of_def by auto
  then show ?thesis unfolding Some by simp
qed

lemma evaluate_op_matches:
  "evaluate_op lb s file fid (unwrap_or (uuid_from_id fid) fid) now ctx \<longleftrightarrow> step_matches lb now ctx fid file s"
proof -
  have str: "map_of (st_params s) k = Some (JStr c) \<longleftrightarrow> str_param s k = Some c" for k c
    by (simp add: str_param_Some)
  have i64: "(\<exists>v. map_of (st_params s) k = Some v \<and> as_i64 v = Some d \<and> P) \<longleftrightarrow> i64_param s k = Some d \<and> P" for k d P
    by (auto simp: i64_param_def bind_eq_Some_conv)
  have u64: "(\<exists>v. map_of (st_params s) k = Some v \<and> as_u64 v = Some d \<and> P) \<longleftrightarrow> u64_param s k = Some d \<and> P" for k d P
    by (auto simp: u64_param_def bind_eq_Some_conv)
  have truth: "unwrap_or b False \<longleftrightarrow> b = Some True" for b by (cases b) simp_all
  note simps = truth evaluate_op_def step_matches.simps text_default_iff uuid_of_iff compares_iff str i64_param_def u64_param_def
    str_param_def [symmetric] bind_eq_Some_conv
  consider "st_op s = ''glob''"
    | "st_op s = ''regex''"
    | "st_op s = ''age''"
    | "st_op s = ''size''"
    | "st_op s = ''mime''"
    | "st_op s = ''node''"
    | "st_op s = ''label''"
    | "st_op s = ''access_age''"
    | "st_op s = ''replicated''"
    | "st_op s = ''annotation''"
    | "st_op s \<notin> {''glob'', ''regex'', ''age'', ''size'', ''mime'', ''node'', ''label'', ''access_age'', ''replicated'', ''annotation''}"
    by blast
  then show ?thesis
  proof cases
    case 1
    then show ?thesis by (simp add: simps split: option.split)
  next
    case 2
    then show ?thesis by (simp add: simps split: option.split)
  next
    case 3
    then have "step_matches lb now ctx fid file s \<longleftrightarrow> (\<exists>d. i64_param s ''days'' = Some d \<and>
        compares (unwrap_or (str_param s ''comparison'') ''gt'') (num_days (now - fd_mtime file)) d)"
      by (simp add: step_matches.simps text_default_iff i64_param_def bind_eq_Some_conv) blast
    with 3 show ?thesis by (cases "i64_param s ''days''") (simp_all add: evaluate_op_def compares_iff)
  next
    case 4
    then have "step_matches lb now ctx fid file s \<longleftrightarrow> (\<exists>d. u64_param s ''bytes'' = Some d \<and>
        compares (unwrap_or (str_param s ''comparison'') ''gt'') (fd_size file) d)"
      by (simp add: step_matches.simps text_default_iff u64_param_def bind_eq_Some_conv) blast
    with 4 show ?thesis by (cases "u64_param s ''bytes''") (simp_all add: evaluate_op_def compares_iff)
  next
    case 5
    then show ?thesis by (simp add: simps split: option.split)
  next
    case 6
    then show ?thesis by (auto simp: simps split: option.split)
  next
    case 7
    then show ?thesis by (simp add: simps split: option.split)
  next
    case 8
    then have "step_matches lb now ctx fid file s \<longleftrightarrow> (\<exists>d. i64_param s ''days'' = Some d \<and>
        (\<exists>t. last_access ctx fid = Some t \<and>
          compares (unwrap_or (str_param s ''comparison'') ''gt'') (num_days (now - t)) d \<or>
         last_access ctx fid = None \<and> unwrap_or (str_param s ''missing'') ''include'' = ''include''))"
      by (simp add: step_matches.simps text_default_iff i64_param_def bind_eq_Some_conv) blast
    with 8 show ?thesis
      by (cases "i64_param s ''days''"; cases "last_access ctx fid") (simp_all add: evaluate_op_def compares_iff)
  next
    case 9
    then show ?thesis by (simp add: simps split: option.split)
  next
    case 10
    then show ?thesis by (simp add: simps split: option.split)
  next
    case 11
    then show ?thesis by (simp add: simps)
  qed
qed

section \<open>The first decisive step\<close>

definition effective :: "(step \<Rightarrow> bool) \<Rightarrow> step \<Rightarrow> bool" where
  "effective matched s \<longleftrightarrow> matched s \<noteq> st_invert s"

definition decides :: "(step \<Rightarrow> bool) \<Rightarrow> step \<Rightarrow> bool" where
  "decides matched s \<longleftrightarrow> effective matched s \<and> unwrap_or (st_on_match s) Include \<noteq> Continue"

lemma evaluate_loop_find:
  "evaluate_loop matched ss d =
     (case List.find (decides matched) ss of
        None \<Rightarrow> d | Some s \<Rightarrow> unwrap_or (st_on_match s) Include)"
  by (induction ss) (auto simp: decides_def effective_def Let_def split: step_result.splits)

lemma evaluate_loop_append:
  "evaluate_loop matched (ss @ ts) d = evaluate_loop matched ss (evaluate_loop matched ts d)"
  by (induction ss) (auto simp: Let_def split: step_result.splits)

lemma evaluate_loop_not_continue:
  "d \<noteq> Continue \<Longrightarrow> evaluate_loop matched ss d \<noteq> Continue"
  by (induction ss) (auto simp: Let_def split: step_result.splits)

text \<open>Only the matches of the listed steps matter.\<close>

lemma evaluate_loop_cong:
  "(\<And>s. s \<in> set ss \<Longrightarrow> m s = m' s) \<Longrightarrow> evaluate_loop m ss d = evaluate_loop m' ss d"
  by (induction ss) (auto simp: Let_def split: step_result.splits)

section \<open>The contract of replica lookups\<close>

text \<open>Leaving a filter out never hides a replica.\<close>

locale replica_context =
  fixes ctx :: step_context
  assumes any_target: "has_replica ctx u t st \<Longrightarrow> has_replica ctx u None st"
    and any_status: "has_replica ctx u t st \<Longrightarrow> has_replica ctx u t None"
begin

lemma any_replica: "has_replica ctx u t st \<Longrightarrow> has_replica ctx u None None"
  by (blast intro: any_target any_status)

text \<open>A \<open>replicated\<close> step with no filter matches wherever one with filters does.\<close>

lemma unfiltered_matches:
  assumes "st_op s = ''replicated''" "st_op s' = ''replicated''" "st_params s' = []"
    and "evaluate_op lb s file fid u now ctx"
  shows "evaluate_op lb s' file fid u now ctx"
  using assms any_replica by (auto simp: evaluate_op_def str_param_def)

end

text \<open>
  The scan over a file's replicas that both implementations of \<open>has_replica\<close> write out:
  a target or status that is not given matches everything.
\<close>

fun replica_scan :: "(string \<times> string) list \<Rightarrow> string option \<Rightarrow> string option \<Rightarrow> bool" where
  "replica_scan [] target status = False"
| "replica_scan ((t, s) # rs) target status =
     (if (case target of None \<Rightarrow> True | Some want \<Rightarrow> want = t) \<and>
         (case status of None \<Rightarrow> True | Some want \<Rightarrow> want = s)
      then True else replica_scan rs target status)"

lemma replica_scan_iff:
  "replica_scan rs target status \<longleftrightarrow>
     (\<exists>(t, s) \<in> set rs. (target = None \<or> target = Some t) \<and> (status = None \<or> status = Some s))"
  by (induction rs target status rule: replica_scan.induct) (auto split: option.splits)

section \<open>Properties\<close>

text \<open>Evaluation returns the result of the first step that matches and decides.\<close>

lemma evaluate_steps_first_decisive:
  "evaluate_steps lb now ss file fid d ctx =
     (case List.find (\<lambda>s.
          (evaluate_op lb s file fid (unwrap_or (uuid_from_id fid) fid) now ctx \<noteq> st_invert s) \<and>
          st_on_match s \<noteq> Some Continue) ss of
        None \<Rightarrow> d
      | Some s \<Rightarrow> (case st_on_match s of None \<Rightarrow> Include | Some r \<Rightarrow> r))"
proof -
  have "unwrap_or om Include \<noteq> Continue \<longleftrightarrow> om \<noteq> Some Continue" for om
    by (cases om) auto
  then have "decides m = (\<lambda>s. (m s \<noteq> st_invert s) \<and> st_on_match s \<noteq> Some Continue)" for m
    by (auto simp: decides_def effective_def fun_eq_iff)
  then show ?thesis
    by (auto simp: evaluate_steps_def evaluate_loop_find unwrap_or_def Let_def split: option.split)
qed

text \<open>Inherited steps come first and the mount's own steps are their default.\<close>

lemma inherited_steps_first:
  "evaluate_steps lb now (inherited @ own) file fid d ctx =
     evaluate_steps lb now inherited file fid (evaluate_steps lb now own file fid d ctx) ctx"
  by (simp add: evaluate_steps_def evaluate_loop_append Let_def)

end
