(* ===== verification/Inodes.thy ===== *)
theory Inodes
  imports Json
begin

text \<open>
  The inode table of \<open>mosaicfs-vfs/src/inode.rs\<close>: three hash maps behind locks, as
  association lists. The order of \<open>by_inode\<close> stands for the iteration order of the hash
  map, which \<open>lookup_child\<close> depends on.
\<close>

record dir_inode =
  di_inode :: u64
  di_virtual_path :: string
  di_name :: string

record file_inode =
  fi_inode :: u64
  fi_file_id :: string
  fi_name :: string
  fi_size :: u64
  fi_mtime :: time
  fi_mime_type :: "string option"
  fi_source_node_id :: string
  fi_source_export_path :: string

datatype inode_entry = DirEntry dir_inode | FileEntry file_inode

definition ROOT_INODE :: u64 where
  "ROOT_INODE = 1"

definition RESERVED_MAX :: u64 where
  "RESERVED_MAX = 999"

record inode_table =
  by_inode :: "(u64 \<times> inode_entry) list"
  file_id_to_inode :: "(string \<times> u64) list"
  dir_path_to_inode :: "(string \<times> u64) list"

definition root_dir :: dir_inode where
  "root_dir = \<lparr>di_inode = ROOT_INODE, di_virtual_path = ''/'', di_name = ''''\<rparr>"

definition new_table :: inode_table where
  "new_table =
     \<lparr>by_inode = [(ROOT_INODE, DirEntry root_dir)],
      file_id_to_inode = [],
      dir_path_to_inode = [(''/'', ROOT_INODE)]\<rparr>"

definition get_inode :: "inode_table \<Rightarrow> u64 \<Rightarrow> inode_entry option" where
  "get_inode t i = map_of (by_inode t) i"

definition get_dir_by_path :: "inode_table \<Rightarrow> string \<Rightarrow> u64 option" where
  "get_dir_by_path t path = map_of (dir_path_to_inode t) path"

definition get_inode_for_file_id :: "inode_table \<Rightarrow> string \<Rightarrow> u64 option" where
  "get_inode_for_file_id t f = map_of (file_id_to_inode t) f"

definition insert_dir :: "dir_inode \<Rightarrow> inode_table \<Rightarrow> inode_table" where
  "insert_dir d t =
     t\<lparr>by_inode := AList.update (di_inode d) (DirEntry d) (by_inode t),
       dir_path_to_inode := AList.update (di_virtual_path d) (di_inode d) (dir_path_to_inode t)\<rparr>"

definition insert_file :: "file_inode \<Rightarrow> inode_table \<Rightarrow> u64 \<times> inode_table" where
  "insert_file f t =
     (fi_inode f,
      t\<lparr>by_inode := AList.update (fi_inode f) (FileEntry f) (by_inode t),
        file_id_to_inode := AList.update (fi_file_id f) (fi_inode f) (file_id_to_inode t)\<rparr>)"

definition child_path :: "string \<Rightarrow> string \<Rightarrow> string" where
  "child_path parent name = (if parent = ''/'' then ''/'' @ name else parent @ ''/'' @ name)"

fun file_named :: "string \<Rightarrow> (u64 \<times> inode_entry) list \<Rightarrow> u64 option" where
  "file_named name [] = None"
| "file_named name ((i, FileEntry f) # es) = (if fi_name f = name then Some i else file_named name es)"
| "file_named name ((i, DirEntry d) # es) = file_named name es"

definition lookup_child :: "inode_table \<Rightarrow> u64 \<Rightarrow> string \<Rightarrow> u64 option" where
  "lookup_child t parent name =
     (case get_inode t parent of
        Some (DirEntry d) \<Rightarrow>
          (case map_of (dir_path_to_inode t) (child_path (di_virtual_path d) name) of
             Some i \<Rightarrow> Some i
           | None \<Rightarrow> file_named name (by_inode t))
      | _ \<Rightarrow> None)"

definition clear_table :: "inode_table \<Rightarrow> inode_table" where
  "clear_table t =
     (let root = map_of (by_inode t) ROOT_INODE in
      \<lparr>by_inode = (case root of Some r \<Rightarrow> [(ROOT_INODE, r)] | None \<Rightarrow> []),
       file_id_to_inode = [],
       dir_path_to_inode = [(''/'', ROOT_INODE)]\<rparr>)"

section \<open>Invariant\<close>

text \<open>
  The keys of each map are distinct, every entry is stored under its own inode, and the
  root is a directory at "/".
\<close>

fun entry_inode :: "inode_entry \<Rightarrow> u64" where
  "entry_inode (DirEntry d) = di_inode d"
| "entry_inode (FileEntry f) = fi_inode f"

definition table_ok :: "inode_table \<Rightarrow> bool" where
  "table_ok t \<longleftrightarrow>
     keyed entry_inode (by_inode t) \<and> distinct (map fst (file_id_to_inode t)) \<and>
     distinct (map fst (dir_path_to_inode t)) \<and>
     (\<exists>d. get_inode t ROOT_INODE = Some (DirEntry d)) \<and>
     get_dir_by_path t ''/'' = Some ROOT_INODE"

text \<open>What the callers of the insertions owe: inode 1 is the root, and only it is at "/".\<close>

definition dir_ok :: "dir_inode \<Rightarrow> bool" where
  "dir_ok d \<longleftrightarrow> (di_virtual_path d = ''/'' \<longleftrightarrow> di_inode d = ROOT_INODE)"

definition file_ok :: "file_inode \<Rightarrow> bool" where
  "file_ok f \<longleftrightarrow> fi_inode f \<noteq> ROOT_INODE"

lemma new_table_ok [wf_intros]: "table_ok new_table"
  by (simp add: table_ok_def new_table_def root_dir_def get_inode_def get_dir_by_path_def keyed_def)

lemma insert_dir_ok [wf_intros]:
  assumes t: "table_ok t" and d: "dir_ok d"
  shows "table_ok (insert_dir d t)"
proof (cases "di_inode d = ROOT_INODE")
  case True
  with d have "di_virtual_path d = ''/''" by (simp add: dir_ok_def)
  with t True show ?thesis
    by (simp add: table_ok_def insert_dir_def get_inode_def get_dir_by_path_def update_conv'
        distinct_update keyed_update)
next
  case False
  with d have "''/'' \<noteq> di_virtual_path d" by (auto simp: dir_ok_def)
  with t False show ?thesis
    by (simp add: table_ok_def insert_dir_def get_inode_def get_dir_by_path_def update_conv'
        distinct_update keyed_update)
qed

lemma insert_file_ok [wf_intros]:
  assumes "table_ok t" "file_ok f"
  shows "table_ok (snd (insert_file f t))"
  using assms not_sym [of "fi_inode f" ROOT_INODE]
  by (simp add: table_ok_def insert_file_def get_inode_def get_dir_by_path_def file_ok_def
      update_conv' distinct_update keyed_update)

lemma clear_table_ok [wf_intros]: 
  assumes "table_ok t"
  shows "table_ok (clear_table t)"
proof -
  from assms obtain d where d: "map_of (by_inode t) ROOT_INODE = Some (DirEntry d)"
    and k: "keyed entry_inode (by_inode t)" by (auto simp: table_ok_def get_inode_def)
  have "di_inode d = ROOT_INODE" using keyed_map_of [OF k d] by simp
  with d show ?thesis
    by (simp add: table_ok_def clear_table_def get_inode_def get_dir_by_path_def keyed_def)
qed

lemma file_named_Some: "file_named name es = Some i \<Longrightarrow>
    \<exists>f. (i, FileEntry f) \<in> set es \<and> fi_name f = name"
  by (induction name es rule: file_named.induct) (auto split: if_splits)

lemma file_named_None: "file_named name es = None \<longleftrightarrow>
    (\<forall>(i, e) \<in> set es. \<forall>f. e = FileEntry f \<longrightarrow> fi_name f \<noteq> name)"
  by (induction name es rule: file_named.induct) auto

end
