(* ===== verification/Readdir.thy ===== *)
theory Readdir
  imports Steps
begin

text \<open>
  The evaluation of a virtual directory, \<open>mosaicfs-vfs/src/readdir.rs\<close>: the files of
  each mount are queried, filtered by the inherited and the mount's steps, renamed, and
  merged into the listing under the mount's conflict policy. The two hash maps of the
  merge are association lists with distinct keys; their order is the iteration order,
  and the listing is shown not to depend on it.

  The database is the record of the client's methods (theory \<open>Couch\<close>).
\<close>

section \<open>Names and paths\<close>

definition split_extension :: "string \<Rightarrow> string \<times> string" where
  "split_extension name =
     (case rfind (CHR ''.'') name of
        Some pos \<Rightarrow> if 0 < pos then (take pos name, drop (pos + 1) name) else (name, [])
      | None \<Rightarrow> (name, []))"

definition map_filename :: "mount_strategy \<Rightarrow> mount_source \<Rightarrow> file_document \<Rightarrow> string" where
  "map_filename strategy source file =
     (case strategy of
        Flatten \<Rightarrow> fd_name file
      | PrefixReplace \<Rightarrow>
          (case source of
             SourceNode _ export_path \<Rightarrow>
               (let full = fs_export_path (fd_source file);
                    rel = trim_start (CHR ''/'') (unwrap_or (strip_prefix export_path full) full)
                in if rel = [] then fd_name file
                   else (case split_once (CHR ''/'') rel of
                           Some (first, _) \<Rightarrow> first
                         | None \<Rightarrow> rel))
           | SourceFederated _ \<Rightarrow> fd_name file
           | SourceLabel _ \<Rightarrow> fd_name file))"

definition dir_id_for :: "libs \<Rightarrow> string \<Rightarrow> string" where
  "dir_id_for lb path = (if path = ''/'' then ''dir::root'' else ''dir::'' @ sha256_hex lb path)"

definition ancestor_paths :: "string \<Rightarrow> string list" where
  "ancestor_paths path =
     (let trimmed = trim_end (CHR ''/'') (trim_start (CHR ''/'') path);
          parts = split_on (CHR ''/'') trimmed
      in ''/'' # filter (\<lambda>p. p \<noteq> ''/'')
           (map (\<lambda>i. ''/'' @ join ''/'' (take (Suc i) parts)) [0 ..< length parts - 1]))"

section \<open>Queries\<close>

definition node_selector :: "libs \<Rightarrow> string \<Rightarrow> string \<Rightarrow> json" where
  "node_selector lb node_id export_path =
     JObj [(''type'', JStr ''file''), (''status'', JStr ''active''),
       (''source.node_id'', JStr node_id),
       (''source.export_parent'',
          JObj [(''$regex'', JStr (''^'' @ regex_escape lb (trim_end (CHR ''/'') export_path)))])]"

definition with_id :: "libs \<Rightarrow> json \<Rightarrow> (string \<times> file_document) option" where
  "with_id lb doc =
     map_option (Pair (unwrap_or (jget_str ''_id'' doc) [])) (file_document_of_json lb doc)"

fun label_query ::
  "libs \<Rightarrow> 's couch \<Rightarrow> string list \<Rightarrow> 's \<Rightarrow> (string \<times> file_document) list \<times> 's" where
  "label_query lb db [] s = ([], s)"
| "label_query lb db (i # is) s =
     (let (r, s1) = db_get db i s;
          found = (case r of
             Inr doc \<Rightarrow>
               if jget_str ''status'' doc = Some ''active''
               then (case file_document_of_json lb doc of Some f \<Rightarrow> [(i, f)] | None \<Rightarrow> [])
               else []
           | Inl _ \<Rightarrow> []);
          (rest, s2) = label_query lb db is s1
      in (found @ rest, s2))"

definition query_mount_files ::
  "libs \<Rightarrow> 's couch \<Rightarrow> mount_source \<Rightarrow> (string \<Rightarrow> string list) \<Rightarrow> 's \<Rightarrow>
     (couch_error + (string \<times> file_document) list) \<times> 's" where
  "query_mount_files lb db source label_files s =
     (case source of
        SourceNode node_id export_path \<Rightarrow>
          (case db_find db (node_selector lb node_id export_path) s of
             (Inl e, s1) \<Rightarrow> (Inl e, s1)
           | (Inr docs, s1) \<Rightarrow> (Inr (List.map_filter (with_id lb) docs), s1))
      | SourceLabel l \<Rightarrow>
          (let (files, s1) = label_query lb db (label_files l) s in (Inr files, s1))
      | SourceFederated _ \<Rightarrow> (Inr [], s))"

section \<open>The merge\<close>

record readdir_entry =
  re_name :: string
  re_file_id :: string
  re_inode :: u64
  re_size :: u64
  re_mtime :: time
  re_mime_type :: "string option"
  re_source_node_id :: string
  re_source_export_path :: string
  re_mount_id :: string

record readdir_dir_entry =
  rd_name :: string
  rd_inode :: u64
  rd_virtual_path :: string

record listing =
  result_entries :: "(string \<times> readdir_entry) list"
  conflict_policies :: "(string \<times> conflict_policy) list"

definition empty_listing :: listing where
  "empty_listing = \<lparr>result_entries = [], conflict_policies = []\<rparr>"

definition make_entry :: "mount_entry \<Rightarrow> string \<Rightarrow> string \<Rightarrow> file_document \<Rightarrow> readdir_entry" where
  "make_entry mount name file_id file =
     \<lparr>re_name = name, re_file_id = file_id, re_inode = fd_inode file, re_size = fd_size file,
      re_mtime = fd_mtime file, re_mime_type = fd_mime_type file,
      re_source_node_id = fs_node_id (fd_source file),
      re_source_export_path = fs_export_path (fd_source file),
      re_mount_id = me_mount_id mount\<rparr>"

definition suffixed_name :: "string \<Rightarrow> string \<Rightarrow> string" where
  "suffixed_name name node =
     (let (stem, ext) = split_extension name in
      if ext = [] then stem @ '' ('' @ node @ '')''
      else stem @ '' ('' @ node @ '').'' @ ext)"

definition merge_entry :: "conflict_policy \<Rightarrow> readdir_entry \<Rightarrow> listing \<Rightarrow> listing" where
  "merge_entry mount_policy e l =
     (case map_of (result_entries l) (re_name e) of
        Some existing \<Rightarrow>
          (case unwrap_or (map_of (conflict_policies l) (re_name e)) mount_policy of
             LastWriteWins \<Rightarrow>
               if re_mtime existing < re_mtime e
               then \<lparr>result_entries = AList.update (re_name e) e (result_entries l),
                     conflict_policies =
                       AList.update (re_name e) mount_policy (conflict_policies l)\<rparr>
               else l
           | SuffixNodeId \<Rightarrow>
               (let suffixed = suffixed_name (re_name e) (re_source_node_id e)
                in l\<lparr>result_entries :=
                       AList.update suffixed (e\<lparr>re_name := suffixed\<rparr>) (result_entries l)\<rparr>))
      | None \<Rightarrow>
          \<lparr>result_entries = AList.update (re_name e) e (result_entries l),
           conflict_policies = AList.update (re_name e) mount_policy (conflict_policies l)\<rparr>)"

text \<open>The entry of one file, if its steps include it and no directory has its name.\<close>

definition candidate ::
  "libs \<Rightarrow> time \<Rightarrow> step list \<Rightarrow> string list \<Rightarrow> step_context \<Rightarrow> mount_entry \<Rightarrow>
     string \<times> file_document \<Rightarrow> readdir_entry option" where
  "candidate lb now inherited child_dirs ctx mount idf =
     (let (file_id, file) = idf;
          all_steps = inherited @ me_steps mount;
          effective_default = (if inherited = [] then me_default_result mount else Exclude);
          step_result = evaluate_steps lb now all_steps file file_id effective_default ctx
      in if step_result \<noteq> Include then None
         else
           (let mapped_name = map_filename (me_strategy mount) (me_source mount) file in
            if mapped_name \<in> set child_dirs then None
            else Some (make_entry mount mapped_name file_id file)))"

definition merge_file ::
  "libs \<Rightarrow> time \<Rightarrow> step list \<Rightarrow> string list \<Rightarrow> step_context \<Rightarrow> mount_entry \<Rightarrow>
     string \<times> file_document \<Rightarrow> listing \<Rightarrow> listing" where
  "merge_file lb now inherited child_dirs ctx mount idf l =
     (case candidate lb now inherited child_dirs ctx mount idf of
        None \<Rightarrow> l
      | Some e \<Rightarrow> merge_entry (me_conflict_policy mount) e l)"

fun merge_mounts ::
  "libs \<Rightarrow> time \<Rightarrow> 's couch \<Rightarrow> step list \<Rightarrow> string list \<Rightarrow> step_context \<Rightarrow> (string \<Rightarrow> string list) \<Rightarrow>
     mount_entry list \<Rightarrow> listing \<Rightarrow> 's \<Rightarrow> (couch_error + listing) \<times> 's" where
  "merge_mounts lb now db inherited child_dirs ctx label_files [] l s = (Inr l, s)"
| "merge_mounts lb now db inherited child_dirs ctx label_files (m # ms) l s =
     (case query_mount_files lb db (me_source m) label_files s of
        (Inl e, s1) \<Rightarrow> (Inl e, s1)
      | (Inr files, s1) \<Rightarrow>
          merge_mounts lb now db inherited child_dirs ctx label_files ms
            (fold (merge_file lb now inherited child_dirs ctx m) files l) s1)"

definition sorted_entries :: "listing \<Rightarrow> readdir_entry list" where
  "sorted_entries l = sort_key re_name (map snd (result_entries l))"

definition evaluate_readdir ::
  "libs \<Rightarrow> time \<Rightarrow> 's couch \<Rightarrow> mount_entry list \<Rightarrow> step list \<Rightarrow> string list \<Rightarrow> step_context \<Rightarrow>
     (string \<Rightarrow> string list) \<Rightarrow> 's \<Rightarrow> (couch_error + readdir_entry list) \<times> 's" where
  "evaluate_readdir lb now db mounts inherited child_dirs ctx label_files s =
     (let (r, s1) = merge_mounts lb now db inherited child_dirs ctx label_files mounts
                      empty_listing s
      in (map_sum id sorted_entries r, s1))"

section \<open>Inherited steps\<close>

definition doc_steps :: "json \<Rightarrow> step list" where
  "doc_steps doc =
     (if unwrap_or (Option.bind (jget ''enforce_steps_on_children'' doc) as_bool) False then
        (case Option.bind (jget ''mounts'' doc) as_array of
           None \<Rightarrow> []
         | Some mounts \<Rightarrow>
             concat (map (\<lambda>mount.
               case Option.bind (jget ''steps'' mount) as_array of
                 None \<Rightarrow> [] | Some ss \<Rightarrow> List.map_filter step_of_json ss) mounts))
      else [])"

fun collect_steps :: "libs \<Rightarrow> 's couch \<Rightarrow> string list \<Rightarrow> 's \<Rightarrow> step list \<times> 's" where
  "collect_steps lb db [] s = ([], s)"
| "collect_steps lb db (p # ps) s =
     (let (r, s1) = db_get db (dir_id_for lb p) s;
          (rest, s2) = collect_steps lb db ps s1
      in ((case r of Inr doc \<Rightarrow> doc_steps doc | Inl _ \<Rightarrow> []) @ rest, s2))"

definition collect_inherited_steps ::
  "libs \<Rightarrow> 's couch \<Rightarrow> string \<Rightarrow> 's \<Rightarrow> (couch_error + step list) \<times> 's" where
  "collect_inherited_steps lb db virtual_path s =
     (if virtual_path = ''/'' then (Inr [], s)
      else (let (steps, s1) = collect_steps lb db (ancestor_paths virtual_path) s
            in (Inr steps, s1)))"

section \<open>The default context\<close>

record vfs_context =
  vc_labels :: "string \<rightharpoonup> string list"
  vc_accesses :: "string \<rightharpoonup> time"
  vc_replicas :: "string \<rightharpoonup> (string \<times> string) list"
  vc_annotations :: "string \<rightharpoonup> string list"

definition empty_vfs_context :: vfs_context where
  "empty_vfs_context =
     \<lparr>vc_labels = Map.empty, vc_accesses = Map.empty, vc_replicas = Map.empty,
      vc_annotations = Map.empty\<rparr>"

definition vfs_step_context :: "vfs_context \<Rightarrow> step_context" where
  "vfs_step_context v =
     \<lparr>has_label = (\<lambda>u l. unwrap_or (map_option (\<lambda>ls. l \<in> set ls) (vc_labels v u)) False),
      last_access = vc_accesses v,
      has_replica = (\<lambda>u t st. case vc_replicas v u of
          None \<Rightarrow> False | Some rs \<Rightarrow> replica_scan rs t st),
      has_annotation = (\<lambda>u p. unwrap_or (map_option (\<lambda>ps. p \<in> set ps) (vc_annotations v u)) False)\<rparr>"

interpretation vfs_ctx: replica_context "vfs_step_context v" for v
  by unfold_locales (fastforce simp: vfs_step_context_def replica_scan_iff split: option.splits)+

section \<open>Lemmas on the merge\<close>

text \<open>Every entry is stored under its name and each name once.\<close>

definition listing_ok :: "listing \<Rightarrow> bool" where
  "listing_ok l \<longleftrightarrow> keyed re_name (result_entries l)"

lemma listing_ok_empty [wf_intros]: "listing_ok empty_listing"
  by (simp add: listing_ok_def empty_listing_def)

lemma merge_entry_ok [wf_intros]: "listing_ok l \<Longrightarrow> listing_ok (merge_entry p e l)"
  by (auto simp: merge_entry_def listing_ok_def keyed_update Let_def
      split: option.splits conflict_policy.splits)

lemma merge_file_ok [wf_intros]:
  "listing_ok l \<Longrightarrow> listing_ok (merge_file lb now inh cd ctx m idf l)"
  by (auto simp: merge_file_def merge_entry_ok split: option.splits)

lemma fold_merge_ok:
  "listing_ok l \<Longrightarrow> listing_ok (fold (merge_file lb now inh cd ctx m) files l)"
  by (induction files arbitrary: l) (auto intro: wf_intros)

lemma sorted_entries_names:
  assumes "listing_ok l"
  shows "sorted_wrt (<) (map re_name (sorted_entries l))"
proof -
  have "distinct (map re_name (map snd (result_entries l)))"
    using assms unfolding listing_ok_def by (metis keyed_def keyed_names)
  then have "distinct (map re_name (sorted_entries l))"
    by (auto simp: sorted_entries_def distinct_map inj_on_def)
  then show ?thesis
    by (simp add: sorted_entries_def strict_sorted_iff)
qed

lemma set_sorted_entries: "set (sorted_entries l) = snd ` set (result_entries l)"
  by (simp add: sorted_entries_def)

text \<open>Two listings with the same entries, in whatever order, give the same result.\<close>

lemma sorted_entries_cong:
  assumes "listing_ok l" "set (result_entries l) = set (result_entries l')" "listing_ok l'"
  shows "sorted_entries l = sorted_entries l'"
proof -
  have inj: "inj_on re_name (snd ` set (result_entries l))"
    using assms(1) by (simp add: listing_ok_def keyed_inj)
  have eq: "map re_name (sorted_entries l) = map re_name (sorted_entries l')"
    by (rule strict_sorted_equal)
      (use assms in \<open>simp_all add: sorted_entries_names set_sorted_entries image_image\<close>)
  show ?thesis
    by (rule map_inj_on [OF eq]) (use inj assms(2) in \<open>simp add: set_sorted_entries\<close>)
qed

section \<open>The listing as a merge of candidates\<close>

text \<open>The queries alone, in the order the loop makes them.\<close>

fun query_all ::
  "libs \<Rightarrow> 's couch \<Rightarrow> (string \<Rightarrow> string list) \<Rightarrow> mount_entry list \<Rightarrow> 's \<Rightarrow>
     (couch_error + (mount_entry \<times> (string \<times> file_document) list) list) \<times> 's" where
  "query_all lb db lf [] s = (Inr [], s)"
| "query_all lb db lf (m # ms) s =
     (case query_mount_files lb db (me_source m) lf s of
        (Inl e, s1) \<Rightarrow> (Inl e, s1)
      | (Inr files, s1) \<Rightarrow>
          (case query_all lb db lf ms s1 of
             (Inl e, s2) \<Rightarrow> (Inl e, s2)
           | (Inr mfs, s2) \<Rightarrow> (Inr ((m, files) # mfs), s2)))"

definition merge_mount ::
  "libs \<Rightarrow> time \<Rightarrow> step list \<Rightarrow> string list \<Rightarrow> step_context \<Rightarrow>
     mount_entry \<times> (string \<times> file_document) list \<Rightarrow> listing \<Rightarrow> listing" where
  "merge_mount lb now inherited child_dirs ctx mf l =
     fold (merge_file lb now inherited child_dirs ctx (fst mf)) (snd mf) l"

lemma merge_mounts_query:
  "merge_mounts lb now db inh cd ctx lf ms l s =
     (let (r, s') = query_all lb db lf ms s
      in (map_sum id (\<lambda>mfs. fold (merge_mount lb now inh cd ctx) mfs l) r, s'))"
proof (induction ms arbitrary: l s)
  case Nil
  then show ?case by simp
next
  case (Cons m ms)
  obtain r s1 where q: "query_mount_files lb db (me_source m) lf s = (r, s1)" by fastforce
  show ?case
  proof (cases r)
    case (Inl e)
    with q show ?thesis by simp
  next
    case (Inr files)
    obtain r' s2 where q': "query_all lb db lf ms s1 = (r', s2)" by fastforce
    with q Inr Cons show ?thesis by (cases r') (simp_all add: merge_mount_def)
  qed
qed

text \<open>What may be listed: the candidates of the queried files.\<close>

definition candidates ::
  "libs \<Rightarrow> time \<Rightarrow> step list \<Rightarrow> string list \<Rightarrow> step_context \<Rightarrow>
     (mount_entry \<times> (string \<times> file_document) list) list \<Rightarrow> readdir_entry set" where
  "candidates lb now inherited child_dirs ctx mfs =
     {e. \<exists>(m, files) \<in> set mfs. \<exists>idf \<in> set files.
           candidate lb now inherited child_dirs ctx m idf = Some e}"

text \<open>
  A relation kept by every merge holds of the final listing: the shared induction over
  mounts and files. \<open>ps\<close> restricts the mounts.
\<close>

lemma fold_merge_file_invariant:
  assumes "\<And>idf e l. idf \<in> set files \<Longrightarrow> candidate lb now inh cd ctx m idf = Some e \<Longrightarrow> Q l \<Longrightarrow>
      Q (merge_entry (me_conflict_policy m) e l)"
    and "Q l"
  shows "Q (fold (merge_file lb now inh cd ctx m) files l)"
  using assms
proof (induction files arbitrary: l)
  case Nil
  then show ?case by simp
next
  case (Cons idf files)
  have step: "Q (merge_file lb now inh cd ctx m idf l)"
    using Cons.prems(1) [of idf _ l] Cons.prems(2)
    by (cases "candidate lb now inh cd ctx m idf") (simp_all add: merge_file_def)
  have "Q (fold (merge_file lb now inh cd ctx m) files (merge_file lb now inh cd ctx m idf l))"
  proof (rule Cons.IH [OF _ step])
    fix i e l
    assume "i \<in> set files" "candidate lb now inh cd ctx m i = Some e" "Q l"
    then show "Q (merge_entry (me_conflict_policy m) e l)"
      by (intro Cons.prems(1)) simp_all
  qed
  then show ?case by simp
qed

lemma merge_all_invariant:
  assumes "\<And>m files idf e l. (m, files) \<in> set mfs \<Longrightarrow> idf \<in> set files \<Longrightarrow>
      candidate lb now inh cd ctx m idf = Some e \<Longrightarrow> Q l \<Longrightarrow>
      Q (merge_entry (me_conflict_policy m) e l)"
    and "Q l"
  shows "Q (fold (merge_mount lb now inh cd ctx) mfs l)"
  using assms
proof (induction mfs arbitrary: l)
  case Nil
  then show ?case by simp
next
  case (Cons mf mfs)
  have step: "Q (merge_mount lb now inh cd ctx mf l)"
    unfolding merge_mount_def
  proof (rule fold_merge_file_invariant [where Q = Q, OF _ Cons.prems(2)])
    fix i e l
    assume "i \<in> set (snd mf)" "candidate lb now inh cd ctx (fst mf) i = Some e" "Q l"
    then show "Q (merge_entry (me_conflict_policy (fst mf)) e l)"
      by (intro Cons.prems(1) [of "fst mf" "snd mf"]) simp_all
  qed
  have "Q (fold (merge_mount lb now inh cd ctx) mfs (merge_mount lb now inh cd ctx mf l))"
  proof (rule Cons.IH [OF _ step])
    fix m files i e l
    assume "(m, files) \<in> set mfs" "i \<in> set files" "candidate lb now inh cd ctx m i = Some e" "Q l"
    then show "Q (merge_entry (me_conflict_policy m) e l)"
      by (intro Cons.prems(1) [of m files]) simp_all
  qed
  then show ?case by simp
qed

lemma merge_all_ok: "listing_ok l \<Longrightarrow> listing_ok (fold (merge_mount lb now inh cd ctx) mfs l)"
  by (rule merge_all_invariant) (auto intro: wf_intros)

text \<open>An entry of the listing is a candidate, possibly under its suffixed name.\<close>

definition renamed_from :: "readdir_entry set \<Rightarrow> readdir_entry \<Rightarrow> bool" where
  "renamed_from C e \<longleftrightarrow>
     (\<exists>c \<in> C. e = c \<or> e = c\<lparr>re_name := suffixed_name (re_name c) (re_source_node_id c)\<rparr>)"

lemma merge_entry_values:
  "(k, x) \<in> set (result_entries (merge_entry p e l)) \<Longrightarrow>
     (k, x) \<in> set (result_entries l) \<or> x = e \<or>
     x = e\<lparr>re_name := suffixed_name (re_name e) (re_source_node_id e)\<rparr>"
  using set_AList_update_subset
  by (fastforce simp: merge_entry_def Let_def split: option.splits conflict_policy.splits if_splits)

lemma merge_all_renamed:
  "\<forall>(k, x) \<in> set (result_entries (fold (merge_mount lb now inh cd ctx) mfs empty_listing)).
     renamed_from (candidates lb now inh cd ctx mfs) x"
proof (rule merge_all_invariant [where Q = "\<lambda>l. \<forall>(k, x) \<in> set (result_entries l).
    renamed_from (candidates lb now inh cd ctx mfs) x"])
  fix m files idf e and l :: listing
  assume "(m, files) \<in> set mfs" "idf \<in> set files" "candidate lb now inh cd ctx m idf = Some e"
  then have "e \<in> candidates lb now inh cd ctx mfs" by (auto simp: candidates_def)
  moreover assume "\<forall>(k, x) \<in> set (result_entries l). renamed_from (candidates lb now inh cd ctx mfs) x"
  ultimately show "\<forall>(k, x) \<in> set (result_entries (merge_entry (me_conflict_policy m) e l)).
      renamed_from (candidates lb now inh cd ctx mfs) x"
    by (auto simp: renamed_from_def dest!: merge_entry_values)
qed (simp add: empty_listing_def)

text \<open>Under last-write-wins alone, merging keeps, for each name, an entry at least as new.\<close>

definition newest :: "listing \<Rightarrow> readdir_entry \<Rightarrow> bool" where
  "newest l e \<longleftrightarrow>
     (\<exists>x. map_of (result_entries l) (re_name e) = Some x \<and> re_mtime e \<le> re_mtime x)"

definition all_lww :: "listing \<Rightarrow> bool" where
  "all_lww l \<longleftrightarrow> (\<forall>k p. map_of (conflict_policies l) k = Some p \<longrightarrow> p = LastWriteWins)"

lemma all_lww_empty: "all_lww empty_listing"
  by (simp add: all_lww_def empty_listing_def)

lemma merge_entry_lww:
  assumes "all_lww l" "p = LastWriteWins"
  shows "all_lww (merge_entry p e l)" "newest (merge_entry p e l) e"
    "newest l c \<Longrightarrow> newest (merge_entry p e l) c"
proof -
  have pol: "unwrap_or (map_of (conflict_policies l) (re_name e)) p = LastWriteWins"
    using assms by (cases "map_of (conflict_policies l) (re_name e)") (auto simp: all_lww_def)
  show "all_lww (merge_entry p e l)" "newest (merge_entry p e l) e"
    "newest l c \<Longrightarrow> newest (merge_entry p e l) c"
    using pol assms
    by (auto simp: merge_entry_def all_lww_def newest_def update_conv' split: option.split)
qed

lemma fold_merge_file_newest:
  assumes "me_conflict_policy m = LastWriteWins" "all_lww l"
    and "idf \<in> set files" "candidate lb now inh cd ctx m idf = Some e"
  shows "newest (fold (merge_file lb now inh cd ctx m) files l) e"
proof -
  from assms(3) obtain before rest where files: "files = before @ idf # rest"
    by (meson split_list)
  let ?l = "fold (merge_file lb now inh cd ctx m) before l"
  have "all_lww ?l"
    by (rule fold_merge_file_invariant [where Q = all_lww]) (simp_all add: assms merge_entry_lww)
  then have "newest (merge_file lb now inh cd ctx m idf ?l) e \<and>
      all_lww (merge_file lb now inh cd ctx m idf ?l)"
    using assms by (simp add: merge_file_def merge_entry_lww)
  then have "newest (fold (merge_file lb now inh cd ctx m) rest (merge_file lb now inh cd ctx m idf ?l)) e \<and>
      all_lww (fold (merge_file lb now inh cd ctx m) rest (merge_file lb now inh cd ctx m idf ?l))"
    by (rule fold_merge_file_invariant [where Q = "\<lambda>l. newest l e \<and> all_lww l", rotated])
      (simp add: assms merge_entry_lww)
  then show ?thesis by (simp add: files)
qed

lemma merge_all_newest:
  assumes lww: "\<forall>(m, files) \<in> set mfs. me_conflict_policy m = LastWriteWins"
    and mf: "(m, files) \<in> set mfs" "idf \<in> set files" "candidate lb now inh cd ctx m idf = Some e"
  shows "newest (fold (merge_mount lb now inh cd ctx) mfs empty_listing) e"
proof -
  from mf(1) obtain before rest where mfs: "mfs = before @ (m, files) # rest"
    by (meson split_list)
  let ?l = "fold (merge_mount lb now inh cd ctx) before empty_listing"
  let ?l' = "merge_mount lb now inh cd ctx (m, files) ?l"
  have pol: "me_conflict_policy m' = LastWriteWins" if "(m', fs) \<in> set mfs" for m' fs
    using lww that by auto
  have before: "all_lww ?l"
  proof (rule merge_all_invariant [where Q = all_lww])
    fix m' fs idf' e' l
    assume "(m', fs) \<in> set before" "all_lww l"
    then show "all_lww (merge_entry (me_conflict_policy m') e' l)"
      using pol [of m' fs] by (simp add: mfs merge_entry_lww)
  qed (rule all_lww_empty)
  have m: "me_conflict_policy m = LastWriteWins" using pol mf(1) by blast
  have l': "merge_mount lb now inh cd ctx (m, files) l =
      fold (merge_file lb now inh cd ctx m) files l" for l
    by (simp add: merge_mount_def)
  have "newest ?l' e"
    unfolding l' by (rule fold_merge_file_newest [OF m before mf(2,3)])
  moreover have "all_lww ?l'"
    unfolding l' by (rule fold_merge_file_invariant [where Q = all_lww, OF _ before])
      (simp add: merge_entry_lww m)
  ultimately have start: "newest ?l' e \<and> all_lww ?l'" ..
  have "newest (fold (merge_mount lb now inh cd ctx) rest ?l') e \<and>
      all_lww (fold (merge_mount lb now inh cd ctx) rest ?l')"
  proof (rule merge_all_invariant [where Q = "\<lambda>l. newest l e \<and> all_lww l"])
    fix m' fs idf' e' l
    assume "(m', fs) \<in> set rest" "newest l e \<and> all_lww l"
    then show "newest (merge_entry (me_conflict_policy m') e' l) e \<and>
        all_lww (merge_entry (me_conflict_policy m') e' l)"
      using pol [of m' fs] by (simp add: mfs merge_entry_lww)
  qed (rule start)
  then show ?thesis by (simp add: mfs)
qed

lemma evaluate_readdir_query:
  "evaluate_readdir lb now db ms inh cd ctx lf s =
     (let (r, s') = query_all lb db lf ms s
      in (map_sum id (\<lambda>mfs. sorted_entries (fold (merge_mount lb now inh cd ctx) mfs empty_listing)) r,
          s'))"
  by (cases "query_all lb db lf ms s"; cases "fst (query_all lb db lf ms s)")
    (simp_all add: evaluate_readdir_def merge_mounts_query)

lemma evaluate_readdir_Inr:
  assumes "evaluate_readdir lb now db ms inh cd ctx lf s = (Inr es, s')"
  obtains mfs where "query_all lb db lf ms s = (Inr mfs, s')"
    and "es = sorted_entries (fold (merge_mount lb now inh cd ctx) mfs empty_listing)"
proof -
  obtain r s1 where q: "query_all lb db lf ms s = (r, s1)" by fastforce
  with assms that show ?thesis
    by (cases r) (auto simp: evaluate_readdir_query)
qed

lemma candidate_name:
  "candidate lb now inh cd ctx m idf = Some e \<Longrightarrow> re_name e \<notin> set cd"
  by (auto simp: candidate_def make_entry_def Let_def split: prod.splits if_splits)

lemma evaluate_readdir_names:
  "evaluate_readdir lb now db ms inh cd ctx lf s = (Inr es, s') \<Longrightarrow>
     sorted_wrt (<) (map re_name es)"
  by (erule evaluate_readdir_Inr) (simp add: sorted_entries_names merge_all_ok listing_ok_empty)

lemma split_on_join:
  "ws \<noteq> [] \<Longrightarrow> \<forall>w \<in> set ws. c \<notin> set w \<Longrightarrow> split_on c (join [c] ws) = ws"
proof (induction ws)
  case Nil
  then show ?case by simp
next
  case (Cons w ws)
  have word: "c \<notin> set u \<Longrightarrow> split_on c u = [u]" for u
    by (induction u) auto
  have sep: "c \<notin> set u \<Longrightarrow> split_on c (u @ c # r) = u # split_on c r" for u r
    by (induction u) auto
  from Cons show ?case by (cases "ws = []") (auto simp: join_Cons word sep)
qed

lemma join_ends:
  assumes "ws \<noteq> []" "\<forall>w \<in> set ws. w \<noteq> [] \<and> c \<notin> set w"
  shows "join [c] ws \<noteq> []" "hd (join [c] ws) \<noteq> c" "last (join [c] ws) \<noteq> c"
proof -
  show "join [c] ws \<noteq> []" "hd (join [c] ws) \<noteq> c"
    using assms by (cases ws; cases "tl ws"; auto simp: join_Cons neq_Nil_conv)+
  show "last (join [c] ws) \<noteq> c"
    using assms
  proof (induction ws)
    case Nil
    then show ?case by simp
  next
    case (Cons w ws)
    show ?case
    proof (cases "ws = []")
      case True
      with Cons.prems show ?thesis by (auto dest: last_in_set)
    next
      case False
      then have "join [c] ws \<noteq> []" using Cons.prems by (cases ws; cases "tl ws") auto
      with False Cons show ?thesis by (simp add: join_Cons)
    qed
  qed
qed

lemma trim_slashes:
  assumes "s \<noteq> []" "hd s \<noteq> c" "last s \<noteq> c"
  shows "trim_end c (trim_start c (c # s)) = s"
proof -
  have "dropWhile (\<lambda>x. x = c) s = s" using assms by (cases s) auto
  moreover have "dropWhile (\<lambda>x. x = c) (rev s) = rev s"
    using assms by (cases s rule: rev_cases) auto
  ultimately show ?thesis by (simp add: trim_end_def trim_start_def)
qed

section \<open>Properties\<close>

text \<open>A store with one active file and a mount of its node, for the examples.\<close>

definition sample_doc :: file_document where
  "sample_doc =
     \<lparr>fd_inode = 1000, fd_name = ''a.txt'',
      fd_source = \<lparr>fs_node_id = ''n'', fs_export_path = ''/d/a.txt'', fs_export_parent = ''/d''\<rparr>,
      fd_size = 4, fd_mtime = 3, fd_mime_type = None, fd_status = FileActive,
      fd_deleted_at = None, fd_migrated_from = None\<rparr>"

definition sample_store :: store where
  "sample_store = [(''file::a'', file_document_to_json sample_libs sample_doc)]"

definition sample_mount :: mount_entry where
  "sample_mount =
     \<lparr>me_mount_id = ''m'', me_source = SourceNode ''n'' ''/d'', me_strategy = Flatten,
      me_source_prefix = None, me_steps = [], me_default_result = Include,
      me_conflict_policy = LastWriteWins\<rparr>"

definition sample_ctx :: step_context where
  "sample_ctx = vfs_step_context empty_vfs_context"

definition sample_entry :: readdir_entry where
  "sample_entry = make_entry sample_mount ''a.txt'' [] sample_doc"

lemma sample_query:
  "query_all sample_libs sample_couch (\<lambda>_. []) [sample_mount] sample_store =
     (Inr [(sample_mount, [([], sample_doc)])], sample_store)"
  by code_simp

lemma sample_candidate:
  "candidate sample_libs 0 [] [] sample_ctx sample_mount ([], sample_doc) = Some sample_entry"
  by code_simp

lemma sample_listing:
  "evaluate_readdir sample_libs 0 sample_couch [sample_mount] [] [] sample_ctx (\<lambda>_. [])
     sample_store = (Inr [sample_entry], sample_store)"
  by (simp add: evaluate_readdir_query sample_query merge_mount_def merge_file_def
      sample_candidate merge_entry_def empty_listing_def sorted_entries_def
      del: query_all.simps)

text \<open>The listing of a directory is sorted by name and no name occurs twice in it.\<close>

lemma readdir_sorted_unique:
  assumes "evaluate_readdir lb now db ms inh cd ctx lf s = (Inr es, s')"
  shows "sorted_wrt (<) (map re_name es)"
  using assms by (rule evaluate_readdir_names)

section \<open>What a listing holds\<close>

text \<open>
  The files of the mounts as the database answers for them, the questions asked one after another, in relations that
  use nothing of the evaluation above: what a label's documents give, what all the mounts give, and which name a
  mount gives to a file.
\<close>

inductive label_reads ::
  "libs \<Rightarrow> 's couch \<Rightarrow> string list \<Rightarrow> 's \<Rightarrow> (string \<times> file_document) list \<Rightarrow> 's \<Rightarrow> bool" for lb db where
  none: "label_reads lb db [] s [] s"
| found: "db_get db i s = (Inr doc, s1) \<Longrightarrow> jget ''status'' doc = Some (JStr ''active'') \<Longrightarrow>
    file_document_of_json lb doc = Some f \<Longrightarrow> label_reads lb db is s1 files s2 \<Longrightarrow>
    label_reads lb db (i # is) s ((i, f) # files) s2"
| other: "db_get db i s = (r, s1) \<Longrightarrow>
    (\<forall>doc f. r = Inr doc \<longrightarrow> jget ''status'' doc = Some (JStr ''active'') \<longrightarrow> file_document_of_json lb doc \<noteq> Some f) \<Longrightarrow>
    label_reads lb db is s1 files s2 \<Longrightarrow> label_reads lb db (i # is) s files s2"

inductive mount_reads ::
  "libs \<Rightarrow> 's couch \<Rightarrow> (string \<Rightarrow> string list) \<Rightarrow> mount_entry list \<Rightarrow> 's \<Rightarrow>
     (mount_entry \<times> (string \<times> file_document) list) list \<Rightarrow> 's \<Rightarrow> bool" for lb db lf where
  none: "mount_reads lb db lf [] s [] s"
| node: "me_source m = SourceNode node root \<Longrightarrow>
    db_find db (JObj [(''type'', JStr ''file''), (''status'', JStr ''active''), (''source.node_id'', JStr node),
      (''source.export_parent'',
        JObj [(''$regex'', JStr (''^'' @ regex_escape lb (trim_end (CHR ''/'') root)))])]) s = (Inr docs, s1) \<Longrightarrow>
    files = [(case jget ''_id'' d of Some (JStr i) \<Rightarrow> i | _ \<Rightarrow> [], the (file_document_of_json lb d)).
      d \<leftarrow> docs, file_document_of_json lb d \<noteq> None] \<Longrightarrow>
    mount_reads lb db lf ms s1 mfs s2 \<Longrightarrow> mount_reads lb db lf (m # ms) s ((m, files) # mfs) s2"
| label: "me_source m = SourceLabel l \<Longrightarrow> label_reads lb db (lf l) s files s1 \<Longrightarrow>
    mount_reads lb db lf ms s1 mfs s2 \<Longrightarrow> mount_reads lb db lf (m # ms) s ((m, files) # mfs) s2"
| federated: "me_source m = SourceFederated u \<Longrightarrow>
    mount_reads lb db lf ms s mfs s2 \<Longrightarrow> mount_reads lb db lf (m # ms) s ((m, []) # mfs) s2"

definition listed_name :: "mount_entry \<Rightarrow> file_document \<Rightarrow> string" where
  "listed_name m f =
     (case (me_strategy m, me_source m) of
        (PrefixReplace, SourceNode _ root) \<Rightarrow>
          (let path = fs_export_path (fd_source f);
               below = (if take (length root) path = root then drop (length root) path else path);
               first = takeWhile (\<lambda>c. c \<noteq> CHR ''/'') (dropWhile (\<lambda>c. c = CHR ''/'') below)
           in if first = [] then fd_name f else first)
      | _ \<Rightarrow> fd_name f)"

text \<open>
  The first step of the ancestors and of the mount that applies and does not only say to go on decides; when there is
  none, the mount's own default does, and where steps are inherited the file is left out.
\<close>

definition included ::
  "libs \<Rightarrow> time \<Rightarrow> step list \<Rightarrow> step_context \<Rightarrow> mount_entry \<Rightarrow> string \<Rightarrow> file_document \<Rightarrow> bool" where
  "included lb now inh ctx m fid f \<longleftrightarrow>
     (case List.find (\<lambda>s. step_matches lb now ctx fid f s \<noteq> st_invert s \<and> st_on_match s \<noteq> Some Continue)
             (inh @ me_steps m) of
        Some s \<Rightarrow> st_on_match s \<noteq> Some Exclude
      | None \<Rightarrow> inh = [] \<and> me_default_result m = Include)"

lemma label_query_reads:
  "label_query lb db is s = (files, s') \<Longrightarrow> label_reads lb db is s files s'"
proof (induction "is" arbitrary: s files s')
  case Nil
  then show ?case by (simp add: label_reads.none)
next
  case (Cons i "is")
  obtain r s1 where r: "db_get db i s = (r, s1)" by fastforce
  obtain rest s2 where rest: "label_query lb db is s1 = (rest, s2)" by fastforce
  note IH = Cons.IH [OF rest]
  have st: "jget_str ''status'' doc = Some ''active'' \<longleftrightarrow> jget ''status'' doc = Some (JStr ''active'')" for doc
    by (auto simp: jget_str_def bind_eq_Some_conv as_str_Some)
  show ?case
  proof (cases "\<exists>doc f. r = Inr doc \<and> jget ''status'' doc = Some (JStr ''active'') \<and>
      file_document_of_json lb doc = Some f")
    case True
    then obtain doc f where d: "r = Inr doc" "jget ''status'' doc = Some (JStr ''active'')"
      "file_document_of_json lb doc = Some f" by blast
    with Cons.prems r rest have "files = (i, f) # rest" "s' = s2" by (simp_all add: st)
    with d r IH show ?thesis by (auto intro: label_reads.found)
  next
    case False
    with Cons.prems r rest have "files = rest" "s' = s2"
      by (auto simp: st split: sum.splits option.splits if_splits)
    with False r IH show ?thesis by (auto intro!: label_reads.other [OF r])
  qed
qed

lemma with_id_list:
  "List.map_filter (with_id lb) docs =
     [(case jget ''_id'' d of Some (JStr i) \<Rightarrow> i | _ \<Rightarrow> [], the (file_document_of_json lb d)).
      d \<leftarrow> docs, file_document_of_json lb d \<noteq> None]"
proof (induction docs)
  case Nil
  then show ?case by (simp add: List.map_filter_def)
next
  case (Cons d docs)
  have "unwrap_or (jget_str ''_id'' d) [] = (case jget ''_id'' d of Some (JStr i) \<Rightarrow> i | _ \<Rightarrow> [])"
    by (auto simp: jget_str_def split: option.split json.split)
  with Cons show ?case by (auto simp: List.map_filter_def with_id_def)
qed

lemma query_all_reads:
  "query_all lb db lf ms s = (Inr mfs, s') \<Longrightarrow> mount_reads lb db lf ms s mfs s'"
proof (induction ms arbitrary: s mfs)
  case Nil
  then show ?case by (simp add: mount_reads.none)
next
  case (Cons m ms)
  then obtain files s1 rest where q: "query_mount_files lb db (me_source m) lf s = (Inr files, s1)"
    and rest: "query_all lb db lf ms s1 = (Inr rest, s')" and mfs: "mfs = (m, files) # rest"
    by (auto split: prod.splits sum.splits)
  note IH = Cons.IH [OF rest]
  show ?case
  proof (cases "me_source m")
    case (SourceNode node root)
    with q obtain docs where "db_find db (node_selector lb node root) s = (Inr docs, s1)"
      and "files = List.map_filter (with_id lb) docs"
      by (auto simp: query_mount_files_def split: prod.splits sum.splits)
    then show ?thesis
      unfolding mfs by (intro mount_reads.node [OF SourceNode _ _ IH]) (auto simp: node_selector_def with_id_list)
  next
    case (SourceLabel l)
    with q have "label_query lb db (lf l) s = (files, s1)"
      by (auto simp: query_mount_files_def split: prod.splits)
    from label_query_reads [OF this] show ?thesis
      unfolding mfs by (rule mount_reads.label [OF SourceLabel _ IH])
  next
    case (SourceFederated u)
    with q have "files = []" "s1 = s" by (auto simp: query_mount_files_def)
    with IH show ?thesis unfolding mfs by (auto intro: mount_reads.federated [OF SourceFederated])
  qed
qed

lemma take_split_once: "takeWhile (\<lambda>x. x \<noteq> c) s = (case split_once c s of Some (a, b) \<Rightarrow> a | None \<Rightarrow> s)"
  by (induction s) (auto split: option.splits)

lemma strip_prefix_take:
  "unwrap_or (strip_prefix p s) s = (if take (length p) s = p then drop (length p) s else s)"
proof (cases "strip_prefix p s")
  case None
  then have "take (length p) s \<noteq> p" by (metis append_take_drop_id not_None_eq strip_prefix_Some)
  with None show ?thesis by simp
next
  case (Some r)
  then show ?thesis by (simp add: strip_prefix_Some)
qed

lemma first_component_empty:
  "takeWhile (\<lambda>x. x \<noteq> c) (dropWhile (\<lambda>x. x = c) s) = [] \<longleftrightarrow> dropWhile (\<lambda>x. x = c) s = []"
  by (induction s) auto

lemma map_filename_listed: "map_filename (me_strategy m) (me_source m) f = listed_name m f"
proof (cases "me_strategy m")
  case Flatten
  then show ?thesis by (simp add: map_filename_def listed_name_def)
next
  case PrefixReplace
  show ?thesis
  proof (cases "me_source m")
    case (SourceNode node root)
    define rel where "rel = trim_start (CHR ''/'') (unwrap_or (strip_prefix root (fs_export_path (fd_source f)))
      (fs_export_path (fd_source f)))"
    have "map_filename (me_strategy m) (me_source m) f =
        (if rel = [] then fd_name f else takeWhile (\<lambda>c. c \<noteq> CHR ''/'') rel)"
      by (simp add: map_filename_def PrefixReplace SourceNode Let_def rel_def take_split_once)
    moreover have "listed_name m f =
        (if takeWhile (\<lambda>c. c \<noteq> CHR ''/'') rel = [] then fd_name f else takeWhile (\<lambda>c. c \<noteq> CHR ''/'') rel)"
      unfolding rel_def strip_prefix_take
      by (simp add: listed_name_def PrefixReplace SourceNode Let_def trim_start_def)
    moreover have "takeWhile (\<lambda>c. c \<noteq> CHR ''/'') rel = [] \<longleftrightarrow> rel = []"
      unfolding rel_def trim_start_def by (rule first_component_empty)
    ultimately show ?thesis by simp
  qed (simp_all add: map_filename_def listed_name_def PrefixReplace)
qed

lemma evaluate_steps_included:
  "evaluate_steps lb now (inh @ me_steps m) f fid
     (if inh = [] then me_default_result m else Exclude) ctx = Include \<longleftrightarrow> included lb now inh ctx m fid f"
proof -
  let ?op = "\<lambda>s. evaluate_op lb s f fid (unwrap_or (uuid_from_id fid) fid) now ctx"
  have "decides ?op s \<longleftrightarrow> step_matches lb now ctx fid f s \<noteq> st_invert s \<and> st_on_match s \<noteq> Some Continue" for s
    by (cases "st_on_match s"; cases "st_invert s") (simp_all add: decides_def effective_def evaluate_op_matches)
  then have dec: "decides ?op =
      (\<lambda>s. step_matches lb now ctx fid f s \<noteq> st_invert s \<and> st_on_match s \<noteq> Some Continue)" ..
  have result: "unwrap_or (st_on_match s) Include = Include \<longleftrightarrow> st_on_match s \<noteq> Some Exclude"
    if "st_on_match s \<noteq> Some Continue" for s
    using that by (cases "st_on_match s"; cases "the (st_on_match s)") auto
  define found where "found = List.find (decides ?op) (inh @ me_steps m)"
  have cont: "st_on_match s \<noteq> Some Continue" if "found = Some s" for s
    using that by (auto simp: found_def dec find_Some_iff)
  have "evaluate_steps lb now (inh @ me_steps m) f fid (if inh = [] then me_default_result m else Exclude) ctx =
      (case found of None \<Rightarrow> (if inh = [] then me_default_result m else Exclude)
       | Some s \<Rightarrow> unwrap_or (st_on_match s) Include)"
    by (simp add: evaluate_steps_def evaluate_loop_find found_def)
  moreover have "included lb now inh ctx m fid f \<longleftrightarrow>
      (case found of Some s \<Rightarrow> st_on_match s \<noteq> Some Exclude | None \<Rightarrow> inh = [] \<and> me_default_result m = Include)"
    by (simp add: included_def found_def dec)
  ultimately show ?thesis
    using cont result by (cases found) simp_all
qed

lemma candidate_spelled:
  "candidate lb now inh cd ctx m (fid, f) = Some c \<longleftrightarrow>
     included lb now inh ctx m fid f \<and> listed_name m f \<notin> set cd \<and>
     c = \<lparr>re_name = listed_name m f, re_file_id = fid, re_inode = fd_inode f, re_size = fd_size f,
          re_mtime = fd_mtime f, re_mime_type = fd_mime_type f, re_source_node_id = fs_node_id (fd_source f),
          re_source_export_path = fs_export_path (fd_source f), re_mount_id = me_mount_id m\<rparr>"
  using evaluate_steps_included [of lb now inh m f fid ctx]
  by (auto simp: candidate_def Let_def map_filename_listed make_entry_def)

text \<open>No merge forgets a name.\<close>

lemma merge_entry_names:
  "insert (re_name e) (dom (map_of (result_entries l))) \<subseteq> dom (map_of (result_entries (merge_entry p e l)))"
  by (auto simp: merge_entry_def Let_def update_conv' split: option.split conflict_policy.split)

lemma merge_all_names:
  assumes "(m, files) \<in> set mfs" "idf \<in> set files" "candidate lb now inh cd ctx m idf = Some e"
  shows "re_name e \<in> dom (map_of (result_entries (fold (merge_mount lb now inh cd ctx) mfs l)))"
proof -
  let ?N = "\<lambda>l. re_name e \<in> dom (map_of (result_entries l))"
  from assms(1) obtain ms ms' where mfs: "mfs = ms @ (m, files) # ms'" by (meson split_list)
  from assms(2) obtain fs fs' where files: "files = fs @ idf # fs'" by (meson split_list)
  have keep: "?N l \<Longrightarrow> ?N (merge_entry p x l)" for l p x using merge_entry_names by blast
  let ?l = "fold (merge_file lb now inh cd ctx m) fs (fold (merge_mount lb now inh cd ctx) ms l)"
  have "?N (merge_file lb now inh cd ctx m idf ?l)"
    using merge_entry_names [of e ?l] by (simp add: merge_file_def assms(3))
  then have "?N (fold (merge_file lb now inh cd ctx m) fs' (merge_file lb now inh cd ctx m idf ?l))"
    by (rule fold_merge_file_invariant [where Q = ?N, rotated]) (rule keep)
  then have "?N (fold (merge_mount lb now inh cd ctx) ms'
      (fold (merge_file lb now inh cd ctx m) fs' (merge_file lb now inh cd ctx m idf ?l)))"
    by (rule merge_all_invariant [where Q = ?N, rotated]) (rule keep)
  then show ?thesis by (simp add: mfs files merge_mount_def)
qed

text \<open>C4: a listing is read off the files its mounts give: the database is asked with the selector of the node's
  active files under the exported root, or for the documents of the label's files, of which the active ones count,
  and a federated mount has none. Every entry is such a file, with its fields, which the first deciding step of the
  ancestors and of the mount includes (without one, the mount's default where nothing is inherited), under the name
  the mount gives it, which is not the name of a child directory, or under that name with the node as suffix; every
  such file has an entry of its name, of its own or of the file it competes with; and no name occurs twice. (The rule
  engine's document ends every chain with the mount's default, and gives the operations other parameters: the code is
  what is stated here.)\<close>

theorem readdir_sound:
  assumes "evaluate_readdir lb now db ms inh cd ctx lf s = (Inr es, s')"
  shows "\<exists>mfs. mount_reads lb db lf ms s mfs s' \<and>
    (\<forall>e \<in> set es. \<exists>(m, files) \<in> set mfs. \<exists>(fid, f) \<in> set files.
       included lb now inh ctx m fid f \<and> listed_name m f \<notin> set cd \<and>
       re_name e \<in> {listed_name m f, suffixed_name (listed_name m f) (fs_node_id (fd_source f))} \<and>
       re_file_id e = fid \<and> re_inode e = fd_inode f \<and> re_size e = fd_size f \<and> re_mtime e = fd_mtime f \<and>
       re_mime_type e = fd_mime_type f \<and> re_source_node_id e = fs_node_id (fd_source f) \<and>
       re_source_export_path e = fs_export_path (fd_source f) \<and> re_mount_id e = me_mount_id m) \<and>
    (\<forall>(m, files) \<in> set mfs. \<forall>(fid, f) \<in> set files. included lb now inh ctx m fid f \<longrightarrow>
       listed_name m f \<notin> set cd \<longrightarrow> listed_name m f \<in> re_name ` set es) \<and>
    distinct (map re_name es)"
proof -
  from assms obtain mfs where q: "query_all lb db lf ms s = (Inr mfs, s')"
    and es: "es = sorted_entries (fold (merge_mount lb now inh cd ctx) mfs empty_listing)"
    by (rule evaluate_readdir_Inr)
  let ?l = "fold (merge_mount lb now inh cd ctx) mfs empty_listing"
  have sound: "\<exists>(m, files) \<in> set mfs. \<exists>(fid, f) \<in> set files. \<exists>c.
      candidate lb now inh cd ctx m (fid, f) = Some c \<and>
      (e = c \<or> e = c\<lparr>re_name := suffixed_name (re_name c) (re_source_node_id c)\<rparr>)" if "e \<in> set es" for e
  proof -
    from that have "renamed_from (candidates lb now inh cd ctx mfs) e"
      using merge_all_renamed [of lb now inh cd ctx mfs] by (auto simp: es set_sorted_entries)
    then show ?thesis by (fastforce simp: renamed_from_def candidates_def)
  qed
  have ok: "keyed re_name (result_entries ?l)"
    using merge_all_ok [OF listing_ok_empty] by (simp add: listing_ok_def)
  have complete: "listed_name m f \<in> re_name ` set es"
    if mf: "(m, files) \<in> set mfs" "(fid, f) \<in> set files" "included lb now inh ctx m fid f" "listed_name m f \<notin> set cd"
    for m files fid f
  proof -
    from mf(3,4) obtain c where c: "candidate lb now inh cd ctx m (fid, f) = Some c" "re_name c = listed_name m f"
      by (simp add: candidate_spelled)
    from merge_all_names [OF mf(1,2) c(1)] obtain x where x: "map_of (result_entries ?l) (re_name c) = Some x" by blast
    from keyed_map_of [OF ok x] map_of_SomeD [OF x] c(2) show ?thesis
      by (force simp: es set_sorted_entries image_iff)
  qed
  have "distinct (map re_name es)"
    using evaluate_readdir_names [OF assms] by (simp add: strict_sorted_iff)
  with query_all_reads [OF q] sound complete show ?thesis
    by (intro exI [of _ mfs]) (fastforce simp: candidate_spelled)
qed

theorem readdir_sound_witness:
  "\<exists>mfs. mount_reads sample_libs sample_couch (\<lambda>_. []) [sample_mount] sample_store mfs sample_store \<and>
    (\<exists>(m, files) \<in> set mfs. \<exists>(fid, f) \<in> set files.
       included sample_libs 0 [] sample_ctx m fid f \<and> fid = [] \<and> fd_size f = 4 \<and> fs_export_path (fd_source f) = ''/d/a.txt'')"
proof -
  have "re_file_id sample_entry = []" "re_size sample_entry = 4" "re_source_export_path sample_entry = ''/d/a.txt''"
    by (simp_all add: sample_entry_def make_entry_def sample_doc_def)
  with readdir_sound [OF sample_listing] show ?thesis by fastforce
qed

text \<open>When every mount resolves conflicts by last write wins, each included file is represented:
  the listing has an entry of its name that is at least as new.\<close>

lemma readdir_newest_wins:
  assumes "evaluate_readdir lb now db ms inh cd ctx lf s = (Inr es, s')"
    and "query_all lb db lf ms s = (Inr mfs, s')"
    and "\<forall>(m, files) \<in> set mfs. me_conflict_policy m = LastWriteWins"
    and "(m, files) \<in> set mfs" "idf \<in> set files" "candidate lb now inh cd ctx m idf = Some c"
  shows "\<exists>e \<in> set es. re_name e = re_name c \<and> re_mtime c \<le> re_mtime e"
proof -
  let ?l = "fold (merge_mount lb now inh cd ctx) mfs empty_listing"
  from assms(1,2) have es: "es = sorted_entries ?l" by (simp add: evaluate_readdir_query)
  from merge_all_newest [OF assms(3-6)] obtain x where
    x: "map_of (result_entries ?l) (re_name c) = Some x" "re_mtime c \<le> re_mtime x"
    by (auto simp: newest_def)
  have "keyed re_name (result_entries ?l)"
    using merge_all_ok [OF listing_ok_empty] by (simp add: listing_ok_def)
  from keyed_map_of [OF this x(1)] have "re_name x = re_name c" .
  moreover have "x \<in> set es"
    using map_of_SomeD [OF x(1)] by (force simp: es set_sorted_entries)
  ultimately show ?thesis using x(2) by auto
qed

text \<open>Under the suffix policy a third file of the same name and node replaces the second one: the
  suffixed name is inserted without a look at what is there, so a file disappears.\<close>

lemma suffix_policy_loses_a_file:
  assumes "re_name b = re_name a" "re_name c = re_name a"
    and "re_source_node_id b = node" "re_source_node_id c = node"
    and "suffixed_name (re_name a) node \<noteq> re_name a"
  shows "result_entries (fold (merge_entry SuffixNodeId) [a, b, c] empty_listing) =
    [(re_name a, a),
     (suffixed_name (re_name a) node, c\<lparr>re_name := suffixed_name (re_name a) node\<rparr>)]"
  using assms by (simp add: merge_entry_def empty_listing_def Let_def)

text \<open>The paths whose steps a directory inherits are the root and the proper prefixes of its path,
  from the top down.\<close>

lemma ancestor_paths_correct:
  assumes "ws \<noteq> []" "\<forall>w \<in> set ws. w \<noteq> [] \<and> CHR ''/'' \<notin> set w"
  shows "ancestor_paths (''/'' @ join ''/'' ws) =
    map (\<lambda>i. ''/'' @ join ''/'' (take i ws)) [0 ..< length ws]"
proof -
  note ends = join_ends [OF assms]
  have trimmed: "trim_end (CHR ''/'') (trim_start (CHR ''/'') (CHR ''/'' # join ''/'' ws)) = join ''/'' ws"
    by (rule trim_slashes [OF ends])
  have parts: "split_on (CHR ''/'') (join ''/'' ws) = ws"
    using assms by (simp add: split_on_join)
  have ne: "join ''/'' (take (Suc i) ws) \<noteq> []" for i
    using assms by (intro join_ends(1)) (auto dest: in_set_takeD)
  have "[0 ..< length ws] = 0 # map Suc [0 ..< length ws - 1]"
    using assms(1) by (simp add: map_Suc_upt upt_conv_Cons)
  then show ?thesis
    using trimmed parts ne by (simp add: ancestor_paths_def Let_def comp_def)
qed

lemma hd_split_on:
  "hd (split_on c s) = (case split_once c s of Some (a, b) \<Rightarrow> a | None \<Rightarrow> s)"
  by (induction s) (auto split: option.splits list.splits)

text \<open>A file under the root of a prefix-replacing mount is listed under the first component of its
  remaining path: all the files of one subdirectory compete for the name of that directory.\<close>

lemma prefix_replace_first_component:
  assumes "fs_export_path (fd_source file) = root @ ''/'' @ rel" "rel \<noteq> []" "hd rel \<noteq> CHR ''/''"
  shows "map_filename PrefixReplace (SourceNode node root) file = hd (split_on (CHR ''/'') rel)"
proof -
  have "trim_start (CHR ''/'') (''/'' @ rel) = rel"
    using assms(2,3) by (cases rel) (auto simp: trim_start_def)
  then show ?thesis
    using assms(1,2) by (auto simp: map_filename_def hd_split_on split: option.split)
qed

end
