(* ===== verification/Server_Caches.thy ===== *)
theory Server_Caches
  imports Readdir
begin

text \<open>
  The in-memory caches of the server: \<open>label_cache.rs\<close>, \<open>access_cache.rs\<close>,
  \<open>readdir_cache.rs\<close>, and the wrapper \<open>readdir.rs\<close> of \<open>mosaicfs-server/src\<close> that
  evaluates a directory with them.
\<close>

section \<open>Label cache\<close>

text \<open>File uuid to the set of its labels; the set is a list without duplicates.\<close>

type_synonym label_cache = "(string \<times> string list) list"

definition file_uuid_of :: "string \<Rightarrow> string" where
  "file_uuid_of file_id = unwrap_or (strip_prefix ''file::'' file_id) file_id"

definition cached_labels :: "label_cache \<Rightarrow> string \<Rightarrow> string list" where
  "cached_labels c u = unwrap_or (map_of c u) []"

text \<open>\<open>map.entry(uuid).or_default()\<close> and an insertion of every string of the array.\<close>

definition add_labels :: "string \<Rightarrow> json list \<Rightarrow> label_cache \<Rightarrow> label_cache" where
  "add_labels u labels c =
     AList.update u (fold List.insert (List.map_filter as_str labels) (cached_labels c u)) c"

definition add_assignment :: "json \<Rightarrow> label_cache \<Rightarrow> label_cache" where
  "add_assignment doc c =
     (case (jget_str ''file_id'' doc, Option.bind (jget ''labels'' doc) as_array) of
        (Some file_id, Some labels) \<Rightarrow> add_labels (file_uuid_of file_id) labels c
      | _ \<Rightarrow> c)"

definition rule_matches_file :: "json \<Rightarrow> string \<Rightarrow> string \<Rightarrow> bool" where
  "rule_matches_file rule node_id export_path =
     (case jget_str ''node_id'' rule of
        Some rule_node \<Rightarrow>
          if rule_node \<noteq> [] \<and> rule_node \<noteq> node_id then False
          else starts_with export_path (unwrap_or (jget_str ''path_prefix'' rule) [])
      | None \<Rightarrow> starts_with export_path (unwrap_or (jget_str ''path_prefix'' rule) []))"

definition source_field :: "string \<Rightarrow> json \<Rightarrow> string" where
  "source_field k doc = unwrap_or (Option.bind (jget ''source'' doc) (jget_str k)) []"

definition rule_enabled :: "json \<Rightarrow> bool" where
  "rule_enabled d = unwrap_or (Option.bind (jget ''enabled'' d) as_bool) False"

definition apply_rule :: "string \<Rightarrow> json \<Rightarrow> json \<Rightarrow> label_cache \<Rightarrow> label_cache" where
  "apply_rule uuid file_doc rule c =
     (if rule_matches_file rule (source_field ''node_id'' file_doc)
           (source_field ''export_path'' file_doc)
      then (case Option.bind (jget ''labels'' rule) as_array of
              Some labels \<Rightarrow> add_labels uuid labels c
            | None \<Rightarrow> c)
      else c)"

definition apply_rules :: "json list \<Rightarrow> all_docs_row \<Rightarrow> label_cache \<Rightarrow> label_cache" where
  "apply_rules rules row c =
     (case row_doc row of
        None \<Rightarrow> c
      | Some doc \<Rightarrow> fold (apply_rule (file_uuid_of (row_id row)) doc) rules c)"

definition enabled_rules :: "all_docs_row list \<Rightarrow> json list" where
  "enabled_rules rows = filter rule_enabled (row_docs rows)"

text \<open>\<open>build\<close>: the rebuilt map, or the first query error; the caller keeps the old cache then.\<close>

definition build_labels :: "'s couch \<Rightarrow> 's \<Rightarrow> (couch_error + label_cache) \<times> 's" where
  "build_labels db s =
     (case db_prefix db ''label_assignment::'' s of
        (Inl e, s1) \<Rightarrow> (Inl e, s1)
      | (Inr assignments, s1) \<Rightarrow>
          (let c1 = fold add_assignment (row_docs assignments) [] in
           (case db_prefix db ''label_rule::'' s1 of
              (Inl e, s2) \<Rightarrow> (Inl e, s2)
            | (Inr rules, s2) \<Rightarrow>
                (let rs = enabled_rules rules in
                 if rs = [] then (Inr c1, s2)
                 else (case db_prefix db ''file::'' s2 of
                         (Inl e, s3) \<Rightarrow> (Inl e, s3)
                       | (Inr files, s3) \<Rightarrow> (Inr (fold (apply_rules rs) files c1), s3))))))"

definition cache_has_label :: "label_cache \<Rightarrow> string \<Rightarrow> string \<Rightarrow> bool" where
  "cache_has_label c u l = unwrap_or (map_option (\<lambda>ls. l \<in> set ls) (map_of c u)) False"

definition files_with_label :: "label_cache \<Rightarrow> string \<Rightarrow> string list" where
  "files_with_label c l =
     map (\<lambda>(uuid, _). ''file::'' @ uuid) (filter (\<lambda>(_, labels). l \<in> set labels) c)"

definition get_labels :: "label_cache \<Rightarrow> string \<Rightarrow> string list" where
  "get_labels c u = unwrap_or (map_of c u) []"

definition change_id :: "json \<Rightarrow> string option" where
  "change_id doc = Option.bind (case jget ''_id'' doc of Some v \<Rightarrow> Some v | None \<Rightarrow> jget ''id'' doc) as_str"

definition label_change :: "'s couch \<Rightarrow> json \<Rightarrow> bool \<Rightarrow> label_cache \<Rightarrow> 's \<Rightarrow> label_cache \<times> 's" where
  "label_change db doc deleted c s =
     (case change_id doc of
        None \<Rightarrow> (c, s)
      | Some i \<Rightarrow>
          if starts_with i ''label_assignment::'' then
            (if deleted then
               (AList.delete (unwrap_or (strip_prefix ''label_assignment::'' i) []) c, s)
             else (add_assignment doc c, s))
          else if starts_with i ''label_rule::'' then
            (case build_labels db s of
               (Inl e, s1) \<Rightarrow> (c, s1)
             | (Inr c', s1) \<Rightarrow> (c', s1))
          else (c, s))"

section \<open>Access cache\<close>

type_synonym access_cache = "string \<rightharpoonup> time"

definition access_of :: "libs \<Rightarrow> json \<Rightarrow> (string \<times> time) option" where
  "access_of lb doc =
     (case (jget_str ''file_id'' doc, jget_str ''last_access'' doc) of
        (Some file_id, Some t) \<Rightarrow> map_option (Pair file_id) (parse_time lb t)
      | _ \<Rightarrow> None)"

definition add_access :: "libs \<Rightarrow> json \<Rightarrow> access_cache \<Rightarrow> access_cache" where
  "add_access lb doc c = (case access_of lb doc of Some (f, t) \<Rightarrow> c(f \<mapsto> t) | None \<Rightarrow> c)"

definition build_accesses :: "libs \<Rightarrow> 's couch \<Rightarrow> 's \<Rightarrow> (couch_error + access_cache) \<times> 's" where
  "build_accesses lb db s =
     (case db_prefix db ''access::'' s of
        (Inl e, s1) \<Rightarrow> (Inl e, s1)
      | (Inr rows, s1) \<Rightarrow> (Inr (fold (add_access lb) (row_docs rows) Map.empty), s1))"

definition cache_last_access :: "access_cache \<Rightarrow> string \<Rightarrow> time option" where
  "cache_last_access c f = c f"

definition access_record :: "string \<Rightarrow> time \<Rightarrow> access_cache \<Rightarrow> access_cache" where
  "access_record f t c = c(f \<mapsto> t)"

definition access_change :: "libs \<Rightarrow> json \<Rightarrow> bool \<Rightarrow> access_cache \<Rightarrow> access_cache" where
  "access_change lb doc deleted c =
     (case change_id doc of
        None \<Rightarrow> c
      | Some i \<Rightarrow>
          if \<not> starts_with i ''access::'' then c
          else if deleted then
            (case jget_str ''file_id'' doc of Some f \<Rightarrow> c(f := None) | None \<Rightarrow> c)
          else add_access lb doc c)"

section \<open>Readdir cache\<close>

text \<open>Instants and the time to live are in nanoseconds of a monotonic clock.\<close>

record readdir_cache_entry =
  rce_entries :: "readdir_entry list"
  rce_inserted_at :: nat

record readdir_cache =
  rc_cache :: "((string \<times> string) \<times> readdir_cache_entry) list"
  rc_ttl :: nat

definition new_readdir_cache :: readdir_cache where
  "new_readdir_cache = \<lparr>rc_cache = [], rc_ttl = 5 * 1000000000\<rparr>"

definition readdir_get :: "nat \<Rightarrow> readdir_cache \<Rightarrow> string \<Rightarrow> string \<Rightarrow> readdir_entry list option" where
  "readdir_get now c path rv =
     (case map_of (rc_cache c) (path, rv) of
        Some e \<Rightarrow> if now - rce_inserted_at e < rc_ttl c then Some (rce_entries e) else None
      | None \<Rightarrow> None)"

definition readdir_put ::
  "nat \<Rightarrow> string \<Rightarrow> string \<Rightarrow> readdir_entry list \<Rightarrow> readdir_cache \<Rightarrow> readdir_cache" where
  "readdir_put now path rv entries c =
     c\<lparr>rc_cache := AList.update (path, rv) \<lparr>rce_entries = entries, rce_inserted_at = now\<rparr>
         (rc_cache c)\<rparr>"

definition readdir_invalidate :: "string \<Rightarrow> readdir_cache \<Rightarrow> readdir_cache" where
  "readdir_invalidate path c = c\<lparr>rc_cache := filter (\<lambda>((p, _), _). p \<noteq> path) (rc_cache c)\<rparr>"

definition readdir_evict_expired :: "nat \<Rightarrow> readdir_cache \<Rightarrow> readdir_cache" where
  "readdir_evict_expired now c =
     c\<lparr>rc_cache := filter (\<lambda>(_, e). now - rce_inserted_at e < rc_ttl c) (rc_cache c)\<rparr>"

section \<open>Evaluation with the caches\<close>

record eval_context =
  ec_label_cache :: label_cache
  ec_access_cache :: access_cache
  ec_replicas :: "string \<rightharpoonup> (string \<times> string) list"
  ec_annotations :: "string \<rightharpoonup> string list"

definition eval_step_context :: "eval_context \<Rightarrow> step_context" where
  "eval_step_context v =
     \<lparr>has_label = cache_has_label (ec_label_cache v),
      last_access = cache_last_access (ec_access_cache v),
      has_replica = (\<lambda>u t st. case ec_replicas v u of
          None \<Rightarrow> False | Some rs \<Rightarrow> replica_scan rs t st),
      has_annotation = (\<lambda>u p. unwrap_or (map_option (\<lambda>ps. p \<in> set ps) (ec_annotations v u)) False)\<rparr>"

interpretation eval_ctx: replica_context "eval_step_context v" for v
  by unfold_locales (fastforce simp: eval_step_context_def replica_scan_iff split: option.splits)+

definition server_readdir ::
  "libs \<Rightarrow> time \<Rightarrow> 's couch \<Rightarrow> label_cache \<Rightarrow> access_cache \<Rightarrow> mount_entry list \<Rightarrow> step list \<Rightarrow>
     string list \<Rightarrow> 's \<Rightarrow> (couch_error + readdir_entry list) \<times> 's" where
  "server_readdir lb now db labels accesses mounts inherited child_dirs s =
     evaluate_readdir lb now db mounts inherited child_dirs
       (eval_step_context \<lparr>ec_label_cache = labels, ec_access_cache = accesses,
          ec_replicas = Map.empty, ec_annotations = Map.empty\<rparr>)
       (files_with_label labels) s"

definition entry_to_json :: "libs \<Rightarrow> readdir_entry \<Rightarrow> json" where
  "entry_to_json lb e =
     JObj [(''name'', JStr (re_name e)), (''file_id'', JStr (re_file_id e)),
       (''size'', enc_u64 (re_size e)), (''mtime'', JStr (rfc3339 lb (re_mtime e))),
       (''mime_type'', case re_mime_type e of None \<Rightarrow> JNull | Some m \<Rightarrow> JStr m),
       (''source'', JObj [(''node_id'', JStr (re_source_node_id e)),
          (''export_path'', JStr (re_source_export_path e))]),
       (''mount_id'', JStr (re_mount_id e)), (''type'', JStr ''file'')]"

definition entries_to_json :: "libs \<Rightarrow> readdir_entry list \<Rightarrow> json list" where
  "entries_to_json lb es = map (entry_to_json lb) es"

section \<open>What a label cache means\<close>

lemma set_fold_insert: "set (fold List.insert xs ys) = set xs \<union> set ys"
  by (induction xs arbitrary: ys) auto

lemma cache_has_label_cached: "cache_has_label c u l \<longleftrightarrow> l \<in> set (cached_labels c u)"
  by (cases "map_of c u") (auto simp: cache_has_label_def cached_labels_def)

lemma set_map_filter: "y \<in> set (List.map_filter f xs) \<longleftrightarrow> (\<exists>x \<in> set xs. f x = Some y)"
  by (induction xs) (auto simp: List.map_filter_simps split: option.splits)

lemma has_label_add_labels:
  "cache_has_label (add_labels u labels c) u' l \<longleftrightarrow>
     cache_has_label c u' l \<or> (u' = u \<and> JStr l \<in> set labels)"
  by (auto simp: cache_has_label_cached add_labels_def cached_labels_def update_conv'
      set_fold_insert set_map_filter as_str_Some)

definition doc_assigns :: "json \<Rightarrow> string \<Rightarrow> string \<Rightarrow> bool" where
  "doc_assigns doc u l \<longleftrightarrow>
     (\<exists>f labels. jget_str ''file_id'' doc = Some f \<and> u = file_uuid_of f \<and>
        jget ''labels'' doc = Some (JArr labels) \<and> JStr l \<in> set labels)"

definition rule_labels :: "json \<Rightarrow> json \<Rightarrow> string \<Rightarrow> bool" where
  "rule_labels rule file_doc l \<longleftrightarrow>
     rule_matches_file rule (source_field ''node_id'' file_doc)
       (source_field ''export_path'' file_doc) \<and>
     (\<exists>labels. jget ''labels'' rule = Some (JArr labels) \<and> JStr l \<in> set labels)"

lemma as_array_Some: "as_array j = Some xs \<longleftrightarrow> j = JArr xs"
  by (cases j) auto

lemma has_label_add_assignment:
  "cache_has_label (add_assignment doc c) u l \<longleftrightarrow> cache_has_label c u l \<or> doc_assigns doc u l"
  by (auto simp: add_assignment_def doc_assigns_def has_label_add_labels as_array_Some
      bind_eq_Some_conv split: option.splits)

lemma has_label_assignments:
  "cache_has_label (fold add_assignment docs c) u l \<longleftrightarrow>
     cache_has_label c u l \<or> (\<exists>doc \<in> set docs. doc_assigns doc u l)"
  by (induction docs arbitrary: c) (auto simp: has_label_add_assignment)

lemma has_label_apply_rule:
  "cache_has_label (apply_rule uuid doc rule c) u l \<longleftrightarrow>
     cache_has_label c u l \<or> (u = uuid \<and> rule_labels rule doc l)"
  by (auto simp: apply_rule_def rule_labels_def has_label_add_labels as_array_Some
      bind_eq_Some_conv split: option.splits)

lemma has_label_fold_rule:
  "cache_has_label (fold (apply_rule uuid doc) rules c) u l \<longleftrightarrow>
     cache_has_label c u l \<or> (u = uuid \<and> (\<exists>rule \<in> set rules. rule_labels rule doc l))"
  by (induction rules arbitrary: c) (auto simp: has_label_apply_rule)

definition row_labels :: "json list \<Rightarrow> all_docs_row \<Rightarrow> string \<Rightarrow> string \<Rightarrow> bool" where
  "row_labels rules row u l \<longleftrightarrow>
     (\<exists>doc. row_doc row = Some doc \<and> u = file_uuid_of (row_id row) \<and>
        (\<exists>rule \<in> set rules. rule_labels rule doc l))"

lemma has_label_fold_rules:
  "cache_has_label (fold (apply_rules rules) rows c) u l \<longleftrightarrow>
     cache_has_label c u l \<or> (\<exists>row \<in> set rows. row_labels rules row u l)"
  by (induction rows arbitrary: c)
    (auto simp: apply_rules_def row_labels_def has_label_fold_rule split: option.splits)

lemma has_label_empty: "\<not> cache_has_label [] u l"
  by (simp add: cache_has_label_def)

section \<open>Properties\<close>

text \<open>
  The labels of a file by the documents alone: an assignment gives its labels to the file it names, and a rule whose
  flag \<open>enabled\<close> is true gives its labels to every file whose source lies on the rule's node, if it names one, and
  below its prefix, if it has one.
\<close>

inductive on_rule_node :: "json \<Rightarrow> json \<Rightarrow> bool" where
  any: "\<nexists>n. jget ''node_id'' rule = Some (JStr n) \<Longrightarrow> on_rule_node rule file"
| blank: "jget ''node_id'' rule = Some (JStr []) \<Longrightarrow> on_rule_node rule file"
| same: "jget ''node_id'' rule = Some (JStr n) \<Longrightarrow> jget ''source'' file = Some src \<Longrightarrow>
    jget ''node_id'' src = Some (JStr n) \<Longrightarrow> on_rule_node rule file"

inductive below_rule_prefix :: "json \<Rightarrow> json \<Rightarrow> bool" where
  any: "\<nexists>p. jget ''path_prefix'' rule = Some (JStr p) \<Longrightarrow> below_rule_prefix rule file"
| blank: "jget ''path_prefix'' rule = Some (JStr []) \<Longrightarrow> below_rule_prefix rule file"
| below: "jget ''path_prefix'' rule = Some (JStr p) \<Longrightarrow> jget ''source'' file = Some src \<Longrightarrow>
    jget ''export_path'' src = Some (JStr (p @ rest)) \<Longrightarrow> below_rule_prefix rule file"

inductive labelled :: "json list \<Rightarrow> json list \<Rightarrow> all_docs_row list \<Rightarrow> string \<Rightarrow> string \<Rightarrow> bool"
  for assignments rules files where
  assigned: "doc \<in> set assignments \<Longrightarrow> jget ''file_id'' doc = Some (JStr f) \<Longrightarrow> uuid_of f u \<Longrightarrow>
    jget ''labels'' doc = Some (JArr ls) \<Longrightarrow> JStr l \<in> set ls \<Longrightarrow> labelled assignments rules files u l"
| ruled: "rule \<in> set rules \<Longrightarrow> jget ''enabled'' rule = Some (JBool True) \<Longrightarrow>
    row \<in> set files \<Longrightarrow> row_doc row = Some doc \<Longrightarrow> uuid_of (row_id row) u \<Longrightarrow>
    on_rule_node rule doc \<Longrightarrow> below_rule_prefix rule doc \<Longrightarrow>
    jget ''labels'' rule = Some (JArr ls) \<Longrightarrow> JStr l \<in> set ls \<Longrightarrow> labelled assignments rules files u l"

lemma file_uuid_of_iff: "uuid_of f u \<longleftrightarrow> u = file_uuid_of f"
  by (simp add: uuid_of_iff uuid_from_id_def file_uuid_of_def)

lemma jget_str_Some: "jget_str k j = Some s \<longleftrightarrow> jget k j = Some (JStr s)"
  by (auto simp: jget_str_def bind_eq_Some_conv as_str_Some)

lemma source_field_iff:
  "source_field k doc = v \<longleftrightarrow> (\<exists>src. jget ''source'' doc = Some src \<and> jget k src = Some (JStr v)) \<or>
     (\<nexists>src w. jget ''source'' doc = Some src \<and> jget k src = Some (JStr w)) \<and> v = []"
proof (cases "Option.bind (jget ''source'' doc) (jget_str k)")
  case None
  then have "\<nexists>src w. jget ''source'' doc = Some src \<and> jget k src = Some (JStr w)"
    by (auto simp: bind_eq_None_conv jget_str_Some [symmetric])
  with None show ?thesis by (auto simp: source_field_def)
next
  case (Some w)
  then obtain src where "jget ''source'' doc = Some src" "jget k src = Some (JStr w)"
    by (auto simp: bind_eq_Some_conv jget_str_Some)
  with Some show ?thesis by (simp add: source_field_def)
qed

lemma below_rule_prefix_iff:
  "below_rule_prefix rule doc \<longleftrightarrow>
     starts_with (source_field ''export_path'' doc) (unwrap_or (jget_str ''path_prefix'' rule) [])"
proof (cases "jget_str ''path_prefix'' rule")
  case None
  then have "\<nexists>n. jget ''path_prefix'' rule = Some (JStr n)" by (simp add: jget_str_Some [symmetric])
  with None show ?thesis by (simp add: below_rule_prefix.any starts_with_def)
next
  case (Some p)
  then have p: "jget ''path_prefix'' rule = Some (JStr p)" by (simp add: jget_str_Some)
  have "starts_with (source_field ''export_path'' doc) p \<longleftrightarrow> p = [] \<or>
      (\<exists>src r. jget ''source'' doc = Some src \<and> jget ''export_path'' src = Some (JStr (p @ r)))"
    unfolding starts_with_iff source_field_iff by (metis append_Nil append_is_Nil_conv)
  with Some p show ?thesis by (auto simp: below_rule_prefix.simps)
qed

lemma rule_matches_file_spelled:
  "rule_matches_file rule (source_field ''node_id'' doc) (source_field ''export_path'' doc) \<longleftrightarrow>
     on_rule_node rule doc \<and> below_rule_prefix rule doc"
proof -
  have node: "on_rule_node rule doc \<longleftrightarrow>
      (case jget_str ''node_id'' rule of None \<Rightarrow> True | Some n \<Rightarrow> n = [] \<or> n = source_field ''node_id'' doc)"
  proof (cases "jget_str ''node_id'' rule")
    case None
    then have "\<nexists>n. jget ''node_id'' rule = Some (JStr n)" by (simp add: jget_str_Some [symmetric])
    with None show ?thesis by (simp add: on_rule_node.any)
  next
    case (Some n)
    then have n: "jget ''node_id'' rule = Some (JStr n)" by (simp add: jget_str_Some)
    have "n = source_field ''node_id'' doc \<longleftrightarrow> source_field ''node_id'' doc = n" by blast
    with Some n show ?thesis by (simp add: on_rule_node.simps source_field_iff) blast
  qed
  show ?thesis
    unfolding node below_rule_prefix_iff rule_matches_file_def by (auto split: option.split)
qed

text \<open>C9: after a rebuild a file has a label exactly when an assignment document that names it lists the label, or a
  rule whose flag enabled is true lists it, the source of the file being on the node the rule names, when it names
  one, and its path starting with the prefix of the rule, when it has one. The cache takes the file documents of
  every status, and a rule for the node '*' covers the files of a node of that name only: the document of the
  schemas has the rules cover active files only, and '*' every node.\<close>

theorem build_labels_correct:
  assumes "db_prefix db ''label_assignment::'' s = (Inr assignments, s1)"
    and "db_prefix db ''label_rule::'' s1 = (Inr rules, s2)"
    and "db_prefix db ''file::'' s2 = (Inr files, s3)"
  shows "\<exists>c s'. build_labels db s = (Inr c, s') \<and>
    (\<forall>u l. (\<exists>ls. map_of c u = Some ls \<and> l \<in> set ls) \<longleftrightarrow>
       labelled (List.map_filter row_doc assignments) (List.map_filter row_doc rules) files u l)"
proof -
  let ?rs = "enabled_rules rules"
  have enabled: "rule \<in> set ?rs \<longleftrightarrow> rule \<in> set (row_docs rules) \<and> jget ''enabled'' rule = Some (JBool True)" for rule
  proof -
    have "rule_enabled rule \<longleftrightarrow> jget ''enabled'' rule = Some (JBool True)"
    proof (cases "jget ''enabled'' rule")
      case None
      then show ?thesis by (simp add: rule_enabled_def)
    next
      case (Some v)
      then show ?thesis by (cases v) (simp_all add: rule_enabled_def)
    qed
    then show ?thesis by (auto simp: enabled_rules_def)
  qed
  have spelled: "labelled (row_docs assignments) (row_docs rules) files u l \<longleftrightarrow>
      (\<exists>doc \<in> set (row_docs assignments). doc_assigns doc u l) \<or> (\<exists>row \<in> set files. row_labels ?rs row u l)" for u l
    unfolding labelled.simps doc_assigns_def row_labels_def rule_labels_def rule_matches_file_spelled
      file_uuid_of_iff jget_str_Some enabled Bex_def
    by blast
  have has: "cache_has_label c u l \<longleftrightarrow> (\<exists>ls. map_of c u = Some ls \<and> l \<in> set ls)" for c u l
    by (cases "map_of c u") (simp_all add: cache_has_label_def)
  have "\<exists>c s'. build_labels db s = (Inr c, s') \<and> (\<forall>u l. cache_has_label c u l \<longleftrightarrow>
      labelled (row_docs assignments) (row_docs rules) files u l)"
  proof (cases "?rs = []")
    case True
    with assms show ?thesis
      by (simp add: build_labels_def Let_def has_label_assignments has_label_empty row_labels_def spelled)
  next
    case False
    with assms show ?thesis
      by (simp add: build_labels_def Let_def has_label_assignments has_label_fold_rules has_label_empty spelled)
  qed
  then show ?thesis unfolding has row_docs_def .
qed

theorem build_labels_correct_witness:
  "\<exists>c s'. build_labels sample_couch
      [(''label_assignment::a'', JObj [(''file_id'', JStr ''file::a''), (''labels'', JArr [JStr ''x''])])]
      = (Inr c, s') \<and> cache_has_label c ''a'' ''x'' \<and> \<not> cache_has_label c ''a'' ''y''"
proof -
  let ?d = "JObj [(''file_id'', JStr ''file::a''), (''labels'', JArr [JStr ''x''])]"
  let ?s = "[(''label_assignment::a'', ?d)]"
  let ?rows = "[\<lparr>row_id = ''label_assignment::a'', row_key = ''label_assignment::a'', row_value = JNull, row_doc = Some ?d\<rparr>]"
  have q: "db_prefix sample_couch ''label_assignment::'' ?s = (Inr ?rows, ?s)"
    "db_prefix sample_couch ''label_rule::'' ?s = (Inr [], ?s)"
    "db_prefix sample_couch ''file::'' ?s = (Inr [], ?s)"
    by (simp_all add: starts_with_def)
  from build_labels_correct [OF q] obtain c s' where c: "build_labels sample_couch ?s = (Inr c, s')"
    and labels: "\<And>u l. (\<exists>ls. map_of c u = Some ls \<and> l \<in> set ls) \<longleftrightarrow> labelled [?d] [] [] u l"
    by (auto simp: List.map_filter_simps)
  have "labelled [?d] [] [] ''a'' l \<longleftrightarrow> l = ''x''" for l
    by (simp add: labelled.simps file_uuid_of_iff file_uuid_of_def)
  with labels [of "''a''"] have "cache_has_label c ''a'' l \<longleftrightarrow> l = ''x''" for l
    by (cases "map_of c ''a''") (simp_all add: cache_has_label_def)
  with c show ?thesis by simp
qed

text \<open>A changed assignment document only adds labels to the cache: a label that was removed from the
  document stays cached.\<close>

lemma changed_assignment_keeps_labels:
  assumes "change_id doc = Some (''label_assignment::'' @ u')" "cache_has_label c u l"
  shows "cache_has_label (fst (label_change db doc False c s)) u l"
  using assms by (simp add: label_change_def starts_with_iff has_label_add_assignment)

text \<open>The deletion of a file's assignment drops every label of the file, those an enabled rule gives
  it as well.\<close>

lemma deleted_assignment_drops_rule_labels:
  assumes "change_id doc = Some (''label_assignment::'' @ u)"
  shows "\<not> cache_has_label (fst (label_change db doc True c s)) u l"
  using assms
  by (simp add: label_change_def starts_with_iff cache_has_label_def delete_conv')

text \<open>A cached listing is returned for the same path and revision until it is five seconds old, and
  never for another revision, after its path was invalidated, or after a newer listing of the
  same key.\<close>

lemma readdir_cache_correct:
  assumes "rc_ttl c = rc_ttl new_readdir_cache" "t \<le> now"
  shows "readdir_get now (readdir_put t p rv es c) p rv =
      (if now - t < 5000000000 then Some es else None) \<and>
    readdir_get now (readdir_invalidate p (readdir_put t p rv es c)) p rv' = None \<and>
    ((p', rv') \<noteq> (p, rv) \<longrightarrow>
      readdir_get now (readdir_put t p rv es c) p' rv' = readdir_get now c p' rv')"
proof -
  have "map_of (filter (\<lambda>((q, _), _). q \<noteq> p) al) (p, rv') = None"
    for al :: "((string \<times> string) \<times> readdir_cache_entry) list"
    by (induction al) auto
  then show ?thesis
    using assms
    by (auto simp: readdir_get_def readdir_put_def readdir_invalidate_def new_readdir_cache_def
        update_conv' split: option.split)
qed

text \<open>Removing expired listings changes no answer.\<close>

lemma evict_expired_invisible:
  assumes "distinct (map fst (rc_cache c))" "now \<le> later"
  shows "readdir_get later (readdir_evict_expired now c) p rv = readdir_get later c p rv"
proof -
  have "map_of (filter (\<lambda>(_, e). P e) al) k = (case map_of al k of Some e \<Rightarrow> if P e then Some e else None | None \<Rightarrow> None)"
    if "distinct (map fst al)" for al :: "((string \<times> string) \<times> readdir_cache_entry) list" and P k
    using that by (induction al) (auto simp: map_of_eq_None_iff split: option.splits)
  from this [OF assms(1)] assms(2) show ?thesis
    by (auto simp: readdir_get_def readdir_evict_expired_def split: option.splits)
qed

end
