(* ===== verification/File_Cache.thy ===== *)
theory File_Cache
  imports Block_Map Json
begin

text \<open>
  The file cache of \<open>mosaicfs-vfs/src/cache.rs\<close>: an SQLite table of entries and the
  files under the cache directory. The table is the list of its rows in row order, each
  SQL statement of the source a function on it; SQLite's integers are signed 64 bits, so
  storing a larger count or summing beyond them is an error. The clock, the directory
  and file system calls and \<open>statvfs\<close> are the parameter record \<open>cache_env\<close>.
\<close>

section \<open>State\<close>

definition FULL_FILE_SIZE_THRESHOLD :: u64 where
  "FULL_FILE_SIZE_THRESHOLD = 50 * 1024 * 1024"

definition DEFAULT_BLOCK_SIZE :: u64 where
  "DEFAULT_BLOCK_SIZE = 4 * 1024 * 1024"

definition FRAGMENTATION_LIMIT :: nat where
  "FRAGMENTATION_LIMIT = 1000"

record cache_entry =
  ce_cache_key :: string
  ce_file_id :: string
  ce_mtime :: string
  ce_size_on_record :: u64
  ce_block_size :: u64
  ce_block_map :: "u8 list option"
  ce_cached_bytes :: u64
  ce_last_access :: string
  ce_source :: string

record file_cache =
  fc_dir :: string
  fc_rows :: "cache_entry list"
  fc_files :: "string list"

record cache_env =
  env_now :: string
  env_mkdir :: "string \<Rightarrow> bool"
  env_remove :: "string \<Rightarrow> bool"
  env_statvfs :: "string \<Rightarrow> string list \<Rightarrow> (u64 \<times> u64) option"

datatype cache_error = IoError | SqlError | SlicePanic

section \<open>Opening and paths\<close>

text \<open>\<open>existing\<close> are the rows and files a previous run left.\<close>

definition open_cache ::
  "cache_env \<Rightarrow> string \<Rightarrow> cache_entry list \<Rightarrow> string list \<Rightarrow> cache_error + file_cache" where
  "open_cache env dir existing files =
     (if \<not> env_mkdir env dir then Inl IoError
      else if \<not> env_mkdir env (path_join dir ''tmp'') then Inl IoError
      else Inr \<lparr>fc_dir = dir, fc_rows = existing, fc_files = files\<rparr>)"

definition should_use_block_mode :: "u64 \<Rightarrow> bool" where
  "should_use_block_mode sz \<longleftrightarrow> FULL_FILE_SIZE_THRESHOLD < sz"

definition shard_path :: "file_cache \<Rightarrow> string \<Rightarrow> cache_error + string" where
  "shard_path fc key =
     (let n = min 2 (length key) in
      if is_char_boundary key n then Inr (path_join (fc_dir fc) (take n key)) else Inl SlicePanic)"

definition entry_path :: "file_cache \<Rightarrow> string \<Rightarrow> cache_error + string" where
  "entry_path fc key = and_then (shard_path fc key) (\<lambda>d. Inr (path_join d key))"

definition staging_path :: "file_cache \<Rightarrow> string \<Rightarrow> string" where
  "staging_path fc uuid = path_join (path_join (fc_dir fc) ''tmp'') uuid"

section \<open>Statements\<close>

definition sql_int :: "u64 \<Rightarrow> bool" where
  "sql_int n \<longleftrightarrow> unat n < 2 ^ 63"

definition insert_or_replace :: "cache_entry \<Rightarrow> cache_entry list \<Rightarrow> cache_entry list" where
  "insert_or_replace e rows = filter (\<lambda>r. ce_cache_key r \<noteq> ce_cache_key e) rows @ [e]"

definition get_entry :: "file_cache \<Rightarrow> string \<Rightarrow> cache_entry option" where
  "get_entry fc key = List.find (\<lambda>r. ce_cache_key r = key) (fc_rows fc)"

definition is_stale :: "file_cache \<Rightarrow> string \<Rightarrow> string \<Rightarrow> u64 \<Rightarrow> bool" where
  "is_stale fc key current_mtime current_size =
     (case get_entry fc key of
        Some e \<Rightarrow> ce_mtime e \<noteq> current_mtime \<or> ce_size_on_record e \<noteq> current_size
      | None \<Rightarrow> True)"

definition store_entry ::
  "cache_env \<Rightarrow> cache_entry \<Rightarrow> file_cache \<Rightarrow> (cache_error + unit) \<times> file_cache" where
  "store_entry env e fc =
     (case shard_path fc (ce_cache_key e) of
        Inl err \<Rightarrow> (Inl err, fc)
      | Inr shard \<Rightarrow>
          if \<not> env_mkdir env shard then (Inl IoError, fc)
          else if sql_int (ce_size_on_record e) \<and> sql_int (ce_cached_bytes e)
          then (Inr (), fc\<lparr>fc_rows := insert_or_replace e (fc_rows fc)\<rparr>)
          else (Inl SqlError, fc))"

definition store_full_file ::
  "cache_env \<Rightarrow> string \<Rightarrow> string \<Rightarrow> string \<Rightarrow> u64 \<Rightarrow> string \<Rightarrow> file_cache \<Rightarrow>
     (cache_error + unit) \<times> file_cache" where
  "store_full_file env key file_id mtime sz source fc =
     store_entry env
       \<lparr>ce_cache_key = key, ce_file_id = file_id, ce_mtime = mtime, ce_size_on_record = sz,
        ce_block_size = DEFAULT_BLOCK_SIZE, ce_block_map = None, ce_cached_bytes = sz,
        ce_last_access = env_now env, ce_source = source\<rparr> fc"

definition store_block_entry ::
  "cache_env \<Rightarrow> string \<Rightarrow> string \<Rightarrow> string \<Rightarrow> u64 \<Rightarrow> block_map \<Rightarrow> string \<Rightarrow> file_cache \<Rightarrow>
     (cache_error + unit) \<times> file_cache" where
  "store_block_entry env key file_id mtime sz bm source fc =
     store_entry env
       \<lparr>ce_cache_key = key, ce_file_id = file_id, ce_mtime = mtime, ce_size_on_record = sz,
        ce_block_size = DEFAULT_BLOCK_SIZE, ce_block_map = Some (to_bytes bm),
        ce_cached_bytes = cached_bytes bm, ce_last_access = env_now env, ce_source = source\<rparr> fc"

definition touch :: "cache_env \<Rightarrow> string \<Rightarrow> file_cache \<Rightarrow> file_cache" where
  "touch env key fc =
     fc\<lparr>fc_rows := map (\<lambda>r. if ce_cache_key r = key then r\<lparr>ce_last_access := env_now env\<rparr> else r)
         (fc_rows fc)\<rparr>"

definition total_cached_bytes :: "file_cache \<Rightarrow> cache_error + u64" where
  "total_cached_bytes fc =
     (let tot = sum_list (map (unat \<circ> ce_cached_bytes) (fc_rows fc)) in
      if tot < 2 ^ 63 then Inr (of_nat tot) else Inl SqlError)"

definition remove_entry ::
  "cache_env \<Rightarrow> string \<Rightarrow> file_cache \<Rightarrow> (cache_error + unit) \<times> file_cache" where
  "remove_entry env key fc =
     (case entry_path fc key of
        Inl err \<Rightarrow> (Inl err, fc)
      | Inr path \<Rightarrow>
          (let files = (if path \<in> set (fc_files fc) \<and> env_remove env path
                        then filter (\<lambda>p. p \<noteq> path) (fc_files fc) else fc_files fc)
           in (Inr (), fc\<lparr>fc_rows := filter (\<lambda>r. ce_cache_key r \<noteq> key) (fc_rows fc),
                          fc_files := files\<rparr>)))"

text \<open>\<open>ORDER BY last_access ASC LIMIT 1\<close>; among equal times the first row.\<close>

fun oldest :: "cache_entry list \<Rightarrow> cache_entry option" where
  "oldest [] = None"
| "oldest (r # rs) =
     (case oldest rs of
        None \<Rightarrow> Some r
      | Some r' \<Rightarrow> if ce_last_access r' < ce_last_access r then Some r' else Some r)"

definition available_disk_space :: "cache_env \<Rightarrow> file_cache \<Rightarrow> u64" where
  "available_disk_space env fc =
     (case env_statvfs env (fc_dir fc) (fc_files fc) of
        Some (bavail, frsize) \<Rightarrow> bavail * frsize
      | None \<Rightarrow> - 1)"

lemma oldest_None: "oldest rs = None \<longleftrightarrow> rs = []"
  by (cases rs) (auto split: option.splits)

lemma oldest_Some: "oldest rs = Some r \<Longrightarrow> r \<in> set rs \<and> (\<forall>x \<in> set rs. ce_last_access r \<le> ce_last_access x)"
proof (induction rs arbitrary: r)
  case Nil
  then show ?case by simp
next
  case (Cons x xs)
  show ?case
  proof (cases "oldest xs")
    case None
    with Cons.prems show ?thesis by (simp add: oldest_None)
  next
    case (Some y)
    note y = Cons.IH [OF Some]
    show ?thesis
    proof (cases "ce_last_access y < ce_last_access x")
      case True
      with Some Cons.prems y show ?thesis by auto
    next
      case False
      with Some Cons.prems y show ?thesis by (auto simp: not_less intro: order_trans)
    qed
  qed
qed

lemma remove_entry_rows:
  "remove_entry env key fc = (Inr (), fc') \<Longrightarrow>
     fc_rows fc' = filter (\<lambda>r. ce_cache_key r \<noteq> key) (fc_rows fc) \<and> fc_dir fc' = fc_dir fc"
  by (auto simp: remove_entry_def Let_def split: sum.splits)

lemma evict_smaller:
  assumes "oldest (fc_rows fc) = Some r" "remove_entry env (ce_cache_key r) fc = (Inr u, fc')"
  shows "length (fc_rows fc') < length (fc_rows fc)"
  using remove_entry_rows [of env "ce_cache_key r" fc fc'] oldest_Some [OF assms(1)] assms(2)
  by (auto intro: length_filter_less)

function evict_loop ::
  "cache_env \<Rightarrow> u64 \<Rightarrow> u64 \<Rightarrow> file_cache \<Rightarrow> u64 \<Rightarrow> (cache_error + u64) \<times> file_cache" where
  "evict_loop env cap_bytes min_free fc evicted =
     (case total_cached_bytes fc of
        Inl err \<Rightarrow> (Inl err, fc)
      | Inr tot \<Rightarrow>
          if tot \<le> cap_bytes \<and> min_free \<le> available_disk_space env fc then (Inr evicted, fc)
          else
            (case oldest (fc_rows fc) of
               None \<Rightarrow> (Inr evicted, fc)
             | Some r \<Rightarrow>
                 (case remove_entry env (ce_cache_key r) fc of
                    (Inl err, fc') \<Rightarrow> (Inl err, fc')
                  | (Inr _, fc') \<Rightarrow> evict_loop env cap_bytes min_free fc' (evicted + 1))))"
  by pat_completeness auto
termination
  by (relation "measure (\<lambda>(env, cap_bytes, min_free, fc, evicted). length (fc_rows fc))")
    (auto dest: evict_smaller [OF _ sym])

declare evict_loop.simps [simp del]

lemma evict_error: "total_cached_bytes fc = Inl err \<Longrightarrow>
    evict_loop env cap m fc n = (Inl err, fc)"
  by (simp add: evict_loop.simps)

lemma evict_done: "total_cached_bytes fc = Inr t \<Longrightarrow>
    t \<le> cap \<and> m \<le> available_disk_space env fc \<or> fc_rows fc = [] \<Longrightarrow>
    evict_loop env cap m fc n = (Inr n, fc)"
  by (auto simp: evict_loop.simps [of env cap m fc n])

lemma evict_more: "total_cached_bytes fc = Inr t \<Longrightarrow>
    \<not> (t \<le> cap \<and> m \<le> available_disk_space env fc) \<Longrightarrow> oldest (fc_rows fc) = Some r \<Longrightarrow>
    evict_loop env cap m fc n =
      (case remove_entry env (ce_cache_key r) fc of
         (Inl err, fc') \<Rightarrow> (Inl err, fc')
       | (Inr _, fc') \<Rightarrow> evict_loop env cap m fc' (n + 1))"
  by (subst evict_loop.simps) (simp only: sum.case option.case if_False)

definition evict_lru ::
  "cache_env \<Rightarrow> u64 \<Rightarrow> u64 \<Rightarrow> file_cache \<Rightarrow> (cache_error + u64) \<times> file_cache" where
  "evict_lru env cap_bytes min_free fc = evict_loop env cap_bytes min_free fc 0"

definition get_block_map :: "file_cache \<Rightarrow> string \<Rightarrow> block_map option" where
  "get_block_map fc key =
     (case get_entry fc key of
        Some e \<Rightarrow> (case ce_block_map e of Some bs \<Rightarrow> Some (from_bytes bs) | None \<Rightarrow> None)
      | None \<Rightarrow> None)"

definition should_promote_to_full :: "file_cache \<Rightarrow> string \<Rightarrow> bool" where
  "should_promote_to_full fc key =
     (case get_block_map fc key of
        Some bm \<Rightarrow> FRAGMENTATION_LIMIT < interval_count bm
      | None \<Rightarrow> False)"

definition list_lru :: "file_cache \<Rightarrow> cache_entry list" where
  "list_lru fc = sort_key ce_last_access (fc_rows fc)"

section \<open>Invariant\<close>

definition cache_ok :: "file_cache \<Rightarrow> bool" where
  "cache_ok fc \<longleftrightarrow> distinct (map ce_cache_key (fc_rows fc)) \<and>
     (\<forall>r \<in> set (fc_rows fc). is_char_boundary (ce_cache_key r) (min 2 (length (ce_cache_key r))))"

lemma get_entry_store:
  assumes "store_entry env e fc = (Inr (), fc')"
  shows "get_entry fc' key = (if key = ce_cache_key e then Some e else get_entry fc key)"
proof -
  have fc': "fc_rows fc' = insert_or_replace e (fc_rows fc)"
    using assms by (auto simp: store_entry_def split: sum.splits if_splits)
  have app: "List.find P (xs @ ys) = (case List.find P xs of None \<Rightarrow> List.find P ys | Some x \<Rightarrow> Some x)"
    for P :: "cache_entry \<Rightarrow> bool" and xs ys
    by (induction xs) auto
  have filt: "List.find (\<lambda>r. ce_cache_key r = key) (filter (\<lambda>r. ce_cache_key r \<noteq> k) rs) =
      (if key = k then None else List.find (\<lambda>r. ce_cache_key r = key) rs)" for k rs
    by (induction rs) auto
  show ?thesis
    unfolding get_entry_def fc' insert_or_replace_def app filt by (auto split: option.split)
qed

lemma store_entry_ok [wf_intros]:
  assumes "cache_ok fc"
  shows "cache_ok (snd (store_entry env e fc))"
proof (cases "shard_path fc (ce_cache_key e)")
  case (Inl err)
  with assms show ?thesis by (simp add: store_entry_def)
next
  case (Inr shard)
  then have "is_char_boundary (ce_cache_key e) (min 2 (length (ce_cache_key e)))"
    by (auto simp: shard_path_def Let_def split: if_splits)
  with assms Inr show ?thesis
    by (auto simp: store_entry_def cache_ok_def insert_or_replace_def distinct_map_filter)
qed

lemma remove_entry_ok [wf_intros]: "cache_ok fc \<Longrightarrow> cache_ok (snd (remove_entry env key fc))"
  by (auto simp: remove_entry_def cache_ok_def Let_def distinct_map_filter split: sum.splits)

lemma touch_ok [wf_intros]: "cache_ok fc \<Longrightarrow> cache_ok (touch env key fc)"
proof -
  have "map ce_cache_key (fc_rows (touch env key fc)) = map ce_cache_key (fc_rows fc)"
    by (simp add: touch_def)
  then have "ce_cache_key ` set (fc_rows (touch env key fc)) = ce_cache_key ` set (fc_rows fc)"
    by (metis set_map)
  with \<open>map _ _ = map _ _\<close> show "cache_ok fc \<Longrightarrow> ?thesis"
    unfolding cache_ok_def by (metis (no_types, lifting) image_iff)
qed

lemma get_entry_touch:
  "get_entry (touch env key fc) k =
     map_option (\<lambda>e. if k = key then e\<lparr>ce_last_access := env_now env\<rparr> else e) (get_entry fc k)"
proof -
  have "List.find (\<lambda>r. ce_cache_key r = k)
      (map (\<lambda>r. if ce_cache_key r = key then r\<lparr>ce_last_access := env_now env\<rparr> else r) rs) =
    map_option (\<lambda>e. if k = key then e\<lparr>ce_last_access := env_now env\<rparr> else e)
      (List.find (\<lambda>r. ce_cache_key r = k) rs)" for rs
    by (induction rs) auto
  then show ?thesis by (simp add: get_entry_def touch_def)
qed

section \<open>Eviction\<close>

lemma set_filter_other_keys:
  "distinct (map k xs) \<Longrightarrow> r \<in> set xs \<Longrightarrow> set (filter (\<lambda>x. k x \<noteq> k r) xs) = set xs - {r}"
  by (auto simp: distinct_map inj_on_def)

lemma length_filter_other_keys:
  "distinct (map k xs) \<Longrightarrow> r \<in> set xs \<Longrightarrow> length xs = Suc (length (filter (\<lambda>x. k x \<noteq> k r) xs))"
proof (induction xs)
  case (Cons x xs)
  show ?case
  proof (cases "x = r")
    case True
    with Cons.prems have "\<forall>y \<in> set xs. k y \<noteq> k r"
      by (metis distinct.simps(2) imageI list.simps(9) set_map)
    then have "filter (\<lambda>y. k y \<noteq> k r) xs = xs" by simp
    with True show ?thesis by simp
  next
    case False
    with Cons.prems have "k x \<noteq> k r" by auto
    with False Cons show ?thesis by simp
  qed
qed simp

text \<open>What one run of the loop leaves: the cut between removed and kept rows is by age.\<close>

definition evicted_by_age :: "cache_entry list \<Rightarrow> cache_entry list \<Rightarrow> bool" where
  "evicted_by_age rows kept \<longleftrightarrow>
     set kept \<subseteq> set rows \<and>
     (\<forall>r \<in> set rows - set kept. \<forall>k \<in> set kept. ce_last_access r \<le> ce_last_access k)"

lemma evict_loop_spec:
  assumes "cache_ok fc"
    and "evict_loop env cap min_free fc n = (res, fc')"
  shows "cache_ok fc' \<and> evicted_by_age (fc_rows fc) (fc_rows fc') \<and>
    (\<forall>m. res = Inr m \<longrightarrow>
       m = n + of_nat (length (fc_rows fc) - length (fc_rows fc')) \<and>
       length (fc_rows fc') \<le> length (fc_rows fc) \<and>
       (fc_rows fc' = [] \<or>
        (\<exists>t. total_cached_bytes fc' = Inr t \<and> t \<le> cap \<and>
           min_free \<le> available_disk_space env fc')))"
  using assms
proof (induction env cap min_free fc n arbitrary: res rule: evict_loop.induct)
  case (1 env cap min_free fc n)
  show ?case
  proof (cases "total_cached_bytes fc")
    case (Inl err)
    with "1.prems" have "fc' = fc" "res = Inl err" by (simp_all add: evict_error)
    with "1.prems" show ?thesis by (simp add: evicted_by_age_def)
  next
    case tot: (Inr t)
    show ?thesis
    proof (cases "t \<le> cap \<and> min_free \<le> available_disk_space env fc")
      case True
      with "1.prems" tot show ?thesis by (auto simp: evict_done evicted_by_age_def)
    next
      case over: False
      show ?thesis
      proof (cases "oldest (fc_rows fc)")
        case None
        with "1.prems" tot show ?thesis
          by (auto simp: oldest_None evict_done evicted_by_age_def)
      next
        case (Some r)
        obtain x fc1 where rem: "remove_entry env (ce_cache_key r) fc = (x, fc1)" by fastforce
        show ?thesis
        proof (cases x)
          case (Inl err)
          with "1.prems" evict_more [OF tot over Some] rem have eq: "fc' = fc1" "res = Inl err" by auto
          from rem Inl have "fc1 = fc" by (auto simp: remove_entry_def Let_def split: sum.splits)
          with eq "1.prems"(1) show ?thesis by (simp add: evicted_by_age_def)
        next
          case (Inr u)
          with rem have rem': "remove_entry env (ce_cache_key r) fc = (Inr (), fc1)" by simp
          have run: "evict_loop env cap min_free fc1 (n + 1) = (res, fc')"
            using "1.prems"(2) evict_more [OF tot over Some] rem' by auto
          have ok1: "cache_ok fc1" using remove_entry_ok [OF "1.prems"(1)] rem' by (metis snd_conv)
          have rows: "fc_rows fc1 = filter (\<lambda>x. ce_cache_key x \<noteq> ce_cache_key r) (fc_rows fc)"
            using remove_entry_rows [OF rem'] by simp
          note young = oldest_Some [OF Some]
          have dist: "distinct (map ce_cache_key (fc_rows fc))"
            using "1.prems"(1) by (simp add: cache_ok_def)
          have len: "length (fc_rows fc) = Suc (length (fc_rows fc1))"
            unfolding rows by (rule length_filter_other_keys [OF dist conjunct1 [OF young]])
          have set1: "set (fc_rows fc1) = set (fc_rows fc) - {r}"
            unfolding rows by (rule set_filter_other_keys [OF dist conjunct1 [OF young]])
          note IH = "1.IH" [OF tot over Some rem' [symmetric] refl ok1 run]
          have "evicted_by_age (fc_rows fc) (fc_rows fc')"
            using IH young unfolding evicted_by_age_def set1 by blast
          moreover have "n + of_nat (length (fc_rows fc) - length (fc_rows fc')) =
              n + 1 + of_nat (length (fc_rows fc1) - length (fc_rows fc'))"
            if "length (fc_rows fc') \<le> length (fc_rows fc1)"
            using that by (simp add: len Suc_diff_le add.assoc)
          ultimately show ?thesis using IH len by (metis le_Suc_eq)
        qed
      qed
    qed
  qed
qed

lemma total_cached_bytes_filter:
  assumes "total_cached_bytes fc = Inr t" "fc_rows fc' = filter P (fc_rows fc)"
  shows "\<exists>t'. total_cached_bytes fc' = Inr t'"
proof -
  have "sum_list (map (unat \<circ> ce_cached_bytes) (filter P rs)) \<le>
      sum_list (map (unat \<circ> ce_cached_bytes) rs)" for rs
    by (induction rs) auto
  from this [of "fc_rows fc"] assms show ?thesis
    by (auto simp: total_cached_bytes_def Let_def split: if_splits)
qed

lemma remove_entry_succeeds:
  assumes "cache_ok fc" "r \<in> set (fc_rows fc)"
  shows "\<exists>fc'. remove_entry env (ce_cache_key r) fc = (Inr (), fc')"
  using assms by (auto simp: remove_entry_def entry_path_def shard_path_def cache_ok_def Let_def)

lemma evict_loop_returns:
  assumes "cache_ok fc" "total_cached_bytes fc = Inr t"
  shows "\<exists>m fc'. evict_loop env cap min_free fc n = (Inr m, fc')"
  using assms
proof (induction "length (fc_rows fc)" arbitrary: fc t n rule: less_induct)
  case less
  show ?case
  proof (cases "t \<le> cap \<and> min_free \<le> available_disk_space env fc \<or> fc_rows fc = []")
    case True
    with evict_done [OF less.prems(2)] show ?thesis by blast
  next
    case False
    then obtain r where r: "oldest (fc_rows fc) = Some r"
      by (metis oldest_None option.exhaust)
    obtain fc1 where rem: "remove_entry env (ce_cache_key r) fc = (Inr (), fc1)"
      using remove_entry_succeeds [OF less.prems(1)] oldest_Some [OF r] by blast
    obtain t1 where "total_cached_bytes fc1 = Inr t1"
      using total_cached_bytes_filter [OF less.prems(2)] remove_entry_rows [OF rem] by blast
    moreover have "cache_ok fc1" using remove_entry_ok [OF less.prems(1)] rem by (metis snd_conv)
    moreover have "length (fc_rows fc1) < length (fc_rows fc)" by (rule evict_smaller [OF r rem])
    ultimately obtain m fc' where "evict_loop env cap min_free fc1 (n + 1) = (Inr m, fc')"
      using less.hyps by blast
    with evict_more [OF less.prems(2) _ r] rem False show ?thesis by auto
  qed
qed

section \<open>Properties\<close>

text \<open>C5: eviction returns the number of entries it removed and leaves the cache under the byte cap
  with the requested free space, or empty; it removes by age, so no entry that stays was last
  used before one that goes, and the table stays well formed.\<close>

theorem evict_lru_correct:
  assumes "cache_ok fc" "total_cached_bytes fc = Inr t"
  shows "\<exists>m fc'. evict_lru env cap min_free fc = (Inr m, fc') \<and> cache_ok fc' \<and>
    m = of_nat (length (fc_rows fc) - length (fc_rows fc')) \<and>
    evicted_by_age (fc_rows fc) (fc_rows fc') \<and>
    (fc_rows fc' = [] \<or>
     (\<exists>t'. total_cached_bytes fc' = Inr t' \<and> t' \<le> cap \<and>
        min_free \<le> available_disk_space env fc'))"
proof -
  obtain m fc' where run: "evict_loop env cap min_free fc 0 = (Inr m, fc')"
    using evict_loop_returns [OF assms] by blast
  from evict_loop_spec [OF assms(1) run] run show ?thesis
    by (auto simp: evict_lru_def)
qed

theorem evict_lru_correct_witness:
  "\<exists>m fc'. evict_lru \<lparr>env_now = ''t'', env_mkdir = \<lambda>_. True, env_remove = \<lambda>_. True,
      env_statvfs = \<lambda>_ _. None\<rparr> 10 0
     \<lparr>fc_dir = ''/c'', fc_rows =
        [\<lparr>ce_cache_key = ''ab1'', ce_file_id = ''f'', ce_mtime = [], ce_size_on_record = 8,
          ce_block_size = 1, ce_block_map = None, ce_cached_bytes = 8, ce_last_access = ''2'',
          ce_source = ''local''\<rparr>,
         \<lparr>ce_cache_key = ''ab2'', ce_file_id = ''g'', ce_mtime = [], ce_size_on_record = 9,
          ce_block_size = 1, ce_block_map = None, ce_cached_bytes = 9, ce_last_access = ''1'',
          ce_source = ''local''\<rparr>],
      fc_files = []\<rparr> = (Inr m, fc') \<and> cache_ok fc'"
  (is "\<exists>m fc'. evict_lru ?env _ _ ?fc = _ \<and> _")
proof -
  have "cache_ok ?fc" "total_cached_bytes ?fc = Inr 17"
    by (simp_all add: cache_ok_def total_cached_bytes_def Let_def is_char_boundary_def)
  from evict_lru_correct [OF this, of ?env 10 0] show ?thesis by blast
qed

text \<open>A stored block entry is read back with the block map it was given, its size in bytes is the
  number of bytes the map holds, it is fresh for exactly the mtime and size it was stored
  with, and every other key keeps its entry.\<close>

lemma store_block_entry_correct:
  assumes "wf_map bm" "store_block_entry env key fid mtime sz bm source fc = (Inr (), fc')"
  shows "get_block_map fc' key = Some bm \<and>
    (\<exists>e. get_entry fc' key = Some e \<and> unat (ce_cached_bytes e) = card {b. contains bm b}) \<and>
    (\<forall>m s. is_stale fc' key m s \<longleftrightarrow> (m, s) \<noteq> (mtime, sz)) \<and>
    (\<forall>k. k \<noteq> key \<longrightarrow> get_entry fc' k = get_entry fc k)"
  using get_entry_store [OF assms(2) [unfolded store_block_entry_def]] assms(1)
  by (auto simp: get_block_map_def from_to_bytes is_stale_def cached_bytes_spec contains_iff)

text \<open>Promotion to a full download is decided by the number of separate runs of cached bytes: after
  storing a map, exactly when it holds more than 1000 of them.\<close>

lemma promotion_iff_fragmented:
  assumes "wf_map bm" "store_block_entry env key fid mtime sz bm source fc = (Inr (), fc')"
  shows "should_promote_to_full fc' key \<longleftrightarrow> 1000 < length (intervals bm)"
  using get_entry_store [OF assms(2) [unfolded store_block_entry_def]] assms(1)
  by (simp add: should_promote_to_full_def get_block_map_def from_to_bytes FRAGMENTATION_LIMIT_def
      interval_count_def)

end
