(* ===== verification/Tiered_Access.thy ===== *)
theory Tiered_Access
  imports File_Cache Inodes Couch Documents
begin

text \<open>
  Finding a readable path for a file: \<open>mosaicfs-vfs/src/tiered_access.rs\<close> and the
  filesystem views of \<open>filesystem_view.rs\<close> it consults. The tiers are functions in the
  order the source tries them: the file itself on its own node, the cache, the mounts of
  the owning node's filesystems, and the replicas recorded in the database.

  What the code asks the operating system, the clock, the environment and the network is
  the parameter record \<open>host\<close>. Files under the cache directory are those of the cache's
  own state, so that what a download installs is seen by the next access.
\<close>

section \<open>Filesystem views\<close>

record filesystem_view =
  fv_filesystem_id :: string
  fv_owning_node_id :: string
  fv_export_root :: string
  fv_local_mount_path :: "string option"
  fv_mount_type :: string

definition project_to_view :: "filesystem_document \<Rightarrow> string \<Rightarrow> filesystem_view" where
  "project_to_view d local_node_id =
     (let av = List.find (\<lambda>a. na_node_id a = local_node_id) (fsd_availability d) in
      \<lparr>fv_filesystem_id = fsd_filesystem_id d,
       fv_owning_node_id = fsd_owning_node_id d,
       fv_export_root = fsd_export_root d,
       fv_local_mount_path = map_option na_local_mount_path av,
       fv_mount_type = (case av of Some a \<Rightarrow> na_mount_type a | None \<Rightarrow> ''unknown'')\<rparr>)"

definition load_filesystems ::
  "libs \<Rightarrow> 's couch \<Rightarrow> string \<Rightarrow> 's \<Rightarrow> (couch_error + filesystem_view list) \<times> 's" where
  "load_filesystems lb db local_node_id s =
     (case db_prefix db ''filesystem::'' s of
        (Inl e, s') \<Rightarrow> (Inl e, s')
      | (Inr rows, s') \<Rightarrow>
          (Inr (map (\<lambda>d. project_to_view d local_node_id)
             (List.map_filter (filesystem_document_of_json lb) (row_docs rows))), s'))"

section \<open>The outside world\<close>

datatype access_result = LocalPath string | NotAccessible string

text \<open>
  \<open>host_fetch\<close> is an HTTP GET of an URL with headers: the status and the body, or a
  transport error; reading the body may fail too. \<open>host_date_time\<close> and \<open>host_date\<close> are
  the current time as \<open>%Y%m%dT%H%M%SZ\<close> and \<open>%Y%m%d\<close>.
\<close>

record 's host =
  host_exists :: "string \<Rightarrow> bool"
  host_canonicalize :: "string \<Rightarrow> string option"
  host_evicted :: "string \<Rightarrow> bool"
  host_write :: "string \<Rightarrow> bool"
  host_rename :: "string \<Rightarrow> string \<Rightarrow> bool"
  host_uuid :: string
  host_var :: "string \<Rightarrow> string option"
  host_date_time :: string
  host_date :: string
  host_status_text :: "nat \<Rightarrow> string"
  host_fetch :: "string \<Rightarrow> (string \<times> string) list \<Rightarrow> 's \<Rightarrow>
      (string + (nat \<times> (string + string))) \<times> 's"

definition path_exists :: "'s host \<Rightarrow> file_cache \<Rightarrow> string \<Rightarrow> bool" where
  "path_exists h fc p \<longleftrightarrow> p \<in> set (fc_files fc) \<or> host_exists h p"

section \<open>Tier 1: the file on its own node\<close>

definition is_under_watch_path :: "'s host \<Rightarrow> string \<Rightarrow> string list \<Rightarrow> bool" where
  "is_under_watch_path h canonical watch_paths \<longleftrightarrow>
     list_ex (\<lambda>wp.
       (case host_canonicalize h wp of
          Some c \<Rightarrow> path_starts_with canonical c
        | None \<Rightarrow> False) \<or> path_starts_with canonical wp) watch_paths"

definition tier1_local ::
  "'s host \<Rightarrow> file_cache \<Rightarrow> file_inode \<Rightarrow> string \<Rightarrow> string list \<Rightarrow> string option" where
  "tier1_local h fc file local_node_id watch_paths =
     (if fi_source_node_id file = local_node_id \<and> path_exists h fc (fi_source_export_path file)
      then (case host_canonicalize h (fi_source_export_path file) of
              Some canonical \<Rightarrow>
                if is_under_watch_path h canonical watch_paths then Some canonical else None
            | None \<Rightarrow> None)
      else None)"

section \<open>The cache\<close>

definition file_uuid :: "file_inode \<Rightarrow> string" where
  "file_uuid file = unwrap_or (strip_prefix ''file::'' (fi_file_id file)) (fi_file_id file)"

text \<open>
  \<open>Inl\<close> is the panic of \<open>entry_path\<close>. Both modes of an entry return the cached path; only
  the log line differs.
\<close>

definition cache_hit ::
  "libs \<Rightarrow> 's host \<Rightarrow> file_inode \<Rightarrow> file_cache \<Rightarrow> cache_error + string option" where
  "cache_hit lb h file fc =
     (case get_entry fc (file_uuid file) of
        None \<Rightarrow> Inr None
      | Some e \<Rightarrow>
          if ce_mtime e = rfc3339 lb (fi_mtime file) \<and> ce_size_on_record e = fi_size file
          then and_then (entry_path fc (file_uuid file))
                 (\<lambda>p. Inr (if path_exists h fc p then Some p else None))
          else Inr None)"

section \<open>Tiers 2 and 3: mounts\<close>

definition translate_network_path :: "string \<Rightarrow> string \<Rightarrow> string \<Rightarrow> string option" where
  "translate_network_path export_path remote_base local_mount =
     (case strip_prefix remote_base export_path of
        None \<Rightarrow> None
      | Some relative \<Rightarrow>
          Some (trim_end (CHR ''/'') local_mount @
            (if starts_with relative ''/'' then relative else ''/'' @ relative)))"

fun tier23_mount ::
  "'s host \<Rightarrow> file_cache \<Rightarrow> file_inode \<Rightarrow> filesystem_view list \<Rightarrow> string option" where
  "tier23_mount h fc file [] = None"
| "tier23_mount h fc file (fs # fss) =
     (if fv_owning_node_id fs \<noteq> fi_source_node_id file then tier23_mount h fc file fss
      else if \<not> starts_with (fi_source_export_path file) (fv_export_root fs)
      then tier23_mount h fc file fss
      else
        (case fv_local_mount_path fs of
           None \<Rightarrow> tier23_mount h fc file fss
         | Some local_mount \<Rightarrow>
             (case translate_network_path (fi_source_export_path file) (fv_export_root fs)
                     local_mount of
                None \<Rightarrow> tier23_mount h fc file fss
              | Some p \<Rightarrow>
                  if path_exists h fc p
                  then (if fv_mount_type fs = ''icloud_local'' \<and> host_evicted h p
                        then tier23_mount h fc file fss else Some p)
                  else tier23_mount h fc file fss)))"

section \<open>Replicas\<close>

definition replica_status :: "json \<Rightarrow> string" where
  "replica_status doc = unwrap_or (jget_str ''status'' doc) ''''"

fun pick_replica :: "json option \<Rightarrow> all_docs_row list \<Rightarrow> json option" where
  "pick_replica best [] = best"
| "pick_replica best (row # rows) =
     (case row_doc row of
        None \<Rightarrow> pick_replica best rows
      | Some doc \<Rightarrow>
          if jget_str ''type'' doc \<noteq> Some ''replica'' then pick_replica best rows
          else if replica_status doc \<noteq> ''current'' \<and> replica_status doc \<noteq> ''frozen''
          then pick_replica best rows
          else if replica_status doc = ''current'' then Some doc
          else pick_replica (if best = None then Some doc else best) rows)"

definition get_backend_doc :: "'s couch \<Rightarrow> string \<Rightarrow> 's \<Rightarrow> json option \<times> 's" where
  "get_backend_doc db target_name s =
     (case db_get db (''storage_backend::'' @ target_name) s of (r, s') \<Rightarrow> (ok r, s'))"

definition jget_or :: "json option \<Rightarrow> string \<Rightarrow> json option" where
  "jget_or j k = Option.bind j (jget k)"

definition str_or :: "string \<Rightarrow> json option \<Rightarrow> string" where
  "str_or d j = unwrap_or (Option.bind j as_str) d"

definition s3_keys :: "'s host \<Rightarrow> json option \<Rightarrow> string \<times> string" where
  "s3_keys h credential_doc =
     (case credential_doc of
        Some cred \<Rightarrow>
          (str_or '''' (case jget ''aws_access_key_id'' cred of
             Some v \<Rightarrow> Some v | None \<Rightarrow> jget ''access_key_id'' cred),
           str_or '''' (case jget ''aws_secret_access_key'' cred of
             Some v \<Rightarrow> Some v | None \<Rightarrow> jget ''secret_key'' cred))
      | None \<Rightarrow>
          (unwrap_or (host_var h ''AWS_ACCESS_KEY_ID'') '''',
           unwrap_or (host_var h ''AWS_SECRET_ACCESS_KEY'') ''''))"

definition s3_host :: "string \<Rightarrow> string" where
  "s3_host endpoint =
     (let without_scheme =
            (case strip_prefix ''https://'' endpoint of
               Some r \<Rightarrow> r
             | None \<Rightarrow> unwrap_or (strip_prefix ''http://'' endpoint) endpoint)
      in hd (split_on (CHR ''/'') without_scheme))"

definition newline :: string where
  "newline = [CHR 0x0A]"

definition s3_signing_key :: "libs \<Rightarrow> string \<Rightarrow> string \<Rightarrow> string \<Rightarrow> string" where
  "s3_signing_key lb secret date region =
     hmac_sha256 lb
       (hmac_sha256 lb
         (hmac_sha256 lb (hmac_sha256 lb (''AWS4'' @ secret) date) region) ''s3'')
       ''aws4_request''"

definition s3_headers :: "string \<Rightarrow> string \<Rightarrow> string \<Rightarrow> (string \<times> string) list" where
  "s3_headers host empty_hash date_time =
     [(''host'', host), (''x-amz-content-sha256'', empty_hash), (''x-amz-date'', date_time)]"

definition s3_canonical_request ::
  "string \<Rightarrow> (string \<times> string) list \<Rightarrow> string \<Rightarrow> string" where
  "s3_canonical_request remote_key headers empty_hash =
     ''GET'' @ newline @ ''/'' @ remote_key @ newline @ newline @
     concat (map (\<lambda>(k, v). k @ '':'' @ trim v @ newline) headers) @ newline @
     join '';'' (map fst headers) @ newline @ empty_hash"

definition s3_endpoint :: "json \<Rightarrow> string" where
  "s3_endpoint config =
     (case Option.bind (jget ''endpoint'' config) as_str of
        Some e \<Rightarrow> e
      | None \<Rightarrow> ''https://s3.'' @ str_or ''us-east-1'' (jget ''region'' config) @
          ''.amazonaws.com/'' @ str_or '''' (jget ''bucket'' config))"

definition s3_url :: "string \<Rightarrow> string \<Rightarrow> string" where
  "s3_url endpoint remote_key = trim_end (CHR ''/'') endpoint @ ''/'' @ remote_key"

definition s3_authorization ::
  "libs \<Rightarrow> 's host \<Rightarrow> string \<times> string \<Rightarrow> string \<Rightarrow> string \<Rightarrow> string \<Rightarrow> string" where
  "s3_authorization lb h keys region endpoint remote_key =
     (let empty_hash = sha256_hex lb '''';
          headers = s3_headers (s3_host endpoint) empty_hash (host_date_time h);
          cr_hash = sha256_hex lb (s3_canonical_request remote_key headers empty_hash);
          credential_scope = host_date h @ ''/'' @ region @ ''/s3/aws4_request'';
          string_to_sign = ''AWS4-HMAC-SHA256'' @ newline @ host_date_time h @ newline @
            credential_scope @ newline @ cr_hash;
          signature = hex_encode lb
            (hmac_sha256 lb (s3_signing_key lb (snd keys) (host_date h) region) string_to_sign)
      in ''AWS4-HMAC-SHA256 Credential='' @ fst keys @ ''/'' @ credential_scope @
         '',SignedHeaders='' @ join '';'' (map fst headers) @ '',Signature='' @ signature)"

definition download_from_s3 ::
  "libs \<Rightarrow> 's host \<Rightarrow> json \<Rightarrow> json option \<Rightarrow> string \<Rightarrow> 's \<Rightarrow> (string + string) \<times> 's" where
  "download_from_s3 lb h backend_doc credential_doc remote_key s =
     (let config = unwrap_or (jget ''backend_config'' backend_doc) JNull;
          region = str_or ''us-east-1'' (jget ''region'' config);
          endpoint = s3_endpoint config;
          auth = s3_authorization lb h (s3_keys h credential_doc) region endpoint remote_key
      in case host_fetch h (s3_url endpoint remote_key)
            [(''x-amz-date'', host_date_time h),
             (''x-amz-content-sha256'', sha256_hex lb ''''),
             (''Authorization'', auth)] s of
           (Inl e, s') \<Rightarrow> (Inl e, s')
         | (Inr (status, body), s') \<Rightarrow>
             if is_success status then (body, s')
             else (Inl (''S3 GET failed: HTTP '' @ host_status_text h status), s'))"

definition not_accessible :: "file_inode \<Rightarrow> string \<Rightarrow> access_result" where
  "not_accessible file why =
     NotAccessible (''File '' @ fi_file_id file @ '' not accessible: '' @ why)"

definition directory_replica ::
  "'s host \<Rightarrow> 's couch \<Rightarrow> file_inode \<Rightarrow> json \<Rightarrow> file_cache \<Rightarrow> 's \<Rightarrow>
     access_result \<times> file_cache \<times> 's" where
  "directory_replica h db file replica fc s =
     (let target_name = str_or '''' (jget ''target_name'' replica);
          remote_key = str_or '''' (jget ''remote_key'' replica)
      in case get_backend_doc db target_name s of
           (None, s') \<Rightarrow>
             (not_accessible file (''backend '' @ [CHR 0x27] @ target_name @ [CHR 0x27] @ '' not found''), fc, s')
         | (Some backend_doc, s') \<Rightarrow>
             (let dir_path = str_or ''/'' (jget_or (jget ''backend_config'' backend_doc) ''path'');
                  full_path = path_join dir_path (trim_start (CHR ''/'') remote_key)
              in if path_exists h fc full_path then (LocalPath full_path, fc, s')
                 else (not_accessible file
                         (''directory replica path '' @ full_path @ '' not found''), fc, s')))"

text \<open>
  A download is staged, renamed into the cache and recorded; the error of the record is
  dropped. \<open>Inl\<close> is the panic of \<open>entry_path\<close>.
\<close>

definition install_replica ::
  "libs \<Rightarrow> cache_env \<Rightarrow> 's host \<Rightarrow> file_inode \<Rightarrow> string \<Rightarrow> string \<Rightarrow> file_cache \<Rightarrow>
     cache_error + access_result \<times> file_cache" where
  "install_replica lb env h file target_name body fc =
     (let staging = staging_path fc (host_uuid h) in
      if \<not> host_write h staging
      then Inr (not_accessible file ''failed to cache replica content'', fc)
      else
        (let fc1 = fc\<lparr>fc_files := staging # fc_files fc\<rparr> in
         and_then (entry_path fc1 (file_uuid file)) (\<lambda>final.
           if \<not> host_rename h staging final
           then Inr (not_accessible file ''failed to install replica cache'', fc1)
           else
             (let fc2 = fc1\<lparr>fc_files := final # filter (\<lambda>p. p \<noteq> staging) (fc_files fc1)\<rparr>
              in Inr (LocalPath final,
                   snd (store_full_file env (file_uuid file) (fi_file_id file)
                     (rfc3339 lb (fi_mtime file)) (of_nat (length body))
                     (''replica:'' @ target_name) fc2))))))"

definition s3_replica ::
  "libs \<Rightarrow> cache_env \<Rightarrow> 's host \<Rightarrow> 's couch \<Rightarrow> file_inode \<Rightarrow> json \<Rightarrow> file_cache \<Rightarrow> 's \<Rightarrow>
     cache_error + access_result \<times> file_cache \<times> 's" where
  "s3_replica lb env h db file replica fc s =
     (let target_name = str_or '''' (jget ''target_name'' replica);
          remote_key = str_or '''' (jget ''remote_key'' replica)
      in case get_backend_doc db target_name s of
           (None, s1) \<Rightarrow>
             Inr (not_accessible file (''backend '' @ [CHR 0x27] @ target_name @ [CHR 0x27] @ '' not found''), fc, s1)
         | (Some backend_doc, s1) \<Rightarrow>
             (let (credential_doc, s2) =
                    (case Option.bind (jget ''credentials_ref'' backend_doc) as_str of
                       Some cref \<Rightarrow> (case db_get db (''credential::'' @ cref) s1 of (r, s') \<Rightarrow> (ok r, s'))
                     | None \<Rightarrow> (None, s1))
              in case download_from_s3 lb h backend_doc credential_doc remote_key s2 of
                   (Inr body, s3) \<Rightarrow>
                     and_then (install_replica lb env h file target_name body fc)
                       (\<lambda>(r, fc'). Inr (r, fc', s3))
                 | (Inl e, s3) \<Rightarrow>
                     Inr (not_accessible file (''S3/B2 replica download failed: '' @ e), fc, s3)))"

definition resolve_from_replica ::
  "libs \<Rightarrow> cache_env \<Rightarrow> 's host \<Rightarrow> 's couch \<Rightarrow> file_inode \<Rightarrow> file_cache \<Rightarrow> 's \<Rightarrow>
     cache_error + access_result \<times> file_cache \<times> 's" where
  "resolve_from_replica lb env h db file fc s =
     (case db_prefix db (''replica::'' @ file_uuid file) s of
        (Inl e, s1) \<Rightarrow>
          Inr (not_accessible file ''owning node offline and replica query failed'', fc, s1)
      | (Inr rows, s1) \<Rightarrow>
          (case pick_replica None rows of
             None \<Rightarrow>
               Inr (not_accessible file ''owning node offline and no current replicas'', fc, s1)
           | Some replica \<Rightarrow>
               (let backend = str_or '''' (jget ''backend'' replica) in
                if backend = ''directory'' then Inr (directory_replica h db file replica fc s1)
                else if backend = ''s3'' \<or> backend = ''b2''
                then s3_replica lb env h db file replica fc s1
                else Inr (not_accessible file
                  (''unknown replica backend '' @ [CHR 0x27] @ backend @ [CHR 0x27]), fc, s1))))"

section \<open>The chain\<close>

definition resolve_file ::
  "libs \<Rightarrow> cache_env \<Rightarrow> 's host \<Rightarrow> 's couch \<Rightarrow> file_inode \<Rightarrow> string \<Rightarrow> string list \<Rightarrow>
     filesystem_view list \<Rightarrow> file_cache \<Rightarrow> 's \<Rightarrow>
     cache_error + access_result \<times> file_cache \<times> 's" where
  "resolve_file lb env h db file local_node_id watch_paths filesystems fc s =
     (case tier1_local h fc file local_node_id watch_paths of
        Some p \<Rightarrow> Inr (LocalPath p, fc, s)
      | None \<Rightarrow>
          and_then (cache_hit lb h file fc) (\<lambda>hit.
            case hit of
              Some p \<Rightarrow> Inr (LocalPath p, touch env (file_uuid file) fc, s)
            | None \<Rightarrow>
                (case tier23_mount h fc file filesystems of
                   Some p \<Rightarrow> Inr (LocalPath p, fc, s)
                 | None \<Rightarrow> resolve_from_replica lb env h db file fc s)))"

section \<open>Lemmas\<close>

lemma tier1_local_Some:
  assumes "tier1_local h fc file n wps = Some p"
  shows "fi_source_node_id file = n \<and> host_canonicalize h (fi_source_export_path file) = Some p \<and>
    (\<exists>wp \<in> set wps. path_starts_with p wp \<or>
       (\<exists>c. host_canonicalize h wp = Some c \<and> path_starts_with p c))"
proof -
  from assms have src: "fi_source_node_id file = n"
    "host_canonicalize h (fi_source_export_path file) = Some p" "is_under_watch_path h p wps"
    by (auto simp: tier1_local_def split: if_splits option.splits)
  from src(3) obtain wp where "wp \<in> set wps" and
    "(case host_canonicalize h wp of Some c \<Rightarrow> path_starts_with p c | None \<Rightarrow> False) \<or>
     path_starts_with p wp"
    by (auto simp only: is_under_watch_path_def list_ex_iff)
  then have "path_starts_with p wp \<or> (\<exists>c. host_canonicalize h wp = Some c \<and> path_starts_with p c)"
    by (auto split: option.splits)
  with src \<open>wp \<in> set wps\<close> show ?thesis by blast
qed

lemma cache_hit_Some:
  assumes "cache_hit lb h file fc = Inr (Some p)"
  shows "\<exists>e. get_entry fc (file_uuid file) = Some e \<and> ce_mtime e = rfc3339 lb (fi_mtime file) \<and>
    ce_size_on_record e = fi_size file \<and> entry_path fc (file_uuid file) = Inr p \<and>
    path_exists h fc p"
  using assms by (auto simp: cache_hit_def and_then_Inr split: option.splits if_splits)

lemma translate_inside:
  "translate_network_path p root mount = Some q \<Longrightarrow>
     \<exists>rel. q = trim_end (CHR ''/'') mount @ ''/'' @ rel"
  by (auto simp: translate_network_path_def starts_with_iff split: option.splits if_splits)

lemma tier23_mount_Some:
  "tier23_mount h fc file fss = Some p \<Longrightarrow>
     \<exists>fs \<in> set fss. \<exists>mount rel. fv_owning_node_id fs = fi_source_node_id file \<and>
       fv_local_mount_path fs = Some mount \<and>
       fi_source_export_path file = fv_export_root fs @ rel \<and>
       translate_network_path (fi_source_export_path file) (fv_export_root fs) mount = Some p \<and>
       path_exists h fc p \<and> \<not> (fv_mount_type fs = ''icloud_local'' \<and> host_evicted h p)"
proof (induction fss)
  case Nil
  then show ?case by simp
next
  case (Cons fs fss)
  show ?case
  proof (cases "tier23_mount h fc file fss = Some p")
    case True
    with Cons.IH show ?thesis by (meson list.set_intros(2))
  next
    case False
    with Cons.prems show ?thesis
      by (force simp: starts_with_iff split: if_splits option.splits)
  qed
qed

text \<open>The candidates of the replica query, in row order.\<close>

definition usable_replica :: "json \<Rightarrow> bool" where
  "usable_replica doc \<longleftrightarrow> jget_str ''type'' doc = Some ''replica'' \<and>
     (replica_status doc = ''current'' \<or> replica_status doc = ''frozen'')"

lemma pick_replica_spec:
  "pick_replica best rows =
     (case List.find (\<lambda>d. usable_replica d \<and> replica_status d = ''current'') (row_docs rows) of
        Some d \<Rightarrow> Some d
      | None \<Rightarrow> (case best of Some b \<Rightarrow> Some b | None \<Rightarrow> List.find usable_replica (row_docs rows)))"
proof (induction rows arbitrary: best)
  case Nil
  then show ?case by (simp split: option.split)
next
  case (Cons row rows)
  show ?case
  proof (cases "row_doc row")
    case None
    then have "pick_replica best (row # rows) = pick_replica best rows"
      "row_docs (row # rows) = row_docs rows" by simp_all
    then show ?thesis by (simp only: Cons.IH)
  next
    case (Some doc)
    consider "\<not> usable_replica doc" | "usable_replica doc" "replica_status doc = ''current''"
      | "usable_replica doc" "replica_status doc \<noteq> ''current''"
      by blast
    then show ?thesis
    proof cases
      case 1
      then have "pick_replica best (row # rows) = pick_replica best rows"
        using Some by (auto simp: usable_replica_def)
      moreover have "row_docs (row # rows) = doc # row_docs rows" using Some by simp
      ultimately show ?thesis using 1 by (simp only: Cons.IH find.simps if_False simp_thms)
    next
      case 2
      then have "pick_replica best (row # rows) = Some doc"
        using Some by (auto simp: usable_replica_def)
      moreover have "row_docs (row # rows) = doc # row_docs rows" using Some by simp
      ultimately show ?thesis
        using 2 by (simp only: find.simps if_True simp_thms option.case)
    next
      case 3
      then have "pick_replica best (row # rows) =
          pick_replica (if best = None then Some doc else best) rows"
        using Some by (auto simp: usable_replica_def)
      moreover have "row_docs (row # rows) = doc # row_docs rows" using Some by simp
      ultimately show ?thesis
        using 3 by (cases best) (simp_all only: Cons.IH find.simps if_True if_False simp_thms
          option.case option.simps)
    qed
  qed
qed

lemma resolve_from_replica_LocalPath:
  assumes "resolve_from_replica lb env h db file fc s = Inr (LocalPath p, fc', s')"
  shows "\<exists>rows s1 d. db_prefix db (''replica::'' @ file_uuid file) s = (Inr rows, s1) \<and>
    d \<in> set (row_docs rows) \<and> usable_replica d"
proof -
  obtain r s1 where q: "db_prefix db (''replica::'' @ file_uuid file) s = (r, s1)" by fastforce
  with assms obtain rows where r: "r = Inr rows"
    by (cases r) (auto simp: resolve_from_replica_def not_accessible_def)
  have "pick_replica None rows \<noteq> None"
  proof
    assume "pick_replica None rows = None"
    with assms q r show False by (simp add: resolve_from_replica_def not_accessible_def)
  qed
  then obtain d where "d \<in> set (row_docs rows)" "usable_replica d"
    by (auto simp: pick_replica_spec split: option.splits dest!: find_SomeD)
  with q r show ?thesis by blast
qed

lemma resolve_cached:
  assumes "fi_source_node_id file \<noteq> node" "get_entry fc (file_uuid file) = Some e"
    and "ce_mtime e = rfc3339 lb (fi_mtime file)" "ce_size_on_record e = fi_size file"
    and "entry_path fc (file_uuid file) = Inr p" "p \<in> set (fc_files fc)"
  shows "resolve_file lb env h db file node wps fss fc s =
    Inr (LocalPath p, touch env (file_uuid file) fc, s)"
  using assms by (simp add: resolve_file_def tier1_local_def cache_hit_def path_exists_def)

lemma entry_path_dir: "fc_dir fc' = fc_dir fc \<Longrightarrow> entry_path fc' k = entry_path fc k"
  by (simp add: entry_path_def shard_path_def cong: if_cong)

lemma store_full_file_succeeds:
  assumes "entry_path fc key = Inr p" "sql_int sz" "\<forall>d. env_mkdir env d"
  shows "\<exists>fc'. store_full_file env key f m sz src fc = (Inr (), fc')"
  using assms by (auto simp: store_full_file_def store_entry_def entry_path_def and_then_Inr)

lemma store_full_file_frame:
  "fc_dir (snd (store_full_file env k f m sz src fc)) = fc_dir fc"
  "fc_files (snd (store_full_file env k f m sz src fc)) = fc_files fc"
  by (auto simp: store_full_file_def store_entry_def split: sum.splits)

lemma install_replica_LocalPath:
  assumes "install_replica lb env h file target body fc = Inr (LocalPath p, fc')"
  shows "entry_path fc (file_uuid file) = Inr p \<and>
    fc' = snd (store_full_file env (file_uuid file) (fi_file_id file) (rfc3339 lb (fi_mtime file))
      (of_nat (length body)) (''replica:'' @ target)
      (fc\<lparr>fc_files := p # filter (\<lambda>q. q \<noteq> staging_path fc (host_uuid h))
         (staging_path fc (host_uuid h) # fc_files fc)\<rparr>))"
proof -
  let ?st = "staging_path fc (host_uuid h)"
  have "host_write h ?st"
    using assms by (rule contrapos_pp) (simp add: install_replica_def not_accessible_def)
  moreover obtain q where q: "entry_path fc (file_uuid file) = Inr q"
    using assms entry_path_dir [of "fc\<lparr>fc_files := ?st # fc_files fc\<rparr>" fc] \<open>host_write h ?st\<close>
    by (auto simp: install_replica_def Let_def and_then_Inr)
  moreover from this have "entry_path (fc\<lparr>fc_files := ?st # fc_files fc\<rparr>) (file_uuid file) = Inr q"
    using entry_path_dir [of "fc\<lparr>fc_files := ?st # fc_files fc\<rparr>" fc] by simp
  moreover have "host_rename h ?st q"
    using assms calculation
    by (rule_tac ccontr) (simp add: install_replica_def Let_def not_accessible_def)
  ultimately show ?thesis
    using assms by (auto simp: install_replica_def Let_def)
qed

section \<open>Properties\<close>

text \<open>A concrete machine and file for the examples below: one mounted path, no symbolic links.\<close>

definition sample_env :: cache_env where
  "sample_env = \<lparr>env_now = ''t'', env_mkdir = \<lambda>_. True, env_remove = \<lambda>_. True,
     env_statvfs = \<lambda>_ _. None\<rparr>"

definition sample_host :: "store host" where
  "sample_host =
     \<lparr>host_exists = (\<lambda>p. p \<in> {''/d/x'', ''/d/a.txt'', ''/mnt/x''}), host_canonicalize = Some,
      host_evicted = (\<lambda>_. False), host_write = (\<lambda>_. True), host_rename = (\<lambda>_ _. True),
      host_uuid = ''u'', host_var = (\<lambda>_. None), host_date_time = ''dt'', host_date = ''d'',
      host_status_text = nat_str, host_fetch = (\<lambda>_ _ s. (Inr (200, Inr ''body''), s))\<rparr>"

definition sample_file :: file_inode where
  "sample_file =
     \<lparr>fi_inode = 1000, fi_file_id = ''file::ab1'', fi_name = ''x'', fi_size = 4, fi_mtime = 3,
      fi_mime_type = None, fi_source_node_id = ''n1'', fi_source_export_path = ''/d/x''\<rparr>"

lemmas sample_access = sample_env_def sample_host_def sample_file_def file_uuid_def


text \<open>C2: a path is served only for one of four reasons: it is the canonical path of a file of this
  node and lies under a watch path; or it is the cache file of an entry whose mtime and size
  are the file's; or it lies on a local mount of a filesystem the owning node exports, and is
  neither missing nor evicted; or the database lists a usable replica.\<close>

theorem resolve_file_sources:
  assumes "resolve_file lb env h db file node wps fss fc s = Inr (LocalPath p, fc', s')"
  shows
    "(fi_source_node_id file = node \<and> host_canonicalize h (fi_source_export_path file) = Some p \<and>
      (\<exists>wp \<in> set wps. path_starts_with p wp \<or>
         (\<exists>c. host_canonicalize h wp = Some c \<and> path_starts_with p c))) \<or>
     (entry_path fc (file_uuid file) = Inr p \<and> path_exists h fc p \<and>
      \<not> is_stale fc (file_uuid file) (rfc3339 lb (fi_mtime file)) (fi_size file)) \<or>
     (\<exists>fs \<in> set fss. \<exists>mount rel. fv_owning_node_id fs = fi_source_node_id file \<and>
      fv_local_mount_path fs = Some mount \<and> p = trim_end (CHR ''/'') mount @ ''/'' @ rel \<and>
      path_exists h fc p \<and> \<not> (fv_mount_type fs = ''icloud_local'' \<and> host_evicted h p)) \<or>
     (\<exists>rows s1 d. db_prefix db (''replica::'' @ file_uuid file) s = (Inr rows, s1) \<and>
      d \<in> set (row_docs rows) \<and> usable_replica d)"
proof (cases "tier1_local h fc file node wps")
  case (Some q)
  with assms tier1_local_Some [OF Some] show ?thesis by (simp add: resolve_file_def)
next
  case t1: None
  then obtain hit where hit: "cache_hit lb h file fc = Inr hit"
    using assms by (auto simp: resolve_file_def and_then_Inr)
  show ?thesis
  proof (cases hit)
    case (Some q)
    with hit assms t1 have "cache_hit lb h file fc = Inr (Some p)"
      by (simp add: resolve_file_def)
    from cache_hit_Some [OF this] show ?thesis by (auto simp: is_stale_def)
  next
    case None
    show ?thesis
    proof (cases "tier23_mount h fc file fss")
      case (Some q)
      with None hit assms t1 have "tier23_mount h fc file fss = Some p"
        by (simp add: resolve_file_def)
      from tier23_mount_Some [OF this] show ?thesis by (meson translate_inside)
    next
      case t23: None
      with None hit assms t1
      have "resolve_from_replica lb env h db file fc s = Inr (LocalPath p, fc', s')"
        by (simp add: resolve_file_def)
      from resolve_from_replica_LocalPath [OF this] show ?thesis by blast
    qed
  qed
qed

theorem resolve_file_sources_witness:
  "resolve_file sample_libs sample_env sample_host sample_couch sample_file ''n1'' [''/d'']
      [] \<lparr>fc_dir = ''/c'', fc_rows = [], fc_files = []\<rparr> [] =
     Inr (LocalPath ''/d/x'', \<lparr>fc_dir = ''/c'', fc_rows = [], fc_files = []\<rparr>, []) \<and>
   path_starts_with ''/d/x'' ''/d''"
proof -
  have run: "resolve_file sample_libs sample_env sample_host sample_couch sample_file ''n1'' [''/d'']
      [] \<lparr>fc_dir = ''/c'', fc_rows = [], fc_files = []\<rparr> [] =
     Inr (LocalPath ''/d/x'', \<lparr>fc_dir = ''/c'', fc_rows = [], fc_files = []\<rparr>, [])"
    by code_simp
  from resolve_file_sources [OF run] run show ?thesis
    by (auto simp: sample_access get_entry_def is_stale_def)
qed

text \<open>Among the rows of the replica query the first one with status current is taken wherever it
  stands, otherwise the first frozen one; no replica is taken exactly when none is usable.\<close>

lemma pick_replica_correct:
  "pick_replica None rows =
     (case List.find (\<lambda>d. usable_replica d \<and> replica_status d = ''current'') (row_docs rows) of
        Some d \<Rightarrow> Some d
      | None \<Rightarrow> List.find (\<lambda>d. usable_replica d \<and> replica_status d = ''frozen'') (row_docs rows)) \<and>
   (pick_replica None rows \<noteq> None \<longleftrightarrow> list_ex usable_replica (row_docs rows))"
proof -
  have frozen: "List.find usable_replica ds =
      List.find (\<lambda>d. usable_replica d \<and> replica_status d = ''frozen'') ds"
    if "List.find (\<lambda>d. usable_replica d \<and> replica_status d = ''current'') ds = None" for ds
    using that by (intro find_cong) (auto simp: find_None_iff usable_replica_def)
  show ?thesis
  proof (cases "List.find (\<lambda>d. usable_replica d \<and> replica_status d = ''current'') (row_docs rows)")
    case None
    have "(List.find usable_replica ds \<noteq> None) = list_ex usable_replica ds" for ds
      by (auto simp: find_None_iff list_ex_iff)
    from this [of "row_docs rows"] frozen [OF None] show ?thesis
      by (simp add: pick_replica_spec None)
  next
    case (Some d)
    with pick_replica_spec [of None rows] find_SomeD [OF Some] show ?thesis
      by (auto simp: list_ex_iff)
  qed
qed

text \<open>A replica downloaded for a file of another node is served from the cache the next time,
  without the database or the network, provided the download has the size on record.\<close>

lemma replica_then_cached:
  assumes "install_replica lb env h file target body fc = Inr (LocalPath p, fc')"
    and "of_nat (length body) = fi_size file" "sql_int (fi_size file)" "\<forall>d. env_mkdir env d"
    and "fi_source_node_id file \<noteq> node"
  shows "resolve_file lb env' h db file node wps fss fc' s =
    Inr (LocalPath p, touch env' (file_uuid file) fc', s)"
proof -
  let ?st = "staging_path fc (host_uuid h)"
  define fc1 where "fc1 = fc\<lparr>fc_files := p # filter (\<lambda>q. q \<noteq> ?st) (?st # fc_files fc)\<rparr>"
  from assms(1) have ep: "entry_path fc (file_uuid file) = Inr p"
    and fc': "fc' = snd (store_full_file env (file_uuid file) (fi_file_id file)
      (rfc3339 lb (fi_mtime file)) (fi_size file) (''replica:'' @ target) fc1)"
    using install_replica_LocalPath [OF assms(1)] by (auto simp: fc1_def assms(2))
  have ep1: "entry_path fc1 (file_uuid file) = Inr p"
    using ep entry_path_dir [of fc1 fc] by (simp add: fc1_def)
  from store_full_file_succeeds [OF this assms(3,4)] fc'
  have st: "store_full_file env (file_uuid file) (fi_file_id file)
      (rfc3339 lb (fi_mtime file)) (fi_size file) (''replica:'' @ target) fc1 = (Inr (), fc')"
    by (metis snd_conv)
  have "entry_path fc' (file_uuid file) = Inr p" "p \<in> set (fc_files fc')"
    using ep1 entry_path_dir [of fc' fc1] by (simp_all add: fc' store_full_file_frame fc1_def)
  with get_entry_store [OF st [unfolded store_full_file_def]] assms(5) show ?thesis
    by (intro resolve_cached) auto
qed

text \<open>A mount is chosen by a plain string prefix, so a file of a sibling directory whose name begins
  with the export root's is looked for inside the mount, under a path that was never
  exported.\<close>

lemma translate_ignores_boundary:
  assumes "sib \<noteq> []" "hd sib \<noteq> CHR ''/''"
  shows "translate_network_path (root @ sib @ ''/'' @ rel) root mount =
    Some (trim_end (CHR ''/'') mount @ ''/'' @ sib @ ''/'' @ rel)"
  using assms by (cases sib) (simp_all add: translate_network_path_def starts_with_iff)

text \<open>An entry in block mode is served as a whole file as soon as its cache file exists, whatever
  bytes its block map says are present.\<close>

lemma partial_entry_served:
  assumes "wf_map bm"
    and "store_block_entry env (file_uuid file) (fi_file_id file) (rfc3339 lb (fi_mtime file))
      (fi_size file) bm src fc = (Inr (), fc')"
    and "entry_path fc (file_uuid file) = Inr p" "p \<in> set (fc_files fc)"
    and "fi_source_node_id file \<noteq> node"
  shows "resolve_file lb env h db file node wps fss fc' s =
      Inr (LocalPath p, touch env (file_uuid file) fc', s) \<and>
    get_block_map fc' (file_uuid file) = Some bm"
proof -
  note st = assms(2) [unfolded store_block_entry_def]
  have fc': "fc_dir fc' = fc_dir fc" "fc_files fc' = fc_files fc"
    using st by (auto simp: store_entry_def split: sum.splits if_splits)
  have "resolve_file lb env h db file node wps fss fc' s =
      Inr (LocalPath p, touch env (file_uuid file) fc', s)"
    using get_entry_store [OF st] entry_path_dir [OF fc'(1)] assms(3-5) fc'(2)
    by (intro resolve_cached) auto
  with get_entry_store [OF st] assms(1) show ?thesis
    by (simp add: get_block_map_def from_to_bytes)
qed

end
