(* ===== verification/Fuse_Fs.thy ===== *)
theory Fuse_Fs
  imports Tiered_Access Readdir
begin

text \<open>
  The FUSE callbacks of \<open>mosaicfs-vfs/src/fuse_fs.rs\<close> as functions of the mounted file
  system's state. A reply is a sum, \<open>Inl\<close> the errno. The maps the callbacks only look up
  in are HOL maps. A panic of the access chain ends the process and is \<open>Inl PANIC\<close>.
  At the end the mount itself, and the probe of \<open>fuse_check.rs\<close>.
\<close>

section \<open>State\<close>

record fuse_config =
  cf_node_id :: string
  cf_watch_paths :: "string list"
  cf_filesystems :: "filesystem_view list"
  cf_mount_point :: string
  cf_cache_dir :: string
  cf_cache_cap :: u64
  cf_min_free_space :: u64

definition default_config :: fuse_config where
  "default_config =
     \<lparr>cf_node_id = [], cf_watch_paths = [], cf_filesystems = [],
      cf_mount_point = ''/mnt/mosaicfs'', cf_cache_dir = ''/var/lib/mosaicfs/cache'',
      cf_cache_cap = 10 * 1024 * 1024 * 1024, cf_min_free_space = 1024 * 1024 * 1024\<rparr>"

record mosaic_fs =
  mf_config :: fuse_config
  mf_inodes :: inode_table
  mf_cache :: file_cache
  mf_dir_children :: "u64 \<times> string \<rightharpoonup> u64"
  mf_open_files :: "u64 \<rightharpoonup> file_inode \<times> string"
  mf_next_fh :: u64
  mf_access_tracker :: "string \<rightharpoonup> time"

datatype errno = ENOENT | ENOTDIR | EROFS | EIO | EBADF | PANIC

datatype file_type = Directory | RegularFile

record file_attr =
  at_ino :: u64
  at_size :: u64
  at_blocks :: u64
  at_mtime :: time
  at_kind :: file_type
  at_perm :: nat
  at_nlink :: nat
  at_blksize :: nat

text \<open>The four times of an attribute are equal in both constructors; one field stands for them.\<close>

definition new_fs ::
  "cache_env \<Rightarrow> fuse_config \<Rightarrow> cache_entry list \<Rightarrow> string list \<Rightarrow> cache_error + mosaic_fs" where
  "new_fs env config rows files =
     and_then (open_cache env (cf_cache_dir config) rows files) (\<lambda>cache.
       Inr \<lparr>mf_config = config, mf_inodes = new_table, mf_cache = cache,
            mf_dir_children = Map.empty, mf_open_files = Map.empty, mf_next_fh = 1,
            mf_access_tracker = Map.empty\<rparr>)"

section \<open>Helpers\<close>

definition load_directory :: "json \<Rightarrow> inode_table \<Rightarrow> inode_table" where
  "load_directory doc t =
     (let inode = unwrap_or (Option.bind (jget ''inode'' doc) as_u64) 0;
          vpath = unwrap_or (jget_str ''virtual_path'' doc) [];
          name = unwrap_or (jget_str ''name'' doc) []
      in if 0 < inode \<and> vpath \<noteq> []
         then insert_dir \<lparr>di_inode = inode, di_virtual_path = vpath, di_name = name\<rparr> t else t)"

definition load_directories ::
  "'s couch \<Rightarrow> mosaic_fs \<Rightarrow> 's \<Rightarrow> (couch_error + mosaic_fs) \<times> 's" where
  "load_directories db m s =
     (case db_prefix db ''dir::'' s of
        (Inl e, s') \<Rightarrow> (Inl e, s')
      | (Inr rows, s') \<Rightarrow>
          (Inr (m\<lparr>mf_inodes := fold load_directory (row_docs rows) (mf_inodes m)\<rparr>), s'))"

definition make_dir_attr :: "time \<Rightarrow> u64 \<Rightarrow> file_attr" where
  "make_dir_attr now inode =
     \<lparr>at_ino = inode, at_size = 0, at_blocks = 0, at_mtime = now, at_kind = Directory,
      at_perm = 493, at_nlink = 2, at_blksize = 512\<rparr>"

definition chrono_to_system_time :: "time \<Rightarrow> time" where
  "chrono_to_system_time t = (if 0 \<le> t then t else 0)"

definition make_file_attr :: "file_inode \<Rightarrow> file_attr" where
  "make_file_attr file =
     \<lparr>at_ino = fi_inode file, at_size = fi_size file, at_blocks = (fi_size file + 511) div 512,
      at_mtime = chrono_to_system_time (fi_mtime file), at_kind = RegularFile,
      at_perm = 292, at_nlink = 1, at_blksize = 512\<rparr>"

definition alloc_fh :: "mosaic_fs \<Rightarrow> u64 \<times> mosaic_fs" where
  "alloc_fh m = (mf_next_fh m, m\<lparr>mf_next_fh := mf_next_fh m + 1\<rparr>)"

definition record_access :: "time \<Rightarrow> string \<Rightarrow> mosaic_fs \<Rightarrow> mosaic_fs" where
  "record_access now file_id m =
     (case mf_access_tracker m file_id of
        Some at \<Rightarrow>
          if num_hours (now - at) < 1 then m
          else m\<lparr>mf_access_tracker := (mf_access_tracker m)(file_id \<mapsto> now)\<rparr>
      | None \<Rightarrow> m\<lparr>mf_access_tracker := (mf_access_tracker m)(file_id \<mapsto> now)\<rparr>)"

section \<open>lookup and getattr\<close>

definition entry_attr :: "time \<Rightarrow> u64 \<Rightarrow> inode_entry \<Rightarrow> file_attr" where
  "entry_attr now ino e =
     (case e of DirEntry _ \<Rightarrow> make_dir_attr now ino | FileEntry f \<Rightarrow> make_file_attr f)"

text \<open>\<open>name\<close> is \<open>None\<close> when the name is not UTF-8.\<close>

definition fs_lookup :: "time \<Rightarrow> mosaic_fs \<Rightarrow> u64 \<Rightarrow> string option \<Rightarrow> errno + file_attr" where
  "fs_lookup now m parent name =
     (case name of
        None \<Rightarrow> Inl ENOENT
      | Some name_str \<Rightarrow>
          (let cached = Option.bind (mf_dir_children m (parent, name_str))
                 (\<lambda>i. map_option (entry_attr now i) (get_inode (mf_inodes m) i))
           in case cached of
                Some a \<Rightarrow> Inr a
              | None \<Rightarrow>
                  (case Option.bind (lookup_child (mf_inodes m) parent name_str)
                          (\<lambda>i. map_option (entry_attr now i) (get_inode (mf_inodes m) i)) of
                     Some a \<Rightarrow> Inr a
                   | None \<Rightarrow> Inl ENOENT)))"

definition fs_getattr :: "time \<Rightarrow> mosaic_fs \<Rightarrow> u64 \<Rightarrow> errno + file_attr" where
  "fs_getattr now m ino =
     (case get_inode (mf_inodes m) ino of
        Some e \<Rightarrow> Inr (entry_attr now ino e)
      | None \<Rightarrow> Inl ENOENT)"

section \<open>readdir\<close>

definition child_dir_of :: "string \<Rightarrow> json \<Rightarrow> readdir_dir_entry option" where
  "child_dir_of virtual_path doc =
     do {
       pp \<leftarrow> jget_str ''parent_path'' doc;
       (if pp = virtual_path then Some () else None);
       name \<leftarrow> jget_str ''name'' doc;
       inode \<leftarrow> Option.bind (jget ''inode'' doc) as_u64;
       vp \<leftarrow> jget_str ''virtual_path'' doc;
       Some \<lparr>rd_name = name, rd_inode = inode, rd_virtual_path = vp\<rparr>
     }"

definition dir_contents ::
  "libs \<Rightarrow> time \<Rightarrow> 's couch \<Rightarrow> string \<Rightarrow> 's \<Rightarrow>
     (readdir_entry list \<times> readdir_dir_entry list) \<times> 's" where
  "dir_contents lb now db virtual_path s =
     (let (doc, s1) = db_get db (dir_id_for lb virtual_path) s;
          mounts = unwrap_or (Option.bind (Option.bind (ok doc) (jget ''mounts''))
                     (list_of mount_entry_of_json)) [];
          (inherited, s2) = collect_inherited_steps lb db virtual_path s1;
          (dirs, s3) = db_prefix db ''dir::'' s2;
          children = (case dirs of
              Inr rows \<Rightarrow> List.map_filter (child_dir_of virtual_path) (row_docs rows)
            | Inl _ \<Rightarrow> []);
          (files, s4) = evaluate_readdir lb now db mounts (unwrap_or (ok inherited) [])
             (map rd_name children) (vfs_step_context empty_vfs_context) (\<lambda>_. []) s3
      in ((unwrap_or (ok files) [], children), s4))"

definition register_dir :: "u64 \<Rightarrow> readdir_dir_entry \<Rightarrow> mosaic_fs \<Rightarrow> mosaic_fs" where
  "register_dir ino d m =
     m\<lparr>mf_inodes := insert_dir
         \<lparr>di_inode = rd_inode d, di_virtual_path = rd_virtual_path d, di_name = rd_name d\<rparr>
         (mf_inodes m),
       mf_dir_children := (mf_dir_children m)((ino, rd_name d) \<mapsto> rd_inode d)\<rparr>"

definition file_inode_of :: "readdir_entry \<Rightarrow> file_inode" where
  "file_inode_of e =
     \<lparr>fi_inode = re_inode e, fi_file_id = re_file_id e, fi_name = re_name e,
      fi_size = re_size e, fi_mtime = re_mtime e, fi_mime_type = re_mime_type e,
      fi_source_node_id = re_source_node_id e,
      fi_source_export_path = re_source_export_path e\<rparr>"

definition register_file :: "u64 \<Rightarrow> readdir_entry \<Rightarrow> mosaic_fs \<Rightarrow> mosaic_fs" where
  "register_file ino e m =
     m\<lparr>mf_inodes := snd (insert_file (file_inode_of e) (mf_inodes m)),
       mf_dir_children := (mf_dir_children m)((ino, re_name e) \<mapsto> re_inode e)\<rparr>"

text \<open>\<open>offset\<close> is the \<open>i64\<close> cast to \<open>usize\<close>; \<open>room\<close> is how many entries fit in
  the reply buffer, which refuses the first one that does not.\<close>

definition fs_readdir ::
  "libs \<Rightarrow> time \<Rightarrow> 's couch \<Rightarrow> u64 \<Rightarrow> u64 \<Rightarrow> nat \<Rightarrow> mosaic_fs \<Rightarrow> 's \<Rightarrow>
     (errno + (u64 \<times> file_type \<times> string) list) \<times> mosaic_fs \<times> 's" where
  "fs_readdir lb now db ino offset room m s =
     (case get_inode (mf_inodes m) ino of
        Some (DirEntry d) \<Rightarrow>
          (let ((files, child_dirs), s1) = dir_contents lb now db (di_virtual_path d) s;
               entries = [(ino, Directory, ''.''), (ino, Directory, ''..'')] @
                 map (\<lambda>d. (rd_inode d, Directory, rd_name d)) child_dirs @
                 map (\<lambda>e. (re_inode e, RegularFile, re_name e)) files;
               m1 = fold (register_file ino) files (fold (register_dir ino) child_dirs m)
           in (Inr (take room (drop (unat offset) entries)), m1, s1))
      | _ \<Rightarrow> (Inl ENOTDIR, m, s))"

section \<open>open, read and release\<close>

definition opened :: "file_inode \<Rightarrow> string \<Rightarrow> mosaic_fs \<Rightarrow> (errno + u64) \<times> mosaic_fs" where
  "opened file path m =
     (let (fh, m1) = alloc_fh m
      in (Inr fh, m1\<lparr>mf_open_files := (mf_open_files m1)(fh \<mapsto> (file, path))\<rparr>))"

definition fs_resolve ::
  "libs \<Rightarrow> cache_env \<Rightarrow> 's host \<Rightarrow> 's couch \<Rightarrow> file_inode \<Rightarrow> mosaic_fs \<Rightarrow> 's \<Rightarrow>
     cache_error + access_result \<times> mosaic_fs \<times> 's" where
  "fs_resolve lb env h db file m s =
     and_then (resolve_file lb env h db file (cf_node_id (mf_config m))
         (cf_watch_paths (mf_config m)) (cf_filesystems (mf_config m)) (mf_cache m) s)
       (\<lambda>(r, fc, s'). Inr (r, m\<lparr>mf_cache := fc\<rparr>, s'))"

text \<open>\<open>O_ACCMODE\<close> is 3 and \<open>O_RDONLY\<close> 0.\<close>

definition fs_open ::
  "libs \<Rightarrow> time \<Rightarrow> cache_env \<Rightarrow> 's host \<Rightarrow> 's couch \<Rightarrow> u64 \<Rightarrow> 32 word \<Rightarrow> mosaic_fs \<Rightarrow> 's \<Rightarrow>
     (errno + u64) \<times> mosaic_fs \<times> 's" where
  "fs_open lb now env h db ino flags m s =
     (if flags AND 3 \<noteq> 0 then (Inl EROFS, m, s)
      else
        (case get_inode (mf_inodes m) ino of
           Some (FileEntry file) \<Rightarrow>
             (let m0 = record_access now (fi_file_id file) m in
              case fs_resolve lb env h db file m0 s of
                Inl _ \<Rightarrow> (Inl PANIC, m0, s)
              | Inr (LocalPath path, m1, s1) \<Rightarrow>
                  (let (r, m2) = opened file path m1 in (r, m2, s1))
              | Inr (NotAccessible _, m1, s1) \<Rightarrow>
                  (case load_filesystems lb db (cf_node_id (mf_config m1)) s1 of
                     (Inl _, s2) \<Rightarrow> (Inl EIO, m1, s2)
                   | (Inr views, s2) \<Rightarrow>
                       (let m2 = m1\<lparr>mf_config := (mf_config m1)\<lparr>cf_filesystems := views\<rparr>\<rparr> in
                        case fs_resolve lb env h db file m2 s2 of
                          Inl _ \<Rightarrow> (Inl PANIC, m2, s2)
                        | Inr (LocalPath path, m3, s3) \<Rightarrow>
                            (let (r, m4) = opened file path m3 in (r, m4, s3))
                        | Inr (NotAccessible _, m3, s3) \<Rightarrow> (Inl EIO, m3, s3))))
         | _ \<Rightarrow> (Inl ENOENT, m, s)))"

text \<open>
  Reading the file behind a handle: opening it, seeking and one \<open>read\<close>, which may return
  fewer bytes than asked.
\<close>

record file_io =
  io_open :: "string \<Rightarrow> bool"
  io_seek :: "string \<Rightarrow> u64 \<Rightarrow> bool"
  io_read :: "string \<Rightarrow> u64 \<Rightarrow> nat \<Rightarrow> u8 list option"

definition fs_read ::
  "file_io \<Rightarrow> mosaic_fs \<Rightarrow> u64 \<Rightarrow> u64 \<Rightarrow> 32 word \<Rightarrow> errno + u8 list" where
  "fs_read io m fh offset sz =
     (case mf_open_files m fh of
        None \<Rightarrow> Inl EBADF
      | Some (_, path) \<Rightarrow>
          if \<not> io_open io path then Inl EIO
          else if \<not> io_seek io path offset then Inl EIO
          else (case io_read io path offset (unat sz) of
                  Some data \<Rightarrow> Inr data
                | None \<Rightarrow> Inl EIO))"

definition fs_release :: "u64 \<Rightarrow> mosaic_fs \<Rightarrow> mosaic_fs" where
  "fs_release fh m = m\<lparr>mf_open_files := (mf_open_files m)(fh := None)\<rparr>"

section \<open>Handles\<close>

text \<open>Every open handle was allocated: it is below the next one.\<close>

definition handles_ok :: "mosaic_fs \<Rightarrow> bool" where
  "handles_ok m \<longleftrightarrow> (\<forall>h \<in> dom (mf_open_files m). h < mf_next_fh m)"

definition same_handles :: "mosaic_fs \<Rightarrow> mosaic_fs \<Rightarrow> bool" where
  "same_handles m m' \<longleftrightarrow>
     mf_open_files m' = mf_open_files m \<and> mf_next_fh m' = mf_next_fh m \<and>
     mf_inodes m' = mf_inodes m"

lemma same_handles_trans: "same_handles m m1 \<Longrightarrow> same_handles m1 m2 \<Longrightarrow> same_handles m m2"
  by (simp add: same_handles_def)

lemma same_handles_record: "same_handles m (record_access now i m)"
  by (simp add: record_access_def same_handles_def split: option.split)

lemma same_handles_resolve:
  "fs_resolve lb env h db file m s = Inr (r, m', s') \<Longrightarrow> same_handles m m'"
  by (auto simp: fs_resolve_def and_then_Inr same_handles_def)

definition handle_added :: "mosaic_fs \<Rightarrow> file_inode \<Rightarrow> string \<Rightarrow> mosaic_fs \<Rightarrow> bool" where
  "handle_added m f path m' \<longleftrightarrow>
     mf_open_files m' = (mf_open_files m)(mf_next_fh m \<mapsto> (f, path)) \<and>
     mf_next_fh m' = mf_next_fh m + 1 \<and> mf_inodes m' = mf_inodes m"

lemma opened_result:
  "same_handles m m1 \<Longrightarrow> opened f path m1 = (r, m') \<Longrightarrow>
     r = Inr (mf_next_fh m) \<and> handle_added m f path m'"
  by (auto simp: opened_def alloc_fh_def handle_added_def same_handles_def)

text \<open>An open either fails and leaves the handles alone or adds the next one for the file.\<close>

lemma fs_open_result:
  assumes run: "fs_open lb now env h db ino flags m s = (r, m', s')"
  shows "(\<exists>e. r = Inl e) \<and> same_handles m m' \<or>
    r = Inr (mf_next_fh m) \<and> flags AND 3 = 0 \<and>
      (\<exists>f path. get_inode (mf_inodes m) ino = Some (FileEntry f) \<and> handle_added m f path m')"
proof (cases "flags AND 3 = 0 \<and> (\<exists>f. get_inode (mf_inodes m) ino = Some (FileEntry f))")
  case False
  with run show ?thesis
    by (auto simp: fs_open_def same_handles_def split: option.splits inode_entry.splits if_splits)
next
  case True
  then obtain f where flags: "flags AND 3 = 0"
    and f: "get_inode (mf_inodes m) ino = Some (FileEntry f)" by blast
  let ?m0 = "record_access now (fi_file_id f) m"
  have h0: "same_handles m ?m0" by (rule same_handles_record)
  show ?thesis
  proof (cases "fs_resolve lb env h db f ?m0 s")
    case (Inl e)
    with run flags f h0 show ?thesis by (auto simp: fs_open_def)
  next
    case (Inr x)
    then obtain ar m1 s1 where x: "fs_resolve lb env h db f ?m0 s = Inr (ar, m1, s1)"
      by (cases x) auto
    from same_handles_trans [OF h0 same_handles_resolve [OF x]]
    have h1: "same_handles m m1" .
    show ?thesis
    proof (cases ar)
      case (LocalPath path)
      with run flags f x obtain r2 m2 where "opened f path m1 = (r2, m2)" "r = r2" "m' = m2"
        by (auto simp: fs_open_def split: prod.splits)
      with opened_result [OF h1] flags f show ?thesis by blast
    next
      case (NotAccessible msg)
      obtain v s2 where v: "load_filesystems lb db (cf_node_id (mf_config m1)) s1 = (v, s2)"
        by fastforce
      show ?thesis
      proof (cases v)
        case (Inl e)
        with run flags f x NotAccessible v h1 show ?thesis by (auto simp: fs_open_def)
      next
        case views: (Inr views)
        let ?m2 = "m1\<lparr>mf_config := (mf_config m1)\<lparr>cf_filesystems := views\<rparr>\<rparr>"
        have h2: "same_handles m ?m2" using h1 by (simp add: same_handles_def)
        show ?thesis
        proof (cases "fs_resolve lb env h db f ?m2 s2")
          case (Inl e)
          with run flags f x NotAccessible v views h2 show ?thesis by (auto simp: fs_open_def)
        next
          case (Inr y)
          then obtain ar2 m3 s3 where y: "fs_resolve lb env h db f ?m2 s2 = Inr (ar2, m3, s3)"
            by (cases y) auto
          from same_handles_trans [OF h2 same_handles_resolve [OF y]]
          have h3: "same_handles m m3" .
          show ?thesis
          proof (cases ar2)
            case (LocalPath path)
            with run flags f x NotAccessible v views y obtain r2 m4
              where "opened f path m3 = (r2, m4)" "r = r2" "m' = m4"
              by (auto simp: fs_open_def split: prod.splits)
            with opened_result [OF h3] flags f show ?thesis by blast
          next
            case (NotAccessible msg2)
            with run flags f x \<open>ar = NotAccessible msg\<close> v views y h3 show ?thesis
              by (auto simp: fs_open_def)
          qed
        qed
      qed
    qed
  qed
qed

section \<open>Runs\<close>

text \<open>
  The states a mounted file system reaches by its callbacks, with the number of handles it
  has given out. The clock, the machine and the database may change between callbacks.
\<close>

inductive fuse_run :: "libs \<Rightarrow> 's couch \<Rightarrow> nat \<Rightarrow> mosaic_fs \<Rightarrow> bool" for lb db where
  start: "new_fs env config rows files = Inr m \<Longrightarrow> fuse_run lb db 0 m"
| load: "fuse_run lb db n m \<Longrightarrow> load_directories db m s = (r, s') \<Longrightarrow> r = Inr m' \<Longrightarrow>
    fuse_run lb db n m'"
| readdir: "fuse_run lb db n m \<Longrightarrow> fs_readdir lb now db ino offset room m s = (r, m', s') \<Longrightarrow>
    fuse_run lb db n m'"
| opened: "fuse_run lb db n m \<Longrightarrow> fs_open lb now env h db ino flags m s = (Inr fh, m', s') \<Longrightarrow>
    fuse_run lb db (Suc n) m'"
| refused: "fuse_run lb db n m \<Longrightarrow> fs_open lb now env h db ino flags m s = (Inl e, m', s') \<Longrightarrow>
    fuse_run lb db n m'"
| release: "fuse_run lb db n m \<Longrightarrow> fuse_run lb db n (fs_release fh m)"

definition inodes_keyed :: "mosaic_fs \<Rightarrow> bool" where
  "inodes_keyed m \<longleftrightarrow> keyed entry_inode (by_inode (mf_inodes m))"

lemma load_directory_keyed:
  "keyed entry_inode (by_inode t) \<Longrightarrow> keyed entry_inode (by_inode (load_directory doc t))"
  by (simp add: load_directory_def insert_dir_def keyed_update Let_def)

lemma fold_load_keyed:
  "keyed entry_inode (by_inode t) \<Longrightarrow>
     keyed entry_inode (by_inode (fold load_directory docs t))"
  by (induction docs arbitrary: t) (simp_all add: load_directory_keyed)

lemma register_keyed:
  "inodes_keyed m \<Longrightarrow> inodes_keyed (register_dir ino d m)"
  "inodes_keyed m \<Longrightarrow> inodes_keyed (register_file ino e m)"
  by (simp_all add: inodes_keyed_def register_dir_def register_file_def insert_dir_def
      insert_file_def file_inode_of_def keyed_update)

lemma register_handles:
  "mf_open_files (register_dir ino d m) = mf_open_files m"
  "mf_next_fh (register_dir ino d m) = mf_next_fh m"
  "mf_open_files (register_file ino e m) = mf_open_files m"
  "mf_next_fh (register_file ino e m) = mf_next_fh m"
  by (simp_all add: register_dir_def register_file_def)

lemma fold_register:
  "inodes_keyed m \<Longrightarrow> inodes_keyed (fold (register_dir ino) ds m)"
  "inodes_keyed m \<Longrightarrow> inodes_keyed (fold (register_file ino) es m)"
  "mf_open_files (fold (register_dir ino) ds m) = mf_open_files m"
  "mf_next_fh (fold (register_dir ino) ds m) = mf_next_fh m"
  "mf_open_files (fold (register_file ino) es m) = mf_open_files m"
  "mf_next_fh (fold (register_file ino) es m) = mf_next_fh m"
proof -
  show "inodes_keyed m \<Longrightarrow> inodes_keyed (fold (register_dir ino) ds m)"
    by (induction ds arbitrary: m) (simp_all add: register_keyed)
  show "inodes_keyed m \<Longrightarrow> inodes_keyed (fold (register_file ino) es m)"
    by (induction es arbitrary: m) (simp_all add: register_keyed)
  show "mf_open_files (fold (register_dir ino) ds m) = mf_open_files m"
    "mf_next_fh (fold (register_dir ino) ds m) = mf_next_fh m"
    by (induction ds arbitrary: m) (simp_all add: register_handles)
  show "mf_open_files (fold (register_file ino) es m) = mf_open_files m"
    "mf_next_fh (fold (register_file ino) es m) = mf_next_fh m"
    by (induction es arbitrary: m) (simp_all add: register_handles)
qed

lemma fs_readdir_state:
  assumes "fs_readdir lb now db ino offset room m s = (r, m', s')"
  shows "(r = Inl ENOTDIR \<and> m' = m) \<or>
    (\<exists>d files child_dirs s1. get_inode (mf_inodes m) ino = Some (DirEntry d) \<and>
       dir_contents lb now db (di_virtual_path d) s = ((files, child_dirs), s1) \<and>
       m' = fold (register_file ino) files (fold (register_dir ino) child_dirs m) \<and>
       r = Inr (take room (drop (unat offset)
         ([(ino, Directory, ''.''), (ino, Directory, ''..'')] @
          map (\<lambda>d. (rd_inode d, Directory, rd_name d)) child_dirs @
          map (\<lambda>e. (re_inode e, RegularFile, re_name e)) files))))"
  using assms
  by (auto simp: fs_readdir_def Let_def split: option.splits inode_entry.splits prod.splits)

lemma fuse_run_keyed: "fuse_run lb db n m \<Longrightarrow> inodes_keyed m"
proof (induction rule: fuse_run.induct)
  case (start env config rows files m)
  then have "mf_inodes m = new_table" by (auto simp: new_fs_def and_then_Inr)
  then show ?case by (simp add: inodes_keyed_def new_table_def root_dir_def keyed_def)
next
  case (load n m s r s' m')
  then show ?case
    by (auto simp: load_directories_def inodes_keyed_def fold_load_keyed split: prod.splits sum.splits)
next
  case (readdir n m now ino offset room s r m' s')
  from fs_readdir_state [OF readdir.hyps(2)] readdir.IH show ?case
    by (auto simp: fold_register)
next
  case (opened n m now env h ino flags s fh m' s')
  from fs_open_result [OF opened.hyps(2)] opened.IH show ?case
    by (auto simp: inodes_keyed_def handle_added_def)
next
  case (refused n m now env h ino flags s e m' s')
  from fs_open_result [OF refused.hyps(2)] refused.IH show ?case
    by (auto simp: inodes_keyed_def same_handles_def)
next
  case (release n m fh)
  then show ?case by (simp add: inodes_keyed_def fs_release_def)
qed

lemma handles_ok_added:
  assumes "handles_ok m" "handle_added m f path m'" "unat (mf_next_fh m) = Suc n" "Suc n < 2 ^ 64 - 1"
  shows "handles_ok m' \<and> unat (mf_next_fh m') = Suc (Suc n)"
proof -
  have next_fh: "unat (mf_next_fh m + 1) = Suc (Suc n)"
    using assms(3,4) by (simp add: unat_word_ariths)
  then have "mf_next_fh m < mf_next_fh m + 1"
    using assms(3) by (simp add: word_less_nat_alt)
  with assms(1,2) next_fh show ?thesis
    by (auto simp: handles_ok_def handle_added_def dom_def split: if_splits intro: less_trans)
qed

lemma fuse_run_handles:
  "fuse_run lb db n m \<Longrightarrow> n < 2 ^ 64 - 2 \<Longrightarrow> handles_ok m \<and> unat (mf_next_fh m) = Suc n"
proof (induction rule: fuse_run.induct)
  case (start env config rows files m)
  then show ?case by (auto simp: new_fs_def and_then_Inr handles_ok_def)
next
  case (load n m s r s' m')
  then show ?case
    by (auto simp: load_directories_def handles_ok_def split: prod.splits sum.splits)
next
  case (readdir n m now ino offset room s r m' s')
  from fs_readdir_state [OF readdir.hyps(2)] readdir.IH readdir.prems show ?case
    by (auto simp: handles_ok_def fold_register)
next
  case (opened n m now env h ino flags s fh m' s')
  then have n: "n < 2 ^ 64 - 2" and "Suc n < 2 ^ 64 - 1" by simp_all
  with fs_open_result [OF opened.hyps(2)] opened.IH [OF n] show ?case
    using handles_ok_added by blast
next
  case (refused n m now env h ino flags s e m' s')
  from fs_open_result [OF refused.hyps(2)] refused.IH refused.prems show ?case
    by (auto simp: handles_ok_def same_handles_def)
next
  case (release n m fh)
  then show ?case by (auto simp: handles_ok_def fs_release_def split: if_splits)
qed

section \<open>Listing and lookup\<close>

lemma register_file_finds:
  assumes "distinct (map re_name es)" "e \<in> set es"
  shows "mf_dir_children (fold (register_file ino) es m) (ino, re_name e) = Some (re_inode e)"
  using assms
proof (induction es arbitrary: m)
  case Nil
  then show ?case by simp
next
  case (Cons x xs)
  have keep: "mf_dir_children (fold (register_file ino) ys m') (ino, k) = mf_dir_children m' (ino, k)"
    if "k \<notin> re_name ` set ys" for ys m' k
    using that by (induction ys arbitrary: m') (simp_all add: register_file_def)
  show ?case
  proof (cases "e = x")
    case True
    then have "re_name e \<notin> re_name ` set xs" using Cons.prems(1) by simp
    with True show ?thesis by (simp add: keep) (simp add: register_file_def)
  next
    case False
    with Cons show ?thesis by simp
  qed
qed

lemma get_inode_mono:
  "get_inode t i \<noteq> None \<Longrightarrow> get_inode (snd (insert_file f t)) i \<noteq> None"
  by (simp add: get_inode_def insert_file_def update_conv')

lemma register_file_known:
  "e \<in> set es \<Longrightarrow> get_inode (mf_inodes (fold (register_file ino) es m)) (re_inode e) \<noteq> None"
proof (induction es arbitrary: m)
  case Nil
  then show ?case by simp
next
  case (Cons x xs)
  have keep: "get_inode (mf_inodes m') i \<noteq> None \<Longrightarrow>
      get_inode (mf_inodes (fold (register_file ino) ys m')) i \<noteq> None" for ys m' i
  proof (induction ys arbitrary: m')
    case Nil
    then show ?case by simp
  next
    case (Cons y ys)
    from Cons.prems have "get_inode (mf_inodes (register_file ino y m')) i \<noteq> None"
      using get_inode_mono by (simp only: register_file_def) simp
    with Cons.IH show ?case by simp
  qed
  have "get_inode (mf_inodes (register_file ino x m)) (re_inode x) \<noteq> None"
    by (simp add: register_file_def insert_file_def file_inode_of_def get_inode_def update_conv')
  with Cons keep show ?case by auto
qed

lemma entry_attr_ino: "entry_inode e = i \<Longrightarrow> at_ino (entry_attr now i e) = i"
  by (cases e) (simp_all add: entry_attr_def make_dir_attr_def make_file_attr_def)

lemma dir_contents_names:
  assumes "dir_contents lb now db vp s = ((files, dirs), s')"
  shows "distinct (map re_name files)"
proof -
  obtain doc s1 where d: "db_get db (dir_id_for lb vp) s = (doc, s1)" by fastforce
  obtain inh s2 where i: "collect_inherited_steps lb db vp s1 = (inh, s2)" by fastforce
  obtain ds s3 where p: "db_prefix db ''dir::'' s2 = (ds, s3)" by fastforce
  from assms d i p obtain ms cd r s4 where
    "evaluate_readdir lb now db ms (unwrap_or (ok inh) []) cd
       (vfs_step_context empty_vfs_context) (\<lambda>_. []) s3 = (r, s4)"
    "files = unwrap_or (ok r) []"
    by (auto simp: dir_contents_def Let_def split: prod.splits)
  then show ?thesis
    by (cases r) (auto dest!: evaluate_readdir_names simp: strict_sorted_iff)
qed

lemma fs_readdir_Inr:
  assumes "fs_readdir lb now db ino offset room m s = (Inr es, m', s')"
  obtains d :: dir_inode and files dirs s1 where
    "dir_contents lb now db (di_virtual_path d) s = ((files, dirs), s1)"
    "m' = fold (register_file ino) files (fold (register_dir ino) dirs m)"
    "es = take room (drop (unat offset)
      ([(ino, Directory, ''.''), (ino, Directory, ''..'')] @
       map (\<lambda>d. (rd_inode d, Directory, rd_name d)) dirs @
       map (\<lambda>e. (re_inode e, RegularFile, re_name e)) files))"
  using fs_readdir_state [OF assms]
proof (elim disjE exE conjE)
  fix d :: dir_inode and files dirs s1
  assume a: "dir_contents lb now db (di_virtual_path d) s = ((files, dirs), s1)"
    "m' = fold (register_file ino) files (fold (register_dir ino) dirs m)"
    "Inr es = Inr (take room (drop (unat offset)
      ([(ino, Directory, ''.''), (ino, Directory, ''..'')] @
       map (\<lambda>d. (rd_inode d, Directory, rd_name d)) dirs @
       map (\<lambda>e. (re_inode e, RegularFile, re_name e)) files)))"
  show thesis by (rule that [OF a(1,2)]) (use a(3) in \<open>simp only: sum.inject\<close>)
qed simp

section \<open>Properties\<close>

text \<open>A mounted file system whose root has the sample mount, before and after a listing.\<close>

definition sample_config :: fuse_config where
  "sample_config = default_config\<lparr>cf_node_id := ''n'', cf_watch_paths := [''/d'']\<rparr>"

definition sample_start :: mosaic_fs where
  "sample_start =
     \<lparr>mf_config = sample_config, mf_inodes = new_table,
      mf_cache = \<lparr>fc_dir = cf_cache_dir sample_config, fc_rows = [], fc_files = []\<rparr>,
      mf_dir_children = Map.empty, mf_open_files = Map.empty, mf_next_fh = 1,
      mf_access_tracker = Map.empty\<rparr>"

definition sample_tree :: store where
  "sample_tree =
     (''dir::root'', JObj [(''mounts'', JArr [mount_entry_to_json sample_mount])]) # sample_store"

definition sample_listed :: mosaic_fs where
  "sample_listed = fst (snd (fs_readdir sample_libs 0 sample_couch 1 0 10 sample_start sample_tree))"

lemma sample_readdir:
  "\<exists>s'. fs_readdir sample_libs 0 sample_couch 1 0 10 sample_start sample_tree =
     (Inr [(1, Directory, ''.''), (1, Directory, ''..''), (1000, RegularFile, ''a.txt'')],
      sample_listed, s')"
proof -
  have "fst (fs_readdir sample_libs 0 sample_couch 1 0 10 sample_start sample_tree) =
      Inr [(1, Directory, ''.''), (1, Directory, ''..''), (1000, RegularFile, ''a.txt'')]"
    by code_simp
  then show ?thesis by (metis sample_listed_def prod.collapse)
qed

lemma sample_run_start: "fuse_run sample_libs sample_couch 0 sample_start"
  by (rule start [of sample_env sample_config "[]" "[]"])
    (simp add: new_fs_def open_cache_def sample_env_def sample_start_def)

lemma sample_run: "fuse_run sample_libs sample_couch 0 sample_listed"
  using sample_readdir readdir [OF sample_run_start] by blast

text \<open>
  Where the path of a handle comes from: the resolution of the opened file with the views at hand, or, when it finds
  no place, a second one with the views the database holds now.
\<close>

definition resolves_to ::
  "libs \<Rightarrow> cache_env \<Rightarrow> 's host \<Rightarrow> 's couch \<Rightarrow> mosaic_fs \<Rightarrow> 's \<Rightarrow> file_inode \<Rightarrow> string \<Rightarrow> bool" where
  "resolves_to lb env h db m s f path \<longleftrightarrow>
     (let find = resolve_file lb env h db f (cf_node_id (mf_config m)) (cf_watch_paths (mf_config m)) in
      (\<exists>fc s1. find (cf_filesystems (mf_config m)) (mf_cache m) s = Inr (LocalPath path, fc, s1)) \<or>
      (\<exists>msg fc s1 views s2 fc' s3. find (cf_filesystems (mf_config m)) (mf_cache m) s = Inr (NotAccessible msg, fc, s1) \<and>
         load_filesystems lb db (cf_node_id (mf_config m)) s1 = (Inr views, s2) \<and>
         find views fc s2 = Inr (LocalPath path, fc', s3)))"

lemma record_access_keeps:
  "mf_config (record_access now i m) = mf_config m" "mf_cache (record_access now i m) = mf_cache m"
  by (simp_all add: record_access_def split: option.split)

lemma fs_open_path:
  assumes run: "fs_open lb now env h db ino flags m s = (Inr fh, m', s')"
    and f: "get_inode (mf_inodes m) ino = Some (FileEntry f)"
  shows "\<exists>path. mf_open_files m' fh = Some (f, path) \<and> resolves_to lb env h db m s f path"
proof -
  let ?m0 = "record_access now (fi_file_id f) m"
  have flags: "flags AND 3 = 0" using run by (auto simp: fs_open_def split: if_splits)
  obtain ar m1 s1 where x: "fs_resolve lb env h db f ?m0 s = Inr (ar, m1, s1)"
    using run f flags by (cases "fs_resolve lb env h db f ?m0 s") (auto simp: fs_open_def)
  then obtain fc where first: "resolve_file lb env h db f (cf_node_id (mf_config m)) (cf_watch_paths (mf_config m))
      (cf_filesystems (mf_config m)) (mf_cache m) s = Inr (ar, fc, s1)" and m1: "m1 = ?m0\<lparr>mf_cache := fc\<rparr>"
    by (auto simp: fs_resolve_def and_then_Inr record_access_keeps)
  have added: "mf_open_files m2 fh2 = Some (f, path)" if "opened f path m1 = (Inr fh2, m2)" for path m1 m2 fh2
    using that by (auto simp: opened_def alloc_fh_def)
  show ?thesis
  proof (cases ar)
    case (LocalPath path)
    with run flags f x obtain m2 where "opened f path m1 = (Inr fh, m2)" "m' = m2"
      by (auto simp: fs_open_def split: prod.splits)
    with added first LocalPath show ?thesis unfolding resolves_to_def Let_def by blast
  next
    case (NotAccessible msg)
    obtain v s2 where v: "load_filesystems lb db (cf_node_id (mf_config m1)) s1 = (v, s2)" by fastforce
    then obtain views where views: "v = Inr views"
      using run flags f x NotAccessible by (cases v) (auto simp: fs_open_def)
    let ?m2 = "m1\<lparr>mf_config := (mf_config m1)\<lparr>cf_filesystems := views\<rparr>\<rparr>"
    obtain ar2 m3 s3 where y: "fs_resolve lb env h db f ?m2 s2 = Inr (ar2, m3, s3)"
      using run flags f x NotAccessible v views
      by (cases "fs_resolve lb env h db f ?m2 s2") (auto simp: fs_open_def)
    then obtain fc' where second: "resolve_file lb env h db f (cf_node_id (mf_config m))
        (cf_watch_paths (mf_config m)) views fc s2 = Inr (ar2, fc', s3)"
      by (auto simp: fs_resolve_def and_then_Inr m1 record_access_keeps)
    from run flags f x NotAccessible v views y obtain path m4 where
      "ar2 = LocalPath path" "opened f path m3 = (Inr fh, m4)" "m' = m4"
      by (cases ar2) (auto simp: fs_open_def split: prod.splits)
    with added first NotAccessible second v views show ?thesis
      unfolding resolves_to_def Let_def m1 by (auto simp: record_access_keeps)
  qed
qed

text \<open>C11: a file handle the file system returns was not open before, the open asked for reading only and
  named a file, and reading through the handle reads a path that the resolution of that very file gave, from the
  views of the file system at the open or, when it found no place with them, from those the database holds
  at the open; once released the handle is
  refused, and the other handles are untouched. This holds in every state reached with fewer than
  \<open>2 ^ 64 - 2\<close> opens, the point where the counter would wrap.\<close>

theorem handle_lifecycle:
  assumes "fuse_run lb db n m" "n < 2 ^ 64 - 2"
    and "fs_open lb now env h db ino flags m s = (Inr fh, m', s')"
  shows "mf_open_files m fh = None \<and> flags AND 3 = 0 \<and>
    (\<exists>f path. get_inode (mf_inodes m) ino = Some (FileEntry f) \<and>
       resolves_to lb env h db m s f path \<and>
       mf_open_files m' = (mf_open_files m)(fh \<mapsto> (f, path)) \<and>
       fs_read io m' fh offset sz =
         (if io_open io path \<and> io_seek io path offset
          then (case io_read io path offset (unat sz) of Some d \<Rightarrow> Inr d | None \<Rightarrow> Inl EIO)
          else Inl EIO)) \<and>
    fs_read io (fs_release fh m') fh offset sz = Inl EBADF \<and>
    mf_open_files (fs_release fh m') = mf_open_files m"
proof -
  from fuse_run_handles [OF assms(1,2)] have ok: "handles_ok m" by simp
  from fs_open_result [OF assms(3)] obtain f path where
    fh: "fh = mf_next_fh m" "flags AND 3 = 0" "get_inode (mf_inodes m) ino = Some (FileEntry f)"
    and m': "handle_added m f path m'" by auto
  from fs_open_path [OF assms(3) fh(3)] m' fh(1) have "resolves_to lb env h db m s f path"
    by (auto simp: handle_added_def)
  moreover have new: "mf_open_files m fh = None"
    using ok unfolding handles_ok_def fh(1) by (metis domIff less_irrefl)
  ultimately show ?thesis
    using fh m' by (auto simp: handle_added_def fs_read_def fs_release_def fun_eq_iff)
qed

theorem handle_lifecycle_witness:
  "\<exists>m' s' f path. fs_open sample_libs 5 sample_env sample_host sample_couch 1000 0 sample_listed
       sample_tree = (Inr 1, m', s') \<and>
     resolves_to sample_libs sample_env sample_host sample_couch sample_listed sample_tree f path \<and>
     mf_open_files m' 1 = Some (f, path) \<and>
     fs_read \<lparr>io_open = \<lambda>_. True, io_seek = \<lambda>_ _. True, io_read = \<lambda>_ _ _. Some []\<rparr>
       (fs_release 1 m') 1 0 16 = Inl EBADF"
proof -
  have "fst (fs_open sample_libs 5 sample_env sample_host sample_couch 1000 0 sample_listed
       sample_tree) = Inr 1"
    by code_simp
  then obtain m' s' where run: "fs_open sample_libs 5 sample_env sample_host sample_couch 1000 0
       sample_listed sample_tree = (Inr 1, m', s')"
    by (metis prod.collapse)
  from handle_lifecycle [OF sample_run _ run,
      of "\<lparr>io_open = \<lambda>_. True, io_seek = \<lambda>_ _. True, io_read = \<lambda>_ _ _. Some []\<rparr>" 0 16] run
  show ?thesis by auto
qed

text \<open>After a directory is listed, looking up any file name of the reply in that directory succeeds
  and returns the inode number that was listed for it.\<close>

lemma readdir_then_lookup:
  assumes "fuse_run lb db n m"
    and "fs_readdir lb now db ino offset room m s = (Inr es, m', s')"
    and "(i, RegularFile, name) \<in> set es"
  shows "\<exists>a. fs_lookup now' m' ino (Some name) = Inr a \<and> at_ino a = i"
proof -
  from assms(2) obtain d :: dir_inode and files dirs s1 where
    contents: "dir_contents lb now db (di_virtual_path d) s = ((files, dirs), s1)"
    and m': "m' = fold (register_file ino) files (fold (register_dir ino) dirs m)"
    and es: "es = take room (drop (unat offset)
      ([(ino, Directory, ''.''), (ino, Directory, ''..'')] @
       map (\<lambda>d. (rd_inode d, Directory, rd_name d)) dirs @
       map (\<lambda>e. (re_inode e, RegularFile, re_name e)) files))"
    by (rule fs_readdir_Inr)
  from assms(3) obtain e where e: "e \<in> set files" "i = re_inode e" "name = re_name e"
    by (auto simp: es dest!: in_set_takeD in_set_dropD)
  have child: "mf_dir_children m' (ino, name) = Some i"
    using register_file_finds [OF dir_contents_names [OF contents] e(1)] by (simp add: m' e)
  obtain x where x: "get_inode (mf_inodes m') i = Some x"
    using register_file_known [OF e(1)] by (auto simp: m' e(2))
  have "inodes_keyed m'"
    using fuse_run_keyed [OF assms(1)] by (simp add: m' fold_register)
  then have "entry_inode x = i"
    using x by (auto simp: inodes_keyed_def get_inode_def dest: keyed_map_of)
  with child x show ?thesis by (simp add: fs_lookup_def entry_attr_ino)
qed

text \<open>The access tracker of a file moves only when an hour has passed since the recorded access, and
  no other file's entry changes.\<close>

lemma record_access_debounced:
  "mf_access_tracker (record_access now f m) f =
     (case mf_access_tracker m f of
        None \<Rightarrow> Some now
      | Some at \<Rightarrow> if now - at < 3600 * 1000000000 then Some at else Some now)"
proof -
  have hour: "num_hours d < 1 \<longleftrightarrow> d < 3600 * 1000000000" for d
  proof (cases "0 \<le> d")
    case True
    then show ?thesis by (simp add: num_hours_def trunc_div_nonneg) linarith
  next
    case False
    then have "num_hours d \<le> 0" by (simp add: num_hours_def trunc_div_def sgn_if)
    with False show ?thesis by simp
  qed
  show ?thesis by (simp add: record_access_def hour split: option.split)
qed

text \<open>The fallback of lookup does not look at the directory: any file of the inode table answers to its
  name in every directory that has neither a listed child nor a child directory of that
  name.\<close>

lemma lookup_ignores_directory:
  assumes "inodes_keyed m" "get_inode (mf_inodes m) i = Some (FileEntry f)"
    and "get_inode (mf_inodes m) other = Some (DirEntry d)"
    and "mf_dir_children m (other, fi_name f) = None"
    and "get_dir_by_path (mf_inodes m) (child_path (di_virtual_path d) (fi_name f)) = None"
  shows "\<exists>a. fs_lookup now m other (Some (fi_name f)) = Inr a \<and> at_kind a = RegularFile"
proof -
  have "(i, FileEntry f) \<in> set (by_inode (mf_inodes m))"
    using assms(2) by (simp add: get_inode_def map_of_SomeD)
  then obtain j where j: "file_named (fi_name f) (by_inode (mf_inodes m)) = Some j"
    by (cases "file_named (fi_name f) (by_inode (mf_inodes m))") (auto simp: file_named_None)
  from file_named_Some [OF j] obtain g where "(j, FileEntry g) \<in> set (by_inode (mf_inodes m))"
    by blast
  with assms(1) have "get_inode (mf_inodes m) j = Some (FileEntry g)"
    by (simp add: inodes_keyed_def keyed_def get_inode_def)
  with assms(3-5) j show ?thesis
    by (simp add: fs_lookup_def lookup_child_def get_dir_by_path_def entry_attr_def
        make_file_attr_def)
qed


section \<open>Mounting\<close>

datatype mount_option = RO | FSName string | AutoUnmount | AllowOther

datatype mount_error = MountIo string | MountCache cache_error | MountDb couch_error

definition mount_options :: "mount_option list" where
  "mount_options = [RO, FSName ''mosaicfs'', AutoUnmount, AllowOther]"

text \<open>
  \<open>mkdir\<close> and \<open>mount2\<close> give the message of their error; \<open>mount2\<close> serves the callbacks until the
  file system is unmounted. The result is the file system that was handed to it.
\<close>

definition mount ::
  "cache_env \<Rightarrow> (string \<Rightarrow> string option) \<Rightarrow> (mosaic_fs \<Rightarrow> string \<Rightarrow> mount_option list \<Rightarrow> string option) \<Rightarrow>
     's couch \<Rightarrow> fuse_config \<Rightarrow> cache_entry list \<Rightarrow> string list \<Rightarrow> 's \<Rightarrow> (mount_error + mosaic_fs) \<times> 's" where
  "mount env mkdir mount2 db config rows files s =
     (case mkdir (cf_mount_point config) of
        Some e \<Rightarrow> (Inl (MountIo e), s)
      | None \<Rightarrow>
          (case new_fs env config rows files of
             Inl e \<Rightarrow> (Inl (MountCache e), s)
           | Inr m \<Rightarrow>
               (case load_directories db m s of
                  (Inl e, s') \<Rightarrow> (Inl (MountDb e), s')
                | (Inr m', s') \<Rightarrow>
                    (case mount2 m' (cf_mount_point config) mount_options of
                       Some e \<Rightarrow> (Inl (MountIo e), s')
                     | None \<Rightarrow> (Inr m', s')))))"

text \<open>
  Every file system that is mounted is one of the runs above, without a handle given out, and it is
  mounted for reading only.
\<close>

lemma mount_reached:
  assumes "mount env mkdir mount2 db config rows files s = (Inr m, s')"
  shows "fuse_run lb db 0 m" and "mount2 m (cf_mount_point config) mount_options = None"
    and "RO \<in> set mount_options"
proof -
  from assms obtain m0 where new: "new_fs env config rows files = Inr m0"
    and load: "load_directories db m0 s = (Inr m, s')"
    and mounted: "mount2 m (cf_mount_point config) mount_options = None"
    by (auto simp: mount_def split: option.splits sum.splits prod.splits)
  from fuse_run.load [OF fuse_run.start [OF new] load refl] show "fuse_run lb db 0 m" .
  from mounted show "mount2 m (cf_mount_point config) mount_options = None" .
  show "RO \<in> set mount_options" by (simp add: mount_options_def)
qed

text \<open>It knows the inode and the path of every directory document that has both.\<close>

lemma load_directory_grows:
  "get_inode t i \<noteq> None \<Longrightarrow> get_inode (load_directory doc t) i \<noteq> None"
  "get_dir_by_path t p \<noteq> None \<Longrightarrow> get_dir_by_path (load_directory doc t) p \<noteq> None"
  by (auto simp: load_directory_def insert_dir_def get_inode_def get_dir_by_path_def update_conv' Let_def)

lemma fold_load_grows:
  "get_inode t i \<noteq> None \<Longrightarrow> get_inode (fold load_directory docs t) i \<noteq> None"
  "get_dir_by_path t p \<noteq> None \<Longrightarrow> get_dir_by_path (fold load_directory docs t) p \<noteq> None"
proof (induction docs arbitrary: t)
  case (Cons doc docs)
  { case 1 from Cons.IH(1) [OF load_directory_grows(1) [OF 1]] show ?case by simp }
  { case 2 from Cons.IH(2) [OF load_directory_grows(2) [OF 2]] show ?case by simp }
qed simp_all

lemma fold_load_knows:
  assumes "doc \<in> set docs" "jget ''inode'' doc = Some v" "as_u64 v = Some i" "0 < i"
    and "jget_str ''virtual_path'' doc = Some p" "p \<noteq> []"
  shows "get_inode (fold load_directory docs t) i \<noteq> None \<and> get_dir_by_path (fold load_directory docs t) p \<noteq> None"
proof -
  obtain before behind where docs: "docs = before @ doc # behind" using assms(1) by (meson split_list)
  let ?t = "load_directory doc (fold load_directory before t)"
  from assms(2-) have "get_inode ?t i \<noteq> None" "get_dir_by_path ?t p \<noteq> None"
    by (simp_all add: load_directory_def insert_dir_def get_inode_def get_dir_by_path_def update_conv' Let_def)
  with fold_load_grows show ?thesis by (simp add: docs)
qed

lemma mount_knows_directories:
  assumes "mount env mkdir mount2 db config rows files s = (Inr m, s')"
    and "db_prefix db ''dir::'' s = (Inr found, s1)" "doc \<in> set (row_docs found)"
    and "jget ''inode'' doc = Some v" "as_u64 v = Some i" "0 < i"
    and "jget_str ''virtual_path'' doc = Some p" "p \<noteq> []"
  shows "get_inode (mf_inodes m) i \<noteq> None \<and> get_dir_by_path (mf_inodes m) p \<noteq> None"
proof -
  from assms(1) obtain m0 where "load_directories db m0 s = (Inr m, s')"
    by (auto simp: mount_def split: option.splits sum.splits prod.splits)
  with assms(2) have "mf_inodes m = fold load_directory (row_docs found) (mf_inodes m0)"
    by (auto simp: load_directories_def)
  with fold_load_knows [OF assms(3-)] show ?thesis by simp
qed

text \<open>A mount that fails after the mount point was made leaves no callback to answer.\<close>

lemma mount_needs_database:
  assumes "mkdir (cf_mount_point config) = None" "new_fs env config rows files = Inr m0"
    "db_prefix db ''dir::'' s = (Inl e, s')"
  shows "mount env mkdir mount2 db config rows files s = (Inl (MountDb e), s')"
  using assms by (simp add: mount_def load_directories_def)

section \<open>The availability probe\<close>

text \<open>
  \<open>fuse_check.rs\<close>: a probe file system is mounted on a new directory and looked for in the mount table,
  \<open>pe_mounts\<close> the contents of \<open>/proc/mounts\<close> and \<open>pe_mount_output\<close> what the command \<open>mount\<close> prints.
\<close>

record probe_env =
  pe_tempdir :: "string option"
  pe_mount :: "string \<Rightarrow> mount_option list \<Rightarrow> bool"
  pe_mounts :: "string option"
  pe_mount_output :: "string option"

definition is_mounted :: "probe_env \<Rightarrow> string \<Rightarrow> bool" where
  "is_mounted env path =
     (case pe_mounts env of
        Some contents \<Rightarrow> contains_str path contents
      | None \<Rightarrow> (case pe_mount_output env of Some out \<Rightarrow> contains_str path out | None \<Rightarrow> False))"

definition probe_fuse :: "probe_env \<Rightarrow> bool" where
  "probe_fuse env =
     (case pe_tempdir env of
        None \<Rightarrow> False
      | Some dir \<Rightarrow> pe_mount env dir [RO, FSName ''mosaicfs_probe'', AutoUnmount] \<and> is_mounted env dir)"

definition fuse_available :: "probe_env \<Rightarrow> bool option \<Rightarrow> bool \<times> bool option" where
  "fuse_available env cell =
     (case cell of Some b \<Rightarrow> (b, cell) | None \<Rightarrow> (let b = probe_fuse env in (b, Some b)))"

text \<open>
  The probe runs once: every call of a run gives the answer of the first, although the machine may
  have changed between the calls.
\<close>

fun fuse_answers :: "probe_env list \<Rightarrow> bool option \<Rightarrow> bool list" where
  "fuse_answers [] cell = []"
| "fuse_answers (e # es) cell = (let (b, cell') = fuse_available e cell in b # fuse_answers es cell')"

lemma probed_once:
  "fuse_answers (e # es) None = replicate (Suc (length es)) (probe_fuse e)"
proof -
  have "fuse_answers es (Some b) = replicate (length es) b" for b
    by (induction es) (simp_all add: fuse_available_def)
  then show ?thesis by (simp add: fuse_available_def Let_def)
qed

end
