(* ===== verification/Watcher.thy ===== *)
theory Watcher
  imports Couch
begin

text \<open>
  The filesystem watcher thread of \<open>mosaicfs-vfs/src/watcher.rs\<close>: one function per part
  of the loop body (storm detection, the debounce map, rename pairs, the flush) and the body
  as a function of what the channel delivered and of the clock. Instants are in nanoseconds.
  The debounce map is an association list in iteration order; \<open>ws_sent\<close> are the events
  sent, oldest first. Also the start of the thread with the watches it registers, the end of its
  loop, and the connection monitor of \<open>reconciliation.rs\<close> with its probe.
\<close>

section \<open>State\<close>

datatype fs_event =
  Modified string
| Deleted string
| Renamed string string
| StormDetected

datatype modify_kind = Name | OtherModify

datatype event_kind = AnyEvent | Access | Create | Modify modify_kind | Remove | OtherEvent

record notify_event =
  ev_kind :: event_kind
  ev_paths :: "string list"

record watcher_config =
  wc_watch_paths :: "string list"
  wc_excluded_paths :: "string list"
  wc_debounce_ms :: u64
  wc_storm_threshold :: u64
  wc_storm_duration_secs :: u64

definition default_watcher_config :: watcher_config where
  "default_watcher_config =
     \<lparr>wc_watch_paths = [], wc_excluded_paths = [], wc_debounce_ms = 500,
      wc_storm_threshold = 1000, wc_storm_duration_secs = 5\<rparr>"

record watcher_state =
  ws_debounce :: "(string \<times> nat \<times> event_kind) list"
  ws_event_count :: u64
  ws_window_start :: nat
  ws_storm_seconds :: u64
  ws_sent :: "fs_event list"

definition start_state :: "nat \<Rightarrow> watcher_state" where
  "start_state now =
     \<lparr>ws_debounce = [], ws_event_count = 0, ws_window_start = now, ws_storm_seconds = 0,
      ws_sent = []\<rparr>"

datatype recv = Event notify_event | WatchError | Timeout

section \<open>The loop body\<close>

definition storm_window :: "watcher_config \<Rightarrow> u64 \<Rightarrow> u64 \<Rightarrow> bool \<times> u64" where
  "storm_window cfg rate storm_seconds =
     (if wc_storm_threshold cfg < rate then
        (if wc_storm_duration_secs cfg \<le> storm_seconds + 1 then (True, 0)
         else (False, storm_seconds + 1))
      else (False, 0))"

definition count_event :: "watcher_config \<Rightarrow> nat \<Rightarrow> watcher_state \<Rightarrow> watcher_state" where
  "count_event cfg now st =
     (let st1 = st\<lparr>ws_event_count := ws_event_count st + 1\<rparr> in
      if 1000000000 \<le> now - ws_window_start st1 then
        (let (storm, secs) = storm_window cfg (ws_event_count st1) (ws_storm_seconds st1)
         in st1\<lparr>ws_sent := ws_sent st1 @ (if storm then [StormDetected] else []),
               ws_storm_seconds := secs, ws_event_count := 0, ws_window_start := now\<rparr>)
      else st1)"

definition is_excluded :: "string \<Rightarrow> string list \<Rightarrow> bool" where
  "is_excluded path excluded \<longleftrightarrow> list_ex (path_starts_with path) excluded"

fun recorded :: "event_kind \<Rightarrow> bool" where
  "recorded Create = True"
| "recorded (Modify _) = True"
| "recorded Remove = True"
| "recorded Access = False"
| "recorded AnyEvent = False"
| "recorded OtherEvent = True"

definition record_path ::
  "watcher_config \<Rightarrow> nat \<Rightarrow> event_kind \<Rightarrow> string \<Rightarrow> watcher_state \<Rightarrow> watcher_state" where
  "record_path cfg now kind path st =
     (if is_excluded path (wc_excluded_paths cfg) then st
      else if recorded kind
      then st\<lparr>ws_debounce := AList.update path (now, kind) (ws_debounce st)\<rparr>
      else st)"

definition rename_pair :: "notify_event \<Rightarrow> watcher_state \<Rightarrow> watcher_state" where
  "rename_pair ev st =
     (case (ev_paths ev, ev_kind ev) of
        ([old, new], Modify Name) \<Rightarrow>
          st\<lparr>ws_debounce := AList.delete new (AList.delete old (ws_debounce st)),
             ws_sent := ws_sent st @ [Renamed old new]\<rparr>
      | _ \<Rightarrow> st)"

definition handle_event ::
  "watcher_config \<Rightarrow> nat \<Rightarrow> notify_event \<Rightarrow> watcher_state \<Rightarrow> watcher_state" where
  "handle_event cfg now ev st =
     rename_pair ev
       (fold (record_path cfg now (ev_kind ev)) (ev_paths ev) (count_event cfg now st))"

definition debounce_nanos :: "watcher_config \<Rightarrow> nat" where
  "debounce_nanos cfg = unat (wc_debounce_ms cfg) * 1000000"

fun change_of :: "string \<times> nat \<times> event_kind \<Rightarrow> fs_event" where
  "change_of (path, t, Remove) = Deleted path"
| "change_of (path, t, _) = Modified path"

definition ripe :: "watcher_config \<Rightarrow> nat \<Rightarrow> string \<times> nat \<times> event_kind \<Rightarrow> bool" where
  "ripe cfg now e \<longleftrightarrow> debounce_nanos cfg \<le> now - fst (snd e)"

definition flush :: "watcher_config \<Rightarrow> nat \<Rightarrow> watcher_state \<Rightarrow> watcher_state" where
  "flush cfg now st =
     (let flushed = filter (ripe cfg now) (ws_debounce st)
      in st\<lparr>ws_sent := ws_sent st @ map change_of flushed,
           ws_debounce := fold (\<lambda>e. AList.delete (fst e)) flushed (ws_debounce st)\<rparr>)"

definition watcher_step ::
  "watcher_config \<Rightarrow> recv \<times> nat \<times> nat \<Rightarrow> watcher_state \<Rightarrow> watcher_state" where
  "watcher_step cfg = (\<lambda>(r, received, flushed) st.
     flush cfg flushed
       (case r of
          Event ev \<Rightarrow> handle_event cfg received ev st
        | WatchError \<Rightarrow> st
        | Timeout \<Rightarrow> st))"

section \<open>Reconnection\<close>

record monitor_state =
  was_connected :: bool
  needs_reconciliation :: bool

definition monitor_tick :: "bool \<Rightarrow> monitor_state \<Rightarrow> monitor_state" where
  "monitor_tick connected st =
     \<lparr>was_connected = connected,
      needs_reconciliation =
        (needs_reconciliation st \<or> (\<not> was_connected st \<and> connected))\<rparr>"

definition check_and_reconcile :: "bool \<Rightarrow> bool \<times> bool" where
  "check_and_reconcile flag = (if flag then (True, False) else (False, flag))"

section \<open>Debouncing\<close>

definition debounce_ok :: "watcher_state \<Rightarrow> bool" where
  "debounce_ok st \<longleftrightarrow> distinct (map fst (ws_debounce st))"

fun paths_of :: "fs_event \<Rightarrow> string list" where
  "paths_of (Modified p) = [p]"
| "paths_of (Deleted p) = [p]"
| "paths_of (Renamed p q) = [p, q]"
| "paths_of StormDetected = []"

text \<open>The changes reported for one path, oldest first.\<close>

definition reported :: "string \<Rightarrow> watcher_state \<Rightarrow> fs_event list" where
  "reported p st = filter (\<lambda>e. p \<in> set (paths_of e)) (ws_sent st)"

lemma paths_of_change [simp]: "paths_of (change_of e) = [fst e]"
  by (cases e rule: change_of.cases) simp_all

lemma record_path_ok: "debounce_ok st \<Longrightarrow> debounce_ok (record_path cfg now k p st)"
  by (simp add: record_path_def debounce_ok_def distinct_update)

lemma fold_record_ok: "debounce_ok st \<Longrightarrow> debounce_ok (fold (record_path cfg now k) ps st)"
  by (induction ps arbitrary: st) (simp_all add: record_path_ok)

lemma count_event_frame:
  "ws_debounce (count_event cfg now st) = ws_debounce st"
  "reported p (count_event cfg now st) = reported p st"
  by (auto simp: count_event_def reported_def Let_def split: prod.split)

lemma distinct_delete: "distinct (map fst al) \<Longrightarrow> distinct (map fst (AList.delete k al))"
  by (simp add: AList.delete_eq distinct_map_filter)

lemma rename_pair_ok: "debounce_ok st \<Longrightarrow> debounce_ok (rename_pair ev st)"
  by (auto simp: rename_pair_def debounce_ok_def distinct_delete
      split: list.split event_kind.split modify_kind.split)

lemma flush_debounce:
  "ws_debounce (flush cfg now st) =
     filter (\<lambda>e. fst e \<notin> fst ` set (filter (ripe cfg now) (ws_debounce st))) (ws_debounce st)"
proof -
  have "fold (\<lambda>e. AList.delete (fst e)) es al = filter (\<lambda>e. fst e \<notin> fst ` set es) al"
    for es al :: "(string \<times> nat \<times> event_kind) list"
    by (induction es arbitrary: al) (auto simp: AList.delete_eq split_def intro!: filter_cong)
  then show ?thesis by (simp add: flush_def Let_def)
qed

lemma flush_debounce_distinct:
  assumes "debounce_ok st"
  shows "ws_debounce (flush cfg now st) = filter (\<lambda>e. \<not> ripe cfg now e) (ws_debounce st)"
  unfolding flush_debounce
proof (rule filter_cong [OF refl])
  fix e assume e: "e \<in> set (ws_debounce st)"
  have inj: "inj_on fst (set (ws_debounce st))"
    using assms by (simp add: debounce_ok_def distinct_map)
  with e show "(fst e \<notin> fst ` set (filter (ripe cfg now) (ws_debounce st))) = (\<not> ripe cfg now e)"
    by (auto simp: inj_on_def)
qed

lemma flush_ok: "debounce_ok st \<Longrightarrow> debounce_ok (flush cfg now st)"
  by (simp add: debounce_ok_def flush_debounce distinct_map_filter)

lemma handle_event_ok: "debounce_ok st \<Longrightarrow> debounce_ok (handle_event cfg now ev st)"
  unfolding handle_event_def
  by (intro rename_pair_ok fold_record_ok) (simp add: debounce_ok_def count_event_frame)

lemma watcher_step_ok: "debounce_ok st \<Longrightarrow> debounce_ok (watcher_step cfg x st)"
  by (auto simp: watcher_step_def split_def handle_event_ok intro!: flush_ok split: recv.split)

text \<open>An event that does not name a path leaves the path's pending change alone.\<close>

lemma record_path_other:
  "p \<noteq> q \<Longrightarrow> map_of (ws_debounce (record_path cfg now k q st)) p = map_of (ws_debounce st) p"
  by (simp add: record_path_def update_conv')

lemma record_path_sent: "ws_sent (record_path cfg now k q st) = ws_sent st"
  by (simp add: record_path_def)

lemma fold_record_other:
  "p \<notin> set ps \<Longrightarrow>
     map_of (ws_debounce (fold (record_path cfg now k) ps st)) p = map_of (ws_debounce st) p \<and>
     ws_sent (fold (record_path cfg now k) ps st) = ws_sent st"
  by (induction ps arbitrary: st) (auto simp: record_path_other record_path_sent)

lemma handle_event_other:
  assumes "p \<notin> set (ev_paths ev)"
  shows "map_of (ws_debounce (handle_event cfg now ev st)) p = map_of (ws_debounce st) p \<and>
    reported p (handle_event cfg now ev st) = reported p st"
  using assms fold_record_other [OF assms, of cfg now "ev_kind ev" "count_event cfg now st"]
  by (auto simp: handle_event_def rename_pair_def reported_def delete_conv' count_event_frame
      count_event_frame(2) [unfolded reported_def]
      split: list.split event_kind.split modify_kind.split)

lemma reported_flush:
  assumes "debounce_ok st"
  shows "reported p (flush cfg now st) = reported p st @
    (case map_of (ws_debounce st) p of
       Some v \<Rightarrow> if ripe cfg now (p, v) then [change_of (p, v)] else []
     | None \<Rightarrow> [])"
proof -
  have "filter (\<lambda>e. p \<in> set (paths_of e)) (map change_of (filter (ripe cfg now) al)) =
      (case map_of al p of
         Some v \<Rightarrow> if ripe cfg now (p, v) then [change_of (p, v)] else [] | None \<Rightarrow> [])"
    if "distinct (map fst al)" for al
    using that
  proof (induction al)
    case Nil
    then show ?case by simp
  next
    case (Cons e al)
    have "map_of al p = None" if "fst e = p"
      using Cons.prems that by (auto simp: map_of_eq_None_iff)
    with Cons show ?case by (cases e) (auto split: option.splits)
  qed
  with assms show ?thesis
    by (simp add: reported_def flush_def Let_def debounce_ok_def)
qed

lemma flush_pending:
  assumes "debounce_ok st"
  shows "map_of (ws_debounce (flush cfg now st)) p =
    (case map_of (ws_debounce st) p of
       Some v \<Rightarrow> if ripe cfg now (p, v) then None else Some v
     | None \<Rightarrow> None)"
proof -
  have "map_of (filter (\<lambda>e. \<not> ripe cfg now e) al) p =
      (case map_of al p of Some v \<Rightarrow> if ripe cfg now (p, v) then None else Some v | None \<Rightarrow> None)"
    if "distinct (map fst al)" for al
    using that
    by (induction al) (auto simp: map_of_eq_None_iff split: option.splits)
  with assms show ?thesis
    by (simp add: flush_debounce_distinct debounce_ok_def)
qed

text \<open>A pass of the loop in which the channel delivers nothing about a path.\<close>

fun silent_about :: "string \<Rightarrow> recv \<times> nat \<times> nat \<Rightarrow> bool" where
  "silent_about p (Event ev, _, _) = (p \<notin> set (ev_paths ev))"
| "silent_about p (_, _, _) = True"

lemma step_silent:
  assumes "debounce_ok st" "silent_about p (r, t1, t2)"
  shows "map_of (ws_debounce (watcher_step cfg (r, t1, t2) st)) p =
      (case map_of (ws_debounce st) p of
         Some v \<Rightarrow> if ripe cfg t2 (p, v) then None else Some v | None \<Rightarrow> None) \<and>
    reported p (watcher_step cfg (r, t1, t2) st) = reported p st @
      (case map_of (ws_debounce st) p of
         Some v \<Rightarrow> if ripe cfg t2 (p, v) then [change_of (p, v)] else [] | None \<Rightarrow> [])"
proof (cases r)
  case (Event ev)
  then have "p \<notin> set (ev_paths ev)" using assms(2) by simp
  from handle_event_other [OF this, of cfg t1 st] Event handle_event_ok [OF assms(1), of cfg t1 ev]
  show ?thesis by (simp add: watcher_step_def flush_pending reported_flush)
qed (use assms in \<open>simp_all add: watcher_step_def flush_pending reported_flush\<close>)

definition run_watcher ::
  "watcher_config \<Rightarrow> (recv \<times> nat \<times> nat) list \<Rightarrow> watcher_state \<Rightarrow> watcher_state" where
  "run_watcher cfg xs st = fold (watcher_step cfg) xs st"

lemma run_none:
  "debounce_ok st \<Longrightarrow> map_of (ws_debounce st) p = None \<Longrightarrow> list_all (silent_about p) xs \<Longrightarrow>
     reported p (run_watcher cfg xs st) = reported p st"
proof (induction xs arbitrary: st)
  case Nil
  then show ?case by (simp add: run_watcher_def)
next
  case (Cons x xs)
  obtain r t1 t2 where x: "x = (r, t1, t2)" by (cases x) auto
  from Cons.prems have "silent_about p (r, t1, t2)" by (simp add: x)
  note step = step_silent [OF Cons.prems(1) this, of cfg]
  with Cons.prems have "map_of (ws_debounce (watcher_step cfg x st)) p = None"
    "reported p (watcher_step cfg x st) = reported p st" by (simp_all add: x)
  with Cons.IH [OF watcher_step_ok [OF Cons.prems(1)], of cfg x] Cons.prems(3) show ?case
    by (simp add: run_watcher_def)
qed

section \<open>Storms\<close>

text \<open>How many of the last windows in a row were above the threshold.\<close>

fun hot_streak :: "watcher_config \<Rightarrow> u64 list \<Rightarrow> nat" where
  "hot_streak cfg [] = 0"
| "hot_streak cfg (r # rs) = (if wc_storm_threshold cfg < r then Suc (hot_streak cfg rs) else 0)"

text \<open>The windows of a run, the latest first, each with what \<open>storm_window\<close> answers.\<close>

fun storm_run :: "watcher_config \<Rightarrow> u64 list \<Rightarrow> bool \<times> u64" where
  "storm_run cfg [] = (False, 0)"
| "storm_run cfg (r # rs) = storm_window cfg r (snd (storm_run cfg rs))"

lemma storm_run_spec:
  assumes "0 < wc_storm_duration_secs cfg"
  shows "unat (snd (storm_run cfg rs)) = hot_streak cfg rs mod unat (wc_storm_duration_secs cfg) \<and>
    fst (storm_run cfg rs) =
      (0 < hot_streak cfg rs \<and> unat (wc_storm_duration_secs cfg) dvd hot_streak cfg rs)"
proof (induction rs)
  case Nil
  then show ?case by simp
next
  case (Cons r rs)
  let ?d = "unat (wc_storm_duration_secs cfg)" and ?s = "snd (storm_run cfg rs)"
  have d: "0 < ?d" using assms by (simp add: word_less_nat_alt)
  have lt: "unat ?s < ?d" using Cons d by simp
  have "unat (?s + 1) = Suc (unat ?s)"
    using lt unsigned_less [of "wc_storm_duration_secs cfg", where 'a = nat]
    by (simp add: unat_word_ariths)
  then have cmp: "wc_storm_duration_secs cfg \<le> ?s + 1 \<longleftrightarrow> Suc (unat ?s) = ?d"
    and suc: "unat (?s + 1) = Suc (unat ?s)"
    using lt by (auto simp: word_le_nat_alt)
  have modulo: "Suc (hot_streak cfg rs) mod ?d = (if Suc (unat ?s) = ?d then 0 else Suc (unat ?s))"
    using Cons by (simp add: mod_Suc)
  show ?case
    using modulo by (auto simp: storm_window_def cmp suc dvd_eq_mod_eq_0)
qed

section \<open>Properties\<close>

text \<open>A pending change is reported once, in the first pass that finds it old enough.\<close>

lemma pending_reported_once:
  assumes "debounce_ok st" "map_of (ws_debounce st) p = Some (t, kind)"
    and "list_all (silent_about p) (before @ (r, t1, t2) # after)"
    and "list_all (\<lambda>(_, _, tf). tf - t < debounce_nanos cfg) before"
    and "debounce_nanos cfg \<le> t2 - t"
  shows "reported p (run_watcher cfg before st) = reported p st \<and>
    reported p (run_watcher cfg (before @ (r, t1, t2) # after) st) =
      reported p st @ [if kind = Remove then Deleted p else Modified p]"
  using assms(1-4)
proof (induction before arbitrary: st)
  case Nil
  from Nil.prems(3) have "silent_about p (r, t1, t2)" by simp
  note step = step_silent [OF Nil.prems(1) this, of cfg]
  have "change_of (p, t, kind) = (if kind = Remove then Deleted p else Modified p)"
    by (cases kind) simp_all
  then have "map_of (ws_debounce (watcher_step cfg (r, t1, t2) st)) p = None"
    "reported p (watcher_step cfg (r, t1, t2) st) =
       reported p st @ [if kind = Remove then Deleted p else Modified p]"
    using step Nil.prems(2) assms(5) by (simp_all add: ripe_def)
  with run_none [OF watcher_step_ok [OF Nil.prems(1)], of cfg "(r, t1, t2)" p "after"] Nil.prems(3)
  show ?case by (simp add: run_watcher_def)
next
  case (Cons x before)
  obtain r' u1 u2 where x: "x = (r', u1, u2)" by (cases x) auto
  have "silent_about p (r', u1, u2)" using Cons.prems(3) by (simp add: x)
  note step = step_silent [OF Cons.prems(1) this, of cfg]
  have "\<not> ripe cfg u2 (p, t, kind)" using Cons.prems(4) by (simp add: x ripe_def)
  with step Cons.prems(2) have "map_of (ws_debounce (watcher_step cfg x st)) p = Some (t, kind)"
    "reported p (watcher_step cfg x st) = reported p st" by (simp_all add: x)
  with Cons.IH [OF watcher_step_ok [OF Cons.prems(1)], of cfg x] Cons.prems(3,4) show ?case
    by (simp add: run_watcher_def)
qed

lemma run_watcher_ok: "debounce_ok st \<Longrightarrow> debounce_ok (run_watcher cfg xs st)"
  by (induction xs arbitrary: st) (simp_all add: run_watcher_def watcher_step_ok)

lemma fold_record_pending:
  assumes "p \<in> set ps" "\<not> is_excluded p (wc_excluded_paths cfg)" "recorded kind"
  shows "map_of (ws_debounce (fold (record_path cfg now kind) ps st)) p = Some (now, kind)"
  using assms(1)
proof (induction ps rule: rev_induct)
  case Nil
  then show ?case by simp
next
  case (snoc q ps)
  then show ?case
    by (cases "q = p") (simp_all add: record_path_other, simp add: record_path_def assms update_conv')
qed

lemma fold_record_sent: "ws_sent (fold (record_path cfg now k) ps st) = ws_sent st"
  by (induction ps arbitrary: st) (simp_all add: record_path_sent)

text \<open>An event that names a path records it as pending, and reports nothing of it yet.\<close>

lemma handle_event_pending:
  assumes "p \<in> set (ev_paths ev)" "\<not> is_excluded p (wc_excluded_paths cfg)" "recorded (ev_kind ev)"
    and "\<not> (ev_kind ev = Modify Name \<and> length (ev_paths ev) = 2)"
  shows "map_of (ws_debounce (handle_event cfg now ev st)) p = Some (now, ev_kind ev) \<and>
    reported p (handle_event cfg now ev st) = reported p st"
proof -
  have "rename_pair ev st' = st'" for st'
    using assms(4) by (auto simp: rename_pair_def split: list.split event_kind.split modify_kind.split)
  moreover have "reported p (fold (record_path cfg now k) ps st') = reported p st'" for k ps st'
    by (simp add: reported_def fold_record_sent)
  ultimately show ?thesis
    by (simp add: handle_event_def fold_record_pending [OF assms(1-3)] count_event_frame)
qed

text \<open>C10: whatever the watcher has seen since its start, a creation, removal, modification or other change of a path
  that is below no excluded path is reported exactly once: as a deletion when it was a removal and as a modification
  otherwise, in the first pass of the loop that ends at least the configured milliseconds after the event, which
  may be the pass that received it; until then nothing is reported for the path (an earlier change of it that was
  still waiting is merged into this one), and nothing more afterwards while the path stays quiet. A rename that
  comes as one event with both paths is reported as such, at once.\<close>

theorem change_reported_once:
  assumes "p \<in> set (ev_paths ev)" "\<forall>x \<in> set (wc_excluded_paths cfg). \<not> path_starts_with p x"
    and "ev_kind ev \<in> {Create, Remove, OtherEvent, Modify Name, Modify OtherModify}"
    and "\<not> (ev_kind ev = Modify Name \<and> length (ev_paths ev) = 2)"
    and "waiting @ [ends] = (Event ev, t, tf) # quiet"
    and "\<forall>x \<in> set (quiet @ after). \<forall>e u v. x = (Event e, u, v) \<longrightarrow> p \<notin> set (ev_paths e)"
    and "\<forall>(r, u, v) \<in> set waiting. v - t < unat (wc_debounce_ms cfg) * 1000000"
    and "unat (wc_debounce_ms cfg) * 1000000 \<le> snd (snd ends) - t"
  shows "reported p (run_watcher cfg (earlier @ waiting) (start_state t0)) =
      reported p (run_watcher cfg earlier (start_state t0)) \<and>
    reported p (run_watcher cfg (earlier @ waiting @ ends # after) (start_state t0)) =
      reported p (run_watcher cfg earlier (start_state t0)) @ [if ev_kind ev = Remove then Deleted p else Modified p]"
proof -
  let ?st = "run_watcher cfg earlier (start_state t0)"
  let ?ev = "handle_event cfg t ev ?st"
  have run: "run_watcher cfg (xs @ ys) st = run_watcher cfg ys (run_watcher cfg xs st)" for xs ys st
    by (simp add: run_watcher_def)
  have "debounce_ok (start_state t0)" by (simp add: debounce_ok_def start_state_def)
  then have ok: "debounce_ok ?ev" by (intro handle_event_ok run_watcher_ok)
  have silent: "list_all (silent_about p) xs" if "set xs \<subseteq> set (quiet @ after)" for xs
  proof -
    have "silent_about p x" if "x \<in> set (quiet @ after)" for x
      using bspec [OF assms(6) that] by (cases x; cases "fst x") auto
    with that show ?thesis by (auto simp: list_all_iff)
  qed
  have "\<not> is_excluded p (wc_excluded_paths cfg)"
    using assms(2) by (auto simp: is_excluded_def list_ex_iff)
  moreover have "recorded (ev_kind ev)" using assms(3) by auto
  ultimately have pending: "map_of (ws_debounce ?ev) p = Some (t, ev_kind ev)" "reported p ?ev = reported p ?st"
    using handle_event_pending [OF assms(1) _ _ assms(4)] by auto
  have first: "run_watcher cfg ((Event ev, t, v) # xs) ?st = run_watcher cfg ((Timeout, t, v) # xs) ?ev" for v xs
    by (simp add: run_watcher_def watcher_step_def)
  obtain r t1 t2 where ends: "ends = (r, t1, t2)" by (cases ends) auto
  show ?thesis
  proof (cases waiting)
    case Nil
    with assms(5) ends have e: "r = Event ev" "t1 = t" "quiet = []" by auto
    have "list_all (silent_about p) ([] @ (Timeout, t, t2) # after)" using silent [of "after"] by auto
    from pending_reported_once [OF ok pending(1) this, of cfg] assms(8) ends
    show ?thesis by (simp add: Nil run e first pending(2) debounce_nanos_def)
  next
    case (Cons w ws)
    with assms(5) have w: "w = (Event ev, t, tf)" and q: "quiet = ws @ [ends]" by auto
    have "list_all (silent_about p) (((Timeout, t, tf) # ws) @ (r, t1, t2) # after)"
      using silent [of "ws @ ends # after"] by (auto simp: q ends)
    moreover have "list_all (\<lambda>(_, _, v). v - t < debounce_nanos cfg) ((Timeout, t, tf) # ws)"
      using assms(7) by (auto simp: Cons w debounce_nanos_def list_all_iff)
    ultimately have "reported p (run_watcher cfg ((Timeout, t, tf) # ws) ?ev) = reported p ?st \<and>
        reported p (run_watcher cfg (((Timeout, t, tf) # ws) @ (r, t1, t2) # after) ?ev) =
          reported p ?st @ [if ev_kind ev = Remove then Deleted p else Modified p]"
      using pending_reported_once [OF ok pending(1), of "(Timeout, t, tf) # ws" r t1 t2 "after" cfg] assms(8)
      by (simp add: ends debounce_nanos_def pending(2))
    then show ?thesis by (simp add: Cons w run first ends)
  qed
qed

theorem change_reported_once_witness:
  "reported ''/a'' (run_watcher default_watcher_config
     ([] @ [(Event \<lparr>ev_kind = Remove, ev_paths = [''/a'']\<rparr>, 0, 50), (Timeout, 60, 100)] @ (Timeout, 110, 500000000) # [])
     (start_state 0)) = [Deleted ''/a'']"
proof -
  let ?e = "\<lparr>ev_kind = Remove, ev_paths = [''/a'']\<rparr>"
  have "reported ''/a'' (run_watcher default_watcher_config [] (start_state 0)) = []"
    by (simp add: reported_def run_watcher_def start_state_def)
  moreover have "''/a'' \<in> set (ev_paths ?e)" by simp
  ultimately show ?thesis
    using change_reported_once [of "''/a''" ?e default_watcher_config "[(Event ?e, 0, 50), (Timeout, 60, 100)]"
        "(Timeout, 110, 500000000)" 0 50 "[(Timeout, 60, 100), (Timeout, 110, 500000000)]" "[]" "[]" 0]
    by (simp add: default_watcher_config_def)
qed

text \<open>A storm is signalled at the end of a window exactly when the number of windows above the
  threshold in a row, this one included, is a positive multiple of the configured duration;
  the 64-bit counter never wraps.\<close>

lemma storm_signalled:
  assumes "0 < wc_storm_duration_secs cfg"
  shows "fst (storm_run cfg rates) \<longleftrightarrow>
    0 < hot_streak cfg rates \<and> unat (wc_storm_duration_secs cfg) dvd hot_streak cfg rates"
  using storm_run_spec [OF assms] by simp

text \<open>A rename reported as one event with two paths is passed on even when both paths are excluded;
  all other events of an excluded path are dropped.\<close>

lemma excluded_rename_reported:
  assumes "is_excluded old (wc_excluded_paths cfg)" "is_excluded new (wc_excluded_paths cfg)"
  shows "Renamed old new \<in> set (ws_sent (handle_event cfg now
      \<lparr>ev_kind = Modify Name, ev_paths = [old, new]\<rparr> st)) \<and>
    (kind = Modify Name \<or>
     ws_debounce (handle_event cfg now \<lparr>ev_kind = kind, ev_paths = [old, new]\<rparr> st) = ws_debounce st)"
  using assms
  by (auto simp: handle_event_def rename_pair_def record_path_def count_event_frame
      split: event_kind.split modify_kind.split)


section \<open>Start and end of the loop\<close>

text \<open>
  The thread starts when the watcher of the operating system can be created; a watch path that does
  not exist or cannot be watched is left out, and the start does not fail.
\<close>

definition watched_paths :: "(string \<Rightarrow> bool) \<Rightarrow> (string \<Rightarrow> bool) \<Rightarrow> watcher_config \<Rightarrow> string list" where
  "watched_paths present watch cfg = filter (\<lambda>p. present p \<and> watch p) (wc_watch_paths cfg)"

definition start_watcher ::
  "bool \<Rightarrow> (string \<Rightarrow> bool) \<Rightarrow> (string \<Rightarrow> bool) \<Rightarrow> bool \<Rightarrow> nat \<Rightarrow> watcher_config \<Rightarrow>
     (string list \<times> watcher_state) option" where
  "start_watcher created present watch spawned now cfg =
     (if \<not> created \<or> \<not> spawned then None
      else Some (watched_paths present watch cfg, start_state now))"

text \<open>
  Each input is the shutdown flag as the loop reads it, what the channel gives (\<open>None\<close> when it is
  disconnected) and the two instants; the result tells whether the loop has ended.
\<close>

fun watcher_loop ::
  "watcher_config \<Rightarrow> (bool \<times> recv option \<times> nat \<times> nat) list \<Rightarrow> watcher_state \<Rightarrow> watcher_state \<times> bool" where
  "watcher_loop cfg [] st = (st, False)"
| "watcher_loop cfg ((shutdown, received, t1, t2) # xs) st =
     (if shutdown then (st, True)
      else case received of
        None \<Rightarrow> (st, True)
      | Some r \<Rightarrow> watcher_loop cfg xs (watcher_step cfg (r, t1, t2) st))"

definition ends_loop :: "bool \<times> recv option \<times> nat \<times> nat \<Rightarrow> bool" where
  "ends_loop x \<longleftrightarrow> fst x \<or> fst (snd x) = None"

definition step_input :: "bool \<times> recv option \<times> nat \<times> nat \<Rightarrow> recv \<times> nat \<times> nat" where
  "step_input x = (the (fst (snd x)), snd (snd x))"

text \<open>The loop takes the steps up to the first shutdown or disconnection, and none after it.\<close>

lemma watcher_loop_run:
  "watcher_loop cfg xs st =
     (run_watcher cfg (map step_input (takeWhile (\<lambda>x. \<not> ends_loop x) xs)) st, \<exists>x \<in> set xs. ends_loop x)"
  by (induction cfg xs st rule: watcher_loop.induct)
    (auto simp: run_watcher_def ends_loop_def step_input_def split: option.splits)

text \<open>
  The end of the loop does not flush: a change still inside its debounce time when the flag is set
  is never sent, whatever the inputs after it.
\<close>

lemma shutdown_drops_pending:
  assumes "debounce_ok st" "map_of (ws_debounce st) p = Some (t, k)"
    "list_all (\<lambda>x. \<not> ends_loop x \<and> silent_about p (step_input x) \<and> snd (snd (snd x)) - t < debounce_nanos cfg) xs"
  shows "reported p (fst (watcher_loop cfg (xs @ (True, r, t1, t2) # ys) st)) = reported p st"
  using assms
proof (induction xs arbitrary: st)
  case Nil
  then show ?case by simp
next
  case (Cons x xs)
  obtain stop rc u1 u2 where x: "x = (stop, rc, u1, u2)" by (cases x) auto
  with Cons.prems(3) obtain e where e: "\<not> stop" "rc = Some e" by (auto simp: ends_loop_def)
  with Cons.prems(3) x have silent: "silent_about p (e, u1, u2)" and young: "\<not> ripe cfg u2 (p, t, k)"
    by (simp_all add: step_input_def ripe_def)
  from step_silent [OF Cons.prems(1) silent, of cfg] Cons.prems(2) young
  have "map_of (ws_debounce (watcher_step cfg (e, u1, u2) st)) p = Some (t, k)"
    "reported p (watcher_step cfg (e, u1, u2) st) = reported p st" by simp_all
  with Cons.IH [OF watcher_step_ok [OF Cons.prems(1)], of cfg "(e, u1, u2)"] Cons.prems(3) e x
  show ?case by simp
qed

section \<open>The monitor's loop\<close>

definition check_couchdb_available :: "'w transport \<Rightarrow> couch_client \<Rightarrow> 'w \<Rightarrow> bool \<times> 'w" where
  "check_couchdb_available send c w =
     (case send \<lparr>rq_method = GET, rq_url = base_url c @ ''/'', rq_auth = auth c, rq_query = [], rq_body = None\<rparr> w of
        (Inr resp, w') \<Rightarrow> (is_success (rs_status resp), w')
      | (Inl _, w') \<Rightarrow> (False, w'))"

text \<open>One input per tick: the shutdown flag as read, and the transport of that moment.\<close>

fun monitor_loop ::
  "couch_client \<Rightarrow> (bool \<times> 'w transport) list \<Rightarrow> monitor_state \<times> 'w \<Rightarrow> monitor_state \<times> 'w" where
  "monitor_loop c [] (st, w) = (st, w)"
| "monitor_loop c ((shutdown, send) # xs) (st, w) =
     (if shutdown then (st, w)
      else let (connected, w') = check_couchdb_available send c w
           in monitor_loop c xs (monitor_tick connected st, w'))"

definition monitor_start :: monitor_state where
  "monitor_start = \<lparr>was_connected = True, needs_reconciliation = False\<rparr>"

text \<open>
  The flag is raised exactly when some tick finds the database again after one that did not; the monitor
  starts as connected, so a database that is down from the start counts as lost, too.
\<close>

lemma monitor_ticks:
  "needs_reconciliation (fold monitor_tick bs st) \<longleftrightarrow>
     needs_reconciliation st \<or> (\<exists>i < length bs. bs ! i \<and> \<not> (was_connected st # bs) ! i)"
proof (induction bs arbitrary: st)
  case Nil
  then show ?case by simp
next
  case (Cons b bs)
  have "(\<exists>i < length (b # bs). (b # bs) ! i \<and> \<not> (was_connected st # b # bs) ! i) \<longleftrightarrow>
      (b \<and> \<not> was_connected st) \<or> (\<exists>i < length bs. bs ! i \<and> \<not> (b # bs) ! i)"
    by (auto simp: less_Suc_eq_0_disj)
  then show ?case
    using Cons.IH [of "monitor_tick b st"] by (auto simp: monitor_tick_def)
qed

lemma monitor_loop_ticks:
  "\<exists>bs. length bs \<le> length xs \<and> fst (monitor_loop c xs (st, w)) = fold monitor_tick bs st \<and>
     (list_all (\<lambda>x. \<not> fst x) xs \<longrightarrow> length bs = length xs)"
proof (induction xs arbitrary: st w)
  case Nil
  then show ?case by simp
next
  case (Cons x xs)
  obtain stop send where x: "x = (stop, send)" by (cases x)
  obtain b w' where probe: "check_couchdb_available send c w = (b, w')" by fastforce
  from Cons.IH [of "monitor_tick b st" w'] obtain bs where bs: "length bs \<le> length xs"
    "fst (monitor_loop c xs (monitor_tick b st, w')) = fold monitor_tick bs (monitor_tick b st)"
    "list_all (\<lambda>x. \<not> fst x) xs \<longrightarrow> length bs = length xs" by blast
  show ?case
  proof (cases stop)
    case True
    with x show ?thesis by (intro exI [of _ "[]"]) simp
  next
    case False
    with x probe bs show ?thesis by (intro exI [of _ "b # bs"]) simp
  qed
qed

text \<open>A run of the monitor without a connected tick after a lost one never asks for a crawl.\<close>

lemma monitor_quiet:
  assumes "list_all (\<lambda>(stop, send). \<forall>w. fst (check_couchdb_available send c w)) xs" "was_connected st"
  shows "needs_reconciliation (fst (monitor_loop c xs (st, w))) = needs_reconciliation st"
  using assms
proof (induction xs arbitrary: st w)
  case (Cons x xs)
  obtain stop send where x: "x = (stop, send)" by (cases x)
  obtain b w' where probe: "check_couchdb_available send c w = (b, w')" by fastforce
  with Cons.prems(1) x have "b" by (auto dest: spec [of _ w])
  with Cons.IH [of "monitor_tick b st" w'] Cons.prems x probe show ?case
    by (simp add: monitor_tick_def)
qed simp

end
