(* ===== verification/Config.thy ===== *)
theory Config
  imports Couch Numbers
begin

text \<open>
  The node configuration of \<open>mosaicfs-common/src/config.rs\<close>: the TOML document is a value
  tree (the type of \<open>Json\<close>; the parser is the \<open>toml\<close> crate's and a parameter), and loading
  is deserialization, the environment overrides and validation, in this order. The
  environment is a partial function; \<open>macos\<close> is \<open>cfg!(target_os = "macos")\<close>.
\<close>

section \<open>Data\<close>

record credentials_config =
  cc_access_key_id :: string
  cc_secret_key :: string

record features_config =
  ft_agent :: bool
  ft_vfs :: bool
  ft_web_ui :: bool

record couchdb_config =
  cd_url :: string
  cd_user :: string
  cd_password :: string

record agent_config =
  ac_watch_paths :: "string list"
  ac_excluded_paths :: "string list"
  ac_state_dir :: "string option"

record vfs_config =
  vf_mount_point :: string
  vf_cache_dir :: "string option"

record web_ui_config =
  wu_listen :: string
  wu_data_dir :: "string option"
  wu_insecure_http :: bool
  wu_developer_mode :: bool
  wu_socket_path :: "string option"

record mosaicfs_config =
  mc_node_id :: "string option"
  mc_features :: features_config
  mc_couchdb :: couchdb_config
  mc_agent :: "agent_config option"
  mc_vfs :: "vfs_config option"
  mc_web_ui :: "web_ui_config option"
  mc_credentials :: "credentials_config option"
  mc_secrets_manager :: string

datatype config_error =
  ParseError
| KeychainUnsupported
| UnknownManager string
| EmptyCouchUrl
| EmptyCouchUser
| NoFeature
| MissingSection string
| NoWatchPath
| NotAbsolute string string
| EmptyListen
| BadListen string

section \<open>Deserialization\<close>

definition object :: "(json \<Rightarrow> 'a option) \<Rightarrow> json \<Rightarrow> 'a option" where
  "object conv j = (if is_object j then conv j else None)"

definition strings_of :: "json \<Rightarrow> string list option" where
  "strings_of = list_of as_str"

definition node_of :: "json \<Rightarrow> string option option" where
  "node_of = object (opt_field as_str ''node_id'')"

definition features_of :: "json \<Rightarrow> features_config option" where
  "features_of = object (\<lambda>j. do {
     a \<leftarrow> default_field as_bool False ''agent'' j;
     v \<leftarrow> default_field as_bool False ''vfs'' j;
     w \<leftarrow> default_field as_bool False ''web_ui'' j;
     Some \<lparr>ft_agent = a, ft_vfs = v, ft_web_ui = w\<rparr> })"

definition couchdb_of :: "json \<Rightarrow> couchdb_config option" where
  "couchdb_of = object (\<lambda>j. do {
     url \<leftarrow> req_field as_str ''url'' j;
     user \<leftarrow> req_field as_str ''user'' j;
     password \<leftarrow> default_field as_str [] ''password'' j;
     Some \<lparr>cd_url = url, cd_user = user, cd_password = password\<rparr> })"

definition agent_of :: "json \<Rightarrow> agent_config option" where
  "agent_of = object (\<lambda>j. do {
     ws \<leftarrow> req_field strings_of ''watch_paths'' j;
     es \<leftarrow> default_field strings_of [] ''excluded_paths'' j;
     sd \<leftarrow> opt_field as_str ''state_dir'' j;
     Some \<lparr>ac_watch_paths = ws, ac_excluded_paths = es, ac_state_dir = sd\<rparr> })"

definition vfs_of :: "json \<Rightarrow> vfs_config option" where
  "vfs_of = object (\<lambda>j. do {
     m \<leftarrow> req_field as_str ''mount_point'' j;
     c \<leftarrow> opt_field as_str ''cache_dir'' j;
     Some \<lparr>vf_mount_point = m, vf_cache_dir = c\<rparr> })"

definition default_listen :: string where
  "default_listen = ''0.0.0.0:8443''"

definition web_ui_of :: "json \<Rightarrow> web_ui_config option" where
  "web_ui_of = object (\<lambda>j. do {
     l \<leftarrow> default_field as_str default_listen ''listen'' j;
     d \<leftarrow> opt_field as_str ''data_dir'' j;
     i \<leftarrow> default_field as_bool False ''insecure_http'' j;
     v \<leftarrow> default_field as_bool False ''developer_mode'' j;
     s \<leftarrow> opt_field as_str ''socket_path'' j;
     Some \<lparr>wu_listen = l, wu_data_dir = d, wu_insecure_http = i, wu_developer_mode = v,
           wu_socket_path = s\<rparr> })"

definition credentials_of :: "json \<Rightarrow> credentials_config option" where
  "credentials_of = object (\<lambda>j. do {
     a \<leftarrow> default_field as_str [] ''access_key_id'' j;
     s \<leftarrow> default_field as_str [] ''secret_key'' j;
     Some \<lparr>cc_access_key_id = a, cc_secret_key = s\<rparr> })"

definition secrets_of :: "json \<Rightarrow> string option" where
  "secrets_of = object (default_field as_str ''inline'' ''manager'')"

definition config_of :: "json \<Rightarrow> mosaicfs_config option" where
  "config_of = object (\<lambda>j. do {
     node \<leftarrow> default_field node_of None ''node'' j;
     features \<leftarrow> req_field features_of ''features'' j;
     couchdb \<leftarrow> req_field couchdb_of ''couchdb'' j;
     agent \<leftarrow> opt_field agent_of ''agent'' j;
     vfs \<leftarrow> opt_field vfs_of ''vfs'' j;
     web \<leftarrow> opt_field web_ui_of ''web_ui'' j;
     creds \<leftarrow> opt_field credentials_of ''credentials'' j;
     manager \<leftarrow> default_field secrets_of ''inline'' ''secrets'' j;
     Some \<lparr>mc_node_id = node, mc_features = features, mc_couchdb = couchdb, mc_agent = agent,
           mc_vfs = vfs, mc_web_ui = web, mc_credentials = creds,
           mc_secrets_manager = manager\<rparr> })"

section \<open>Socket addresses\<close>

text \<open>
  The parser behind \<open>str::parse::<SocketAddr>\<close>. Each function returns what is left of the
  input, \<open>None\<close> on failure.
\<close>

definition read_number ::
  "nat \<Rightarrow> nat option \<Rightarrow> bool \<Rightarrow> nat \<Rightarrow> string \<Rightarrow> string option" where
  "read_number radix max_digits allow_zero_prefix bound s =
     (let (ds, rest) = span_digits radix s in
      if ds = [] then None
      else if bound \<le> digits_value radix ds then None
      else if (case max_digits of Some m \<Rightarrow> m < length ds | None \<Rightarrow> False) then None
      else if \<not> allow_zero_prefix \<and> hd ds = CHR ''0'' \<and> 1 < length ds then None
      else Some rest)"

definition read_given_char :: "char \<Rightarrow> string \<Rightarrow> string option" where
  "read_given_char c s = (case s of x # xs \<Rightarrow> if x = c then Some xs else None | [] \<Rightarrow> None)"

definition read_separator ::
  "char \<Rightarrow> nat \<Rightarrow> (string \<Rightarrow> string option) \<Rightarrow> string \<Rightarrow> string option" where
  "read_separator sep i p s =
     (if 0 < i then Option.bind (read_given_char sep s) p else p s)"

definition read_ipv4 :: "string \<Rightarrow> string option" where
  "read_ipv4 s =
     fold (\<lambda>i r. Option.bind r
         (read_separator (CHR ''.'') i (read_number 10 (Some 3) False 256))) [0, 1, 2, 3] (Some s)"

text \<open>\<open>left\<close> groups of sixteen bits may follow, the first one at index \<open>i\<close>.\<close>

fun read_groups :: "nat \<Rightarrow> nat \<Rightarrow> string \<Rightarrow> nat \<times> bool \<times> string" where
  "read_groups i 0 s = (i, False, s)"
| "read_groups i (Suc left) s =
     (case (if 0 < left then read_separator (CHR '':'') i read_ipv4 s else None) of
        Some rest \<Rightarrow> (i + 2, True, rest)
      | None \<Rightarrow>
          (case read_separator (CHR '':'') i (read_number 16 (Some 4) True 65536) s of
             Some rest \<Rightarrow> read_groups (Suc i) left rest
           | None \<Rightarrow> (i, False, s)))"

definition read_ipv6 :: "string \<Rightarrow> string option" where
  "read_ipv6 s =
     (let (head_size, head_ipv4, rest) = read_groups 0 8 s in
      if head_size = 8 then Some rest
      else if head_ipv4 then None
      else do {
        r1 \<leftarrow> read_given_char (CHR '':'') rest;
        r2 \<leftarrow> read_given_char (CHR '':'') r1;
        Some (snd (snd (read_groups 0 (7 - head_size) r2)))
      })"

definition read_port :: "string \<Rightarrow> string option" where
  "read_port s = Option.bind (read_given_char (CHR '':'') s) (read_number 10 None True 65536)"

definition read_scope_id :: "string \<Rightarrow> string option" where
  "read_scope_id s = Option.bind (read_given_char (CHR ''%'') s) (read_number 10 None True (2 ^ 32))"

definition read_socket_v4 :: "string \<Rightarrow> string option" where
  "read_socket_v4 s = Option.bind (read_ipv4 s) read_port"

definition read_socket_v6 :: "string \<Rightarrow> string option" where
  "read_socket_v6 s =
     do {
       r1 \<leftarrow> read_given_char (CHR ''['') s;
       r2 \<leftarrow> read_ipv6 r1;
       r3 \<leftarrow> read_given_char (CHR '']'') (unwrap_or (read_scope_id r2) r2);
       read_port r3
     }"

definition is_socket_addr :: "string \<Rightarrow> bool" where
  "is_socket_addr s \<longleftrightarrow>
     (case read_socket_v4 s of
        Some rest \<Rightarrow> rest = []
      | None \<Rightarrow> read_socket_v6 s = Some [])"

section \<open>Environment overrides\<close>

type_synonym environment = "string \<rightharpoonup> string"

definition rebind_port :: "string \<Rightarrow> nat \<Rightarrow> string" where
  "rebind_port listen new_port =
     (case rsplit_once (CHR '':'') listen of
        Some (host, _) \<Rightarrow> host @ '':'' @ nat_str new_port
      | None \<Rightarrow> ''0.0.0.0:'' @ nat_str new_port)"

definition ascii_lower :: "char \<Rightarrow> char" where
  "ascii_lower c = (let n = of_char c in if 65 \<le> n \<and> n \<le> (90 :: nat) then char_of (n + 32) else c)"

definition eq_ignore_ascii_case :: "string \<Rightarrow> string \<Rightarrow> bool" where
  "eq_ignore_ascii_case a b \<longleftrightarrow> map ascii_lower a = map ascii_lower b"

definition override :: "environment \<Rightarrow> string \<Rightarrow> string \<Rightarrow> string" where
  "override env var old = unwrap_or (env var) old"

definition override_web :: "environment \<Rightarrow> web_ui_config \<Rightarrow> web_ui_config" where
  "override_web env w =
     w\<lparr>wu_listen := (case Option.bind (env ''MOSAICFS_PORT'') (parse_unsigned 65536) of
           Some port \<Rightarrow> rebind_port (wu_listen w) port | None \<Rightarrow> wu_listen w),
       wu_data_dir := (case env ''MOSAICFS_DATA_DIR'' of
           Some d \<Rightarrow> Some d | None \<Rightarrow> wu_data_dir w),
       wu_insecure_http := (case env ''MOSAICFS_INSECURE_HTTP'' of
           Some v \<Rightarrow> v = ''1'' \<or> eq_ignore_ascii_case v ''true'' | None \<Rightarrow> wu_insecure_http w)\<rparr>"

definition override_agent :: "environment \<Rightarrow> agent_config \<Rightarrow> agent_config" where
  "override_agent env a =
     (case env ''MOSAICFS_STATE_DIR'' of Some d \<Rightarrow> a\<lparr>ac_state_dir := Some d\<rparr> | None \<Rightarrow> a)"

definition override_credentials ::
  "environment \<Rightarrow> credentials_config option \<Rightarrow> credentials_config option" where
  "override_credentials env creds =
     (if env ''MOSAICFS_ACCESS_KEY_ID'' = None \<and> env ''MOSAICFS_SECRET_KEY'' = None then creds
      else (let c = unwrap_or creds \<lparr>cc_access_key_id = [], cc_secret_key = []\<rparr>
            in Some \<lparr>cc_access_key_id = override env ''MOSAICFS_ACCESS_KEY_ID'' (cc_access_key_id c),
                     cc_secret_key = override env ''MOSAICFS_SECRET_KEY'' (cc_secret_key c)\<rparr>))"

definition apply_env_overrides :: "environment \<Rightarrow> mosaicfs_config \<Rightarrow> mosaicfs_config" where
  "apply_env_overrides env c =
     c\<lparr>mc_node_id := (case env ''MOSAICFS_NODE_ID'' of
           Some v \<Rightarrow> if v \<noteq> [] then Some v else mc_node_id c | None \<Rightarrow> mc_node_id c),
       mc_couchdb := \<lparr>cd_url = override env ''COUCHDB_URL'' (cd_url (mc_couchdb c)),
           cd_user = override env ''COUCHDB_USER'' (cd_user (mc_couchdb c)),
           cd_password = override env ''COUCHDB_PASSWORD'' (cd_password (mc_couchdb c))\<rparr>,
       mc_credentials := override_credentials env (mc_credentials c),
       mc_web_ui := map_option (override_web env) (mc_web_ui c),
       mc_agent := map_option (override_agent env) (mc_agent c)\<rparr>"

section \<open>Validation\<close>

definition is_absolute :: "string \<Rightarrow> bool" where
  "is_absolute p \<longleftrightarrow> starts_with p ''/''"

definition bail_if :: "bool \<Rightarrow> config_error \<Rightarrow> config_error + unit" where
  "bail_if b e = (if b then Inl e else Inr ())"

fun check_absolute :: "string \<Rightarrow> string list \<Rightarrow> config_error + unit" where
  "check_absolute what [] = Inr ()"
| "check_absolute what (p # ps) =
     (if is_absolute p then check_absolute what ps else Inl (NotAbsolute what p))"

definition validate_secrets :: "bool \<Rightarrow> mosaicfs_config \<Rightarrow> config_error + unit" where
  "validate_secrets macos c =
     (if mc_secrets_manager c = ''inline'' then Inr ()
      else if mc_secrets_manager c = ''keychain'' then bail_if (\<not> macos) KeychainUnsupported
      else Inl (UnknownManager (mc_secrets_manager c)))"

definition validate_couchdb :: "mosaicfs_config \<Rightarrow> config_error + unit" where
  "validate_couchdb c =
     (if mc_secrets_manager c = ''inline'' then
        and_then (bail_if (cd_url (mc_couchdb c) = []) EmptyCouchUrl)
          (\<lambda>_. bail_if (cd_user (mc_couchdb c) = []) EmptyCouchUser)
      else Inr ())"

definition validate_agent :: "mosaicfs_config \<Rightarrow> config_error + unit" where
  "validate_agent c =
     (if ft_agent (mc_features c) then
        (case mc_agent c of
           None \<Rightarrow> Inl (MissingSection ''agent'')
         | Some a \<Rightarrow>
             and_then (bail_if (ac_watch_paths a = []) NoWatchPath) (\<lambda>_.
             and_then (check_absolute ''watch_paths'' (ac_watch_paths a)) (\<lambda>_.
             check_absolute ''excluded_paths'' (ac_excluded_paths a))))
      else Inr ())"

definition validate_vfs :: "mosaicfs_config \<Rightarrow> config_error + unit" where
  "validate_vfs c =
     (if ft_vfs (mc_features c) then
        (case mc_vfs c of
           None \<Rightarrow> Inl (MissingSection ''vfs'')
         | Some v \<Rightarrow> check_absolute ''mount_point'' [vf_mount_point v])
      else Inr ())"

definition validate_web_ui :: "mosaicfs_config \<Rightarrow> config_error + unit" where
  "validate_web_ui c =
     (if ft_web_ui (mc_features c) then
        (case mc_web_ui c of
           None \<Rightarrow> Inl (MissingSection ''web_ui'')
         | Some w \<Rightarrow>
             and_then (bail_if (wu_listen w = []) EmptyListen)
               (\<lambda>_. bail_if (\<not> is_socket_addr (wu_listen w)) (BadListen (wu_listen w))))
      else Inr ())"

definition validate :: "bool \<Rightarrow> mosaicfs_config \<Rightarrow> config_error + unit" where
  "validate macos c =
     and_then (validate_secrets macos c) (\<lambda>_.
     and_then (validate_couchdb c) (\<lambda>_.
     and_then (bail_if (\<not> (ft_agent (mc_features c) \<or> ft_vfs (mc_features c) \<or>
                 ft_web_ui (mc_features c))) NoFeature) (\<lambda>_.
     and_then (validate_agent c) (\<lambda>_.
     and_then (validate_vfs c) (\<lambda>_.
     validate_web_ui c)))))"

text \<open>\<open>from_str\<close>; \<open>load\<close> reads the file first.\<close>

definition load_config ::
  "(string \<Rightarrow> json option) \<Rightarrow> bool \<Rightarrow> environment \<Rightarrow> string \<Rightarrow> config_error + mosaicfs_config" where
  "load_config toml macos env text =
     (case Option.bind (toml text) config_of of
        None \<Rightarrow> Inl ParseError
      | Some c0 \<Rightarrow>
          (let c = apply_env_overrides env c0 in and_then (validate macos c) (\<lambda>_. Inr c)))"

section \<open>Numbers\<close>

definition no_digit :: "string \<Rightarrow> bool" where
  "no_digit r \<longleftrightarrow> (case r of [] \<Rightarrow> True | c # _ \<Rightarrow> \<not> is_digit 10 c)"

lemma takeWhile_stop: "list_all P ds \<Longrightarrow> (case r of [] \<Rightarrow> True | c # _ \<Rightarrow> \<not> P c) \<Longrightarrow>
    takeWhile P (ds @ r) = ds \<and> dropWhile P (ds @ r) = r"
  by (induction ds) (auto split: list.splits)

lemma no_digit_dropWhile: "no_digit (dropWhile (is_digit 10) s)"
  by (induction s) (simp_all add: no_digit_def)

lemma read_number_Some:
  assumes "read_number 10 m z b s = Some r"
  shows "\<exists>ds. s = ds @ r \<and> ds \<noteq> [] \<and> list_all (is_digit 10) ds \<and> no_digit r \<and>
    (\<forall>r'. no_digit r' \<longrightarrow> read_number 10 m z b (ds @ r') = Some r')"
proof -
  let ?P = "is_digit 10"
  let ?ds = "takeWhile ?P s"
  have r: "r = dropWhile ?P s" and
    num: "?ds \<noteq> []" "\<not> b \<le> digits_value 10 ?ds"
      "\<not> (case m of Some m \<Rightarrow> m < length ?ds | None \<Rightarrow> False)"
      "\<not> (\<not> z \<and> hd ?ds = CHR ''0'' \<and> 1 < length ?ds)"
    using assms by (auto simp: read_number_def span_digits_def Let_def split: if_splits)
  have digits: "list_all ?P ?ds" by (auto simp: list_all_iff dest: set_takeWhileD)
  have "no_digit r" unfolding r by (rule no_digit_dropWhile)
  moreover have "read_number 10 m z b (?ds @ r') = Some r'" if "no_digit r'" for r'
  proof -
    have "takeWhile ?P (?ds @ r') = ?ds \<and> dropWhile ?P (?ds @ r') = r'"
      using that by (intro takeWhile_stop [OF digits]) (auto simp: no_digit_def split: list.splits)
    with num show ?thesis by (simp add: read_number_def span_digits_def)
  qed
  ultimately show ?thesis using num(1) digits r by (metis takeWhile_dropWhile_id)
qed

lemma read_given_char_Some [simp]: "read_given_char c s = Some r \<longleftrightarrow> s = c # r"
  by (auto simp: read_given_char_def split: list.splits)

lemma dot_no_digit [simp]: "no_digit (CHR ''.'' # r)"
  by (simp add: no_digit_def) code_simp

lemma colon_no_digit [simp]: "no_digit (CHR '':'' # r)"
  by (simp add: no_digit_def) code_simp

lemma read_ipv4_Some:
  assumes "read_ipv4 s = Some r"
  shows "\<exists>u. s = u @ r \<and> (\<forall>r'. no_digit r' \<longrightarrow> read_ipv4 (u @ r') = Some r')"
proof -
  let ?n = "read_number 10 (Some 3) False 256"
  from assms obtain r0 r1 r2 where
    "?n s = Some (CHR ''.'' # r0)" "?n r0 = Some (CHR ''.'' # r1)" "?n r1 = Some (CHR ''.'' # r2)"
    "?n r2 = Some r"
    by (auto simp: read_ipv4_def read_separator_def bind_eq_Some_conv)
  note num = this [THEN read_number_Some]
  from num(1) obtain d0 where d0: "s = d0 @ CHR ''.'' # r0"
    "\<And>r'. no_digit r' \<Longrightarrow> ?n (d0 @ r') = Some r'" by blast
  from num(2) obtain d1 where d1: "r0 = d1 @ CHR ''.'' # r1"
    "\<And>r'. no_digit r' \<Longrightarrow> ?n (d1 @ r') = Some r'" by blast
  from num(3) obtain d2 where d2: "r1 = d2 @ CHR ''.'' # r2"
    "\<And>r'. no_digit r' \<Longrightarrow> ?n (d2 @ r') = Some r'" by blast
  from num(4) obtain d3 where d3: "r2 = d3 @ r"
    "\<And>r'. no_digit r' \<Longrightarrow> ?n (d3 @ r') = Some r'" by blast
  let ?u = "d0 @ CHR ''.'' # d1 @ CHR ''.'' # d2 @ CHR ''.'' # d3"
  have "read_ipv4 (?u @ r') = Some r'" if "no_digit r'" for r'
    using that by (simp add: read_ipv4_def read_separator_def d0(2) d1(2) d2(2) d3(2)
        read_given_char_def)
  moreover have "s = ?u @ r" by (simp add: d0(1) d1(1) d2(1) d3(1))
  ultimately show ?thesis by blast
qed

lemma read_port_nat_str: "p < 65536 \<Longrightarrow> read_port (CHR '':'' # nat_str p) = Some []"
proof -
  assume p: "p < 65536"
  let ?P = "is_digit 10"
  have "takeWhile ?P (nat_str p @ []) = nat_str p \<and> dropWhile ?P (nat_str p @ []) = []"
    by (rule takeWhile_stop) (simp_all add: nat_str_digits)
  then have split: "span_digits 10 (nat_str p) = (nat_str p, [])"
    by (simp only: span_digits_def append_Nil2)
  with p nat_str_digits [of p] show ?thesis
    by (simp add: read_port_def read_number_def split read_given_char_def)
qed

lemma digit_no_colon: "list_all (is_digit 10) ds \<Longrightarrow> CHR '':'' \<notin> set ds"
proof -
  have "\<not> is_digit 10 (CHR '':'')" by code_simp
  then show "list_all (is_digit 10) ds \<Longrightarrow> CHR '':'' \<notin> set ds"
    by (auto simp: list_all_iff)
qed

section \<open>What validation accepts\<close>

text \<open>The promise of a loaded configuration, section by section.\<close>

definition config_ok :: "bool \<Rightarrow> mosaicfs_config \<Rightarrow> bool" where
  "config_ok macos c \<longleftrightarrow>
     (mc_secrets_manager c = ''inline'' \<and> cd_url (mc_couchdb c) \<noteq> [] \<and> cd_user (mc_couchdb c) \<noteq> [] \<or>
      mc_secrets_manager c = ''keychain'' \<and> macos) \<and>
     (ft_agent (mc_features c) \<or> ft_vfs (mc_features c) \<or> ft_web_ui (mc_features c)) \<and>
     (ft_agent (mc_features c) \<longrightarrow>
       (\<exists>a. mc_agent c = Some a \<and> ac_watch_paths a \<noteq> [] \<and>
          list_all is_absolute (ac_watch_paths a @ ac_excluded_paths a))) \<and>
     (ft_vfs (mc_features c) \<longrightarrow>
       (\<exists>v. mc_vfs c = Some v \<and> is_absolute (vf_mount_point v))) \<and>
     (ft_web_ui (mc_features c) \<longrightarrow>
       (\<exists>w. mc_web_ui c = Some w \<and> is_socket_addr (wu_listen w)))"

lemma bail_if_Inr [simp]: "bail_if b e = Inr u \<longleftrightarrow> \<not> b"
  by (simp add: bail_if_def)

lemma check_absolute_Inr [simp]: "check_absolute w ps = Inr u \<longleftrightarrow> list_all is_absolute ps"
  by (induction ps) auto

lemma empty_no_socket: "\<not> is_socket_addr []"
  by code_simp

lemma and_then_unit:
  "and_then r f = Inr b \<longleftrightarrow> r = Inr () \<and> f () = Inr b" for r :: "'e + unit"
  by (cases r) auto

lemma validate_secrets_iff: "validate_secrets macos c = Inr () \<longleftrightarrow>
    mc_secrets_manager c = ''inline'' \<or> mc_secrets_manager c = ''keychain'' \<and> macos"
  by (simp add: validate_secrets_def)

lemma validate_couchdb_iff: "validate_couchdb c = Inr () \<longleftrightarrow>
    (mc_secrets_manager c = ''inline'' \<longrightarrow> cd_url (mc_couchdb c) \<noteq> [] \<and> cd_user (mc_couchdb c) \<noteq> [])"
  by (simp add: validate_couchdb_def and_then_unit)

lemma validate_agent_iff: "validate_agent c = Inr () \<longleftrightarrow>
    (ft_agent (mc_features c) \<longrightarrow>
     (\<exists>a. mc_agent c = Some a \<and> ac_watch_paths a \<noteq> [] \<and>
        list_all is_absolute (ac_watch_paths a @ ac_excluded_paths a)))"
  by (cases "mc_agent c") (simp_all add: validate_agent_def and_then_unit)

lemma validate_vfs_iff: "validate_vfs c = Inr () \<longleftrightarrow>
    (ft_vfs (mc_features c) \<longrightarrow> (\<exists>v. mc_vfs c = Some v \<and> is_absolute (vf_mount_point v)))"
  by (cases "mc_vfs c") (simp_all add: validate_vfs_def)

lemma validate_web_ui_iff: "validate_web_ui c = Inr () \<longleftrightarrow>
    (ft_web_ui (mc_features c) \<longrightarrow> (\<exists>w. mc_web_ui c = Some w \<and> is_socket_addr (wu_listen w)))"
proof (cases "mc_web_ui c")
  case (Some w)
  have "wu_listen w \<noteq> []" if "is_socket_addr (wu_listen w)" using that empty_no_socket by metis
  with Some show ?thesis by (simp add: validate_web_ui_def and_then_unit) blast
qed (simp add: validate_web_ui_def)

lemma validate_iff: "validate macos c = Inr () \<longleftrightarrow> config_ok macos c"
  unfolding validate_def and_then_unit validate_secrets_iff validate_couchdb_iff
    validate_agent_iff validate_vfs_iff validate_web_ui_iff config_ok_def bail_if_Inr
  by (cases "mc_secrets_manager c = ''inline''") auto

section \<open>Properties\<close>

text \<open>Loading succeeds exactly when the overridden configuration keeps its promises: a usable secrets
  manager with the CouchDB fields it needs, at least one feature, and for each enabled
  feature its section with absolute paths or a valid listen address.\<close>

lemma load_config_correct:
  "load_config toml macos env text = Inr c \<longleftrightarrow>
     (\<exists>v c0. toml text = Some v \<and> config_of v = Some c0 \<and> c = apply_env_overrides env c0 \<and>
        config_ok macos c)"
  using validate_iff by (auto simp: load_config_def Let_def and_then_Inr bind_eq_Some_conv
      split: option.splits)

text \<open>The environment wins over the file for the CouchDB fields and the credentials, and leaves what
  it does not set.\<close>

lemma environment_wins:
  "cd_url (mc_couchdb (apply_env_overrides env c)) = (case env ''COUCHDB_URL'' of
      Some v \<Rightarrow> v | None \<Rightarrow> cd_url (mc_couchdb c)) \<and>
   cd_password (mc_couchdb (apply_env_overrides env c)) = (case env ''COUCHDB_PASSWORD'' of
      Some v \<Rightarrow> v | None \<Rightarrow> cd_password (mc_couchdb c)) \<and>
   map_option cc_secret_key (mc_credentials (apply_env_overrides env c)) =
     (case env ''MOSAICFS_SECRET_KEY'' of
        Some v \<Rightarrow> Some v
      | None \<Rightarrow> (case (mc_credentials c, env ''MOSAICFS_ACCESS_KEY_ID'') of
           (Some cr, _) \<Rightarrow> Some (cc_secret_key cr)
         | (None, Some _) \<Rightarrow> Some []
         | (None, None) \<Rightarrow> None))"
  by (cases "env ''MOSAICFS_SECRET_KEY''"; cases "env ''MOSAICFS_ACCESS_KEY_ID''";
      cases "mc_credentials c")
    (simp_all add: apply_env_overrides_def override_credentials_def override_def unwrap_or_def)

text \<open>Changing the port of a valid IPv4 listen address keeps the host and gives a valid address.\<close>

lemma rebind_port_valid:
  assumes "read_socket_v4 listen = Some []" "p < 65536"
  shows "is_socket_addr (rebind_port listen p) \<and>
    map_option fst (rsplit_once (CHR '':'') (rebind_port listen p)) =
      map_option fst (rsplit_once (CHR '':'') listen)"
proof -
  from assms(1) obtain r where r: "read_ipv4 listen = Some r" "read_port r = Some []"
    by (auto simp: read_socket_v4_def bind_eq_Some_conv)
  from r(2) obtain ds where ds: "r = CHR '':'' # ds" "read_number 10 None True 65536 ds = Some []"
    by (auto simp: read_port_def bind_eq_Some_conv)
  from read_number_Some [OF ds(2)] have "CHR '':'' \<notin> set ds" by (auto simp: digit_no_colon)
  moreover from read_ipv4_Some [OF r(1)] obtain u where u: "listen = u @ r"
    "\<And>r'. no_digit r' \<Longrightarrow> read_ipv4 (u @ r') = Some r'" by blast
  ultimately have split: "rsplit_once (CHR '':'') listen = Some (u, ds)"
    by (simp add: rsplit_once_Some ds(1))
  then have re: "rebind_port listen p = u @ CHR '':'' # nat_str p" by (simp add: rebind_port_def)
  have "CHR '':'' \<notin> set (nat_str p)" using nat_str_digits [of p] by (simp add: digit_no_colon)
  then have "rsplit_once (CHR '':'') (rebind_port listen p) = Some (u, nat_str p)"
    by (simp add: rsplit_once_Some re)
  moreover have "read_socket_v4 (rebind_port listen p) = Some []"
    using assms(2) by (simp add: read_socket_v4_def re u(2) read_port_nat_str)
  ultimately show ?thesis by (simp add: is_socket_addr_def split)
qed

end
