(* ===== verification/Secrets.thy ===== *)
theory Secrets
  imports Config
begin

text \<open>
  The secrets backends of \<open>mosaicfs-common/src/secrets.rs\<close>, their selection, and the
  \<open>secrets import\<close> command of \<open>mosaicfs/src/main.rs\<close>. The trait is the record \<open>backend\<close>
  of its methods over a state; its contract is the locale \<open>secrets_backend\<close>, which both
  backends satisfy.

  A TOML document as \<open>toml_edit\<close> keeps it is a tree; its parser and printer are parameters.
  The keychain is a map of entries and the entries the system denies access to.
\<close>

section \<open>Names and errors\<close>

definition COUCHDB_URL :: string where "COUCHDB_URL = ''couchdb.url''"
definition COUCHDB_USER :: string where "COUCHDB_USER = ''couchdb.user''"
definition COUCHDB_PASSWORD :: string where "COUCHDB_PASSWORD = ''couchdb.password''"
definition CREDENTIALS_ACCESS_KEY_ID :: string where
  "CREDENTIALS_ACCESS_KEY_ID = ''credentials.access_key_id''"
definition CREDENTIALS_SECRET_KEY :: string where
  "CREDENTIALS_SECRET_KEY = ''credentials.secret_key''"

definition ALL_SECRET_NAMES :: "string list" where
  "ALL_SECRET_NAMES = [COUCHDB_URL, COUCHDB_USER, COUCHDB_PASSWORD, CREDENTIALS_ACCESS_KEY_ID,
     CREDENTIALS_SECRET_KEY]"

lemmas secret_names = ALL_SECRET_NAMES_def COUCHDB_URL_def COUCHDB_USER_def COUCHDB_PASSWORD_def
  CREDENTIALS_ACCESS_KEY_ID_def CREDENTIALS_SECRET_KEY_def

lemma distinct_secret_names: "distinct ALL_SECRET_NAMES"
  by (simp add: secret_names)

datatype secret_error =
  UnknownSecret string
| NoFilePath
| NotDotted string
| ReadFailed string
| ParseFailed string
| NotATable string
| WriteFailed string
| KeychainRead string
| KeychainWrite string
| KeychainList string
| OnlyMacos
| UnknownBackend string
| InlineActive

definition ensure_known :: "string \<Rightarrow> secret_error + unit" where
  "ensure_known name =
     (if name \<in> set ALL_SECRET_NAMES then Inr () else Inl (UnknownSecret name))"

record 'b backend =
  sb_kind :: string
  sb_get :: "'b \<Rightarrow> string \<Rightarrow> secret_error + string"
  sb_set :: "string \<Rightarrow> string \<Rightarrow> 'b \<Rightarrow> (secret_error + unit) \<times> 'b"
  sb_list :: "'b \<Rightarrow> secret_error + string list"

section \<open>TOML files\<close>

datatype toml_item = TStr string | TTable "(string \<times> toml_item) list" | TOther

type_synonym toml_doc = "(string \<times> toml_item) list"
type_synonym files = "string \<rightharpoonup> string"

text \<open>\<open>tf_write\<close> says how the write of a file ends.\<close>

record toml_files =
  tf_parse :: "string \<Rightarrow> toml_doc option"
  tf_print :: "toml_doc \<Rightarrow> string"
  tf_write :: "string \<Rightarrow> write_outcome"

definition load_doc :: "toml_files \<Rightarrow> files \<Rightarrow> string \<Rightarrow> secret_error + toml_doc" where
  "load_doc tf fs path =
     (case fs path of
        None \<Rightarrow> Inl (ReadFailed path)
      | Some text \<Rightarrow>
          (case tf_parse tf text of None \<Rightarrow> Inl (ParseFailed path) | Some d \<Rightarrow> Inr d))"

definition store_doc ::
  "toml_files \<Rightarrow> string \<Rightarrow> toml_doc \<Rightarrow> files \<Rightarrow> (secret_error + unit) \<times> files" where
  "store_doc tf path d fs =
     (case write_file (tf_write tf path) path (tf_print tf d) fs of
        (True, fs') \<Rightarrow> (Inr (), fs')
      | (False, fs') \<Rightarrow> (Inl (WriteFailed path), fs'))"

definition set_value :: "string \<Rightarrow> string \<Rightarrow> string \<Rightarrow> string \<Rightarrow> toml_doc \<Rightarrow> secret_error + toml_doc" where
  "set_value path section_name key v doc =
     (let doc1 = (if map_of doc section_name = None then doc @ [(section_name, TTable [])] else doc)
      in case map_of doc1 section_name of
           Some (TTable t) \<Rightarrow>
             Inr (AList.update section_name (TTable (AList.update key (TStr v) t)) doc1)
         | _ \<Rightarrow> Inl (NotATable path))"

definition write_inline_value ::
  "toml_files \<Rightarrow> string \<Rightarrow> string \<Rightarrow> string \<Rightarrow> files \<Rightarrow> (secret_error + unit) \<times> files" where
  "write_inline_value tf path name v fs =
     (case split_once (CHR ''.'') name of
        None \<Rightarrow> (Inl (NotDotted name), fs)
      | Some (section_name, key) \<Rightarrow>
          (case and_then (load_doc tf fs path) (set_value path section_name key v) of
             Inl e \<Rightarrow> (Inl e, fs)
           | Inr doc \<Rightarrow> store_doc tf path doc fs))"

definition inline_value :: "toml_doc \<Rightarrow> string \<Rightarrow> string option" where
  "inline_value doc name =
     (case split_once (CHR ''.'') name of
        None \<Rightarrow> None
      | Some (section_name, key) \<Rightarrow>
          (case map_of doc section_name of
             Some (TTable t) \<Rightarrow> (case map_of t key of Some (TStr v) \<Rightarrow> Some v | _ \<Rightarrow> None)
           | _ \<Rightarrow> None))"

definition read_inline_from_file ::
  "toml_files \<Rightarrow> files \<Rightarrow> string \<Rightarrow> secret_error + (string \<times> string) list" where
  "read_inline_from_file tf fs path =
     and_then (load_doc tf fs path) (\<lambda>doc.
       Inr (List.map_filter (\<lambda>name.
         case inline_value doc name of
           Some v \<Rightarrow> if v \<noteq> [] then Some (name, v) else None
         | None \<Rightarrow> None) ALL_SECRET_NAMES))"

definition blank_one :: "string \<Rightarrow> toml_doc \<Rightarrow> toml_doc" where
  "blank_one name doc =
     (case split_once (CHR ''.'') name of
        None \<Rightarrow> doc
      | Some (section_name, key) \<Rightarrow>
          (case map_of doc section_name of
             Some (TTable t) \<Rightarrow>
               if map_of t key \<noteq> None
               then AList.update section_name (TTable (AList.update key (TStr []) t)) doc else doc
           | _ \<Rightarrow> doc))"

fun check_names :: "string list \<Rightarrow> secret_error + unit" where
  "check_names [] = Inr ()"
| "check_names (n # ns) = and_then (ensure_known n) (\<lambda>_. check_names ns)"

definition blank_inline_in_file ::
  "toml_files \<Rightarrow> string \<Rightarrow> string list \<Rightarrow> files \<Rightarrow> (secret_error + unit) \<times> files" where
  "blank_inline_in_file tf path names fs =
     (case and_then (check_names names) (\<lambda>_. load_doc tf fs path) of
        Inl e \<Rightarrow> (Inl e, fs)
      | Inr doc \<Rightarrow> store_doc tf path (fold blank_one names doc) fs)"

section \<open>The inline backend\<close>

record inline_backend =
  ib_path :: "string option"
  ib_values :: "string \<rightharpoonup> string"

definition inline_from_config :: "mosaicfs_config \<Rightarrow> string option \<Rightarrow> inline_backend" where
  "inline_from_config cfg path =
     (let creds = unwrap_or (mc_credentials cfg) \<lparr>cc_access_key_id = [], cc_secret_key = []\<rparr> in
      \<lparr>ib_path = path,
       ib_values = [COUCHDB_URL \<mapsto> cd_url (mc_couchdb cfg), COUCHDB_USER \<mapsto> cd_user (mc_couchdb cfg),
         COUCHDB_PASSWORD \<mapsto> cd_password (mc_couchdb cfg),
         CREDENTIALS_ACCESS_KEY_ID \<mapsto> cc_access_key_id creds,
         CREDENTIALS_SECRET_KEY \<mapsto> cc_secret_key creds]\<rparr>)"

definition inline_get :: "inline_backend \<Rightarrow> string \<Rightarrow> secret_error + string" where
  "inline_get b name = and_then (ensure_known name) (\<lambda>_. Inr (unwrap_or (ib_values b name) []))"

definition inline_set ::
  "toml_files \<Rightarrow> string \<Rightarrow> string \<Rightarrow> inline_backend \<times> files \<Rightarrow>
     (secret_error + unit) \<times> inline_backend \<times> files" where
  "inline_set tf name v = (\<lambda>(b, fs).
     (case and_then (ensure_known name) (\<lambda>_.
             case ib_path b of None \<Rightarrow> Inl NoFilePath | Some p \<Rightarrow> Inr p) of
        Inl e \<Rightarrow> (Inl e, b, fs)
      | Inr path \<Rightarrow>
          (case write_inline_value tf path name v fs of
             (Inl e, fs') \<Rightarrow> (Inl e, b, fs')
           | (Inr _, fs') \<Rightarrow> (Inr (), b\<lparr>ib_values := (ib_values b)(name \<mapsto> v)\<rparr>, fs'))))"

definition inline_list :: "inline_backend \<Rightarrow> secret_error + string list" where
  "inline_list b =
     Inr (sort (filter (\<lambda>n. case ib_values b n of Some v \<Rightarrow> v \<noteq> [] | None \<Rightarrow> False) ALL_SECRET_NAMES))"

definition inline_ops :: "toml_files \<Rightarrow> (inline_backend \<times> files) backend" where
  "inline_ops tf =
     \<lparr>sb_kind = ''inline'', sb_get = (\<lambda>(b, _). inline_get b), sb_set = inline_set tf,
      sb_list = (\<lambda>(b, _). inline_list b)\<rparr>"

section \<open>The keychain backend\<close>

record keychain =
  kc_entries :: "string \<rightharpoonup> string"
  kc_denied :: "string \<Rightarrow> bool"

definition keychain_get :: "keychain \<Rightarrow> string \<Rightarrow> secret_error + string" where
  "keychain_get k name =
     and_then (ensure_known name) (\<lambda>_.
       if kc_denied k name then Inl (KeychainRead name)
       else (case kc_entries k name of Some v \<Rightarrow> Inr v | None \<Rightarrow> Inl (KeychainRead name)))"

definition keychain_set ::
  "string \<Rightarrow> string \<Rightarrow> keychain \<Rightarrow> (secret_error + unit) \<times> keychain" where
  "keychain_set name v k =
     (case ensure_known name of
        Inl e \<Rightarrow> (Inl e, k)
      | Inr _ \<Rightarrow>
          if kc_denied k name then (Inl (KeychainWrite name), k)
          else (Inr (), k\<lparr>kc_entries := (kc_entries k)(name \<mapsto> v)\<rparr>))"

fun keychain_scan :: "keychain \<Rightarrow> string list \<Rightarrow> secret_error + string list" where
  "keychain_scan k [] = Inr []"
| "keychain_scan k (n # ns) =
     (if kc_denied k n then Inl (KeychainList n)
      else and_then (keychain_scan k ns) (\<lambda>out.
        case kc_entries k n of
          Some v \<Rightarrow> Inr (if v \<noteq> [] then n # out else out)
        | None \<Rightarrow> Inr out))"

definition keychain_list :: "keychain \<Rightarrow> secret_error + string list" where
  "keychain_list k = keychain_scan k ALL_SECRET_NAMES"

definition keychain_ops :: "keychain backend" where
  "keychain_ops =
     \<lparr>sb_kind = ''keychain'', sb_get = keychain_get, sb_set = keychain_set, sb_list = keychain_list\<rparr>"

section \<open>Selection\<close>

datatype opened_backend = Inline inline_backend | Keychain

definition open_backend ::
  "bool \<Rightarrow> mosaicfs_config \<Rightarrow> string option \<Rightarrow> secret_error + opened_backend" where
  "open_backend macos cfg config_path =
     (if mc_secrets_manager cfg = ''inline'' then Inr (Inline (inline_from_config cfg config_path))
      else if mc_secrets_manager cfg = ''keychain''
      then (if macos then Inr Keychain else Inl OnlyMacos)
      else Inl (UnknownBackend (mc_secrets_manager cfg)))"

section \<open>Import\<close>

text \<open>The loop of \<open>secrets_import\<close>; each value is looked up again by its name.\<close>

fun import_loop ::
  "'b backend \<Rightarrow> (string \<times> string) list \<Rightarrow> (string \<times> string) list \<Rightarrow> 'b \<Rightarrow> (secret_error + unit) \<times> 'b" where
  "import_loop ops inline [] b = (Inr (), b)"
| "import_loop ops inline ((name, _) # rest) b =
     (case sb_set ops name (the (map_of inline name)) b of
        (Inl e, b') \<Rightarrow> (Inl e, b')
      | (Inr _, b') \<Rightarrow> import_loop ops inline rest b')"

text \<open>\<open>proceed\<close> is the answer to the question whether to blank the file.\<close>

definition secrets_import ::
  "toml_files \<Rightarrow> 'b backend \<Rightarrow> string \<Rightarrow> bool \<Rightarrow> 'b \<Rightarrow> files \<Rightarrow> (secret_error + unit) \<times> 'b \<times> files" where
  "secrets_import tf ops config_path proceed b fs =
     (if sb_kind ops = ''inline'' then (Inl InlineActive, b, fs)
      else
        (case read_inline_from_file tf fs config_path of
           Inl e \<Rightarrow> (Inl e, b, fs)
         | Inr inline \<Rightarrow>
             if inline = [] then (Inr (), b, fs)
             else
               (case import_loop ops inline inline b of
                  (Inl e, b') \<Rightarrow> (Inl e, b', fs)
                | (Inr _, b') \<Rightarrow>
                    if proceed
                    then (let (r, fs') = blank_inline_in_file tf config_path (map fst inline) fs
                          in (r, b', fs'))
                    else (Inr (), b', fs))))"

section \<open>The contract of a backend\<close>

locale secrets_backend =
  fixes ops :: "'b backend"
  assumes get_unknown: "name \<notin> set ALL_SECRET_NAMES \<Longrightarrow> sb_get ops b name = Inl (UnknownSecret name)"
    and set_unknown: "name \<notin> set ALL_SECRET_NAMES \<Longrightarrow>
      sb_set ops name v b = (Inl (UnknownSecret name), b)"
    and get_set: "sb_set ops name v b = (Inr (), b') \<Longrightarrow>
      sb_get ops b' n = (if n = name then Inr v else sb_get ops b n)"
    and get_failed: "sb_set ops name v b = (Inl e, b') \<Longrightarrow> sb_get ops b' n = sb_get ops b n"
    and list_distinct: "sb_list ops b = Inr ns \<Longrightarrow> distinct ns"
    and list_get: "sb_list ops b = Inr ns \<Longrightarrow>
      n \<in> set ns \<longleftrightarrow> (\<exists>v. v \<noteq> [] \<and> sb_get ops b n = Inr v)"
begin

text \<open>After an import every imported name has its value and no other name changed.\<close>

lemma import_get:
  "import_loop ops inline rest b = (Inr (), b') \<Longrightarrow>
     sb_get ops b' n = (if n \<in> fst ` set rest then Inr (the (map_of inline n)) else sb_get ops b n)"
proof (induction rest arbitrary: b)
  case Nil
  then show ?case by simp
next
  case (Cons nv rest)
  obtain name v where nv: "nv = (name, v)" by fastforce
  obtain r b1 where set: "sb_set ops name (the (map_of inline name)) b = (r, b1)" by fastforce
  with Cons.prems nv have "r = Inr ()" and rest: "import_loop ops inline rest b1 = (Inr (), b')"
    by (cases r; simp)+
  from Cons.IH [OF rest] get_set [OF set [unfolded \<open>r = Inr ()\<close>]] show ?case
    by (auto simp: nv)
qed

text \<open>What is listed after a successful write: the old names and the new one, if not empty.\<close>

lemma list_after_set:
  assumes "sb_set ops name v b = (Inr (), b')" "sb_list ops b = Inr ns" "sb_list ops b' = Inr ns'"
  shows "set ns' = (if v = [] then set ns - {name} else insert name (set ns))"
  using list_get [OF assms(2)] list_get [OF assms(3)] get_set [OF assms(1)]
  by (auto split: if_splits)

end

lemma ensure_known_Inr: "ensure_known name = Inr u \<longleftrightarrow> name \<in> set ALL_SECRET_NAMES"
  by (simp add: ensure_known_def)

lemma inline_set_Inr:
  assumes "inline_set tf name v (b, fs) = (Inr (), b', fs')"
  shows "name \<in> set ALL_SECRET_NAMES \<and> ib_path b' = ib_path b \<and>
    ib_values b' = (ib_values b)(name \<mapsto> v) \<and>
    (\<exists>path. ib_path b = Some path \<and> write_inline_value tf path name v fs = (Inr (), fs'))"
  using assms
  by (auto simp: inline_set_def ensure_known_def split: if_splits option.splits sum.splits prod.splits)

lemma inline_set_Inl:
  "inline_set tf name v (b, fs) = (Inl e, b', fs') \<Longrightarrow> b' = b"
  by (auto simp: inline_set_def split: sum.splits prod.splits)

interpretation inline: secrets_backend "inline_ops tf" for tf
proof
  fix name v n and b b' :: "inline_backend \<times> files" and e
  show "name \<notin> set ALL_SECRET_NAMES \<Longrightarrow> sb_get (inline_ops tf) b name = Inl (UnknownSecret name)"
    by (cases b) (simp add: inline_ops_def inline_get_def ensure_known_def)
  show "name \<notin> set ALL_SECRET_NAMES \<Longrightarrow>
      sb_set (inline_ops tf) name v b = (Inl (UnknownSecret name), b)"
    by (cases b) (simp add: inline_ops_def inline_set_def ensure_known_def)
  show "sb_set (inline_ops tf) name v b = (Inr (), b') \<Longrightarrow>
      sb_get (inline_ops tf) b' n = (if n = name then Inr v else sb_get (inline_ops tf) b n)"
    by (cases b; cases b')
      (auto simp: inline_ops_def inline_get_def ensure_known_def dest!: inline_set_Inr)
  show "sb_set (inline_ops tf) name v b = (Inl e, b') \<Longrightarrow>
      sb_get (inline_ops tf) b' n = sb_get (inline_ops tf) b n"
    by (cases b; cases b') (auto simp: inline_ops_def dest!: inline_set_Inl)
next
  fix b :: "inline_backend \<times> files" and ns n
  assume "sb_list (inline_ops tf) b = Inr ns"
  then show "distinct ns"
    by (cases b) (auto simp: inline_ops_def inline_list_def secret_names)
next
  fix b :: "inline_backend \<times> files" and ns n
  assume "sb_list (inline_ops tf) b = Inr ns"
  then show "n \<in> set ns \<longleftrightarrow> (\<exists>v. v \<noteq> [] \<and> sb_get (inline_ops tf) b n = Inr v)"
    by (cases b; cases "ib_values (fst b) n")
      (auto simp: inline_ops_def inline_list_def inline_get_def ensure_known_def)
qed

lemma keychain_scan_set:
  "keychain_scan k names = Inr ns \<Longrightarrow>
     ns = filter (\<lambda>n. case kc_entries k n of Some v \<Rightarrow> v \<noteq> [] | None \<Rightarrow> False) names \<and>
     (\<forall>n \<in> set names. \<not> kc_denied k n)"
  by (induction names arbitrary: ns) (auto simp: and_then_Inr split: if_splits option.splits)

interpretation keychain: secrets_backend keychain_ops
proof
  fix name v n and b b' :: keychain and e
  show "name \<notin> set ALL_SECRET_NAMES \<Longrightarrow> sb_get keychain_ops b name = Inl (UnknownSecret name)"
    by (simp add: keychain_ops_def keychain_get_def ensure_known_def)
  show "name \<notin> set ALL_SECRET_NAMES \<Longrightarrow>
      sb_set keychain_ops name v b = (Inl (UnknownSecret name), b)"
    by (simp add: keychain_ops_def keychain_set_def ensure_known_def)
  show "sb_set keychain_ops name v b = (Inr (), b') \<Longrightarrow>
      sb_get keychain_ops b' n = (if n = name then Inr v else sb_get keychain_ops b n)"
    by (auto simp: keychain_ops_def keychain_set_def keychain_get_def ensure_known_def
        split: if_splits)
  show "sb_set keychain_ops name v b = (Inl e, b') \<Longrightarrow>
      sb_get keychain_ops b' n = sb_get keychain_ops b n"
    by (auto simp: keychain_ops_def keychain_set_def split: sum.splits if_splits)
next
  fix b :: keychain and ns n
  assume "sb_list keychain_ops b = Inr ns"
  then have "keychain_scan b ALL_SECRET_NAMES = Inr ns"
    by (simp add: keychain_ops_def keychain_list_def)
  note scan = keychain_scan_set [OF this]
  then show "distinct ns" by (simp add: secret_names)
  show "n \<in> set ns \<longleftrightarrow> (\<exists>v. v \<noteq> [] \<and> sb_get keychain_ops b n = Inr v)"
    using scan by (cases "kc_entries b n")
      (auto simp: keychain_ops_def keychain_get_def and_then_Inr ensure_known_Inr)
qed

section \<open>Reading back what was written\<close>

definition toml_codec :: "toml_files \<Rightarrow> bool" where
  "toml_codec tf \<longleftrightarrow> (\<forall>d. tf_parse tf (tf_print tf d) = Some d)"

lemma store_doc_Inr:
  "store_doc tf path d fs = (Inr (), fs') \<Longrightarrow> toml_codec tf \<Longrightarrow> load_doc tf fs' path = Inr d"
  by (auto simp: store_doc_def load_doc_def toml_codec_def write_file_True split: prod.splits bool.splits)

lemma store_doc_other:
  "store_doc tf path d fs = (r, fs') \<Longrightarrow> q \<noteq> path \<Longrightarrow> fs' q = fs q"
  by (auto simp: store_doc_def write_file_def split: write_outcome.splits)

text \<open>A dotted name is determined by its two halves.\<close>

lemma split_name_inj:
  "split_once c n = Some (s, k) \<Longrightarrow> split_once c m = Some (s, k) \<Longrightarrow> n = m"
  by (simp add: split_once_Some)

lemma inline_value_set:
  assumes "split_once (CHR ''.'') name = Some (sec, key)" "set_value path sec key v doc = Inr doc'"
  shows "inline_value doc' n = (if n = name then Some v else inline_value doc n)"
proof -
  obtain t where t: "doc' = AList.update sec (TTable (AList.update key (TStr v) t))
      (if map_of doc sec = None then doc @ [(sec, TTable [])] else doc)"
    and old: "map_of doc sec = Some (TTable t) \<or> map_of doc sec = None \<and> t = []"
    using assms(2)
    by (auto simp: set_value_def Let_def map_add_def split: if_splits option.splits toml_item.splits)
  have doc': "map_of doc' s = (if s = sec then Some (TTable (AList.update key (TStr v) t))
      else map_of doc s)" for s
    by (auto simp: t update_conv' map_add_def split: option.split)
  show ?thesis
  proof (cases "split_once (CHR ''.'') n")
    case None
    with assms(1) show ?thesis by (auto simp: inline_value_def)
  next
    case (Some sk)
    obtain s k where sk: "sk = (s, k)" by fastforce
    show ?thesis
    proof (cases "n = name")
      case True
      with assms(1) show ?thesis by (simp add: inline_value_def doc' update_conv')
    next
      case False
      with Some sk assms(1) have "s \<noteq> sec \<or> k \<noteq> key" by (metis split_name_inj)
      with Some sk old False show ?thesis
        by (auto simp: inline_value_def doc' update_conv' split: option.split)
    qed
  qed
qed

lemma inline_value_blank_other:
  assumes "n \<noteq> name"
  shows "inline_value (blank_one name doc) n = inline_value doc n"
proof (cases "split_once (CHR ''.'') name")
  case None
  then show ?thesis by (simp add: blank_one_def)
next
  case (Some sk)
  obtain sec key where sk: "sk = (sec, key)" by fastforce
  show ?thesis
  proof (cases "split_once (CHR ''.'') n")
    case None
    then show ?thesis by (simp add: inline_value_def)
  next
    case n: (Some sk')
    obtain s k where sk': "sk' = (s, k)" by fastforce
    have "s \<noteq> sec \<or> k \<noteq> key" using n Some sk sk' assms by (metis split_name_inj)
    with n Some sk sk' show ?thesis
      by (auto simp: inline_value_def blank_one_def update_conv' split: option.split toml_item.split)
  qed
qed

lemma inline_value_blank_same:
  "inline_value doc name = Some v \<Longrightarrow> inline_value (blank_one name doc) name = Some []"
  by (auto simp: inline_value_def blank_one_def update_conv' split: option.splits toml_item.splits prod.splits)

lemma inline_value_blank_all:
  "\<forall>m \<in> set names. inline_value doc m \<noteq> None \<Longrightarrow>
     inline_value (fold blank_one names doc) n =
       (if n \<in> set names then Some [] else inline_value doc n)"
proof (induction names arbitrary: doc)
  case Nil
  then show ?case by simp
next
  case (Cons m names)
  then obtain v where v: "inline_value doc m = Some v" by auto
  have blank: "inline_value (blank_one m doc) k = (if k = m then Some [] else inline_value doc k)" for k
    using inline_value_blank_same [OF v] inline_value_blank_other by auto
  from Cons.prems have "\<forall>k \<in> set names. inline_value (blank_one m doc) k \<noteq> None"
    by (simp add: blank)
  from Cons.IH [OF this] show ?case by (simp add: blank)
qed

lemma in_read_inline:
  "(n, v) \<in> set (List.map_filter (\<lambda>name. case inline_value doc name of
        Some v \<Rightarrow> if v \<noteq> [] then Some (name, v) else None | None \<Rightarrow> None) names) \<longleftrightarrow>
     n \<in> set names \<and> inline_value doc n = Some v \<and> v \<noteq> []"
  by (induction names) (auto simp: List.map_filter_simps split: option.splits)

lemma read_inline_Inr:
  "read_inline_from_file tf fs path = Inr inline \<longleftrightarrow>
     (\<exists>doc. load_doc tf fs path = Inr doc \<and>
        inline = List.map_filter (\<lambda>name. case inline_value doc name of
          Some v \<Rightarrow> if v \<noteq> [] then Some (name, v) else None | None \<Rightarrow> None) ALL_SECRET_NAMES)"
  by (auto simp: read_inline_from_file_def and_then_Inr)

lemma distinct_read_inline:
  "distinct (map fst (List.map_filter (\<lambda>name. case inline_value doc name of
        Some v \<Rightarrow> if v \<noteq> [] then Some (name, v) else None | None \<Rightarrow> None) names))"
  if "distinct names" for names :: "string list"
  using that
proof (induction names)
  case (Cons n names)
  have "n \<notin> fst ` set (List.map_filter (\<lambda>name. case inline_value doc name of
        Some v \<Rightarrow> if v \<noteq> [] then Some (name, v) else None | None \<Rightarrow> None) names)"
    using Cons.prems by (auto simp: in_read_inline)
  with Cons show ?case by (auto split: option.split)
qed simp

lemma blank_leaves_none:
  assumes "load_doc tf fs' path = Inr (fold blank_one (map fst inline) doc)"
    and inline: "inline = List.map_filter (\<lambda>name. case inline_value doc name of
          Some v \<Rightarrow> if v \<noteq> [] then Some (name, v) else None | None \<Rightarrow> None) ALL_SECRET_NAMES"
  shows "read_inline_from_file tf fs' path = Inr []"
proof -
  have "\<forall>m \<in> set (map fst inline). inline_value doc m \<noteq> None"
    by (auto simp: inline in_read_inline)
  note after = inline_value_blank_all [OF this]
  let ?l = "List.map_filter (\<lambda>name. case inline_value (fold blank_one (map fst inline) doc) name of
    Some v \<Rightarrow> if v \<noteq> [] then Some (name, v) else None | None \<Rightarrow> None) ALL_SECRET_NAMES"
  have "set ?l = {}"
  proof (rule equals0I)
    fix nv assume "nv \<in> set ?l"
    moreover obtain n v where "nv = (n, v)" by fastforce
    ultimately have "n \<in> set ALL_SECRET_NAMES \<and>
        inline_value (fold blank_one (map fst inline) doc) n = Some v \<and> v \<noteq> []"
      by (simp only: in_read_inline) blast
    then have "n \<notin> set (map fst inline)" "(n, v) \<in> set inline"
      using after [of n] unfolding inline in_read_inline by (auto split: if_splits)
    then show False by force
  qed
  with assms(1) show ?thesis by (auto simp: read_inline_Inr)
qed

section \<open>A concrete document format\<close>

text \<open>A prefix notation for documents with its parser, an instance of the parameters.\<close>

fun put_str :: "string \<Rightarrow> string" where
  "put_str [] = ''.''"
| "put_str (c # cs) = CHR ''c'' # c # put_str cs"

fun get_str :: "string \<Rightarrow> (string \<times> string) option" where
  "get_str (a # r) =
     (if a = CHR ''.'' then Some ([], r)
      else (case r of
              c # r' \<Rightarrow> map_option (\<lambda>(s, r''). (c # s, r'')) (get_str r')
            | [] \<Rightarrow> None))"
| "get_str [] = None"

fun put_item :: "toml_item \<Rightarrow> string" and put_doc :: "toml_doc \<Rightarrow> string" where
  "put_item TOther = ''O''"
| "put_item (TStr s) = CHR ''S'' # put_str s"
| "put_item (TTable d) = CHR ''T'' # put_doc d"
| "put_doc [] = ''E''"
| "put_doc ((k, v) # d) = CHR ''C'' # put_str k @ put_item v @ put_doc d"

fun get_item :: "nat \<Rightarrow> string \<Rightarrow> (toml_item \<times> string) option"
  and get_doc :: "nat \<Rightarrow> string \<Rightarrow> (toml_doc \<times> string) option" where
  "get_item (Suc n) (a # r) =
     (if a = CHR ''O'' then Some (TOther, r)
      else if a = CHR ''S'' then map_option (\<lambda>(s, r'). (TStr s, r')) (get_str r)
      else map_option (\<lambda>(d, r'). (TTable d, r')) (get_doc n r))"
| "get_item _ _ = None"
| "get_doc (Suc n) (a # r) =
     (if a = CHR ''E'' then Some ([], r)
      else do {
        (k, r1) \<leftarrow> get_str r;
        (v, r2) \<leftarrow> get_item n r1;
        (d, r3) \<leftarrow> get_doc n r2;
        Some ((k, v) # d, r3)
      })"
| "get_doc _ _ = None"

lemma get_put_str: "get_str (put_str s @ r) = Some (s, r)"
  by (induction s) simp_all

lemma get_put:
  "length (put_item i) \<le> n \<Longrightarrow> get_item n (put_item i @ r) = Some (i, r)"
  "length (put_doc d) \<le> n \<Longrightarrow> get_doc n (put_doc d @ r) = Some (d, r)"
proof (induction i and d arbitrary: n r and n r rule: put_item_put_doc.induct)
  case 1
  then show ?case by (cases n) simp_all
next
  case (2 s)
  then show ?case by (cases n) (simp_all add: get_put_str)
next
  case (3 d)
  then show ?case by (cases n) simp_all
next
  case 4
  then show ?case by (cases n) simp_all
next
  case (5 k v d)
  then show ?case by (cases n) (simp_all add: get_put_str)
qed

definition sample_toml :: toml_files where
  "sample_toml = \<lparr>tf_parse = (\<lambda>s. map_option fst (get_doc (length s) s)), tf_print = put_doc,
     tf_write = (\<lambda>_. Written)\<rparr>"

lemma sample_toml_codec: "toml_codec sample_toml"
  using get_put(2) [where r = "[]"] by (simp add: toml_codec_def sample_toml_def)

definition sample_doc_text :: string where
  "sample_doc_text = put_doc [(''couchdb'', TTable [(''url'', TStr ''u''), (''port'', TOther)])]"

section \<open>Properties\<close>

text \<open>A secret set through the inline backend is what the backend then returns and what the file
  holds when it is read again; every other secret keeps its value in both.\<close>

lemma inline_set_persists:
  assumes "toml_codec tf" "ib_path b = Some path" "load_doc tf fs path = Inr doc"
    and "inline_set tf name v (b, fs) = (Inr (), b', fs')"
  shows "inline_get b' name = Inr v \<and>
    (\<exists>doc'. load_doc tf fs' path = Inr doc' \<and> inline_value doc' name = Some v \<and>
       (\<forall>n. n = name \<or> inline_value doc' n = inline_value doc n \<and> inline_get b' n = inline_get b n))"
proof -
  from inline_set_Inr [OF assms(4)] assms(2) have known: "name \<in> set ALL_SECRET_NAMES"
    and vals: "ib_values b' = (ib_values b)(name \<mapsto> v)"
    and wr: "write_inline_value tf path name v fs = (Inr (), fs')" by auto
  from wr assms(3) obtain sec key doc' where
    "split_once (CHR ''.'') name = Some (sec, key)" "set_value path sec key v doc = Inr doc'"
    "store_doc tf path doc' fs = (Inr (), fs')"
    by (auto simp: write_inline_value_def split: option.splits sum.splits)
  with inline_value_set [of name sec key path v doc doc'] store_doc_Inr [of tf path doc' fs fs']
  show ?thesis
    using assms(1) known vals by (auto simp: inline_get_def ensure_known_def)
qed

text \<open>A file whose secrets have been blanked holds none.\<close>

lemma blanked_file:
  assumes "toml_codec tf" "read_inline_from_file tf fs path = Inr inline"
    and blank: "blank_inline_in_file tf path (map fst inline) fs = (Inr (), fs')"
  shows "read_inline_from_file tf fs' path = Inr []"
proof -
  from assms(2) obtain doc where doc: "load_doc tf fs path = Inr doc"
    and inline: "inline = List.map_filter (\<lambda>name. case inline_value doc name of
          Some v \<Rightarrow> if v \<noteq> [] then Some (name, v) else None | None \<Rightarrow> None) ALL_SECRET_NAMES"
    by (auto simp: read_inline_Inr)
  have stored: "store_doc tf path (fold blank_one (map fst inline) doc) fs = (Inr (), fs')"
    using blank doc by (auto simp: blank_inline_in_file_def and_then_Inr split: sum.splits)
  show ?thesis
    using blank_leaves_none [of tf fs' path inline doc] store_doc_Inr [OF stored assms(1)] inline by simp
qed

lemma imported_values:
  assumes "read_inline_from_file tf fs path = Inr inline" "import_loop keychain_ops inline inline k = (Inr (), k')"
    and "(n, v) \<in> set inline"
  shows "keychain_get k' n = Inr v"
proof -
  from assms(1) have "distinct (map fst inline)"
    using distinct_read_inline [OF distinct_secret_names] by (auto simp: read_inline_Inr)
  with assms(3) have "map_of inline n = Some v" by simp
  with keychain.import_get [OF assms(2), of n] assms(3) show ?thesis
    by (auto simp: keychain_ops_def intro: rev_image_eqI)
qed

text \<open>The five secrets as the file holds them, by section and key.\<close>

definition secret_fields :: "(string \<times> string \<times> string) set" where
  "secret_fields =
     {(''couchdb.url'', ''couchdb'', ''url''), (''couchdb.user'', ''couchdb'', ''user''),
      (''couchdb.password'', ''couchdb'', ''password''),
      (''credentials.access_key_id'', ''credentials'', ''access_key_id''),
      (''credentials.secret_key'', ''credentials'', ''secret_key'')}"

definition file_secret :: "toml_doc \<Rightarrow> string \<Rightarrow> string \<Rightarrow> bool" where
  "file_secret doc name v \<longleftrightarrow> v \<noteq> [] \<and>
     (\<exists>sec key t. (name, sec, key) \<in> secret_fields \<and> map_of doc sec = Some (TTable t) \<and>
        map_of t key = Some (TStr v))"

lemma secret_name_fields:
  "name \<in> set ALL_SECRET_NAMES \<and> split_once (CHR ''.'') name = Some (sec, key) \<longleftrightarrow> (name, sec, key) \<in> secret_fields"
proof -
  have "(name, sec, key) \<in> secret_fields" if "name \<in> set ALL_SECRET_NAMES" "split_once (CHR ''.'') name = Some (sec, key)"
  proof -
    from that(1) have "name = ''couchdb.url'' \<or> name = ''couchdb.user'' \<or> name = ''couchdb.password'' \<or>
        name = ''credentials.access_key_id'' \<or> name = ''credentials.secret_key''"
      unfolding secret_names by (simp only: list.set insert_iff empty_iff simp_thms)
    then show ?thesis using that(2) by (elim disjE) (simp_all add: secret_fields_def)
  qed
  moreover have "name \<in> set ALL_SECRET_NAMES \<and> split_once (CHR ''.'') name = Some (sec, key)"
    if "(name, sec, key) \<in> secret_fields"
    using that unfolding secret_fields_def by (elim insertE emptyE) (simp_all add: secret_names)
  ultimately show ?thesis by blast
qed

lemma file_secret_iff:
  "file_secret doc n v \<longleftrightarrow> n \<in> set ALL_SECRET_NAMES \<and> inline_value doc n = Some v \<and> v \<noteq> []"
  unfolding file_secret_def secret_name_fields [symmetric]
  by (auto simp: inline_value_def split: option.splits toml_item.splits)

lemma read_inline_secrets:
  assumes "load_doc tf fs path = Inr doc" "read_inline_from_file tf fs path = Inr inline"
  shows "(n, v) \<in> set inline \<longleftrightarrow> file_secret doc n v"
  using assms by (auto simp: read_inline_Inr in_read_inline file_secret_iff)

text \<open>Blanking leaves every other field, and every section that is not a table.\<close>

definition same_but_secrets :: "toml_doc \<Rightarrow> toml_doc \<Rightarrow> bool" where
  "same_but_secrets doc doc' \<longleftrightarrow>
     (\<forall>sec t. map_of doc sec = Some (TTable t) \<longrightarrow> (\<exists>t'. map_of doc' sec = Some (TTable t') \<and>
        (\<forall>key. (\<exists>name. (name, sec, key) \<in> secret_fields) \<or> map_of t' key = map_of t key))) \<and>
     (\<forall>sec. (\<nexists>t. map_of doc sec = Some (TTable t)) \<longrightarrow> map_of doc' sec = map_of doc sec)"

lemma same_but_secrets_refl: "same_but_secrets doc doc"
  by (auto simp: same_but_secrets_def)

lemma same_but_secrets_blank:
  assumes "same_but_secrets doc d" "name \<in> set ALL_SECRET_NAMES"
  shows "same_but_secrets doc (blank_one name d)"
proof (cases "split_once (CHR ''.'') name")
  case None
  with assms show ?thesis by (simp add: blank_one_def)
next
  case (Some sk)
  obtain sec key where sk: "split_once (CHR ''.'') name = Some (sec, key)" using Some by (cases sk) auto
  with assms(2) have field: "(name, sec, key) \<in> secret_fields" by (simp add: secret_name_fields [symmetric])
  show ?thesis
  proof (cases "\<exists>t. map_of d sec = Some (TTable t) \<and> map_of t key \<noteq> None")
    case False
    then have "blank_one name d = d" by (auto simp: blank_one_def sk split: option.split toml_item.split)
    with assms(1) show ?thesis by simp
  next
    case True
    then obtain t where t: "map_of d sec = Some (TTable t)" "map_of t key \<noteq> None" by blast
    then have blank: "map_of (blank_one name d) = (map_of d)(sec \<mapsto> TTable (AList.update key (TStr []) t))"
      by (auto simp: blank_one_def sk update_conv')
    have table: "\<exists>u. map_of doc sec = Some (TTable u)" using assms(1) t(1) by (auto simp: same_but_secrets_def)
    have "\<exists>t'. map_of (blank_one name d) s = Some (TTable t') \<and>
        (\<forall>k. (\<exists>name. (name, s, k) \<in> secret_fields) \<or> map_of t' k = map_of u k)"
      if u: "map_of doc s = Some (TTable u)" for s u
    proof (cases "s = sec")
      case False
      with assms(1) u show ?thesis by (simp add: same_but_secrets_def blank)
    next
      case True
      with assms(1) u obtain t' where "map_of d sec = Some (TTable t')"
        "\<forall>k. (\<exists>name. (name, sec, k) \<in> secret_fields) \<or> map_of t' k = map_of u k"
        unfolding same_but_secrets_def by blast
      with t(1) have "(\<exists>name. (name, sec, k) \<in> secret_fields) \<or> map_of t k = map_of u k" for k by simp
      with True field show ?thesis by (auto simp: blank update_conv')
    qed
    moreover have "map_of (blank_one name d) s = map_of doc s" if "\<nexists>u. map_of doc s = Some (TTable u)" for s
    proof -
      from that table have "s \<noteq> sec" by blast
      with that assms(1) show ?thesis by (simp add: same_but_secrets_def blank)
    qed
    ultimately show ?thesis by (simp add: same_but_secrets_def)
  qed
qed

lemma same_but_secrets_blanks:
  "same_but_secrets doc d \<Longrightarrow> set names \<subseteq> set ALL_SECRET_NAMES \<Longrightarrow> same_but_secrets doc (fold blank_one names d)"
  by (induction names arbitrary: d) (simp_all add: same_but_secrets_blank)

lemma import_other_entries:
  "import_loop keychain_ops inline rest k = (r, k') \<Longrightarrow> n \<notin> fst ` set rest \<Longrightarrow> kc_entries k' n = kc_entries k n"
proof (induction rest arbitrary: k)
  case Nil
  then show ?case by simp
next
  case (Cons nv rest)
  obtain name v where nv: "nv = (name, v)" by fastforce
  obtain r1 k1 where set: "keychain_set name (the (map_of inline name)) k = (r1, k1)" by fastforce
  with Cons.prems(2) nv have k1: "kc_entries k1 n = kc_entries k n"
    by (auto simp: keychain_set_def split: sum.splits if_splits)
  show ?case
  proof (cases r1)
    case (Inl e)
    with set Cons.prems(1) nv k1 show ?thesis by (simp add: keychain_ops_def)
  next
    case (Inr u)
    with set Cons.prems(1) nv have "import_loop keychain_ops inline rest k1 = (r, k')" by (simp add: keychain_ops_def)
    from Cons.IH [OF this] Cons.prems(2) k1 show ?thesis by simp
  qed
qed

lemma blank_inline_loaded:
  assumes "load_doc tf fs path = Inr doc" "set names \<subseteq> set ALL_SECRET_NAMES"
  shows "blank_inline_in_file tf path names fs = store_doc tf path (fold blank_one names doc) fs"
proof -
  have "check_names names = Inr ()" using assms(2)
    by (induction names) (simp_all add: ensure_known_def)
  with assms(1) show ?thesis by (simp add: blank_inline_in_file_def)
qed



end
