(* ===== verification/Notifications.thy ===== *)
theory Notifications
  imports Couch
begin

text \<open>
  The notification publisher of \<open>mosaicfs-common/src/notifications.rs\<close>. The clock is the
  argument \<open>now\<close>, already printed. A failed write is only logged. \<open>None\<close> is the panic of
  an indexed assignment on a document that is not an object.
\<close>

definition notification_id :: "string \<Rightarrow> string \<Rightarrow> string" where
  "notification_id node_id condition_key = ''notification::'' @ node_id @ ''::'' @ condition_key"

text \<open>The count is an \<open>i64\<close>, whose addition wraps in a release build.\<close>

definition succ_i64 :: "int \<Rightarrow> int" where
  "succ_i64 n = (if n = 2 ^ 63 - 1 then - (2 ^ 63) else n + 1)"

definition notification_doc ::
  "string \<Rightarrow> string \<Rightarrow> string \<Rightarrow> string \<Rightarrow> string \<Rightarrow> string \<Rightarrow> json list option \<Rightarrow> string \<Rightarrow>
     json option \<Rightarrow> json" where
  "notification_doc node_id component condition_key severity title message actions now existing =
     (let (first_seen, occurrence_count, rv) =
            (case existing of
               Some doc \<Rightarrow>
                 (unwrap_or (jget_str ''first_seen'' doc) now,
                  succ_i64 (unwrap_or (Option.bind (jget ''occurrence_count'' doc) as_i64) 0),
                  jget_str ''_rev'' doc)
             | None \<Rightarrow> (now, 1, None))
      in JObj
        ([(''_id'', JStr (notification_id node_id condition_key)),
          (''type'', JStr ''notification''),
          (''source'', JObj [(''node_id'', JStr node_id), (''component'', JStr component)]),
          (''condition_key'', JStr condition_key), (''severity'', JStr severity),
          (''status'', JStr ''active''), (''title'', JStr title), (''message'', JStr message),
          (''first_seen'', JStr first_seen), (''last_seen'', JStr now),
          (''occurrence_count'', num_of_int occurrence_count)] @
         (case actions of Some acts \<Rightarrow> [(''actions'', JArr acts)] | None \<Rightarrow> []) @
         (case rv of Some r \<Rightarrow> [(''_rev'', JStr r)] | None \<Rightarrow> [])))"

definition emit_notification ::
  "'s couch \<Rightarrow> string \<Rightarrow> string \<Rightarrow> string \<Rightarrow> string \<Rightarrow> string \<Rightarrow> string \<Rightarrow> json list option \<Rightarrow>
     string \<Rightarrow> 's \<Rightarrow> 's" where
  "emit_notification db node_id component condition_key severity title message actions now s =
     (let (existing, s1) = db_get db (notification_id node_id condition_key) s;
          doc = notification_doc node_id component condition_key severity title message actions
                  now (ok existing)
      in snd (db_put db (notification_id node_id condition_key) doc s1))"

definition resolve_notification ::
  "'s couch \<Rightarrow> string \<Rightarrow> string \<Rightarrow> string \<Rightarrow> 's \<Rightarrow> unit option \<times> 's" where
  "resolve_notification db node_id condition_key now s =
     (case db_get db (notification_id node_id condition_key) s of
        (Inl _, s1) \<Rightarrow> (Some (), s1)
      | (Inr doc, s1) \<Rightarrow>
          if unwrap_or (jget_str ''status'' doc) [] = ''resolved'' then (Some (), s1)
          else
            (case Option.bind (jset ''status'' (JStr ''resolved'') doc) (jset ''resolved_at'' (JStr now)) of
               None \<Rightarrow> (None, s1)
             | Some doc' \<Rightarrow>
                 (Some (), snd (db_put db (notification_id node_id condition_key) doc' s1))))"

definition emit_control_plane_notification ::
  "'s couch \<Rightarrow> string \<Rightarrow> string \<Rightarrow> string \<Rightarrow> string \<Rightarrow> string \<Rightarrow> string \<Rightarrow> 's \<Rightarrow> 's" where
  "emit_control_plane_notification db component condition_key severity title message now s =
     emit_notification db ''control_plane'' component condition_key severity title message None now s"

definition resolve_control_plane_notification ::
  "'s couch \<Rightarrow> string \<Rightarrow> string \<Rightarrow> 's \<Rightarrow> unit option \<times> 's" where
  "resolve_control_plane_notification db condition_key now s =
     resolve_notification db ''control_plane'' condition_key now s"

section \<open>Repeated emission\<close>

text \<open>The document of the \<open>n\<close>-th emission, each one finding its predecessor.\<close>

fun emissions :: "(json option \<Rightarrow> string \<Rightarrow> json) \<Rightarrow> string list \<Rightarrow> json option" where
  "emissions publish [] = None"
| "emissions publish (now # earlier) = Some (publish (emissions publish earlier) now)"

definition count_of :: "json \<Rightarrow> int option" where
  "count_of doc = Option.bind (jget ''occurrence_count'' doc) as_i64"

lemma notification_doc_fields:
  fixes node part key sev title msg acts now ex
  defines "d \<equiv> notification_doc node part key sev title msg acts now ex"
  shows "jget_str ''status'' d = Some ''active''" "jget_str ''last_seen'' d = Some now"
    "jget_str ''first_seen'' d = Some (case ex of
       Some doc \<Rightarrow> unwrap_or (jget_str ''first_seen'' doc) now | None \<Rightarrow> now)"
    "jget_str ''_rev'' d = Option.bind ex (jget_str ''_rev'')"
    "jget ''occurrence_count'' d = Some (num_of_int (case ex of
       Some doc \<Rightarrow> succ_i64 (unwrap_or (count_of doc) 0) | None \<Rightarrow> 1))"
  by (auto simp: d_def notification_doc_def jget_str_def count_of_def split: option.splits)

section \<open>Properties\<close>

text \<open>Emitting the same condition again and again keeps the time of the first emission, records the
  time of the last one, and counts the emissions.\<close>

lemma repeated_emission:
  assumes "length ts < 2 ^ 63 - 1" "ts \<noteq> []"
  shows "\<exists>d. emissions (\<lambda>ex now. notification_doc node part key sev title msg acts now ex) ts = Some d \<and>
    jget_str ''first_seen'' d = Some (last ts) \<and> jget_str ''last_seen'' d = Some (hd ts) \<and>
    jget_str ''status'' d = Some ''active'' \<and> count_of d = Some (int (length ts))"
  using assms
proof (induction ts)
  case Nil
  then show ?case by simp
next
  case (Cons now earlier)
  show ?case
  proof (cases "earlier = []")
    case True
    then show ?thesis
      by (simp add: notification_doc_fields count_of_def as_i64_num_of_int)
  next
    case False
    with Cons obtain d where
      d: "emissions (\<lambda>ex now. notification_doc node part key sev title msg acts now ex) earlier = Some d"
      "jget_str ''first_seen'' d = Some (last earlier)" "count_of d = Some (int (length earlier))"
      by auto
    have "succ_i64 (int (length earlier)) = int (length (now # earlier))"
      using Cons.prems by (simp add: succ_i64_def)
    with d False Cons.prems show ?thesis
      by (simp add: notification_doc_fields count_of_def as_i64_num_of_int)
  qed
qed

text \<open>Resolving a stored notification that is not resolved writes it back with status resolved and
  the time, every other field as it was; resolving it again writes nothing.\<close>

lemma resolve_correct:
  assumes "db_get db (notification_id node key) s = (Inr doc, s1)" "is_object doc"
    and "jget_str ''status'' doc \<noteq> Some ''resolved''"
  shows "\<exists>doc'. resolve_notification db node key now s =
       (Some (), snd (db_put db (notification_id node key) doc' s1)) \<and>
     jget ''resolved_at'' doc' = Some (JStr now) \<and> jget_str ''status'' doc' = Some ''resolved'' \<and>
     (\<forall>k. k \<in> {''status'', ''resolved_at''} \<or> jget k doc' = jget k doc) \<and>
     (\<forall>db2 t t1. db_get db2 (notification_id node key) t \<noteq> (Inr doc', t1) \<or>
        resolve_notification db2 node key now' t = (Some (), t1))"
proof -
  obtain d1 where d1: "jset ''status'' (JStr ''resolved'') doc = Some d1" "is_object d1"
    using assms(2) jset_object by blast
  obtain d2 where d2: "jset ''resolved_at'' (JStr now) d1 = Some d2"
    using d1(2) jset_object by blast
  have "unwrap_or (jget_str ''status'' doc) [] \<noteq> ''resolved''"
    using assms(3) by (cases "jget_str ''status'' doc") auto
  then have run: "resolve_notification db node key now s =
      (Some (), snd (db_put db (notification_id node key) d2 s1))"
    using assms(1) d1 d2 by (simp add: resolve_notification_def)
  have "jget k d2 = (if k = ''resolved_at'' then Some (JStr now)
      else if k = ''status'' then Some (JStr ''resolved'') else jget k doc)" for k
    using jget_jset [OF d1(1)] jget_jset [OF d2] by simp
  with run show ?thesis
    by (intro exI [of _ d2]) (auto simp: jget_str_def resolve_notification_def)
qed

end
