(* ===== verification/Credentials.thy ===== *)
theory Credentials
  imports Couch
begin

text \<open>
  The credential store of \<open>mosaicfs-server/src/credentials.rs\<close>. The random bytes, the base64
  encoder and the Argon2 hash are parameters; \<open>None\<close> of an operation is the panic of an
  indexed assignment on a document that is not an object.
\<close>

record cred_libs =
  base64_url :: "u8 list \<Rightarrow> string"
  argon2_hash :: "string \<Rightarrow> string option"

datatype cred_error = CouchFailed couch_error | HashFailed | MissingRev

definition hex_upper :: "nat \<Rightarrow> char" where
  "hex_upper d = (if d < 10 then char_of (48 + d) else char_of (55 + d))"

definition generate_access_key_id :: "u8 list \<Rightarrow> string" where
  "generate_access_key_id random = ''MOSAICFS_'' @ map (\<lambda>b. hex_upper (unat b mod 16)) random"

definition generate_secret_key :: "cred_libs \<Rightarrow> u8 list \<Rightarrow> string" where
  "generate_secret_key cl random = ''mosaicfs_'' @ base64_url cl random"

definition generate_hmac_key :: "libs \<Rightarrow> string \<Rightarrow> string" where
  "generate_hmac_key lb secret = hex_encode lb (hmac_sha256 lb ''mosaicfs-hmac-derivation'' secret)"

definition credential_id :: "string \<Rightarrow> string" where
  "credential_id access_key_id = ''credential::'' @ access_key_id"

definition credential_doc :: "string \<Rightarrow> string \<Rightarrow> string \<Rightarrow> string \<Rightarrow> string \<Rightarrow> json" where
  "credential_doc access_key_id secret_hash hmac_key name now =
     JObj [(''_id'', JStr (credential_id access_key_id)), (''type'', JStr ''credential''),
       (''access_key_id'', JStr access_key_id), (''secret_key_hash'', JStr secret_hash),
       (''hmac_key'', JStr hmac_key), (''name'', JStr name), (''enabled'', JBool True),
       (''created_at'', JStr now), (''permissions'', JObj [(''scope'', JStr ''full'')])]"

definition create_credential ::
  "libs \<Rightarrow> cred_libs \<Rightarrow> 's couch \<Rightarrow> u8 list \<Rightarrow> u8 list \<Rightarrow> string \<Rightarrow> string \<Rightarrow> 's \<Rightarrow>
     (cred_error + string \<times> string) \<times> 's" where
  "create_credential lb cl db random16 random32 name now s =
     (let access_key_id = generate_access_key_id random16;
          secret_key = generate_secret_key cl random32
      in case argon2_hash cl secret_key of
           None \<Rightarrow> (Inl HashFailed, s)
         | Some secret_hash \<Rightarrow>
             (case db_put db (credential_id access_key_id)
                (credential_doc access_key_id secret_hash (generate_hmac_key lb secret_key) name now) s of
                (Inl e, s') \<Rightarrow> (Inl (CouchFailed e), s')
              | (Inr _, s') \<Rightarrow> (Inr (access_key_id, secret_key), s')))"

definition redact :: "json \<Rightarrow> json" where
  "redact doc = jremove ''_rev'' (jremove ''hmac_key'' (jremove ''secret_key_hash'' doc))"

definition list_credentials :: "'s couch \<Rightarrow> 's \<Rightarrow> (cred_error + json list) \<times> 's" where
  "list_credentials db s =
     (case db_prefix db ''credential::'' s of
        (Inl e, s') \<Rightarrow> (Inl (CouchFailed e), s')
      | (Inr rows, s') \<Rightarrow> (Inr (map redact (row_docs rows)), s'))"

definition get_credential :: "'s couch \<Rightarrow> string \<Rightarrow> 's \<Rightarrow> (couch_error + json) \<times> 's" where
  "get_credential db access_key_id s =
     (case db_get db (credential_id access_key_id) s of
        (Inl e, s') \<Rightarrow> (Inl e, s')
      | (Inr doc, s') \<Rightarrow> (Inr (redact doc), s'))"

definition set_if :: "string \<Rightarrow> json option \<Rightarrow> json option \<Rightarrow> json option" where
  "set_if k v doc = (case v of None \<Rightarrow> doc | Some x \<Rightarrow> Option.bind doc (jset k x))"

definition update_credential ::
  "'s couch \<Rightarrow> string \<Rightarrow> json \<Rightarrow> 's \<Rightarrow> (cred_error + unit) option \<times> 's" where
  "update_credential db access_key_id updates s =
     (case db_get db (credential_id access_key_id) s of
        (Inl e, s') \<Rightarrow> (Some (Inl (CouchFailed e)), s')
      | (Inr doc, s') \<Rightarrow>
          (case set_if ''enabled'' (map_option JBool (Option.bind (jget ''enabled'' updates) as_bool))
                  (set_if ''name'' (map_option JStr (jget_str ''name'' updates)) (Some doc)) of
             None \<Rightarrow> (None, s')
           | Some doc' \<Rightarrow>
               (case db_put db (credential_id access_key_id) doc' s' of
                  (Inl e, s'') \<Rightarrow> (Some (Inl (CouchFailed e)), s'')
                | (Inr _, s'') \<Rightarrow> (Some (Inr ()), s''))))"

definition delete_credential :: "'s couch \<Rightarrow> string \<Rightarrow> 's \<Rightarrow> (cred_error + unit) \<times> 's" where
  "delete_credential db access_key_id s =
     (case db_get db (credential_id access_key_id) s of
        (Inl e, s') \<Rightarrow> (Inl (CouchFailed e), s')
      | (Inr doc, s') \<Rightarrow>
          (case jget_str ''_rev'' doc of
             None \<Rightarrow> (Inl MissingRev, s')
           | Some rv \<Rightarrow>
               (case db_delete db (credential_id access_key_id) rv s' of
                  (Inl e, s'') \<Rightarrow> (Inl (CouchFailed e), s'')
                | (Inr _, s'') \<Rightarrow> (Inr (), s''))))"

section \<open>Lemmas\<close>

lemma jget_redact:
  "jget k (redact doc) =
     (if k \<in> {''secret_key_hash'', ''hmac_key'', ''_rev''} then None else jget k doc)"
  by (auto simp: redact_def jget_jremove)

lemma jget_set_if:
  "set_if k v (Some doc) = Some doc' \<Longrightarrow>
     jget k' doc' = (if k' = k \<and> v \<noteq> None then v else jget k' doc)"
  by (auto simp: set_if_def jget_jset split: option.splits)

lemma set_if_object: "is_object doc \<Longrightarrow> \<exists>doc'. set_if k v (Some doc) = Some doc' \<and> is_object doc'"
  using jset_object by (auto simp: set_if_def split: option.split)

lemma create_credential_stored:
  assumes "writes_law db docs"
    and "create_credential lb cl db random16 random32 name now s = (Inr (key, sec), s')"
  shows "\<exists>h d. argon2_hash cl sec = Some h \<and> docs s' = (docs s)(credential_id key \<mapsto> d) \<and>
    same_fields d (credential_doc key h (generate_hmac_key lb sec) name now)"
proof -
  obtain h r where h: "argon2_hash cl sec = Some h"
    "db_put db (credential_id key) (credential_doc key h (generate_hmac_key lb sec) name now) s = (Inr r, s')"
    using assms(2) by (auto simp: create_credential_def Let_def split: option.splits prod.splits sum.splits)
  with writes_law_put [OF assms(1) h(2)] show ?thesis by blast
qed

section \<open>Properties\<close>

text \<open>No listed or fetched credential carries the secret's hash, the HMAC key or the revision, and
  every other field of the stored documents is there.\<close>

lemma credentials_redacted:
  assumes "db_prefix db ''credential::'' s = (Inr rows, s1)"
  shows "\<exists>docs. list_credentials db s = (Inr docs, s1) \<and> length docs = length (row_docs rows) \<and>
    (\<forall>i < length docs. \<forall>k. jget k (docs ! i) =
       (if k \<in> {''secret_key_hash'', ''hmac_key'', ''_rev''} then None
        else jget k (row_docs rows ! i)))"
  using assms by (simp add: list_credentials_def jget_redact)

text \<open>An update writes back the stored document with the name and the enabled flag of the request
  where it has them, and nothing else changed.\<close>

lemma update_credential_correct:
  assumes "db_get db (credential_id k) s = (Inr doc, s1)" "is_object doc"
  shows "\<exists>doc'. update_credential db k updates s =
      (case db_put db (credential_id k) doc' s1 of
         (Inl e, s2) \<Rightarrow> (Some (Inl (CouchFailed e)), s2) | (Inr _, s2) \<Rightarrow> (Some (Inr ()), s2)) \<and>
    jget ''enabled'' doc' = (case Option.bind (jget ''enabled'' updates) as_bool of
       Some b \<Rightarrow> Some (JBool b) | None \<Rightarrow> jget ''enabled'' doc) \<and>
    jget ''name'' doc' = (case jget_str ''name'' updates of
       Some n \<Rightarrow> Some (JStr n) | None \<Rightarrow> jget ''name'' doc) \<and>
    (\<forall>f. f \<in> {''enabled'', ''name''} \<or> jget f doc' = jget f doc)"
proof -
  obtain d1 where d1: "set_if ''name'' (map_option JStr (jget_str ''name'' updates)) (Some doc) = Some d1"
    "is_object d1" using set_if_object [OF assms(2)] by blast
  obtain d2 where d2: "set_if ''enabled'' (map_option JBool (Option.bind (jget ''enabled'' updates) as_bool))
      (Some d1) = Some d2" using set_if_object [OF d1(2)] by blast
  show ?thesis
    using assms(1) d1(1) d2 jget_set_if [OF d1(1)] jget_set_if [OF d2]
    by (intro exI [of _ d2]) (auto simp: update_credential_def split: option.splits)
qed

end
