(* ===== verification/Auth.thy ===== *)
theory Auth
  imports Credentials
begin

text \<open>
  Authentication of requests: the HMAC middleware of \<open>mosaicfs-server/src/auth/hmac_auth.rs\<close>
  and the JWT one of \<open>auth/jwt.rs\<close>. A middleware answers with a response or passes the
  request on with the identity it established. chrono's parser of timestamps and the
  \<open>jsonwebtoken\<close> crate are parameters. Header values have been through
  \<open>HeaderValue::to_str\<close>, so they are ASCII and white space in them is one byte.
\<close>

datatype 'a verdict = Deny nat string | Pass 'a

record http_incoming =
  in_authorization :: "string option"
  in_method :: string
  in_path :: string
  in_body :: "string option"

text \<open>\<open>in_body\<close> is \<open>None\<close> when the body stream fails.\<close>

section \<open>The HMAC header\<close>

definition is_ws :: "char \<Rightarrow> bool" where
  "is_ws c \<longleftrightarrow> (let n = (of_char c :: nat) in 9 \<le> n \<and> n \<le> 13 \<or> n = 32)"

fun words_acc :: "string \<Rightarrow> string \<Rightarrow> string list" where
  "words_acc w [] = (if w = [] then [] else [rev w])"
| "words_acc w (c # cs) =
     (if is_ws c then (if w = [] then words_acc [] cs else rev w # words_acc [] cs)
      else words_acc (c # w) cs)"

definition split_whitespace :: "string \<Rightarrow> string list" where
  "split_whitespace s = words_acc [] s"

type_synonym header_fields = "string option \<times> string option \<times> string option"

definition read_part :: "string \<Rightarrow> header_fields \<Rightarrow> header_fields" where
  "read_part part = (\<lambda>(k, t, g).
     case strip_prefix ''AccessKeyId='' part of
       Some v \<Rightarrow> (Some v, t, g)
     | None \<Rightarrow>
         (case strip_prefix ''Timestamp='' part of
            Some v \<Rightarrow> (k, Some v, g)
          | None \<Rightarrow>
              (case strip_prefix ''Signature='' part of
                 Some v \<Rightarrow> (k, t, Some v)
               | None \<Rightarrow> (k, t, g))))"

text \<open>The \<open>trim\<close> before \<open>split_whitespace\<close> removes what that would skip.\<close>

definition trim_ascii :: "string \<Rightarrow> string" where
  "trim_ascii s = rev (dropWhile is_ws (rev (dropWhile is_ws s)))"

definition parse_hmac_header :: "string \<Rightarrow> (string \<times> string \<times> string) option" where
  "parse_hmac_header header =
     (case strip_prefix ''MOSAICFS-HMAC-SHA256'' header of
        None \<Rightarrow> None
      | Some rest \<Rightarrow>
          (case fold read_part (split_whitespace (trim_ascii rest)) (None, None, None) of
             (Some k, Some t, Some g) \<Rightarrow> Some (k, t, g)
           | _ \<Rightarrow> None))"

definition compute_signature ::
  "libs \<Rightarrow> string \<Rightarrow> string \<Rightarrow> string \<Rightarrow> string \<Rightarrow> string \<Rightarrow> string" where
  "compute_signature lb secret meth path timestamp body_hash =
     hex_encode lb (hmac_sha256 lb secret
       (meth @ [CHR 0x0A] @ path @ [CHR 0x0A] @ timestamp @ [CHR 0x0A] @ body_hash))"

definition constant_time_eq :: "u8 list \<Rightarrow> u8 list \<Rightarrow> bool" where
  "constant_time_eq a b \<longleftrightarrow>
     length a = length b \<and> foldl (\<lambda>diff (x, y). diff OR (x XOR y)) 0 (zip a b) = 0"

definition str_bytes :: "string \<Rightarrow> u8 list" where
  "str_bytes s = map of_char s"

section \<open>The HMAC middleware\<close>

definition TIMESTAMP_TOLERANCE_SECS :: int where
  "TIMESTAMP_TOLERANCE_SECS = 300"

definition BODY_LIMIT :: nat where
  "BODY_LIMIT = 10 * 1024 * 1024"

definition check_signature ::
  "libs \<Rightarrow> http_incoming \<Rightarrow> string \<Rightarrow> string \<Rightarrow> string \<Rightarrow> string \<Rightarrow> string verdict" where
  "check_signature lb req access_key_id timestamp_str signature hmac_key =
     (case in_body req of
        None \<Rightarrow> Deny 400 ''Request body too large''
      | Some body \<Rightarrow>
          if BODY_LIMIT < length body then Deny 400 ''Request body too large''
          else
            (let expected = compute_signature lb hmac_key (in_method req) (in_path req) timestamp_str
                              (sha256_hex lb body)
             in if \<not> constant_time_eq (str_bytes signature) (str_bytes expected)
                then Deny 401 ''Invalid signature'' else Pass access_key_id))"

definition hmac_middleware ::
  "libs \<Rightarrow> (string \<Rightarrow> time option) \<Rightarrow> 's couch \<Rightarrow> time \<Rightarrow> http_incoming \<Rightarrow> 's \<Rightarrow>
     string verdict \<times> 's" where
  "hmac_middleware lb parse_utc db now req s =
     (case Option.bind (in_authorization req) parse_hmac_header of
        None \<Rightarrow> (Deny 401 ''Missing or invalid HMAC authorization header'', s)
      | Some (access_key_id, timestamp_str, signature) \<Rightarrow>
          (case parse_utc timestamp_str of
             None \<Rightarrow> (Deny 401 ''Invalid timestamp format'', s)
           | Some timestamp \<Rightarrow>
               if TIMESTAMP_TOLERANCE_SECS < \<bar>num_seconds (now - timestamp)\<bar>
               then (Deny 401 ''Timestamp out of range'', s)
               else
                 (case db_get db (''credential::'' @ access_key_id) s of
                    (Inl (NotFound _), s') \<Rightarrow> (Deny 401 ''Invalid credentials'', s')
                  | (Inl _, s') \<Rightarrow> (Deny 500 ''Internal error'', s')
                  | (Inr cred_doc, s') \<Rightarrow>
                      if Option.bind (jget ''enabled'' cred_doc) as_bool \<noteq> Some True
                      then (Deny 401 ''Credential is disabled'', s')
                      else
                        (case jget_str ''hmac_key'' cred_doc of
                           None \<Rightarrow> (Deny 401 ''Invalid credentials'', s')
                         | Some hmac_key \<Rightarrow>
                             (check_signature lb req access_key_id timestamp_str signature hmac_key,
                              s')))))"

section \<open>Tokens\<close>

record claims =
  cl_sub :: string
  cl_exp :: int
  cl_iat :: int
  cl_jti :: string

text \<open>
  \<open>jwt_decode\<close> checks the signature and the expiry at the given time, as the crate's
  default validation does.
\<close>

record jwt_libs =
  jwt_encode :: "string \<Rightarrow> claims \<Rightarrow> string option"
  jwt_decode :: "string \<Rightarrow> time \<Rightarrow> string \<Rightarrow> claims option"

definition JWT_EXPIRY_HOURS :: int where
  "JWT_EXPIRY_HOURS = 24"

text \<open>\<open>timestamp\<close>: whole seconds since the epoch, rounded down.\<close>

definition timestamp_secs :: "time \<Rightarrow> int" where
  "timestamp_secs t = t div 1000000000"

text \<open>The secret in the data directory, generated from \<open>random\<close> when missing; \<open>None\<close> is an I/O error.\<close>

definition ensure_jwt_secret ::
  "(string \<Rightarrow> bool) \<Rightarrow> (string \<Rightarrow> bool) \<Rightarrow> string \<Rightarrow> string \<Rightarrow> (string \<rightharpoonup> string) \<Rightarrow>
     string option \<times> (string \<rightharpoonup> string)" where
  "ensure_jwt_secret readable writable data_dir random fs =
     (let path = path_join data_dir ''jwt_secret'' in
      case fs path of
        Some content \<Rightarrow> (if readable path then Some content else None, fs)
      | None \<Rightarrow> if writable path then (Some random, fs(path \<mapsto> random)) else (None, fs))"

definition issue_token ::
  "jwt_libs \<Rightarrow> time \<Rightarrow> string \<Rightarrow> string \<Rightarrow> string \<Rightarrow> (string \<times> int) option" where
  "issue_token jl now uuid secret access_key_id =
     (let ex = timestamp_secs (now + JWT_EXPIRY_HOURS * 3600 * 1000000000);
          c = \<lparr>cl_sub = access_key_id, cl_exp = ex, cl_iat = timestamp_secs now, cl_jti = uuid\<rparr>
      in map_option (\<lambda>token. (token, ex)) (jwt_encode jl secret c))"

definition validate_token :: "jwt_libs \<Rightarrow> time \<Rightarrow> string \<Rightarrow> string \<Rightarrow> claims option" where
  "validate_token jl now secret token = jwt_decode jl secret now token"

definition jwt_middleware ::
  "jwt_libs \<Rightarrow> time \<Rightarrow> string \<Rightarrow> string list \<Rightarrow> http_incoming \<Rightarrow> claims verdict" where
  "jwt_middleware jl now secret revoked req =
     (case in_authorization req of
        None \<Rightarrow> Deny 401 ''Missing or invalid Authorization header''
      | Some h \<Rightarrow>
          if starts_with h ''Bearer '' then
            (case validate_token jl now secret (drop 7 h) of
               None \<Rightarrow> Deny 401 ''Invalid or expired token''
             | Some c \<Rightarrow>
                 if cl_jti c \<in> set revoked then Deny 401 ''Token has been revoked'' else Pass c)
          else Deny 401 ''Missing or invalid Authorization header'')"

section \<open>Comparison\<close>

lemma or_eq_0: "(x OR y = 0) = (x = 0 \<and> y = 0)" for x y :: u8
  by (rule or_eq_0_iff)

lemma xor_eq_0: "(x XOR y = 0) = (x = y)" for x y :: u8
proof
  assume "x XOR y = 0"
  then have "(x XOR y) XOR y = y" by simp
  then show "x = y" by (simp add: xor.assoc)
qed simp

lemma diff_fold:
  "foldl (\<lambda>diff (x, y). diff OR (x XOR y)) d xys = 0 \<longleftrightarrow> d = 0 \<and> (\<forall>(x, y) \<in> set xys. x = y)"
  for d :: u8
  by (induction xys arbitrary: d) (auto simp: or_eq_0 xor_eq_0)

lemma constant_time_eq_iff: "constant_time_eq a b \<longleftrightarrow> a = b"
proof
  assume "constant_time_eq a b"
  then have "length a = length b" "\<forall>(x, y) \<in> set (zip a b). x = y"
    by (simp_all add: constant_time_eq_def diff_fold)
  then show "a = b" by (induction a b rule: list_induct2) auto
next
  assume "a = b"
  then show "constant_time_eq a b"
    by (auto simp: constant_time_eq_def diff_fold zip_same)
qed

lemma of_char_u8_inj: "of_char c = (of_char d :: u8) \<longleftrightarrow> c = d"
proof
  assume eq: "of_char c = (of_char d :: u8)"
  have "unat (of_char x :: u8) = of_char x" for x :: char
  proof -
    have "(of_char x :: u8) = of_nat (of_char x)" by (simp add: of_char_def)
    moreover have "(of_char x :: nat) < 256" by simp
    ultimately show ?thesis by (simp only: unat_of_nat) simp
  qed
  with eq have "(of_char c :: nat) = of_char d" by metis
  then show "c = d" by simp
qed simp

lemma str_bytes_inj: "str_bytes a = str_bytes b \<longleftrightarrow> a = b"
  by (simp add: str_bytes_def inj_map_eq_map inj_def of_char_u8_inj)

section \<open>The header as the agent builds it\<close>

definition no_ws :: "string \<Rightarrow> bool" where
  "no_ws s \<longleftrightarrow> list_all (\<lambda>c. \<not> is_ws c) s"

definition hmac_header :: "string \<Rightarrow> string \<Rightarrow> string \<Rightarrow> string" where
  "hmac_header k t g =
     ''MOSAICFS-HMAC-SHA256 AccessKeyId='' @ k @ '' Timestamp='' @ t @ '' Signature='' @ g"

lemma words_acc_word: "no_ws u \<Longrightarrow> words_acc w (u @ r) = words_acc (rev u @ w) r"
  by (induction u arbitrary: w) (auto simp: no_ws_def)

lemma space_is_ws: "is_ws (CHR '' '')"
  by code_simp

lemma split_whitespace_word:
  assumes "no_ws u" "u \<noteq> []"
  shows "split_whitespace (u @ CHR '' '' # r) = u # split_whitespace r" "split_whitespace u = [u]"
  using words_acc_word [OF assms(1), of "[]" "CHR '' '' # r"] words_acc_word [OF assms(1), of "[]" "[]"]
    assms(2) by (simp_all add: split_whitespace_def space_is_ws)

lemma trim_ascii_space:
  "b \<noteq> [] \<Longrightarrow> \<not> is_ws (hd b) \<Longrightarrow> \<not> is_ws (last b) \<Longrightarrow> trim_ascii (CHR '' '' # b) = b"
proof -
  assume b: "b \<noteq> []" "\<not> is_ws (hd b)" "\<not> is_ws (last b)"
  then have "dropWhile is_ws b = b" by (cases b) auto
  moreover have "dropWhile is_ws (rev b) = rev b" using b by (cases b rule: rev_cases) auto
  ultimately show ?thesis by (simp add: trim_ascii_def space_is_ws)
qed

lemma parse_hmac_header_build:
  assumes "no_ws k" "no_ws t" "no_ws g"
  shows "parse_hmac_header (hmac_header k t g) = Some (k, t, g)"
proof -
  let ?a = "''AccessKeyId='' @ k" and ?b = "''Timestamp='' @ t" and ?c = "''Signature='' @ g"
  have ws: "no_ws ?a" "no_ws ?b" "no_ws ?c"
    using assms by (simp_all add: no_ws_def) (simp_all add: is_ws_def)
  let ?body = "?a @ CHR '' '' # ?b @ CHR '' '' # ?c"
  have lst: "\<not> is_ws (last ?body)"
  proof -
    have "last ?body = last ?c" by simp
    moreover have "last ?c \<in> set ?c" by (rule last_in_set) simp
    ultimately show ?thesis using ws(3) unfolding no_ws_def list_all_iff by metis
  qed
  have hd: "\<not> is_ws (hd ?body)" by (simp add: is_ws_def)
  have trim: "trim_ascii (CHR '' '' # ?body) = ?body"
    by (rule trim_ascii_space [OF _ hd lst]) simp
  have split: "split_whitespace ?body = [?a, ?b, ?c]"
    using ws by (simp only: split_whitespace_word append_is_Nil_conv list.distinct simp_thms not_False_eq_True)
  have "strip_prefix ''MOSAICFS-HMAC-SHA256'' (hmac_header k t g) = Some (CHR '' '' # ?body)"
    by (simp add: hmac_header_def)
  then have "parse_hmac_header (hmac_header k t g) =
      (case fold read_part [?a, ?b, ?c] (None, None, None) of
         (Some k, Some t, Some g) \<Rightarrow> Some (k, t, g) | _ \<Rightarrow> None)"
    unfolding parse_hmac_header_def by (simp only: option.case trim split)
  also have "\<dots> = Some (k, t, g)" by (simp add: read_part_def)
  finally show ?thesis .
qed

lemma as_bool_Some: "as_bool j = Some b \<longleftrightarrow> j = JBool b"
  by (cases j) auto

lemma check_signature_Pass:
  "check_signature lb req k t g key = Pass k' \<longleftrightarrow>
     k' = k \<and> (\<exists>body. in_body req = Some body \<and> length body \<le> BODY_LIMIT \<and>
        g = compute_signature lb key (in_method req) (in_path req) t (sha256_hex lb body))"
  by (auto simp: check_signature_def constant_time_eq_iff str_bytes_inj Let_def
      split: option.split)

text \<open>The documented behaviour of \<open>decode\<close> on a token of \<open>encode\<close>: the signature holds, and the expiry
  is checked with the default leeway of sixty seconds.\<close>

definition jwt_law :: "jwt_libs \<Rightarrow> bool" where
  "jwt_law jl \<longleftrightarrow>
     (\<forall>secret c token now. jwt_encode jl secret c = Some token \<longrightarrow>
        jwt_decode jl secret now token =
          (if timestamp_secs now - 60 \<le> cl_exp c then Some c else None))"

lemma hmac_middleware_iff:
  "hmac_middleware lb parse_utc db now req s = (Pass k, s') \<longleftrightarrow>
     (\<exists>h t g ts doc key body.
        in_authorization req = Some h \<and> parse_hmac_header h = Some (k, t, g) \<and>
        parse_utc t = Some ts \<and> \<bar>num_seconds (now - ts)\<bar> \<le> 300 \<and>
        db_get db (''credential::'' @ k) s = (Inr doc, s') \<and>
        jget ''enabled'' doc = Some (JBool True) \<and> jget_str ''hmac_key'' doc = Some key \<and>
        in_body req = Some body \<and> length body \<le> 10 * 1024 * 1024 \<and>
        g = compute_signature lb key (in_method req) (in_path req) t (sha256_hex lb body))"
proof (cases "Option.bind (in_authorization req) parse_hmac_header")
  case None
  then show ?thesis by (auto simp: hmac_middleware_def)
next
  case (Some ktg)
  obtain k0 t g where ktg: "ktg = (k0, t, g)" by (cases ktg) auto
  from Some obtain h where h: "in_authorization req = Some h" "parse_hmac_header h = Some (k0, t, g)"
    by (auto simp: bind_eq_Some_conv ktg)
  show ?thesis
  proof (cases "parse_utc t")
    case None
    with h show ?thesis by (auto simp: hmac_middleware_def)
  next
    case ts: (Some ts)
    obtain r s1 where get: "db_get db (''credential::'' @ k0) s = (r, s1)" by fastforce
    show ?thesis
    proof (cases r)
      case (Inl e)
      with h ts get show ?thesis by (cases e) (auto simp: hmac_middleware_def)
    next
      case (Inr doc)
      have enabled: "Option.bind (jget ''enabled'' doc) as_bool = Some True \<longleftrightarrow>
          jget ''enabled'' doc = Some (JBool True)"
        by (auto simp: bind_eq_Some_conv as_bool_Some)
      show ?thesis
        using h ts get Inr enabled
        by (cases "jget_str ''hmac_key'' doc")
          (auto simp: hmac_middleware_def check_signature_Pass TIMESTAMP_TOLERANCE_SECS_def
            BODY_LIMIT_def)
    qed
  qed
qed

lemma hex_upper_no_ws: "d < 16 \<Longrightarrow> \<not> is_ws (hex_upper d)"
  by (auto simp: hex_upper_def is_ws_def)

lemma access_key_no_ws: "no_ws (generate_access_key_id random)"
  by (auto simp: generate_access_key_id_def no_ws_def list_all_iff hex_upper_no_ws)
    (simp_all add: is_ws_def)

section \<open>Properties\<close>

text \<open>One token and a request that carries it, for the examples.\<close>

definition sample_claims :: claims where
  "sample_claims = \<lparr>cl_sub = ''k'', cl_exp = 86400, cl_iat = 0, cl_jti = ''u''\<rparr>"

text \<open>A library that issues one token.\<close>

definition one_token :: "claims \<Rightarrow> jwt_libs" where
  "one_token c0 =
     \<lparr>jwt_encode = (\<lambda>s c. if s = ''s'' \<and> c = c0 then Some ''tok'' else None),
      jwt_decode = (\<lambda>s now tok.
        if s = ''s'' \<and> tok = ''tok'' \<and> timestamp_secs now - 60 \<le> cl_exp c0 then Some c0 else None)\<rparr>"

lemma one_token_law: "jwt_law (one_token c0)"
  by (simp add: jwt_law_def one_token_def)

definition bearer :: "string \<Rightarrow> http_incoming" where
  "bearer token = \<lparr>in_authorization = Some (''Bearer '' @ token), in_method = ''GET'',
     in_path = ''/'', in_body = None\<rparr>"


text \<open>The constant-time comparison of signatures is equality.\<close>

lemma signature_comparison:
  "constant_time_eq (str_bytes a) (str_bytes b) \<longleftrightarrow> a = b"
  by (simp add: constant_time_eq_iff str_bytes_inj)

text \<open>C7: a request passes the HMAC middleware, with the identity of its header, exactly when the header
  parses, its time is within the tolerance, the credential exists and is enabled, the body
  is readable and within the limit, and the signature is the one of this method, path, time
  and body under the credential's key.\<close>

theorem hmac_middleware_passes:
  "hmac_middleware lb parse_utc db now req s = (Pass k, s') \<longleftrightarrow>
     (\<exists>h t g ts doc key body.
        in_authorization req = Some h \<and> parse_hmac_header h = Some (k, t, g) \<and>
        parse_utc t = Some ts \<and> \<bar>num_seconds (now - ts)\<bar> \<le> 300 \<and>
        db_get db (''credential::'' @ k) s = (Inr doc, s') \<and>
        jget ''enabled'' doc = Some (JBool True) \<and> jget_str ''hmac_key'' doc = Some key \<and>
        in_body req = Some body \<and> length body \<le> 10 * 1024 * 1024 \<and>
        g = compute_signature lb key (in_method req) (in_path req) t (sha256_hex lb body))"
  by (rule hmac_middleware_iff)

text \<open>C6: a client that is given a new credential and signs a request with the key derived from its
  secret is let through under its own identity, as long as its clock is within five minutes
  of the server's.\<close>

theorem created_credential_authenticates:
  assumes "create_credential lb cl db random16 random32 name created s = (Inr (k, secret), s1)"
    and "put_get_law db"
    and "parse_utc t = Some ts" "\<bar>num_seconds (now - ts)\<bar> \<le> 300" "no_ws t"
    and "length body \<le> 10 * 1024 * 1024"
    and "g = compute_signature lb (generate_hmac_key lb secret) meth path t (sha256_hex lb body)"
    and "no_ws g"
  shows "fst (hmac_middleware lb parse_utc db now
     \<lparr>in_authorization = Some (hmac_header k t g), in_method = meth, in_path = path,
      in_body = Some body\<rparr> s1) = Pass k"
proof -
  obtain hash r where k: "k = generate_access_key_id random16"
    and put: "db_put db (credential_id k)
      (credential_doc k hash (generate_hmac_key lb secret) name created) s = (Inr r, s1)"
    using assms(1) by (auto simp: create_credential_def Let_def split: option.splits prod.splits sum.splits)
  from assms(2) put obtain doc s2 where get: "db_get db (credential_id k) s1 = (Inr doc, s2)"
    and doc: "\<And>f. f \<notin> {''_rev'', ''_id''} \<Longrightarrow>
      jget f doc = jget f (credential_doc k hash (generate_hmac_key lb secret) name created)"
    unfolding put_get_law_def by blast
  have fields: "jget ''enabled'' doc = Some (JBool True)"
    "jget_str ''hmac_key'' doc = Some (generate_hmac_key lb secret)"
    using doc [of "''enabled''"] doc [of "''hmac_key''"] by (simp_all add: credential_doc_def jget_str_def)
  have "parse_hmac_header (hmac_header k t g) = Some (k, t, g)"
    using access_key_no_ws k assms(5,8) by (simp add: parse_hmac_header_build)
  then have "hmac_middleware lb parse_utc db now
     \<lparr>in_authorization = Some (hmac_header k t g), in_method = meth, in_path = path,
      in_body = Some body\<rparr> s1 = (Pass k, s2)"
    unfolding hmac_middleware_iff
    using fields get assms(3,4,6,7) by (simp add: credential_id_def)
  then show ?thesis by simp
qed

theorem created_credential_authenticates_witness:
  "fst (hmac_middleware (sample_libs\<lparr>hex_encode := \<lambda>_. ''ab''\<rparr>) (\<lambda>_. Some 0) sample_couch 5
     \<lparr>in_authorization = Some (hmac_header (generate_access_key_id (replicate 16 7)) ''t'' ''ab''),
      in_method = ''GET'', in_path = ''/p'', in_body = Some ''b''\<rparr>
     (snd (create_credential (sample_libs\<lparr>hex_encode := \<lambda>_. ''ab''\<rparr>)
        \<lparr>base64_url = \<lambda>_. ''x'', argon2_hash = Some\<rparr> sample_couch (replicate 16 7) [] ''me'' ''now'' [])))
   = Pass (generate_access_key_id (replicate 16 7))"
proof -
  let ?lb = "sample_libs\<lparr>hex_encode := \<lambda>_. ''ab''\<rparr>"
  let ?cl = "\<lparr>base64_url = \<lambda>_. ''x'', argon2_hash = Some\<rparr> :: cred_libs"
  let ?k = "generate_access_key_id (replicate 16 7)"
  let ?create = "create_credential ?lb ?cl sample_couch (replicate 16 7) [] ''me'' ''now'' []"
  have "fst ?create = Inr (?k, ''mosaicfs_x'')"
    by (simp add: create_credential_def generate_secret_key_def Let_def)
  then have run: "?create = (Inr (?k, ''mosaicfs_x''), snd ?create)" by (metis prod.collapse)
  show ?thesis
    by (rule created_credential_authenticates [OF run sample_put_get, where t = "''t''" and ts = 0
          and body = "''b''" and g = "''ab''"])
      (simp_all add: num_seconds_def trunc_div_def no_ws_def is_ws_def compute_signature_def)
qed

text \<open>An issued token is accepted, with the claims it was issued for, until a minute after its 24
  hours, refused after that, and refused at any time once its identifier is revoked.\<close>

lemma token_lifecycle:
  assumes "jwt_law jl" "issue_token jl issued uuid secret k = Some (token, ex)"
  shows "ex = timestamp_secs issued + 24 * 3600 \<and>
    jwt_middleware jl now secret revoked
        \<lparr>in_authorization = Some (''Bearer '' @ token), in_method = meth, in_path = path, in_body = body\<rparr> =
      (if timestamp_secs now > timestamp_secs issued + 24 * 3600 + 60
       then Deny 401 ''Invalid or expired token''
       else if uuid \<in> set revoked then Deny 401 ''Token has been revoked''
       else Pass \<lparr>cl_sub = k, cl_exp = ex, cl_iat = timestamp_secs issued, cl_jti = uuid\<rparr>)"
proof -
  have ex: "ex = timestamp_secs issued + 24 * 3600"
    using assms(2) by (auto simp: issue_token_def timestamp_secs_def JWT_EXPIRY_HOURS_def Let_def)
  let ?c = "\<lparr>cl_sub = k, cl_exp = ex, cl_iat = timestamp_secs issued, cl_jti = uuid\<rparr>"
  have "jwt_encode jl secret ?c = Some token"
    using assms(2) by (auto simp: issue_token_def Let_def)
  with assms(1) have "jwt_decode jl secret now token =
      (if timestamp_secs now - 60 \<le> ex then Some ?c else None)"
    unfolding jwt_law_def by fastforce
  then show ?thesis
    using ex by (auto simp: jwt_middleware_def validate_token_def starts_with_def)
qed

end
