(* ===== verification/Crawler.thy ===== *)
theory Crawler
  imports Notifications Documents
begin

text \<open>
  The agent's crawl of the watch paths, \<open>mosaicfs-agent/src/crawler.rs\<close>: every file below
  an accessible watch path is compared with its document, new and changed files are
  written in batches, and the documents of files that were not seen are marked deleted.

  The directory walk, the MIME guesser, the clock, the UUIDs and the random numbers are
  the record \<open>crawl_env\<close>. The map of existing documents is an association list with
  distinct keys in the iteration order of the hash map. A paused or failing database is
  the parameter \<open>db\<close>; the state of the crawl carries the state of the database.
\<close>

section \<open>Environment and state\<close>

text \<open>
  What the walk yields, errors dropped: \<open>we_metadata\<close> is the length and modification time
  of an entry, \<open>None\<close> when \<open>stat\<close> fails.
\<close>

record walk_entry =
  we_path :: string
  we_is_file :: bool
  we_metadata :: "(u64 \<times> time) option"

text \<open>
  \<open>ce_uuid n\<close> and \<open>ce_draws n\<close> are the UUID and the random numbers drawn for the \<open>n\<close>-th new
  identity of the pass; \<open>ce_now\<close> is the printed time at which a path is handled.
\<close>

record crawl_env =
  ce_exists :: "string \<Rightarrow> bool"
  ce_walk :: "string \<Rightarrow> walk_entry list"
  ce_mime :: "string \<Rightarrow> string option"
  ce_now :: "string \<Rightarrow> string"
  ce_uuid :: "nat \<Rightarrow> string"
  ce_draws :: "nat \<Rightarrow> u64 list"

record crawl_result =
  files_indexed :: u64
  files_skipped :: u64
  files_new :: u64
  files_updated :: u64
  files_deleted :: u64

definition no_files :: crawl_result where
  "no_files = \<lparr>files_indexed = 0, files_skipped = 0, files_new = 0, files_updated = 0,
     files_deleted = 0\<rparr>"

text \<open>
  \<open>NoInode\<close>: the loop of \<open>random_inode\<close> has not returned within the given draws;
  \<open>CrawlPanic\<close> is the panic of an assignment into a document that is not an object.
\<close>

datatype crawl_error = CrawlFailed couch_error | CrawlPanic | NoInode

record 's crawl_state =
  cs_result :: crawl_result
  cs_seen :: "string list"
  cs_batch :: "json list"
  cs_fresh :: nat
  cs_db :: 's

definition BATCH_SIZE :: nat where
  "BATCH_SIZE = 200"

section \<open>Names and paths\<close>

definition crawl_excluded :: "string \<Rightarrow> string list \<Rightarrow> bool" where
  "crawl_excluded path excluded_paths \<longleftrightarrow> list_ex (path_starts_with path) excluded_paths"

text \<open>
  \<open>char::is_control\<close>: U+0000 to U+001F and U+007F, and U+0080 to U+009F, whose UTF-8
  bytes are C2 80 to C2 9F.
\<close>

fun has_control :: "string \<Rightarrow> bool" where
  "has_control [] = False"
| "has_control [c] = (let n = (of_char c :: nat) in n < 32 \<or> n = 127)"
| "has_control (c # d # cs) =
     (let n = (of_char c :: nat); m = (of_char d :: nat) in
      n < 32 \<or> n = 127 \<or> (n = 194 \<and> 128 \<le> m \<and> m < 160) \<or> has_control (d # cs))"

definition bad_name :: "string \<Rightarrow> bool" where
  "bad_name name \<longleftrightarrow> CHR 0x00 \<in> set name \<or> CHR ''/'' \<in> set name \<or> has_control name"

text \<open>The end of a path without its trailing separators and "." components, reversed.\<close>

fun trim_path_rev :: "string \<Rightarrow> string" where
  "trim_path_rev [] = []"
| "trim_path_rev [c] = (if c = CHR ''/'' then [] else [c])"
| "trim_path_rev (c # d # cs) =
     (if c = CHR ''/'' then trim_path_rev (d # cs)
      else if c = CHR ''.'' \<and> d = CHR ''/'' then trim_path_rev cs
      else c # d # cs)"

definition path_file_name :: "string \<Rightarrow> string option" where
  "path_file_name p =
     (let w = rev (takeWhile (\<lambda>c. c \<noteq> CHR ''/'') (trim_path_rev (rev p)))
      in if w = [] \<or> w = ''..'' \<or> w = ''.'' then None else Some w)"

text \<open>\<open>Path::parent\<close>: \<open>None\<close> for the root and the empty path.\<close>

definition path_parent :: "string \<Rightarrow> string option" where
  "path_parent p =
     (let r = trim_path_rev (rev p);
          up = trim_path_rev (dropWhile (\<lambda>c. c \<noteq> CHR ''/'') r)
      in if r = [] then None
         else if up = [] \<and> starts_with p ''/'' then Some ''/'' else Some (rev up))"

fun random_inode :: "u64 list \<Rightarrow> u64 option" where
  "random_inode [] = None"
| "random_inode (n # ns) = (if 1000 \<le> n then Some n else random_inode ns)"

section \<open>Existing documents\<close>

definition source_str :: "string \<Rightarrow> json \<Rightarrow> string option" where
  "source_str k doc = Option.bind (jget ''source'' doc) (jget_str k)"

definition add_existing :: "string \<Rightarrow> json \<Rightarrow> (string \<times> json) list \<Rightarrow> (string \<times> json) list" where
  "add_existing node_id doc m =
     (if source_str ''node_id'' doc = Some node_id
      then (case source_str ''export_path'' doc of
              Some path \<Rightarrow> AList.update path doc m
            | None \<Rightarrow> m)
      else m)"

definition existing_files :: "string \<Rightarrow> json list \<Rightarrow> (string \<times> json) list" where
  "existing_files node_id docs = fold (add_existing node_id) docs []"

definition load_existing_files ::
  "'s couch \<Rightarrow> string \<Rightarrow> 's \<Rightarrow> (couch_error + (string \<times> json) list) \<times> 's" where
  "load_existing_files db node_id s =
     (case db_prefix db ''file::'' s of
        (Inl e, s') \<Rightarrow> (Inl e, s')
      | (Inr rows, s') \<Rightarrow> (Inr (existing_files node_id (row_docs rows)), s'))"

definition unchanged :: "libs \<Rightarrow> json \<Rightarrow> u64 \<Rightarrow> time \<Rightarrow> bool" where
  "unchanged lb doc sz mtime \<longleftrightarrow>
     unwrap_or (jget_str ''status'' doc) ''active'' = ''active'' \<and>
     parse_time lb (unwrap_or (jget_str ''mtime'' doc) []) = Some mtime \<and>
     unwrap_or (Option.bind (jget ''size'' doc) as_u64) 0 = sz"

section \<open>Writing\<close>

text \<open>Documents the database refuses are only logged.\<close>

definition flush_batch ::
  "'s couch \<Rightarrow> json list \<Rightarrow> 's \<Rightarrow> (crawl_error \<times> 's) + 's" where
  "flush_batch db batch s =
     (case db_bulk db batch s of
        (Inl e, s') \<Rightarrow> Inl (CrawlFailed e, s')
      | (Inr _, s') \<Rightarrow> Inr s')"

definition flush_state ::
  "'s couch \<Rightarrow> 's crawl_state \<Rightarrow> (crawl_error \<times> 's) + 's crawl_state" where
  "flush_state db st =
     and_then (flush_batch db (cs_batch st) (cs_db st))
       (\<lambda>s. Inr (st\<lparr>cs_batch := [], cs_db := s\<rparr>))"

definition file_doc ::
  "libs \<Rightarrow> string \<Rightarrow> string \<Rightarrow> u64 \<Rightarrow> string \<Rightarrow> string \<Rightarrow> string \<Rightarrow> u64 \<Rightarrow> time \<Rightarrow>
     string option \<Rightarrow> string option \<Rightarrow> json" where
  "file_doc lb doc_id node_id inode name export_path export_parent sz mtime mime rv =
     JObj ([(''_id'', JStr doc_id), (''type'', JStr ''file''), (''inode'', JNum (PosInt inode)),
       (''name'', JStr name),
       (''source'', JObj [(''node_id'', JStr node_id), (''export_path'', JStr export_path),
          (''export_parent'', JStr export_parent)]),
       (''size'', JNum (PosInt sz)), (''mtime'', JStr (serde_time lb mtime)),
       (''status'', JStr ''active'')] @
       (case mime of Some m \<Rightarrow> [(''mime_type'', JStr m)] | None \<Rightarrow> []) @
       (case rv of Some r \<Rightarrow> [(''_rev'', JStr r)] | None \<Rightarrow> []))"
section \<open>One entry of the walk\<close>

text \<open>
  The identity of a file: that of its document if there is one, also when it was deleted
  before, else a new UUID and inode.
\<close>

definition identity ::
  "crawl_env \<Rightarrow> json option \<Rightarrow> 's crawl_state \<Rightarrow>
     (crawl_error \<times> 's) + (string \<times> u64 \<times> string option) \<times> 's crawl_state" where
  "identity env found st =
     (let drawn = random_inode (ce_draws env (cs_fresh st)) in
      case found of
        Some doc \<Rightarrow>
          (let i = unwrap_or (jget_str ''_id'' doc) [];
               rv = jget_str ''_rev'' doc;
               st' = st\<lparr>cs_result := (cs_result st)\<lparr>files_updated := files_updated (cs_result st) + 1\<rparr>\<rparr>
           in case Option.bind (jget ''inode'' doc) as_u64 of
                Some n \<Rightarrow> Inr ((i, n, rv), st')
              | None \<Rightarrow>
                  (case drawn of
                     None \<Rightarrow> Inl (NoInode, cs_db st)
                   | Some n \<Rightarrow> Inr ((i, n, rv), st'\<lparr>cs_fresh := cs_fresh st + 1\<rparr>)))
      | None \<Rightarrow>
          (case drawn of
             None \<Rightarrow> Inl (NoInode, cs_db st)
           | Some n \<Rightarrow>
               Inr ((file_new_id (ce_uuid env (cs_fresh st)), n, None),
                 st\<lparr>cs_result := (cs_result st)\<lparr>files_new := files_new (cs_result st) + 1\<rparr>,
                    cs_fresh := cs_fresh st + 1\<rparr>)))"

definition index_file ::
  "libs \<Rightarrow> crawl_env \<Rightarrow> 's couch \<Rightarrow> string \<Rightarrow> json option \<Rightarrow> string \<Rightarrow> string \<Rightarrow> u64 \<Rightarrow> time \<Rightarrow>
     's crawl_state \<Rightarrow> (crawl_error \<times> 's) + 's crawl_state" where
  "index_file lb env db node_id found path name sz mtime st =
     and_then (identity env found st) (\<lambda>((doc_id, inode, rv), st1).
       let doc = file_doc lb doc_id node_id inode name path (unwrap_or (path_parent path) [])
                   sz mtime (ce_mime env path) rv;
           st2 = st1\<lparr>cs_batch := cs_batch st1 @ [doc],
                     cs_result := (cs_result st1)\<lparr>files_indexed := files_indexed (cs_result st1) + 1\<rparr>\<rparr>
       in if BATCH_SIZE \<le> length (cs_batch st2) then flush_state db st2 else Inr st2)"

definition visit_entry ::
  "libs \<Rightarrow> crawl_env \<Rightarrow> 's couch \<Rightarrow> string \<Rightarrow> string list \<Rightarrow> (string \<times> json) list \<Rightarrow> walk_entry \<Rightarrow>
     's crawl_state \<Rightarrow> (crawl_error \<times> 's) + 's crawl_state" where
  "visit_entry lb env db node_id excluded existing e st =
     (let path = we_path e in
      if \<not> we_is_file e then Inr st
      else if crawl_excluded path excluded then Inr st
      else
        (let st1 = st\<lparr>cs_seen := List.insert path (cs_seen st)\<rparr> in
         case we_metadata e of
           None \<Rightarrow> Inr st1
         | Some (sz, mtime) \<Rightarrow>
             (let found = map_of existing path in
              if (case found of Some doc \<Rightarrow> unchanged lb doc sz mtime | None \<Rightarrow> False)
              then Inr (st1\<lparr>cs_result :=
                     (cs_result st1)\<lparr>files_skipped := files_skipped (cs_result st1) + 1\<rparr>\<rparr>)
              else
                (let name = unwrap_or (path_file_name path) [] in
                 if bad_name name then Inr st1
                 else index_file lb env db node_id found path name sz mtime st1))))"

fun visit_entries ::
  "libs \<Rightarrow> crawl_env \<Rightarrow> 's couch \<Rightarrow> string \<Rightarrow> string list \<Rightarrow> (string \<times> json) list \<Rightarrow>
     walk_entry list \<Rightarrow> 's crawl_state \<Rightarrow> (crawl_error \<times> 's) + 's crawl_state" where
  "visit_entries lb env db node_id excluded existing [] st = Inr st"
| "visit_entries lb env db node_id excluded existing (e # es) st =
     and_then (visit_entry lb env db node_id excluded existing e st)
       (visit_entries lb env db node_id excluded existing es)"

section \<open>The pass\<close>

definition inaccessible_condition :: "string \<Rightarrow> string" where
  "inaccessible_condition watch_path = ''watch_path_inaccessible:'' @ watch_path"

fun visit_paths ::
  "libs \<Rightarrow> crawl_env \<Rightarrow> 's couch \<Rightarrow> string \<Rightarrow> string list \<Rightarrow> (string \<times> json) list \<Rightarrow>
     string list \<Rightarrow> 's crawl_state \<Rightarrow> (crawl_error \<times> 's) + 's crawl_state" where
  "visit_paths lb env db node_id excluded existing [] st = Inr st"
| "visit_paths lb env db node_id excluded existing (wp # wps) st =
     (if \<not> ce_exists env wp then
        visit_paths lb env db node_id excluded existing wps
          (st\<lparr>cs_db := emit_notification db node_id ''crawler'' (inaccessible_condition wp) ''error''
             ''Watch path inaccessible''
             (''Watch path '' @ wp @ '' does not exist or is not accessible.'') None
             (ce_now env wp) (cs_db st)\<rparr>)
      else
        (case resolve_notification db node_id (inaccessible_condition wp) (ce_now env wp) (cs_db st) of
           (None, s) \<Rightarrow> Inl (CrawlPanic, s)
         | (Some _, s) \<Rightarrow>
             and_then
               (visit_entries lb env db node_id excluded existing (ce_walk env wp) (st\<lparr>cs_db := s\<rparr>))
               (visit_paths lb env db node_id excluded existing wps)))"

section \<open>Soft deletion\<close>

definition tombstone :: "string \<Rightarrow> json \<Rightarrow> json option" where
  "tombstone now doc =
     Option.bind (jset ''status'' (JStr ''deleted'') doc) (jset ''deleted_at'' (JStr now))"

definition is_missing :: "string list \<Rightarrow> string \<times> json \<Rightarrow> bool" where
  "is_missing seen e \<longleftrightarrow>
     unwrap_or (jget_str ''status'' (snd e)) ''active'' \<noteq> ''deleted'' \<and> fst e \<notin> set seen"

fun delete_loop ::
  "crawl_env \<Rightarrow> 's couch \<Rightarrow> string list \<Rightarrow> (string \<times> json) list \<Rightarrow> json list \<Rightarrow> u64 \<Rightarrow> 's \<Rightarrow>
     (crawl_error \<times> 's) + u64 \<times> json list \<times> 's" where
  "delete_loop env db seen [] batch n s = Inr (n, batch, s)"
| "delete_loop env db seen (e # es) batch n s =
     (if \<not> is_missing seen e then delete_loop env db seen es batch n s
      else
        (case tombstone (ce_now env (fst e)) (snd e) of
           None \<Rightarrow> Inl (CrawlPanic, s)
         | Some t \<Rightarrow>
             (let batch' = batch @ [t] in
              if BATCH_SIZE \<le> length batch'
              then and_then (flush_batch db batch' s) (delete_loop env db seen es [] (n + 1))
              else delete_loop env db seen es batch' (n + 1) s)))"

definition soft_delete_missing ::
  "crawl_env \<Rightarrow> 's couch \<Rightarrow> (string \<times> json) list \<Rightarrow> string list \<Rightarrow> 's \<Rightarrow>
     (crawl_error \<times> 's) + u64 \<times> 's" where
  "soft_delete_missing env db existing seen s =
     and_then (delete_loop env db seen existing [] 0 s) (\<lambda>(n, batch, s1).
       if batch = [] then Inr (n, s1)
       else and_then (flush_batch db batch s1) (\<lambda>s2. Inr (n, s2)))"

definition crawl ::
  "libs \<Rightarrow> crawl_env \<Rightarrow> 's couch \<Rightarrow> string \<Rightarrow> string list \<Rightarrow> string list \<Rightarrow> 's \<Rightarrow>
     (crawl_error \<times> 's) + crawl_result \<times> 's" where
  "crawl lb env db node_id watch_paths excluded s =
     (case load_existing_files db node_id s of
        (Inl e, s1) \<Rightarrow> Inl (CrawlFailed e, s1)
      | (Inr existing, s1) \<Rightarrow>
          and_then (visit_paths lb env db node_id excluded existing watch_paths
              \<lparr>cs_result = no_files, cs_seen = [], cs_batch = [], cs_fresh = 0, cs_db = s1\<rparr>) (\<lambda>st.
          and_then (if cs_batch st = [] then Inr st else flush_state db st) (\<lambda>st2.
          and_then (soft_delete_missing env db existing (cs_seen st2) (cs_db st2)) (\<lambda>(n, s3).
            Inr ((cs_result st2)\<lparr>files_deleted := n\<rparr>, s3)))))"

section \<open>What a pass sends\<close>

definition tracked :: "string list \<Rightarrow> walk_entry \<Rightarrow> bool" where
  "tracked excluded e \<longleftrightarrow> we_is_file e \<and> \<not> crawl_excluded (we_path e) excluded"

text \<open>The entries a document is written for.\<close>

definition wanted :: "libs \<Rightarrow> string list \<Rightarrow> (string \<times> json) list \<Rightarrow> walk_entry \<Rightarrow> bool" where
  "wanted lb excluded existing e \<longleftrightarrow> tracked excluded e \<and>
     \<not> bad_name (unwrap_or (path_file_name (we_path e)) []) \<and>
     (\<exists>sz mtime. we_metadata e = Some (sz, mtime) \<and>
        (\<forall>doc. map_of existing (we_path e) = Some doc \<longrightarrow> \<not> unchanged lb doc sz mtime))"

text \<open>A document that describes an entry, under the identity the file already has.\<close>

definition describes ::
  "libs \<Rightarrow> crawl_env \<Rightarrow> string \<Rightarrow> (string \<times> json) list \<Rightarrow> walk_entry \<Rightarrow> json \<Rightarrow> bool" where
  "describes lb env node_id existing e d \<longleftrightarrow>
     jget_str ''type'' d = Some ''file'' \<and> jget_str ''status'' d = Some ''active'' \<and>
     source_str ''node_id'' d = Some node_id \<and> source_str ''export_path'' d = Some (we_path e) \<and>
     (\<exists>sz mtime inode. we_metadata e = Some (sz, mtime) \<and>
        jget ''size'' d = Some (JNum (PosInt sz)) \<and> jget_str ''mtime'' d = Some (serde_time lb mtime) \<and>
        jget ''inode'' d = Some (JNum (PosInt inode)) \<and>
        (case map_of existing (we_path e) of
           Some doc \<Rightarrow> jget_str ''_id'' d = Some (unwrap_or (jget_str ''_id'' doc) []) \<and>
             jget_str ''_rev'' d = jget_str ''_rev'' doc \<and>
             (case Option.bind (jget ''inode'' doc) as_u64 of
                Some n \<Rightarrow> inode = n | None \<Rightarrow> 1000 \<le> inode)
         | None \<Rightarrow> (\<exists>n. jget_str ''_id'' d = Some (file_new_id (ce_uuid env n))) \<and>
             jget ''_rev'' d = None \<and> 1000 \<le> inode))"

lemma file_doc_fields [simp]:
  "jget ''_id'' (file_doc lb i nd ino nm p pp sz t m rv) = Some (JStr i)"
  "jget ''type'' (file_doc lb i nd ino nm p pp sz t m rv) = Some (JStr ''file'')"
  "jget ''status'' (file_doc lb i nd ino nm p pp sz t m rv) = Some (JStr ''active'')"
  "jget ''size'' (file_doc lb i nd ino nm p pp sz t m rv) = Some (JNum (PosInt sz))"
  "jget ''inode'' (file_doc lb i nd ino nm p pp sz t m rv) = Some (JNum (PosInt ino))"
  "jget ''mtime'' (file_doc lb i nd ino nm p pp sz t m rv) = Some (JStr (serde_time lb t))"
  "source_str ''node_id'' (file_doc lb i nd ino nm p pp sz t m rv) = Some nd"
  "source_str ''export_path'' (file_doc lb i nd ino nm p pp sz t m rv) = Some p"
  "jget ''_rev'' (file_doc lb i nd ino nm p pp sz t m rv) = map_option JStr rv"
  by (simp_all add: file_doc_def source_str_def jget_str_def map_of_append split: option.splits)

lemma bind_JStr [simp]: "Option.bind (map_option JStr r) as_str = r"
  by (cases r) simp_all

definition sent :: "('s \<times> json list list) crawl_state \<Rightarrow> json list" where
  "sent st = concat (snd (cs_db st)) @ cs_batch st"

definition batches_ok :: "json list list \<Rightarrow> bool" where
  "batches_ok log \<longleftrightarrow> (\<forall>b \<in> set log. b \<noteq> [] \<and> length b \<le> BATCH_SIZE)"

definition state_ok :: "('s \<times> json list list) crawl_state \<Rightarrow> bool" where
  "state_ok st \<longleftrightarrow> batches_ok (snd (cs_db st)) \<and> length (cs_batch st) < BATCH_SIZE"

text \<open>What a part of the pass over the entries \<open>es\<close> does to the state.\<close>

definition pass_ok ::
  "libs \<Rightarrow> crawl_env \<Rightarrow> string \<Rightarrow> string list \<Rightarrow> (string \<times> json) list \<Rightarrow> walk_entry list \<Rightarrow>
     ('s \<times> json list list) crawl_state \<Rightarrow> ('s \<times> json list list) crawl_state \<Rightarrow> bool" where
  "pass_ok lb env node_id excluded existing es st st' \<longleftrightarrow>
     set (cs_seen st') = set (cs_seen st) \<union> we_path ` {e \<in> set es. tracked excluded e} \<and>
     (\<exists>ds. sent st' = sent st @ ds \<and>
        list_all2 (describes lb env node_id existing) (filter (wanted lb excluded existing) es) ds \<and>
        files_indexed (cs_result st') = files_indexed (cs_result st) + of_nat (length ds) \<and>
        files_new (cs_result st') + files_updated (cs_result st') =
          files_new (cs_result st) + files_updated (cs_result st) + of_nat (length ds))"

lemma pass_ok_trans:
  assumes "pass_ok lb env nd ex old es st st1" "pass_ok lb env nd ex old fs st1 st2"
  shows "pass_ok lb env nd ex old (es @ fs) st st2"
proof -
  from assms obtain ds fs' where
    "sent st1 = sent st @ ds" "sent st2 = sent st1 @ fs'"
    "list_all2 (describes lb env nd old) (filter (wanted lb ex old) es) ds"
    "list_all2 (describes lb env nd old) (filter (wanted lb ex old) fs) fs'"
    "files_indexed (cs_result st1) = files_indexed (cs_result st) + of_nat (length ds)"
    "files_indexed (cs_result st2) = files_indexed (cs_result st1) + of_nat (length fs')"
    "files_new (cs_result st1) + files_updated (cs_result st1) =
       files_new (cs_result st) + files_updated (cs_result st) + of_nat (length ds)"
    "files_new (cs_result st2) + files_updated (cs_result st2) =
       files_new (cs_result st1) + files_updated (cs_result st1) + of_nat (length fs')"
    unfolding pass_ok_def by blast
  then have "\<exists>xs. sent st2 = sent st @ xs \<and>
      list_all2 (describes lb env nd old) (filter (wanted lb ex old) (es @ fs)) xs \<and>
      files_indexed (cs_result st2) = files_indexed (cs_result st) + of_nat (length xs) \<and>
      files_new (cs_result st2) + files_updated (cs_result st2) =
        files_new (cs_result st) + files_updated (cs_result st) + of_nat (length xs)"
    by (intro exI [of _ "ds @ fs'"]) (simp add: list_all2_appendI)
  with assms show ?thesis by (auto simp: pass_ok_def)
qed

text \<open>Only the state of the database changes, not the log.\<close>

lemma pass_ok_db:
  assumes "snd s = snd (cs_db st)"
  shows "pass_ok lb env nd ex old es (st\<lparr>cs_db := s\<rparr>) st' = pass_ok lb env nd ex old es st st'"
    "state_ok (st\<lparr>cs_db := s\<rparr>) = state_ok st"
  using assms by (simp_all add: pass_ok_def sent_def state_ok_def)

lemma flush_batch_logged:
  "flush_batch (logged db) b (s, log) = Inr sl \<Longrightarrow> snd sl = log @ [b]"
  by (auto simp: flush_batch_def split: prod.splits sum.splits)

lemma flush_state_ok:
  assumes "flush_state (logged db) st = Inr st'" "batches_ok (snd (cs_db st))"
    "cs_batch st \<noteq> []" "length (cs_batch st) \<le> BATCH_SIZE"
  shows "sent st' = sent st \<and> state_ok st' \<and> cs_seen st' = cs_seen st \<and>
    cs_result st' = cs_result st \<and> cs_batch st' = []"
proof -
  obtain s log where db: "cs_db st = (s, log)" by (cases "cs_db st")
  from assms(1) obtain sl where "flush_batch (logged db) (cs_batch st) (s, log) = Inr sl"
    "st' = st\<lparr>cs_batch := [], cs_db := sl\<rparr>"
    by (auto simp: flush_state_def db and_then_Inr)
  with flush_batch_logged [OF this(1)] assms(2-) show ?thesis
    by (auto simp: sent_def state_ok_def batches_ok_def db BATCH_SIZE_def)
qed

lemma random_inode_ge: "random_inode ns = Some n \<Longrightarrow> 1000 \<le> n"
  by (induction ns) (auto split: if_splits)

lemma identity_ok:
  assumes "identity env found st = Inr ((i, n, rv), st')"
  shows "cs_db st' = cs_db st \<and> cs_batch st' = cs_batch st \<and> cs_seen st' = cs_seen st \<and>
    files_indexed (cs_result st') = files_indexed (cs_result st) \<and>
    files_new (cs_result st') + files_updated (cs_result st') =
      files_new (cs_result st) + files_updated (cs_result st) + 1 \<and>
    (case found of
       Some doc \<Rightarrow> i = unwrap_or (jget_str ''_id'' doc) [] \<and> rv = jget_str ''_rev'' doc \<and>
         (case Option.bind (jget ''inode'' doc) as_u64 of Some m \<Rightarrow> n = m | None \<Rightarrow> 1000 \<le> n)
     | None \<Rightarrow> (\<exists>k. i = file_new_id (ce_uuid env k)) \<and> rv = None \<and> 1000 \<le> n)"
  using assms by (auto simp: identity_def Let_def random_inode_ge split: option.splits)

lemma index_file_ok:
  assumes run: "index_file lb env (logged db) nd found path nm sz t st = Inr st'"
    and ok: "state_ok st" and found: "found = map_of old path"
    and e: "we_path e = path" "we_metadata e = Some (sz, t)"
  shows "state_ok st' \<and> cs_seen st' = cs_seen st \<and>
    (\<exists>d. sent st' = sent st @ [d] \<and> describes lb env nd old e d) \<and>
    files_indexed (cs_result st') = files_indexed (cs_result st) + 1 \<and>
    files_new (cs_result st') + files_updated (cs_result st') =
      files_new (cs_result st) + files_updated (cs_result st) + 1"
proof -
  from run obtain i n rv st1 where idn: "identity env found st = Inr ((i, n, rv), st1)"
    by (auto simp: index_file_def and_then_Inr)
  define d where "d = file_doc lb i nd n nm path (unwrap_or (path_parent path) []) sz t (ce_mime env path) rv"
  define st2 where "st2 = st1\<lparr>cs_batch := cs_batch st1 @ [d],
    cs_result := (cs_result st1)\<lparr>files_indexed := files_indexed (cs_result st1) + 1\<rparr>\<rparr>"
  note id_ok = identity_ok [OF idn]
  have desc: "describes lb env nd old e d"
    using id_ok e found by (auto simp: describes_def d_def jget_str_def split: option.splits)
  have st2: "sent st2 = sent st @ [d]" "batches_ok (snd (cs_db st2))" "cs_batch st2 \<noteq> []"
    "length (cs_batch st2) \<le> BATCH_SIZE"
    using id_ok ok by (auto simp: st2_def sent_def state_ok_def)
  from run idn have "(if BATCH_SIZE \<le> length (cs_batch st2) then flush_state (logged db) st2 else Inr st2) = Inr st'"
    by (simp only: index_file_def and_then.simps prod.case Let_def st2_def d_def)
  then have "sent st' = sent st2 \<and> state_ok st' \<and> cs_seen st' = cs_seen st2 \<and> cs_result st' = cs_result st2"
    using flush_state_ok [of db st2 st'] st2 by (auto simp: state_ok_def split: if_splits)
  with st2 desc id_ok show ?thesis by (auto simp: st2_def)
qed

lemma visit_entry_ok:
  assumes run: "visit_entry lb env (logged db) nd ex old e st = Inr st'" and ok: "state_ok st"
  shows "state_ok st' \<and> pass_ok lb env nd ex old [e] st st'"
proof (cases "wanted lb ex old e")
  case False
  have "sent st' = sent st \<and> state_ok st' \<and> files_indexed (cs_result st') = files_indexed (cs_result st) \<and>
      files_new (cs_result st') = files_new (cs_result st) \<and>
      files_updated (cs_result st') = files_updated (cs_result st) \<and>
      set (cs_seen st') = set (cs_seen st) \<union> we_path ` {x \<in> {e}. tracked ex x}"
    using run ok False
    by (auto simp: visit_entry_def wanted_def tracked_def Let_def sent_def state_ok_def split: if_splits option.splits)
  with False show ?thesis by (auto simp: pass_ok_def)
next
  case True
  then obtain sz t where e: "we_metadata e = Some (sz, t)" by (auto simp: wanted_def)
  define st1 where "st1 = st\<lparr>cs_seen := List.insert (we_path e) (cs_seen st)\<rparr>"
  from True e run have ix: "index_file lb env (logged db) nd (map_of old (we_path e)) (we_path e)
      (unwrap_or (path_file_name (we_path e)) []) sz t st1 = Inr st'"
    by (auto simp: visit_entry_def wanted_def tracked_def Let_def st1_def split: option.splits)
  have st1: "state_ok st1" "sent st1 = sent st" "cs_result st1 = cs_result st"
    "set (cs_seen st1) = insert (we_path e) (set (cs_seen st))"
    using ok by (auto simp: st1_def state_ok_def sent_def)
  from index_file_ok [OF ix st1(1) refl refl e] obtain d where
    "state_ok st'" "cs_seen st' = cs_seen st1" "sent st' = sent st @ [d]" "describes lb env nd old e d"
    "files_indexed (cs_result st') = files_indexed (cs_result st) + 1"
    "files_new (cs_result st') + files_updated (cs_result st') =
      files_new (cs_result st) + files_updated (cs_result st) + 1"
    by (auto simp: st1)
  moreover from True have "tracked ex e" by (simp add: wanted_def)
  ultimately show ?thesis
    using True st1 by (auto simp: pass_ok_def intro!: exI [of _ "[d]"])
qed

lemma pass_ok_refl: "pass_ok lb env nd ex old [] st st"
  by (simp add: pass_ok_def)

lemma visit_entries_ok:
  assumes "visit_entries lb env (logged db) nd ex old es st = Inr st'" "state_ok st"
  shows "state_ok st' \<and> pass_ok lb env nd ex old es st st'"
  using assms
proof (induction es arbitrary: st)
  case Nil
  then show ?case by (simp add: pass_ok_refl)
next
  case (Cons e es)
  then obtain st1 where st1: "visit_entry lb env (logged db) nd ex old e st = Inr st1"
    "visit_entries lb env (logged db) nd ex old es st1 = Inr st'"
    by (auto simp: and_then_Inr)
  from visit_entry_ok [OF st1(1) Cons.prems(2)] Cons.IH [OF st1(2)]
  show ?case using pass_ok_trans [of lb env nd ex old "[e]" st st1 es st'] by auto
qed

lemma emit_log [simp]:
  "snd (emit_notification (logged db) nd part key sev title msg acts now sl) = snd sl"
  by (auto simp: emit_notification_def Let_def split: prod.splits dest: kept_log_log)

lemma resolve_log:
  "resolve_notification (logged db) nd key now sl = (r, sl') \<Longrightarrow> snd sl' = snd sl"
  by (auto simp: resolve_notification_def split: prod.splits sum.splits if_splits option.splits dest: kept_log_log)

text \<open>The entries of a pass: those below the watch paths that exist.\<close>

definition walked :: "crawl_env \<Rightarrow> string list \<Rightarrow> walk_entry list" where
  "walked env wps = concat (map (ce_walk env) (filter (ce_exists env) wps))"

lemma visit_paths_ok:
  assumes "visit_paths lb env (logged db) nd ex old wps st = Inr st'" "state_ok st"
  shows "state_ok st' \<and> pass_ok lb env nd ex old (walked env wps) st st'"
  using assms
proof (induction wps arbitrary: st)
  case Nil
  then show ?case by (simp add: walked_def pass_ok_refl)
next
  case (Cons wp wps)
  show ?case
  proof (cases "ce_exists env wp")
    case False
    with Cons.prems Cons.IH [OF _ iffD2 [OF pass_ok_db(2)]] show ?thesis
      by (simp add: pass_ok_db walked_def)
  next
    case True
    obtain r s where rs: "resolve_notification (logged db) nd (inaccessible_condition wp) (ce_now env wp) (cs_db st) = (r, s)"
      by (cases "resolve_notification (logged db) nd (inaccessible_condition wp) (ce_now env wp) (cs_db st)")
    with Cons.prems True obtain st1 where st1:
      "visit_entries lb env (logged db) nd ex old (ce_walk env wp) (st\<lparr>cs_db := s\<rparr>) = Inr st1"
      "visit_paths lb env (logged db) nd ex old wps st1 = Inr st'"
      by (auto simp: and_then_Inr split: option.splits)
    note log = resolve_log [OF rs]
    from visit_entries_ok [OF st1(1)] Cons.prems(2)
    have "state_ok st1" "pass_ok lb env nd ex old (ce_walk env wp) st st1"
      by (simp_all add: pass_ok_db log)
    with Cons.IH [OF st1(2)] True show ?thesis
      using pass_ok_trans [of lb env nd ex old "ce_walk env wp" st st1 "walked env wps" st']
      by (simp add: walked_def)
  qed
qed

section \<open>What a pass deletes\<close>

text \<open>A known document is an object, so that marking it deleted does not panic.\<close>

lemma tombstone_fields:
  assumes "tombstone now doc = Some d"
  shows "jget_str ''status'' d = Some ''deleted''" "jget_str ''deleted_at'' d = Some now"
    "k \<notin> {''status'', ''deleted_at''} \<Longrightarrow> jget k d = jget k doc"
  using assms by (auto simp: tombstone_def bind_eq_Some_conv jget_jset jget_str_def)

definition tombstones :: "crawl_env \<Rightarrow> string list \<Rightarrow> (string \<times> json) list \<Rightarrow> json list" where
  "tombstones env seen old =
     List.map_filter (\<lambda>e. tombstone (ce_now env (fst e)) (snd e)) (filter (is_missing seen) old)"

lemma delete_loop_ok:
  assumes "delete_loop env (logged db) seen old batch n (s, log) = Inr (n', batch', s', log')"
    and "batches_ok log" "length batch < BATCH_SIZE"
  shows "concat log' @ batch' = concat log @ batch @ tombstones env seen old \<and>
    length (tombstones env seen old) = length (filter (is_missing seen) old) \<and>
    n' = n + of_nat (length (tombstones env seen old)) \<and> batches_ok log' \<and> length batch' < BATCH_SIZE"
  using assms
proof (induction old arbitrary: batch n s log)
  case Nil
  then show ?case by (simp add: tombstones_def map_filter_simps)
next
  case (Cons e old)
  show ?case
  proof (cases "is_missing seen e")
    case False
    then have "tombstones env seen (e # old) = tombstones env seen old"
      by (simp add: tombstones_def)
    moreover from Cons.prems(1) False
    have "delete_loop env (logged db) seen old batch n (s, log) = Inr (n', batch', s', log')" by simp
    note Cons.IH [OF this Cons.prems(2,3)]
    ultimately show ?thesis using False by simp
  next
    case True
    with Cons.prems obtain t where t: "tombstone (ce_now env (fst e)) (snd e) = Some t"
      by (auto split: option.splits)
    have ts: "tombstones env seen (e # old) = t # tombstones env seen old"
      by (simp add: tombstones_def True t map_filter_simps)
    show ?thesis
    proof (cases "BATCH_SIZE \<le> length (batch @ [t])")
      case False
      with Cons.prems True t have run: "delete_loop env (logged db) seen old (batch @ [t]) (n + 1) (s, log) = Inr (n', batch', s', log')"
        by simp
      from Cons.IH [OF run Cons.prems(2)] False True show ?thesis by (simp add: ts)
    next
      case full: True
      with Cons.prems True t obtain sl where sl: "flush_batch (logged db) (batch @ [t]) (s, log) = Inr sl"
        "delete_loop env (logged db) seen old [] (n + 1) sl = Inr (n', batch', s', log')"
        by (auto simp: Let_def and_then_Inr)
      obtain s2 where sl': "sl = (s2, log @ [batch @ [t]])"
        using flush_batch_logged [OF sl(1)] by (cases sl) simp
      have "batches_ok (log @ [batch @ [t]])"
        using Cons.prems(2,3) by (auto simp: batches_ok_def)
      from Cons.IH [OF sl(2) [unfolded sl'] this] True show ?thesis
        by (simp add: ts BATCH_SIZE_def)
    qed
  qed
qed

section \<open>The pass as a whole\<close>

lemma update_subset: "set (AList.update k v m) \<subseteq> insert (k, v) (set m)"
  by (induction m) auto

lemma jget_object: "jget k j = Some v \<Longrightarrow> is_object j"
  by (cases j) auto

definition known_file :: "string \<Rightarrow> string \<times> json \<Rightarrow> bool" where
  "known_file nd e \<longleftrightarrow> is_object (snd e) \<and> source_str ''node_id'' (snd e) = Some nd \<and>
     source_str ''export_path'' (snd e) = Some (fst e)"

lemma add_existing_known:
  assumes "\<forall>e \<in> set m. known_file nd e" "e \<in> set (add_existing nd doc m)"
  shows "known_file nd e"
proof (cases "e \<in> set m")
  case False
  with assms(2) obtain p where "source_str ''node_id'' doc = Some nd"
    "source_str ''export_path'' doc = Some p" "e = (p, doc)"
    using update_subset by (fastforce simp: add_existing_def split: if_splits option.splits)
  moreover from this(1) have "is_object doc"
    by (auto simp: source_str_def bind_eq_Some_conv dest: jget_object)
  ultimately show ?thesis by (simp add: known_file_def)
qed (use assms in simp)

lemma existing_files_known: "e \<in> set (existing_files nd docs) \<Longrightarrow> known_file nd e"
proof -
  have "\<forall>e \<in> set m. known_file nd e \<Longrightarrow> \<forall>e \<in> set (fold (add_existing nd) docs m). known_file nd e" for m
    by (induction docs arbitrary: m) (auto dest: add_existing_known)
  from this [of "[]"] show "e \<in> set (existing_files nd docs) \<Longrightarrow> known_file nd e"
    by (simp add: existing_files_def)
qed

lemma tombstone_object: "is_object doc \<Longrightarrow> \<exists>t. tombstone now doc = Some t"
  by (cases doc) (simp_all add: tombstone_def)

definition seen_paths :: "crawl_env \<Rightarrow> string list \<Rightarrow> string list \<Rightarrow> string list" where
  "seen_paths env excluded wps = map we_path (filter (tracked excluded) (walked env wps))"

lemma is_missing_cong: "set seen = set seen' \<Longrightarrow> is_missing seen = is_missing seen'"
  by (simp add: is_missing_def fun_eq_iff)

lemma tombstones_cong: "set seen = set seen' \<Longrightarrow> tombstones env seen old = tombstones env seen' old"
  unfolding tombstones_def by (subst is_missing_cong) simp_all

lemma soft_delete_ok:
  assumes run: "soft_delete_missing env (logged db) old seen (s, log) = Inr (n, s', log')"
    and ok: "batches_ok log"
  shows "concat log' = concat log @ tombstones env seen old \<and> batches_ok log' \<and>
    n = of_nat (length (filter (is_missing seen) old)) \<and>
    length (tombstones env seen old) = length (filter (is_missing seen) old)"
proof -
  from run obtain x where loop: "delete_loop env (logged db) seen old [] 0 (s, log) = Inr x"
    and rest: "(case x of (n, b, s1) \<Rightarrow> if b = [] then Inr (n, s1)
       else and_then (flush_batch (logged db) b s1) (\<lambda>s2. Inr (n, s2))) = Inr (n, s', log')"
    using and_then_Inr [THEN iffD1, OF run [unfolded soft_delete_missing_def]] by auto
  obtain m b s1 log1 where x: "x = (m, b, s1, log1)" by (cases x) auto
  from rest x have m: "m = n" by (auto simp: and_then_Inr split: if_splits)
  from delete_loop_ok [OF loop [unfolded x m] ok] have l: "concat log1 @ b = concat log @ tombstones env seen old"
    "length (tombstones env seen old) = length (filter (is_missing seen) old)"
    "n = of_nat (length (tombstones env seen old))" "batches_ok log1" "length b < BATCH_SIZE"
    by (auto simp: BATCH_SIZE_def)
  show ?thesis
  proof (cases "b = []")
    case True
    with rest l x show ?thesis by simp
  next
    case False
    with rest x have "flush_batch (logged db) b (s1, log1) = Inr (s', log')"
      by (auto simp: and_then_Inr)
    from flush_batch_logged [OF this] l False show ?thesis by (auto simp: batches_ok_def)
  qed
qed

lemma crawl_spec:
  assumes pre: "db_prefix db ''file::'' s = (Inr rows, s1)"
    and run: "crawl lb env (logged db) nd wps ex (s, []) = Inr (r, s', log)"
  defines "old \<equiv> existing_files nd (row_docs rows)"
  shows "\<exists>ds. concat log = ds @ tombstones env (seen_paths env ex wps) old \<and>
    list_all2 (describes lb env nd old) (filter (wanted lb ex old) (walked env wps)) ds \<and>
    batches_ok log \<and> files_indexed r = of_nat (length ds) \<and>
    files_new r + files_updated r = files_indexed r \<and>
    files_deleted r = of_nat (length (filter (is_missing (seen_paths env ex wps)) old)) \<and>
    length (tombstones env (seen_paths env ex wps) old) =
      length (filter (is_missing (seen_paths env ex wps)) old)"
proof -
  define st0 where "st0 = \<lparr>cs_result = no_files, cs_seen = [], cs_batch = [], cs_fresh = 0, cs_db = (s1, [] :: json list list)\<rparr>"
  have "load_existing_files (logged db) nd (s, []) = (Inr old, s1, [])"
    by (simp add: load_existing_files_def kept_log_def pre old_def)
  with run obtain st st2 n s3 where st:
    "visit_paths lb env (logged db) nd ex old wps st0 = Inr st"
    "(if cs_batch st = [] then Inr st else flush_state (logged db) st) = Inr st2"
    "soft_delete_missing env (logged db) old (cs_seen st2) (cs_db st2) = Inr (n, s3)"
    "r = (cs_result st2)\<lparr>files_deleted := n\<rparr>" "s3 = (s', log)"
    by (auto simp: crawl_def and_then_Inr st0_def)
  have "state_ok st0" by (simp add: state_ok_def st0_def batches_ok_def BATCH_SIZE_def)
  from visit_paths_ok [OF st(1) this] obtain ds where ok: "state_ok st" and ds: "sent st = ds"
    "list_all2 (describes lb env nd old) (filter (wanted lb ex old) (walked env wps)) ds"
    "files_indexed (cs_result st) = of_nat (length ds)"
    "files_new (cs_result st) + files_updated (cs_result st) = of_nat (length ds)"
    and seen: "set (cs_seen st) = set (seen_paths env ex wps)"
    by (auto simp: pass_ok_def st0_def sent_def no_files_def seen_paths_def)
  have st2: "sent st2 = ds \<and> state_ok st2 \<and> cs_seen st2 = cs_seen st \<and> cs_result st2 = cs_result st \<and> cs_batch st2 = []"
  proof (cases "cs_batch st = []")
    case True
    with st(2) ok ds(1) show ?thesis by auto
  next
    case False
    with st(2) ok have "flush_state (logged db) st = Inr st2" "batches_ok (snd (cs_db st))"
      "length (cs_batch st) \<le> BATCH_SIZE" by (auto simp: state_ok_def)
    from flush_state_ok [OF this(1,2) False this(3)] ds(1) show ?thesis by simp
  qed
  obtain s2 log2 where db2: "cs_db st2 = (s2, log2)" by (cases "cs_db st2")
  with st2 have "concat log2 = ds" "batches_ok log2" by (auto simp: sent_def state_ok_def)
  with soft_delete_ok [of env db old "cs_seen st2" s2 log2 n s' log] st(3,5) db2 st2
  have "concat log = ds @ tombstones env (cs_seen st) old \<and> batches_ok log \<and>
    n = of_nat (length (filter (is_missing (cs_seen st)) old)) \<and>
    length (tombstones env (cs_seen st) old) = length (filter (is_missing (cs_seen st)) old)" by simp
  with ds st(4) st2 show ?thesis
    by (auto simp: tombstones_cong [OF seen] is_missing_cong [OF seen])
qed

section \<open>An example\<close>

text \<open>
  A watch path with one file, and two known files: the one found, changed, and one that is
  gone.
\<close>

definition sample_known :: "string \<Rightarrow> string \<Rightarrow> json" where
  "sample_known i path = JObj [(''_id'', JStr i), (''_rev'', JStr ''1-a''), (''type'', JStr ''file''),
     (''inode'', JNum (PosInt 2000)), (''size'', JNum (PosInt 4)), (''mtime'', JStr ''p''),
     (''source'', JObj [(''node_id'', JStr ''n''), (''export_path'', JStr path)]),
     (''status'', JStr ''active'')]"

definition sample_files :: store where
  "sample_files = [(''file::1'', sample_known ''file::1'' ''/d/a''),
     (''file::2'', sample_known ''file::2'' ''/d/b'')]"

definition sample_crawl_env :: crawl_env where
  "sample_crawl_env = \<lparr>ce_exists = (\<lambda>p. p = ''/d''),
     ce_walk = (\<lambda>p. [\<lparr>we_path = ''/d/a'', we_is_file = True, we_metadata = Some (5, 7)\<rparr>]),
     ce_mime = (\<lambda>p. None), ce_now = (\<lambda>p. ''t''), ce_uuid = (\<lambda>n. ''u''),
     ce_draws = (\<lambda>n. [3, 5000])\<rparr>"

lemma sample_load:
  "db_prefix sample_couch ''file::'' sample_files = (Inr
     [\<lparr>row_id = ''file::1'', row_key = ''file::1'', row_value = JNull, row_doc = Some (sample_known ''file::1'' ''/d/a'')\<rparr>,
      \<lparr>row_id = ''file::2'', row_key = ''file::2'', row_value = JNull, row_doc = Some (sample_known ''file::2'' ''/d/b'')\<rparr>],
     sample_files)"
  by (simp add: sample_files_def starts_with_iff)

lemma sample_existing:
  "existing_files ''n'' [sample_known ''file::1'' ''/d/a'', sample_known ''file::2'' ''/d/b''] =
     [(''/d/a'', sample_known ''file::1'' ''/d/a''), (''/d/b'', sample_known ''file::2'' ''/d/b'')]"
  by (simp add: existing_files_def add_existing_def source_str_def sample_known_def jget_str_def)

lemma sample_loaded:
  "load_existing_files (logged sample_couch) ''n'' (sample_files, []) =
     (Inr [(''/d/a'', sample_known ''file::1'' ''/d/a''), (''/d/b'', sample_known ''file::2'' ''/d/b'')],
      sample_files, [])"
  by (simp add: load_existing_files_def kept_log_def sample_load sample_existing del: sample_couch_simps)

lemma sample_crawl_runs:
  "\<exists>r log. crawl sample_libs sample_crawl_env (logged sample_couch) ''n'' [''/d''] [] (sample_files, []) =
     Inr (r, sample_files, log)"
proof -
  have res: "resolve_notification (logged sample_couch) ''n'' (inaccessible_condition ''/d'') ''t'' (sample_files, []) =
      (Some (), sample_files, [])"
    by (simp add: resolve_notification_def notification_id_def inaccessible_condition_def kept_log_def
        sample_files_def)
  show ?thesis
    by (simp add: crawl_def sample_loaded res sample_crawl_env_def visit_entry_def crawl_excluded_def unchanged_def
        sample_known_def jget_str_def sample_parse_time_def starts_with_iff path_file_name_def
        bad_name_def index_file_def identity_def BATCH_SIZE_def flush_state_def flush_batch_def
        soft_delete_missing_def is_missing_def tombstone_def Let_def)
qed

lemma sample_unmounted_runs:
  "\<exists>r s' log. crawl sample_libs sample_crawl_env (logged sample_couch) ''n'' [''/usb''] [] (sample_files, []) =
     Inr (r, s', log)"
proof -
  obtain s1 log1 where em: "emit_notification (logged sample_couch) ''n'' ''crawler'' (inaccessible_condition ''/usb'')
      ''error'' ''Watch path inaccessible'' (''Watch path '' @ ''/usb'' @ '' does not exist or is not accessible.'')
      None ''t'' (sample_files, []) = (s1, log1)"
    by (rule prod.exhaust)
  show ?thesis
    using em by (simp add: crawl_def sample_loaded sample_crawl_env_def sample_known_def jget_str_def BATCH_SIZE_def flush_batch_def
        soft_delete_missing_def is_missing_def tombstone_def Let_def)
qed

section \<open>Properties\<close>

text \<open>C13: a pass that succeeds has sent, in batches of at most 200, one document for each file it found
  new or changed, describing that file under the identity it already had, and then one tombstone for
  each known file it did not see; its counters count exactly these.\<close>

theorem crawl_correct:
  assumes "db_prefix db ''file::'' s = (Inr rows, s1)"
    and "crawl lb env (logged db) nd wps ex (s, []) = Inr (r, s', log)"
  shows "\<exists>ds. concat log = ds @ tombstones env (seen_paths env ex wps) (existing_files nd (row_docs rows)) \<and>
    list_all2 (describes lb env nd (existing_files nd (row_docs rows)))
      (filter (wanted lb ex (existing_files nd (row_docs rows))) (walked env wps)) ds \<and>
    (\<forall>b \<in> set log. b \<noteq> [] \<and> length b \<le> 200) \<and>
    files_indexed r = of_nat (length ds) \<and> files_new r + files_updated r = files_indexed r \<and>
    files_deleted r = of_nat (length (filter (is_missing (seen_paths env ex wps))
      (existing_files nd (row_docs rows))))"
  using crawl_spec [OF assms] unfolding batches_ok_def BATCH_SIZE_def by blast

text \<open>When no watch path can be reached, for instance because a disk is not mounted, the pass still
  succeeds and marks every known file of the node deleted.\<close>

lemma unmounted_path_deletes_files:
  assumes "db_prefix db ''file::'' s = (Inr rows, s1)"
    and "crawl lb env (logged db) nd wps ex (s, []) = Inr (r, s', log)"
    and "\<forall>wp \<in> set wps. \<not> ce_exists env wp"
    and "(p, doc) \<in> set (existing_files nd (row_docs rows))" "jget_str ''status'' doc = Some ''active''"
  shows "\<exists>t \<in> set (concat log). jget ''_id'' t = jget ''_id'' doc \<and>
    jget_str ''status'' t = Some ''deleted''"
proof -
  let ?old = "existing_files nd (row_docs rows)"
  have none: "seen_paths env ex wps = []" using assms(3) by (simp add: seen_paths_def walked_def)
  from crawl_spec [OF assms(1,2)] none obtain ds where "concat log = ds @ tombstones env [] ?old" by auto
  then have "set (tombstones env [] ?old) \<subseteq> set (concat log)" by simp
  moreover have "(p, doc) \<in> set (filter (is_missing []) ?old)"
    using assms(4,5) by (simp add: is_missing_def)
  moreover obtain t where t: "tombstone (ce_now env p) doc = Some t"
    using existing_files_known [OF assms(4)] tombstone_object by (auto simp: known_file_def)
  ultimately have "t \<in> set (concat log)"
    by (force simp: tombstones_def List.map_filter_def)
  with tombstone_fields(1,3) [OF t] show ?thesis by (intro bexI [of _ t]) simp_all
qed

theorem crawl_correct_witness:
  "\<exists>r s' log ds. crawl sample_libs sample_crawl_env (logged sample_couch) ''n'' [''/d''] [] (sample_files, []) =
     Inr (r, s', log) \<and> length ds = 1 \<and>
     concat log = ds @ tombstones sample_crawl_env [''/d/a'']
       [(''/d/a'', sample_known ''file::1'' ''/d/a''), (''/d/b'', sample_known ''file::2'' ''/d/b'')] \<and>
     files_deleted r = 1"
proof -
  obtain r log where run: "crawl sample_libs sample_crawl_env (logged sample_couch) ''n'' [''/d''] [] (sample_files, []) =
      Inr (r, sample_files, log)"
    using sample_crawl_runs by blast
  have seen: "seen_paths sample_crawl_env [] [''/d''] = [''/d/a'']"
    by (simp add: seen_paths_def walked_def sample_crawl_env_def tracked_def crawl_excluded_def)
  have want: "filter (wanted sample_libs []
      [(''/d/a'', sample_known ''file::1'' ''/d/a''), (''/d/b'', sample_known ''file::2'' ''/d/b'')])
      (walked sample_crawl_env [''/d'']) = [\<lparr>we_path = ''/d/a'', we_is_file = True, we_metadata = Some (5, 7)\<rparr>]"
    by (simp add: walked_def sample_crawl_env_def wanted_def tracked_def crawl_excluded_def unchanged_def sample_known_def
        jget_str_def sample_parse_time_def starts_with_iff path_file_name_def bad_name_def)
  have miss: "filter (is_missing [''/d/a''])
      [(''/d/a'', sample_known ''file::1'' ''/d/a''), (''/d/b'', sample_known ''file::2'' ''/d/b'')] =
      [(''/d/b'', sample_known ''file::2'' ''/d/b'')]"
    by (simp add: is_missing_def sample_known_def jget_str_def)
  have ex: "existing_files ''n'' (row_docs
      [\<lparr>row_id = ''file::1'', row_key = ''file::1'', row_value = JNull, row_doc = Some (sample_known ''file::1'' ''/d/a'')\<rparr>,
       \<lparr>row_id = ''file::2'', row_key = ''file::2'', row_value = JNull, row_doc = Some (sample_known ''file::2'' ''/d/b'')\<rparr>]) =
      [(''/d/a'', sample_known ''file::1'' ''/d/a''), (''/d/b'', sample_known ''file::2'' ''/d/b'')]"
    by (simp add: sample_existing)
  from crawl_correct [OF sample_load run, unfolded ex seen want miss] obtain ds where
    "concat log = ds @ tombstones sample_crawl_env [''/d/a'']
       [(''/d/a'', sample_known ''file::1'' ''/d/a''), (''/d/b'', sample_known ''file::2'' ''/d/b'')]"
    "length ds = 1" "files_deleted r = 1"
    by (auto dest: list_all2_lengthD)
  with run show ?thesis by blast
qed

end
