(* ===== verification/Api.thy ===== *)
theory Api
  imports Couch "HOL-Library.Multiset"
begin

text \<open>
  What the request handlers of \<open>mosaicfs-server/src/handlers\<close> share: replies, the error
  bodies, the removal of CouchDB's own fields, the reads and writes that turn a database
  error into a reply, paging and sorting. A handler is a function from the request and the
  state to a reply and the state. \<open>Panicked\<close> is a handler that panics: an assignment
  into a value that is not an object, or an unwrap. \<open>Pending\<close> is a handler that has not
  replied when the random draws it was given are used up.
\<close>

datatype reply = Reply nat json | Panicked | Pending

fun reply_status :: "reply \<Rightarrow> nat option" where
  "reply_status (Reply n _) = Some n"
| "reply_status Panicked = None"
| "reply_status Pending = None"

text \<open>The \<open>Display\<close> of \<open>CouchError\<close>.\<close>

fun couch_error_text :: "couch_error \<Rightarrow> string" where
  "couch_error_text (Http e) = ''HTTP error: '' @ e"
| "couch_error_text (CouchErr e r) = ''CouchDB error: '' @ e @ '' - '' @ r"
| "couch_error_text (NotFound i) = ''Document not found: '' @ i"
| "couch_error_text (Conflict m) = ''Conflict: '' @ m"

definition error_json :: "string \<Rightarrow> string \<Rightarrow> json" where
  "error_json code message = JObj [(''error'', JObj [(''code'', JStr code), (''message'', JStr message)])]"

definition internal :: "couch_error \<Rightarrow> reply" where
  "internal e = Reply 500 (error_json ''internal'' (couch_error_text e))"

definition invalid :: "string \<Rightarrow> reply" where
  "invalid message = Reply 400 (error_json ''validation'' message)"

definition not_found :: "string \<Rightarrow> reply" where
  "not_found message = Reply 404 (error_json ''not_found'' message)"

definition ok_reply :: reply where
  "ok_reply = Reply 200 (JObj [(''ok'', JBool True)])"

fun strip_internals :: "json \<Rightarrow> json" where
  "strip_internals (JObj kvs) =
     (let kvs1 = AList.delete ''_rev'' kvs in
      case map_of kvs1 ''_id'' of
        Some i \<Rightarrow> JObj (AList.update ''id'' i (AList.delete ''_id'' kvs1))
      | None \<Rightarrow> JObj kvs1)"
| "strip_internals j = j"

lemma jget_strip_internals:
  "jget k (strip_internals doc) =
     (if k = ''_rev'' \<or> k = ''_id'' then None
      else if k = ''id'' then (case jget ''_id'' doc of Some i \<Rightarrow> Some i | None \<Rightarrow> jget k doc)
      else jget k doc)"
  by (cases doc) (auto simp: Let_def update_conv' delete_conv' split: option.split)

section \<open>Handlers\<close>

text \<open>A step of a handler gives a value or the reply that ends the handler.\<close>

definition on_ok :: "(reply + 'a) \<times> 's \<Rightarrow> ('a \<Rightarrow> 's \<Rightarrow> reply \<times> 's) \<Rightarrow> reply \<times> 's" where
  "on_ok r f = (case r of (Inl rep, s) \<Rightarrow> (rep, s) | (Inr a, s) \<Rightarrow> f a s)"

lemma on_ok_simps [simp]: "on_ok (Inl rep, s) f = (rep, s)" "on_ok (Inr a, s) f = f a s"
  by (simp_all add: on_ok_def)

text \<open>A step on the database in a handler that also keeps another state.\<close>

definition with_cache :: "'c \<Rightarrow> 'a \<times> 's \<Rightarrow> 'a \<times> 'c \<times> 's" where
  "with_cache c r = (fst r, c, snd r)"

lemma with_cache_simps [simp]: "with_cache c (a, s) = (a, c, s)"
  by (simp add: with_cache_def)

text \<open>An assignment or unwrap that panics on \<open>None\<close>.\<close>

definition or_panic :: "'a option \<Rightarrow> ('a \<Rightarrow> 's \<Rightarrow> reply \<times> 's) \<Rightarrow> 's \<Rightarrow> reply \<times> 's" where
  "or_panic x f s = (case x of None \<Rightarrow> (Panicked, s) | Some a \<Rightarrow> f a s)"

lemma or_panic_simps [simp]: "or_panic None f s = (Panicked, s)" "or_panic (Some a) f s = f a s"
  by (simp_all add: or_panic_def)

text \<open>The document, a 404 with the handler's message, or a 500.\<close>

definition fetch :: "'s couch \<Rightarrow> string \<Rightarrow> string \<Rightarrow> 's \<Rightarrow> (reply + json) \<times> 's" where
  "fetch db doc_id message s =
     (case db_get db doc_id s of
        (Inr doc, s1) \<Rightarrow> (Inr doc, s1)
      | (Inl (NotFound _), s1) \<Rightarrow> (Inl (not_found message), s1)
      | (Inl e, s1) \<Rightarrow> (Inl (internal e), s1))"

definition fetch_all :: "'s couch \<Rightarrow> string \<Rightarrow> 's \<Rightarrow> (reply + json list) \<times> 's" where
  "fetch_all db pre s =
     (case db_prefix db pre s of
        (Inr rows, s1) \<Rightarrow> (Inr (row_docs rows), s1)
      | (Inl e, s1) \<Rightarrow> (Inl (internal e), s1))"

definition store_doc :: "'s couch \<Rightarrow> string \<Rightarrow> json \<Rightarrow> reply \<Rightarrow> 's \<Rightarrow> reply \<times> 's" where
  "store_doc db doc_id doc done s =
     (case db_put db doc_id doc s of
        (Inr _, s1) \<Rightarrow> (done, s1)
      | (Inl e, s1) \<Rightarrow> (internal e, s1))"

definition remove_doc :: "'s couch \<Rightarrow> string \<Rightarrow> json \<Rightarrow> 's \<Rightarrow> reply \<times> 's" where
  "remove_doc db doc_id doc s =
     (case db_delete db doc_id (unwrap_or (jget_str ''_rev'' doc) []) s of
        (Inr _, s1) \<Rightarrow> (ok_reply, s1)
      | (Inl e, s1) \<Rightarrow> (internal e, s1))"

definition get_stripped :: "'s couch \<Rightarrow> string \<Rightarrow> string \<Rightarrow> 's \<Rightarrow> reply \<times> 's" where
  "get_stripped db doc_id message s =
     on_ok (fetch db doc_id message s) (\<lambda>doc s1. (Reply 200 (strip_internals doc), s1))"

text \<open>The values of a request that come from outside: the time, a new UUID, random draws.\<close>

record api_env =
  ae_now :: string
  ae_uuid :: string
  ae_draws :: "u64 list"

text \<open>The fields of the request that are copied into the document, in the handler's order.\<close>

definition given :: "string list \<Rightarrow> json \<Rightarrow> (string \<times> json) list" where
  "given keys body = List.map_filter (\<lambda>k. map_option (Pair k) (jget k body)) keys"

text \<open>\<open>doc.get("k")\<close> as a JSON value: null when there is none.\<close>

definition json_opt :: "json option \<Rightarrow> json" where
  "json_opt v = unwrap_or v JNull"

definition json_str_opt :: "string option \<Rightarrow> json" where
  "json_str_opt v = (case v of Some t \<Rightarrow> JStr t | None \<Rightarrow> JNull)"

definition count_json :: "'a list \<Rightarrow> json" where
  "count_json xs = JNum (PosInt (of_nat (length xs)))"

text \<open>A page of the items: \<open>skip(offset)\<close>, \<open>take(limit)\<close>.\<close>

definition page :: "u64 option \<Rightarrow> u64 option \<Rightarrow> json list \<Rightarrow> json" where
  "page offset limit items =
     (let off = unwrap_or offset 0; lim = unwrap_or limit 100 in
      JObj [(''items'', JArr (take (unat lim) (drop (unat off) items))), (''total'', count_json items),
        (''offset'', JNum (PosInt off)), (''limit'', JNum (PosInt lim))])"

definition listing_json :: "json list \<Rightarrow> json" where
  "listing_json items = JObj [(''items'', JArr items), (''total'', count_json items)]"

text \<open>The items, whatever page is asked for.\<close>

definition items_of :: "reply \<Rightarrow> json list option" where
  "items_of r = (case r of Reply _ body \<Rightarrow> Option.bind (jget ''items'' body) as_array | _ \<Rightarrow> None)"

lemma items_of_simps [simp]:
  "items_of (Reply n (listing_json items)) = Some items"
  "items_of (Reply n (page offset limit items)) =
     Some (take (unat (unwrap_or limit 100)) (drop (unat (unwrap_or offset 0)) items))"
  by (simp_all add: items_of_def listing_json_def page_def Let_def)

lemma map_filter_set: "y \<in> set (List.map_filter f xs) \<longleftrightarrow> (\<exists>x \<in> set xs. f x = Some y)"
  by (induction xs) (auto simp: map_filter_simps split: option.splits)

section \<open>Sorting\<close>

text \<open>\<open>sort_by\<close>: a stable sort by a comparator.\<close>

fun insert_by :: "('a \<Rightarrow> 'a \<Rightarrow> ordering) \<Rightarrow> 'a \<Rightarrow> 'a list \<Rightarrow> 'a list" where
  "insert_by c x [] = [x]"
| "insert_by c x (y # ys) = (if c x y = Greater then y # insert_by c x ys else x # y # ys)"

definition sort_by :: "('a \<Rightarrow> 'a \<Rightarrow> ordering) \<Rightarrow> 'a list \<Rightarrow> 'a list" where
  "sort_by c xs = foldr (insert_by c) xs []"

lemma sort_by_simps [simp]: "sort_by c [] = []" "sort_by c (x # xs) = insert_by c x (sort_by c xs)"
  by (simp_all add: sort_by_def)

lemma mset_insert_by [simp]: "mset (insert_by c x ys) = add_mset x (mset ys)"
  by (induction ys) auto

lemma mset_sort_by [simp]: "mset (sort_by c xs) = mset xs"
  by (induction xs) simp_all

lemma set_sort_by [simp]: "set (sort_by c xs) = set xs"
  by (metis mset_sort_by set_mset_mset)

lemma length_sort_by [simp]: "length (sort_by c xs) = length xs"
  by (metis mset_sort_by size_mset)

text \<open>A comparator that orders: what is not greater is at most, in one direction at least.\<close>

definition orders :: "('a \<Rightarrow> 'a \<Rightarrow> ordering) \<Rightarrow> bool" where
  "orders c \<longleftrightarrow> (\<forall>x y. c x y = Greater \<longrightarrow> c y x \<noteq> Greater) \<and>
     (\<forall>x y z. c x y \<noteq> Greater \<longrightarrow> c y z \<noteq> Greater \<longrightarrow> c x z \<noteq> Greater)"

lemma set_insert_by: "set (insert_by c x ys) = insert x (set ys)"
  by (induction ys) auto

lemma sorted_insert_by:
  assumes "orders c" "sorted_wrt (\<lambda>a b. c a b \<noteq> Greater) ys"
  shows "sorted_wrt (\<lambda>a b. c a b \<noteq> Greater) (insert_by c x ys)"
  using assms(2)
proof (induction ys)
  case Nil
  then show ?case by simp
next
  case (Cons y ys)
  show ?case
  proof (cases "c x y = Greater")
    case True
    with assms(1) have "c y x \<noteq> Greater" unfolding orders_def by blast
    with Cons True show ?thesis by (auto simp: set_insert_by)
  next
    case False
    moreover have "\<forall>z \<in> set ys. c x z \<noteq> Greater"
      using Cons.prems assms(1) False unfolding orders_def by (meson sorted_wrt.simps(2))
    ultimately show ?thesis using Cons.prems by simp
  qed
qed

lemma sorted_sort_by: "orders c \<Longrightarrow> sorted_wrt (\<lambda>a b. c a b \<noteq> Greater) (sort_by c xs)"
  by (induction xs) (simp_all add: sorted_insert_by)

text \<open>Elements that compare equal keep their order: inserting does not move past an equal one.\<close>

lemma filter_insert_by:
  assumes "\<And>y. P y \<Longrightarrow> P x \<Longrightarrow> c x y \<noteq> Greater"
  shows "filter P (insert_by c x ys) = filter P (x # ys)"
  using assms by (induction ys) auto

lemma filter_sort_by:
  assumes "\<And>x y. P x \<Longrightarrow> P y \<Longrightarrow> c x y \<noteq> Greater"
  shows "filter P (sort_by c xs) = filter P xs"
  by (induction xs) (simp_all add: filter_insert_by assms)

section \<open>The database behind the handlers\<close>

lemma fetch_law:
  "reads_law db docs \<Longrightarrow> fetch db i m s = ((case docs s i of Some d \<Rightarrow> Inr d | None \<Rightarrow> Inl (not_found m)), s)"
  by (simp add: fetch_def reads_law_get split: option.split)

lemma set_row_docs: "d \<in> set (row_docs rows) \<longleftrightarrow> (\<exists>r \<in> set rows. row_doc r = Some d)"
  by (induction rows) (auto split: option.splits)

text \<open>The documents of a range, in some order.\<close>

lemma fetch_all_law:
  assumes "reads_law db docs"
  obtains ds where "fetch_all db pre s = (Inr ds, s)"
    "\<And>d. d \<in> set ds \<longleftrightarrow> (\<exists>i. starts_with i pre \<and> docs s i = Some d)"
proof -
  obtain rows where rows: "db_prefix db pre s = (Inr rows, s)" "distinct (map row_id rows)"
    "\<forall>r \<in> set rows. row_doc r \<noteq> None"
    "\<And>i d. (\<exists>r \<in> set rows. row_id r = i \<and> row_doc r = Some d) \<longleftrightarrow> starts_with i pre \<and> docs s i = Some d"
    by (rule reads_law_prefix [OF assms, of pre s]) (rule that)
  show thesis
  proof (rule that [of "row_docs rows"])
    show "fetch_all db pre s = (Inr (row_docs rows), s)" by (simp add: fetch_all_def rows(1))
    fix d
    show "d \<in> set (row_docs rows) \<longleftrightarrow> (\<exists>i. starts_with i pre \<and> docs s i = Some d)"
      unfolding set_row_docs using rows(4) [of _ d] by blast
  qed
qed

lemma store_doc_cases:
  assumes "writes_law db docs" "store_doc db i d done s = (r, s')" "reply_status done \<noteq> Some 500"
  shows "(r = done \<and> (\<exists>d'. same_fields d' d \<and> docs s' = (docs s)(i \<mapsto> d'))) \<or>
    (reply_status r = Some 500 \<and> docs s' = docs s)"
proof -
  obtain rr s1 where put: "db_put db i d s = (rr, s1)" by (cases "db_put db i d s")
  show ?thesis
    using writes_law_put [OF assms(1)] writes_law_put_failed [OF assms(1)] put assms(2)
    by (cases rr) (auto simp: store_doc_def internal_def)
qed

lemma store_doc_accepted:
  assumes "writes_law db docs" "accepts_writes db"
  obtains s' d' where "store_doc db i d done s = (done, s')" "same_fields d' d" "docs s' = (docs s)(i \<mapsto> d')"
proof -
  obtain r s' where put: "db_put db i d s = (Inr r, s')" using accepts_put [OF assms(2)] by blast
  then obtain d' where "same_fields d' d" "docs s' = (docs s)(i \<mapsto> d')"
    using writes_law_put [OF assms(1)] by blast
  with put show thesis by (intro that [of s' d']) (simp_all add: store_doc_def)
qed

lemma remove_doc_cases:
  assumes "writes_law db docs" "remove_doc db i d s = (r, s')"
  shows "(r = ok_reply \<and> docs s' = (docs s)(i := None)) \<or> (reply_status r = Some 500 \<and> docs s' = docs s)"
proof -
  obtain rr s1 where del: "db_delete db i (unwrap_or (jget_str ''_rev'' d) []) s = (rr, s1)"
    by (cases "db_delete db i (unwrap_or (jget_str ''_rev'' d) []) s")
  show ?thesis
    using writes_law_delete [OF assms(1)] writes_law_delete_failed [OF assms(1)] del assms(2)
    by (cases rr) (auto simp: remove_doc_def internal_def)
qed

end
