(* ===== verification/Node_Agent.thy ===== *)
theory Node_Agent
  imports Api Documents
begin

text \<open>
  The agent's own documents, \<open>mosaicfs-agent/src/node.rs\<close>: the node document written on
  start, heartbeat and shutdown, and the availability rows the node keeps in the
  filesystem documents. The clock, the platform and the file system are the record
  \<open>node_env\<close>; the time is already printed.
\<close>

record node_env =
  ne_now :: string
  ne_platform :: string
  ne_machine_id :: string
  ne_vfs_capable :: bool
  ne_exists :: "string \<Rightarrow> bool"

text \<open>\<open>AgentPanic\<close>: an assignment into a document that is not an object, or an unwrap.\<close>

datatype agent_failure = AgentFailed couch_error | AgentPanic

type_synonym 's agent_result = "(agent_failure + unit) \<times> 's"

section \<open>Filesystem availability\<close>

definition availability_row :: "string \<Rightarrow> string \<Rightarrow> string \<Rightarrow> string \<Rightarrow> json" where
  "availability_row node_id local_mount_path mount_type now =
     JObj [(''node_id'', JStr node_id), (''local_mount_path'', JStr local_mount_path),
       (''mount_type'', JStr mount_type), (''last_seen'', JStr now)]"

text \<open>The first row of the node is replaced; without one the row is appended.\<close>

fun set_row :: "string \<Rightarrow> json \<Rightarrow> json list \<Rightarrow> json list" where
  "set_row node_id row [] = [row]"
| "set_row node_id row (r # rs) =
     (if jget_str ''node_id'' r = Some node_id then row # rs else r # set_row node_id row rs)"

definition drop_rows :: "string \<Rightarrow> json list \<Rightarrow> json list" where
  "drop_rows node_id rows = filter (\<lambda>r. jget_str ''node_id'' r \<noteq> Some node_id) rows"

datatype upsert = Skip | Write json | Broken

text \<open>
  The document to write, given what the read returned: none when the filesystem belongs to
  another node or has another root.
\<close>

definition upsert_existing ::
  "string \<Rightarrow> string \<Rightarrow> string \<Rightarrow> json \<Rightarrow> json \<Rightarrow> upsert" where
  "upsert_existing self owner root row doc =
     (let existing_owner = unwrap_or (jget_str ''owning_node_id'' doc) [];
          existing_root = unwrap_or (jget_str ''export_root'' doc) []
      in if existing_owner \<noteq> owner \<and> existing_owner \<noteq> [] then Skip
         else if existing_root \<noteq> root \<and> existing_root \<noteq> [] then Skip
         else
           (case (if jget ''availability'' doc = None then jset ''availability'' (JArr []) doc else Some doc) of
              None \<Rightarrow> Broken
            | Some doc1 \<Rightarrow>
                (case Option.bind (jget ''availability'' doc1) as_array of
                   None \<Rightarrow> Broken
                 | Some rows \<Rightarrow>
                     (case jset ''availability'' (JArr (set_row self row rows)) doc1 of
                        None \<Rightarrow> Broken | Some d \<Rightarrow> Write d))))"

definition new_filesystem ::
  "string \<Rightarrow> string \<Rightarrow> string \<Rightarrow> json \<Rightarrow> string \<Rightarrow> json" where
  "new_filesystem filesystem_id owner root row now =
     JObj [(''_id'', JStr (filesystem_doc_id filesystem_id)), (''type'', JStr ''filesystem''),
       (''filesystem_id'', JStr filesystem_id),
       (''friendly_name'', JStr (unwrap_or (strip_prefix ''fs-'' filesystem_id) filesystem_id)),
       (''owning_node_id'', JStr owner), (''export_root'', JStr root),
       (''availability'', JArr [row]), (''created_at'', JStr now)]"

text \<open>\<open>upsert_loop n\<close> makes the last \<open>n\<close> of the three attempts; a conflict in the last one is given up.\<close>

fun upsert_loop ::
  "nat \<Rightarrow> 's couch \<Rightarrow> string \<Rightarrow> string \<Rightarrow> string \<Rightarrow> string \<Rightarrow> json \<Rightarrow> string \<Rightarrow> 's \<Rightarrow> 's agent_result" where
  "upsert_loop 0 db self filesystem_id owner root row now s = (Inr (), s)"
| "upsert_loop (Suc n) db self filesystem_id owner root row now s =
     (case db_get db (filesystem_doc_id filesystem_id) s of
        (got, s1) \<Rightarrow>
          (case (case got of
                   Inr doc \<Rightarrow> Inr (upsert_existing self owner root row doc)
                 | Inl (NotFound _) \<Rightarrow> Inr (Write (new_filesystem filesystem_id owner root row now))
                 | Inl e \<Rightarrow> Inl e) of
             Inl e \<Rightarrow> (Inl (AgentFailed e), s1)
           | Inr Skip \<Rightarrow> (Inr (), s1)
           | Inr Broken \<Rightarrow> (Inl AgentPanic, s1)
           | Inr (Write d) \<Rightarrow>
               (case db_put db (filesystem_doc_id filesystem_id) d s1 of
                  (Inr _, s2) \<Rightarrow> (Inr (), s2)
                | (Inl (Conflict _), s2) \<Rightarrow>
                    if n = 0 then (Inr (), s2)
                    else upsert_loop n db self filesystem_id owner root row now s2
                | (Inl e, s2) \<Rightarrow> (Inl (AgentFailed e), s2))))"

definition upsert_filesystem ::
  "'s couch \<Rightarrow> string \<Rightarrow> string \<Rightarrow> string \<Rightarrow> string \<Rightarrow> string \<Rightarrow> string \<Rightarrow> string \<Rightarrow> 's \<Rightarrow>
     's agent_result" where
  "upsert_filesystem db self filesystem_id owner root mount_type local_mount_path now s =
     upsert_loop 3 db self filesystem_id owner root
       (availability_row self local_mount_path mount_type now) now s"

text \<open>
  Errors of single documents are logged and the loop goes on; a panic ends it. A published
  entry is the arguments of its upsert.
\<close>

record publication =
  pb_filesystem_id :: string
  pb_owner :: string
  pb_root :: string
  pb_mount_type :: string
  pb_local_path :: string

fun publish_all :: "'s couch \<Rightarrow> string \<Rightarrow> string \<Rightarrow> publication list \<Rightarrow> 's \<Rightarrow> 's agent_result" where
  "publish_all db node_id now [] s = (Inr (), s)"
| "publish_all db node_id now (p # ps) s =
     (case upsert_filesystem db node_id (pb_filesystem_id p) (pb_owner p) (pb_root p)
             (pb_mount_type p) (pb_local_path p) now s of
        (Inl AgentPanic, s1) \<Rightarrow> (Inl AgentPanic, s1)
      | (_, s1) \<Rightarrow> publish_all db node_id now ps s1)"

definition local_publication :: "string \<Rightarrow> string \<times> string \<Rightarrow> publication" where
  "local_publication node_id e =
     \<lparr>pb_filesystem_id = fst e, pb_owner = node_id, pb_root = snd e, pb_mount_type = ''local'',
      pb_local_path = snd e\<rparr>"

definition mount_publication :: "network_mount \<Rightarrow> publication" where
  "mount_publication nm =
     \<lparr>pb_filesystem_id = nm_filesystem_id nm, pb_owner = nm_remote_node_id nm,
      pb_root = nm_remote_base_export_path nm, pb_mount_type = nm_mount_type nm,
      pb_local_path = nm_local_mount_path nm\<rparr>"

definition publish_filesystem_availability ::
  "node_env \<Rightarrow> 's couch \<Rightarrow> string \<Rightarrow> (string \<times> string) list \<Rightarrow> network_mount list \<Rightarrow> 's \<Rightarrow>
     's agent_result" where
  "publish_filesystem_availability env db node_id storage network_mounts s =
     publish_all db node_id (ne_now env)
       (map (local_publication node_id) storage @ map mount_publication network_mounts) s"

text \<open>The identifier and mount point of the storage entries that have both.\<close>

definition storage_entries :: "json list \<Rightarrow> (string \<times> string) list" where
  "storage_entries entries = List.map_filter (\<lambda>e.
     (case (jget_str ''filesystem_id'' e, jget_str ''mount_point'' e) of
        (Some i, Some m) \<Rightarrow> Some (i, m) | _ \<Rightarrow> None)) entries"

text \<open>The call on registration and heartbeat: a failure is logged.\<close>

definition republish ::
  "node_env \<Rightarrow> 's couch \<Rightarrow> string \<Rightarrow> json option \<Rightarrow> 's \<Rightarrow> 's agent_result" where
  "republish env db node_id storage s =
     (case Option.bind storage as_array of
        None \<Rightarrow> (Inr (), s)
      | Some entries \<Rightarrow>
          (case publish_filesystem_availability env db node_id (storage_entries entries) [] s of
             (Inl AgentPanic, s1) \<Rightarrow> (Inl AgentPanic, s1)
           | (_, s1) \<Rightarrow> (Inr (), s1)))"
fun drop_availability_loop :: "'s couch \<Rightarrow> string \<Rightarrow> json list \<Rightarrow> 's \<Rightarrow> 's agent_result" where
  "drop_availability_loop db node_id [] s = (Inr (), s)"
| "drop_availability_loop db node_id (doc # docs) s =
     (case Option.bind (jget ''availability'' doc) as_array of
        None \<Rightarrow> drop_availability_loop db node_id docs s
      | Some rows \<Rightarrow>
          (if length (drop_rows node_id rows) < length rows
           then (case jset ''availability'' (JArr (drop_rows node_id rows)) doc of
                   None \<Rightarrow> (Inl AgentPanic, s)
                 | Some d \<Rightarrow>
                     drop_availability_loop db node_id docs
                       (snd (db_put db (unwrap_or (jget_str ''_id'' d) []) d s)))
           else drop_availability_loop db node_id docs s))"

definition remove_filesystem_availability :: "'s couch \<Rightarrow> string \<Rightarrow> 's \<Rightarrow> 's agent_result" where
  "remove_filesystem_availability db node_id s =
     (case db_prefix db ''filesystem::'' s of
        (Inl e, s1) \<Rightarrow> (Inl (AgentFailed e), s1)
      | (Inr rows, s1) \<Rightarrow> drop_availability_loop db node_id (row_docs rows) s1)"

section \<open>The node document\<close>

definition collect_storage_info :: "node_env \<Rightarrow> string list \<Rightarrow> json option" where
  "collect_storage_info env watch_paths =
     (let entries = map (\<lambda>p. JObj [(''filesystem_id'', JStr p), (''mount_point'', JStr p),
            (''fs_type'', JStr ''unknown''), (''device'', JStr ''unknown''),
            (''capacity_bytes'', JNum (PosInt 0)), (''used_bytes'', JNum (PosInt 0)),
            (''watch_paths_on_fs'', JArr [JStr p])]) (filter (ne_exists env) watch_paths)
      in if entries = [] then None else Some (JArr entries))"

definition node_doc_id :: "string \<Rightarrow> string" where
  "node_doc_id node_id = ''node::'' @ node_id"

definition registered_doc :: "node_env \<Rightarrow> string \<Rightarrow> json option \<Rightarrow> json option \<Rightarrow> json option" where
  "registered_doc env node_id storage existing =
     (let name = unwrap_or (strip_prefix ''node-'' node_id) node_id;
          more = (case storage of Some v \<Rightarrow> [(''storage'', v)] | None \<Rightarrow> [])
      in case existing of
           Some doc \<Rightarrow>
             jset_all ([(''name'', JStr name), (''platform'', JStr (ne_platform env)),
               (''machine_id'', JStr (ne_machine_id env)), (''status'', JStr ''online''),
               (''last_heartbeat'', JStr (ne_now env))] @ more) doc
         | None \<Rightarrow>
             Some (JObj ([(''_id'', JStr (node_doc_id node_id)), (''type'', JStr ''node''),
               (''name'', JStr name), (''platform'', JStr (ne_platform env)),
               (''machine_id'', JStr (ne_machine_id env)), (''status'', JStr ''online''),
               (''last_heartbeat'', JStr (ne_now env)), (''vfs_capable'', JBool (ne_vfs_capable env)),
               (''capabilities'', JArr [])] @ more)))"

definition register_node ::
  "node_env \<Rightarrow> 's couch \<Rightarrow> string \<Rightarrow> string list \<Rightarrow> 's \<Rightarrow> 's agent_result" where
  "register_node env db node_id watch_paths s =
     (let storage = collect_storage_info env watch_paths;
          (got, s1) = db_get db (node_doc_id node_id) s
      in case (case got of Inr doc \<Rightarrow> Inr (Some doc) | Inl (NotFound _) \<Rightarrow> Inr None | Inl e \<Rightarrow> Inl e) of
           Inl e \<Rightarrow> (Inl (AgentFailed e), s1)
         | Inr existing \<Rightarrow>
             (case registered_doc env node_id storage existing of
                None \<Rightarrow> (Inl AgentPanic, s1)
              | Some doc \<Rightarrow>
                  (case db_put db (node_doc_id node_id) doc s1 of
                     (Inl e, s2) \<Rightarrow> (Inl (AgentFailed e), s2)
                   | (Inr _, s2) \<Rightarrow> republish env db node_id storage s2)))"

definition agent_heartbeat :: "node_env \<Rightarrow> 's couch \<Rightarrow> string \<Rightarrow> 's \<Rightarrow> 's agent_result" where
  "agent_heartbeat env db node_id s =
     (case db_get db (node_doc_id node_id) s of
        (Inl e, s1) \<Rightarrow> (Inr (), s1)
      | (Inr doc, s1) \<Rightarrow>
          (case jset_all [(''last_heartbeat'', JStr (ne_now env)), (''status'', JStr ''online''),
                  (''machine_id'', JStr (ne_machine_id env))] doc of
             None \<Rightarrow> (Inl AgentPanic, s1)
           | Some d \<Rightarrow>
               (case db_put db (node_doc_id node_id) d s1 of
                  (Inl e, s2) \<Rightarrow> (Inl (AgentFailed e), s2)
                | (Inr _, s2) \<Rightarrow> republish env db node_id (jget ''storage'' d) s2)))"

text \<open>A failure to clear the availability is logged.\<close>

definition set_offline :: "node_env \<Rightarrow> 's couch \<Rightarrow> string \<Rightarrow> 's \<Rightarrow> 's agent_result" where
  "set_offline env db node_id s =
     (case db_get db (node_doc_id node_id) s of
        (Inl e, s1) \<Rightarrow> (Inr (), s1)
      | (Inr doc, s1) \<Rightarrow>
          (case jset_all [(''status'', JStr ''offline''), (''last_heartbeat'', JStr (ne_now env))] doc of
             None \<Rightarrow> (Inl AgentPanic, s1)
           | Some d \<Rightarrow>
               (case db_put db (node_doc_id node_id) d s1 of
                  (Inl e, s2) \<Rightarrow> (Inl (AgentFailed e), s2)
                | (Inr _, s2) \<Rightarrow>
                    (case remove_filesystem_availability db node_id s2 of
                       (Inl AgentPanic, s3) \<Rightarrow> (Inl AgentPanic, s3)
                     | (_, s3) \<Rightarrow> (Inr (), s3)))))"

section \<open>The rows of a filesystem\<close>

text \<open>The rows as a map from nodes: the abstract view of the availability array.\<close>

definition row_map :: "json list \<Rightarrow> string \<Rightarrow> json option" where
  "row_map rows n = List.find (\<lambda>r. jget_str ''node_id'' r = Some n) rows"

lemma row_map_simps [simp]:
  "row_map [] n = None"
  "row_map (r # rs) n = (if jget_str ''node_id'' r = Some n then Some r else row_map rs n)"
  by (simp_all add: row_map_def)

lemma set_row_map:
  "jget_str ''node_id'' row = Some self \<Longrightarrow> row_map (set_row self row rows) = (row_map rows)(self \<mapsto> row)"
  by (induction rows) (auto simp: fun_eq_iff)

lemma drop_rows_map: "row_map (drop_rows self rows) = (row_map rows)(self := None)"
proof
  fix n
  show "row_map (drop_rows self rows) n = ((row_map rows)(self := None)) n"
    by (induction rows) (auto simp: drop_rows_def)
qed

lemma availability_row_node [simp]: "jget_str ''node_id'' (availability_row n p m t) = Some n"
  by (simp add: availability_row_def jget_str_def)

definition availability :: "json \<Rightarrow> string \<Rightarrow> json option" where
  "availability doc = (case Option.bind (jget ''availability'' doc) as_array of
     Some rows \<Rightarrow> row_map rows | None \<Rightarrow> Map.empty)"

lemma upsert_existing_Write:
  assumes "upsert_existing self owner root row doc = Write d" "jget_str ''node_id'' row = Some self"
  shows "availability d = (availability doc)(self \<mapsto> row) \<and>
    (\<forall>k. k \<noteq> ''availability'' \<longrightarrow> jget k d = jget k doc) \<and>
    unwrap_or (jget_str ''owning_node_id'' doc) [] \<in> {owner, []} \<and>
    unwrap_or (jget_str ''export_root'' doc) [] \<in> {root, []}"
  using assms
  by (auto simp: upsert_existing_def Let_def availability_def jget_jset set_row_map bind_eq_Some_conv
      split: if_splits option.splits)

lemma drop_document:
  assumes "Option.bind (jget ''availability'' doc) as_array = Some rows"
    "jset ''availability'' (JArr (drop_rows self rows)) doc = Some d"
  shows "availability d = (availability doc)(self := None) \<and>
    (\<forall>k. k \<noteq> ''availability'' \<longrightarrow> jget k d = jget k doc)"
  using assms by (simp add: availability_def jget_jset drop_rows_map)

section \<open>Effects on the database\<close>

lemma availability_cong: "jget ''availability'' d' = jget ''availability'' d \<Longrightarrow> availability d' = availability d"
  by (simp add: availability_def)

lemma same_fields_availability: "same_fields d' d \<Longrightarrow> availability d' = availability d"
  by (rule availability_cong) (simp add: same_fields_def)

lemma drop_rows_all: "\<not> length (drop_rows n rows) < length rows \<Longrightarrow> drop_rows n rows = rows"
  unfolding drop_rows_def by (metis filter_id_conv length_filter_less)

text \<open>What the database holds for a filesystem after an upsert that wrote it.\<close>

definition published ::
  "string \<Rightarrow> string \<Rightarrow> string \<Rightarrow> json \<Rightarrow> json option \<Rightarrow> json \<Rightarrow> bool" where
  "published self owner root row before d \<longleftrightarrow>
     (case before of
        None \<Rightarrow> availability d = [self \<mapsto> row] \<and> jget_str ''type'' d = Some ''filesystem'' \<and>
          jget_str ''owning_node_id'' d = Some owner \<and>
          jget_str ''export_root'' d = Some root
      | Some doc \<Rightarrow> availability d = (availability doc)(self \<mapsto> row) \<and>
          (\<forall>k. k \<notin> {''availability'', ''_id'', ''_rev''} \<longrightarrow> jget k d = jget k doc) \<and>
          unwrap_or (jget_str ''owning_node_id'' doc) [] \<in> {owner, []} \<and>
          unwrap_or (jget_str ''export_root'' doc) [] \<in> {root, []})"

lemma new_filesystem_published:
  assumes "jget_str ''node_id'' row = Some self" "same_fields d' (new_filesystem i owner root row now)"
  shows "published self owner root row None d'"
proof -
  have "availability d' = [self \<mapsto> row]"
    using assms by (subst same_fields_availability [OF assms(2)])
      (auto simp: availability_def new_filesystem_def fun_eq_iff)
  moreover have "jget ''owning_node_id'' d' = Some (JStr owner)" "jget ''export_root'' d' = Some (JStr root)"
    "jget ''type'' d' = Some (JStr ''filesystem'')"
    using assms(2) by (simp_all add: same_fields_def new_filesystem_def)
  ultimately show ?thesis by (simp add: published_def jget_str_def)
qed

lemma existing_published:
  assumes "upsert_existing self owner root row doc = Write d" "jget_str ''node_id'' row = Some self"
    "same_fields d' d"
  shows "published self owner root row (Some doc) d'"
  using upsert_existing_Write [OF assms(1,2)] same_fields_availability [OF assms(3)] assms(3)
  by (auto simp: published_def same_fields_def)

lemma upsert_loop_effect:
  assumes laws: "reads_law db docs" "writes_law db docs" and row: "jget_str ''node_id'' row = Some self"
    and run: "upsert_loop n db self i owner root row now s = (r, s')"
  shows "docs s' = docs s \<or>
    (r = Inr () \<and> (\<exists>d. docs s' = (docs s)(filesystem_doc_id i \<mapsto> d) \<and>
       published self owner root row (docs s (filesystem_doc_id i)) d))"
  using run
proof (induction n arbitrary: s)
  case 0
  then show ?case by simp
next
  case (Suc n)
  let ?i = "filesystem_doc_id i"
  define next_doc where "next_doc = (case docs s ?i of
    Some doc \<Rightarrow> upsert_existing self owner root row doc
  | None \<Rightarrow> Write (new_filesystem i owner root row now))"
  have step: "upsert_loop (Suc n) db self i owner root row now s =
     (case next_doc of
        Skip \<Rightarrow> (Inr (), s)
      | Broken \<Rightarrow> (Inl AgentPanic, s)
      | Write d \<Rightarrow>
          (case db_put db ?i d s of
             (Inr _, s2) \<Rightarrow> (Inr (), s2)
           | (Inl (Conflict _), s2) \<Rightarrow>
               if n = 0 then (Inr (), s2) else upsert_loop n db self i owner root row now s2
           | (Inl e, s2) \<Rightarrow> (Inl (AgentFailed e), s2)))"
    by (simp add: reads_law_get [OF laws(1)] next_doc_def split: option.split)
  show ?case
  proof (cases next_doc)
    case (Write d)
    obtain rr s2 where put: "db_put db ?i d s = (rr, s2)" by (cases "db_put db ?i d s")
    show ?thesis
    proof (cases rr)
      case (Inr resp)
      with put writes_law_put [OF laws(2)] obtain d' where d': "same_fields d' d" "docs s2 = (docs s)(?i \<mapsto> d')"
        by blast
      have "published self owner root row (docs s ?i) d'"
        using Write d'(1) row existing_published new_filesystem_published
        by (auto simp: next_doc_def split: option.splits)
      with Suc.prems step Write put Inr d'(2) show ?thesis by auto
    next
      case (Inl e)
      with put writes_law_put_failed [OF laws(2)] have same: "docs s2 = docs s" by blast
      show ?thesis
      proof (cases "\<exists>j. e = Conflict j \<and> n \<noteq> 0")
        case True
        with Suc.prems step Write put Inl have "upsert_loop n db self i owner root row now s2 = (r, s')" by auto
        from Suc.IH [OF this] same show ?thesis by simp
      next
        case False
        with Suc.prems step Write put Inl same show ?thesis by (cases e) auto
      qed
    qed
  qed (use Suc.prems step in auto)
qed

lemma drop_loop_effect:
  assumes "writes_law db docs" "accepts_writes db" "distinct (map (jget_str ''_id'') ds)"
    and "\<forall>d \<in> set ds. \<exists>i. jget_str ''_id'' d = Some i \<and> docs s i = Some d"
  shows "\<exists>s'. drop_availability_loop db self ds s = (Inr (), s') \<and>
    (\<forall>i. if Some i \<in> jget_str ''_id'' ` set ds
         then (\<exists>d d'. docs s i = Some d \<and> docs s' i = Some d' \<and> availability d' = (availability d)(self := None) \<and>
           (\<forall>k. k \<notin> {''availability'', ''_id'', ''_rev''} \<longrightarrow> jget k d' = jget k d))
         else docs s' i = docs s i)"
  using assms(3,4)
proof (induction ds arbitrary: s)
  case Nil
  then show ?case by simp
next
  case (Cons d ds)
  then obtain i where i: "jget_str ''_id'' d = Some i" "docs s i = Some d" by auto
  from Cons.prems i have fresh: "Some i \<notin> jget_str ''_id'' ` set ds" by simp
  let ?cleared = "\<lambda>s1. \<exists>d'. docs s1 = (docs s)(i \<mapsto> d') \<and> availability d' = (availability d)(self := None) \<and>
    (\<forall>k. k \<notin> {''availability'', ''_id'', ''_rev''} \<longrightarrow> jget k d' = jget k d)"
  have "\<exists>s1. drop_availability_loop db self (d # ds) s = drop_availability_loop db self ds s1 \<and> ?cleared s1"
  proof (cases "Option.bind (jget ''availability'' d) as_array")
    case None
    then have "availability d = (availability d)(self := None)" by (simp add: availability_def)
    with i(2) have "?cleared s" by (intro exI [of _ d]) (simp add: fun_upd_idem)
    with None show ?thesis by (intro exI [of _ s]) simp
  next
    case (Some rows)
    show ?thesis
    proof (cases "length (drop_rows self rows) < length rows")
      case False
      with Some have "availability d = (availability d)(self := None)"
        using drop_rows_map [of self rows] by (simp add: availability_def drop_rows_all)
      with i(2) have "?cleared s" by (intro exI [of _ d]) (simp add: fun_upd_idem)
      with Some False show ?thesis by (intro exI [of _ s]) simp
    next
      case True
      have "is_object d" using i(1) by (cases d) (auto simp: jget_str_def)
      then obtain d1 where d1: "jset ''availability'' (JArr (drop_rows self rows)) d = Some d1"
        using jset_object by blast
      from drop_document [OF Some d1] have av: "availability d1 = (availability d)(self := None)"
        "\<forall>k. k \<noteq> ''availability'' \<longrightarrow> jget k d1 = jget k d" by auto
      from av(2) i(1) have id1: "jget_str ''_id'' d1 = Some i" by (simp add: jget_str_def)
      obtain resp s1 where put: "db_put db i d1 s = (Inr resp, s1)"
        using accepts_put [OF assms(2)] by blast
      then obtain d' where d': "same_fields d' d1" "docs s1 = (docs s)(i \<mapsto> d')"
        using writes_law_put [OF assms(1)] by blast
      have "drop_availability_loop db self (d # ds) s = drop_availability_loop db self ds s1"
        using Some True d1 id1 put by simp
      moreover have "?cleared s1"
        using d' av same_fields_availability [OF d'(1)]
        by (intro exI [of _ d'] conjI) (simp_all add: same_fields_def)
      ultimately show ?thesis by blast
    qed
  qed
  then obtain s1 d' where run: "drop_availability_loop db self (d # ds) s = drop_availability_loop db self ds s1"
    and s1: "docs s1 = (docs s)(i \<mapsto> d')" "availability d' = (availability d)(self := None)"
      "\<forall>k. k \<notin> {''availability'', ''_id'', ''_rev''} \<longrightarrow> jget k d' = jget k d" by blast
  have "\<forall>x \<in> set ds. \<exists>j. jget_str ''_id'' x = Some j \<and> docs s1 j = Some x"
    using Cons.prems(2) fresh s1(1) by (force simp: image_iff)
  with Cons.IH [of s1] Cons.prems(1) obtain s' where s': "drop_availability_loop db self ds s1 = (Inr (), s')"
    and eff: "\<forall>j. if Some j \<in> jget_str ''_id'' ` set ds
         then (\<exists>d d'. docs s1 j = Some d \<and> docs s' j = Some d' \<and> availability d' = (availability d)(self := None) \<and>
           (\<forall>k. k \<notin> {''availability'', ''_id'', ''_rev''} \<longrightarrow> jget k d' = jget k d))
         else docs s' j = docs s1 j" by auto
  show ?case
  proof (intro exI [of _ s'] conjI allI)
    show "drop_availability_loop db self (d # ds) s = (Inr (), s')" by (rule trans [OF run s'])
  next
    fix j
    show "if Some j \<in> jget_str ''_id'' ` set (d # ds)
         then (\<exists>d d'. docs s j = Some d \<and> docs s' j = Some d' \<and> availability d' = (availability d)(self := None) \<and>
           (\<forall>k. k \<notin> {''availability'', ''_id'', ''_rev''} \<longrightarrow> jget k d' = jget k d))
         else docs s' j = docs s j"
    proof (cases "j = i")
      case True
      with spec [OF eff, of i] fresh i s1 show ?thesis by auto
    next
      case False
      with spec [OF eff, of j] i s1(1) show ?thesis by auto
    qed
  qed
qed


text \<open>The two clauses of the loop's effect on a list that is the whole set of filesystem documents.\<close>

lemma remove_filesystem_availability_effect:
  assumes laws: "reads_law db docs" "writes_law db docs" "accepts_writes db"
    and ids: "\<forall>i d. starts_with i ''filesystem::'' \<and> docs s i = Some d \<longrightarrow> jget_str ''_id'' d = Some i"
  shows "\<exists>s'. remove_filesystem_availability db self s = (Inr (), s') \<and>
    (\<forall>i. if starts_with i ''filesystem::'' \<and> docs s i \<noteq> None
         then (\<exists>d d'. docs s i = Some d \<and> docs s' i = Some d' \<and> availability d' = (availability d)(self := None) \<and>
           (\<forall>k. k \<notin> {''availability'', ''_id'', ''_rev''} \<longrightarrow> jget k d' = jget k d))
         else docs s' i = docs s i)"
proof -
  obtain rows where rows: "db_prefix db ''filesystem::'' s = (Inr rows, s)" "distinct (map row_id rows)"
    "\<forall>r \<in> set rows. row_doc r \<noteq> None"
    "\<And>i d. (\<exists>r \<in> set rows. row_id r = i \<and> row_doc r = Some d) \<longleftrightarrow> starts_with i ''filesystem::'' \<and> docs s i = Some d"
    by (rule reads_law_prefix [OF laws(1), of "''filesystem::''" s]) (rule that)
  have row: "row_doc r = Some d \<Longrightarrow> jget_str ''_id'' d = Some (row_id r) \<and> docs s (row_id r) = Some d"
    if "r \<in> set rows" for r d
    using that rows(4) [of "row_id r" d] ids by blast
  have keys: "map (jget_str ''_id'') (row_docs rs) = map (\<lambda>r. Some (row_id r)) rs" if "set rs \<subseteq> set rows" for rs
    using that rows(3) row by (induction rs) (auto split: option.split)
  have "distinct (map (jget_str ''_id'') (row_docs rows))"
    using rows(2) by (simp add: keys distinct_map inj_on_def)
  moreover have "\<forall>d \<in> set (row_docs rows). \<exists>i. jget_str ''_id'' d = Some i \<and> docs s i = Some d"
    using row by (auto simp: set_row_docs)
  ultimately obtain s' where s': "drop_availability_loop db self (row_docs rows) s = (Inr (), s')"
    and eff: "\<And>i. if Some i \<in> jget_str ''_id'' ` set (row_docs rows)
         then (\<exists>d d'. docs s i = Some d \<and> docs s' i = Some d' \<and> availability d' = (availability d)(self := None) \<and>
           (\<forall>k. k \<notin> {''availability'', ''_id'', ''_rev''} \<longrightarrow> jget k d' = jget k d))
         else docs s' i = docs s i"
    using drop_loop_effect [OF laws(2,3)] by blast
  have key: "Some i \<in> jget_str ''_id'' ` set (row_docs rows) \<longleftrightarrow> starts_with i ''filesystem::'' \<and> docs s i \<noteq> None" for i
  proof -
    have "Some i \<in> jget_str ''_id'' ` set (row_docs rows) \<longleftrightarrow> Some i \<in> set (map (\<lambda>r. Some (row_id r)) rows)"
      by (simp only: keys [OF subset_refl, symmetric] set_map)
    also have "\<dots> \<longleftrightarrow> (\<exists>r \<in> set rows. row_id r = i)" by auto
    also have "\<dots> \<longleftrightarrow> (\<exists>d. \<exists>r \<in> set rows. row_id r = i \<and> row_doc r = Some d)" using rows(3) by fastforce
    finally show ?thesis using rows(4) [of i] by auto
  qed
  show ?thesis
    unfolding key [symmetric] remove_filesystem_availability_def rows(1)
    using s' by (intro exI [of _ s'] conjI allI eff) simp
qed

lemma node_doc_not_filesystem [simp]: "\<not> starts_with (node_doc_id n) ''filesystem::''"
  by (simp add: node_doc_id_def starts_with_def)

section \<open>The node's documents follow its life\<close>

text \<open>One upsert of a filesystem either leaves the database as it was, or succeeds and writes
  that one filesystem document: a new one names the owner and the exported root, an old one
  has the same owner and root (or none) and keeps every field but its availability, where the
  row of this node, and only it, is replaced.
\<close>

lemma upsert_filesystem_effect:
  assumes "reads_law db docs" "writes_law db docs"
    and "upsert_filesystem db self i owner root mount_type path now s = (r, s')"
  shows "docs s' = docs s \<or>
    (r = Inr () \<and> (\<exists>d. docs s' = (docs s)(filesystem_doc_id i \<mapsto> d) \<and>
       published self owner root (availability_row self path mount_type now) (docs s (filesystem_doc_id i)) d))"
  using assms(3) unfolding upsert_filesystem_def
  by (rule upsert_loop_effect [OF assms(1,2) availability_row_node])

text \<open>A clean shutdown, when the database accepts the writes, marks the node offline with the
  current time, removes the node's row from the availability of every filesystem, keeps the
  rows of all other nodes and the other fields, and leaves every other document alone.
\<close>

lemma set_offline_clears_availability:
  assumes laws: "reads_law db docs" "writes_law db docs" "accepts_writes db"
    and node: "docs s (node_doc_id n) = Some nd" "is_object nd"
    and ids: "\<forall>i d. starts_with i ''filesystem::'' \<and> docs s i = Some d \<longrightarrow> jget_str ''_id'' d = Some i"
  shows "\<exists>s' nd'. set_offline env db n s = (Inr (), s') \<and>
    docs s' (node_doc_id n) = Some nd' \<and> jget_str ''status'' nd' = Some ''offline'' \<and>
    jget_str ''last_heartbeat'' nd' = Some (ne_now env) \<and>
    (\<forall>i. i \<noteq> node_doc_id n \<longrightarrow>
      (if starts_with i ''filesystem::'' \<and> docs s i \<noteq> None
       then (\<exists>d d'. docs s i = Some d \<and> docs s' i = Some d' \<and> availability d' = (availability d)(n := None) \<and>
          (\<forall>k. k \<notin> {''availability'', ''_id'', ''_rev''} \<longrightarrow> jget k d' = jget k d))
       else docs s' i = docs s i))"
proof -
  let ?i = "node_doc_id n"
  obtain d where d: "jset_all [(''status'', JStr ''offline''), (''last_heartbeat'', JStr (ne_now env))] nd = Some d"
    using jset_all_object [OF node(2)] by blast
  obtain resp s1 where put: "db_put db ?i d s = (Inr resp, s1)"
    using accepts_put [OF laws(3)] by blast
  then obtain nd' where nd': "same_fields nd' d" "docs s1 = (docs s)(?i \<mapsto> nd')"
    using writes_law_put [OF laws(2)] by blast
  have "\<forall>i d. starts_with i ''filesystem::'' \<and> docs s1 i = Some d \<longrightarrow> jget_str ''_id'' d = Some i"
    using ids nd'(2) by auto
  from remove_filesystem_availability_effect [OF laws this, of n]
  obtain s' where s': "remove_filesystem_availability db n s1 = (Inr (), s')"
    and eff: "\<And>i. if starts_with i ''filesystem::'' \<and> docs s1 i \<noteq> None
         then (\<exists>d d'. docs s1 i = Some d \<and> docs s' i = Some d' \<and> availability d' = (availability d)(n := None) \<and>
           (\<forall>k. k \<notin> {''availability'', ''_id'', ''_rev''} \<longrightarrow> jget k d' = jget k d))
         else docs s' i = docs s1 i" by blast
  have run: "set_offline env db n s = (Inr (), s')"
    by (simp add: set_offline_def reads_law_get [OF laws(1)] node(1) d put s' del: jset_all.simps)
  have kept: "docs s' ?i = Some nd'" using eff [of ?i] nd'(2) by simp
  have fields: "jget_str ''status'' nd' = Some ''offline''" "jget_str ''last_heartbeat'' nd' = Some (ne_now env)"
    using nd'(1) jset_all_jget [OF d] by (simp_all add: same_fields_def jget_str_def)
  show ?thesis
  proof (intro exI [of _ s'] exI [of _ nd'] conjI allI impI)
    fix i
    assume "i \<noteq> ?i"
    then have same: "docs s1 i = docs s i" by (simp add: nd'(2))
    show "if starts_with i ''filesystem::'' \<and> docs s i \<noteq> None
       then (\<exists>d d'. docs s i = Some d \<and> docs s' i = Some d' \<and> availability d' = (availability d)(n := None) \<and>
          (\<forall>k. k \<notin> {''availability'', ''_id'', ''_rev''} \<longrightarrow> jget k d' = jget k d))
       else docs s' i = docs s i" using eff [of i] unfolding same .
  qed (rule run kept fields)+
qed


text \<open>A database with two nodes on one filesystem.\<close>

definition sample_cluster :: store where
  "sample_cluster =
     [(''node::a'', JObj [(''_id'', JStr ''node::a''), (''status'', JStr ''online'')]),
      (''filesystem::x'', JObj [(''_id'', JStr ''filesystem::x''), (''owning_node_id'', JStr ''b''),
         (''availability'', JArr [availability_row ''a'' ''/mnt/x'' ''nfs'' ''t0'', availability_row ''b'' ''/x'' ''local'' ''t0''])])]"

definition sample_node_env :: node_env where
  "sample_node_env = \<lparr>ne_now = ''t1'', ne_platform = ''linux'', ne_machine_id = ''m'', ne_vfs_capable = True,
     ne_exists = (\<lambda>_. True)\<rparr>"

lemma sample_cluster_get [simp]:
  "map_of sample_cluster (node_doc_id ''a'') =
     Some (JObj [(''_id'', JStr ''node::a''), (''status'', JStr ''online'')])"
  "starts_with i ''filesystem::'' \<Longrightarrow> map_of sample_cluster i = Some d \<Longrightarrow> jget_str ''_id'' d = Some i"
  by (auto simp: sample_cluster_def node_doc_id_def jget_str_def split: if_splits)

text \<open>A node document written by a registering agent has a field \<open>name\<close> and no \<open>friendly_name\<close>,
  so it does not decode as the schema's node document.
\<close>

lemma registered_node_unreadable:
  "Option.bind (registered_doc env node_id storage None) (node_document_of_json lb) = None"
  by (cases storage) (simp_all add: registered_doc_def node_document_of_json_def req_field_def)

text \<open>
  Publishing touches filesystem documents only, none of them loses its other fields, and a new one is a filesystem document.
\<close>

definition keeps_types :: "(string \<Rightarrow> json option) \<Rightarrow> (string \<Rightarrow> json option) \<Rightarrow> bool" where
  "keeps_types before after \<longleftrightarrow> (\<forall>i. after i = before i \<or>
     starts_with i ''filesystem::'' \<and> (\<exists>d'. after i = Some d' \<and>
       (case before i of
          None \<Rightarrow> jget_str ''type'' d' = Some ''filesystem''
        | Some d \<Rightarrow> \<forall>k. k \<notin> {''availability'', ''_id'', ''_rev''} \<longrightarrow> jget_str k d' = jget_str k d)))"

lemma keeps_types_refl: "keeps_types m m"
  by (simp add: keeps_types_def)

lemma keeps_types_trans:
  assumes "keeps_types a b" "keeps_types b c"
  shows "keeps_types a c"
  unfolding keeps_types_def
proof
  fix i
  note ab = assms(1) [unfolded keeps_types_def, rule_format, of i]
  note bc = assms(2) [unfolded keeps_types_def, rule_format, of i]
  show "c i = a i \<or> starts_with i ''filesystem::'' \<and> (\<exists>d'. c i = Some d' \<and>
       (case a i of None \<Rightarrow> jget_str ''type'' d' = Some ''filesystem''
        | Some d \<Rightarrow> \<forall>k. k \<notin> {''availability'', ''_id'', ''_rev''} \<longrightarrow> jget_str k d' = jget_str k d))"
  proof (cases "b i = a i \<or> c i = b i")
    case True
    with ab bc show ?thesis by fastforce
  next
    case False
    with ab bc obtain d' where "b i = Some d'" "starts_with i ''filesystem::''" by blast
    with False ab bc show ?thesis by (auto split: option.splits)
  qed
qed

lemma keeps_types_update:
  assumes "starts_with i ''filesystem::''"
    and "case before i of None \<Rightarrow> jget_str ''type'' d = Some ''filesystem''
      | Some e \<Rightarrow> \<forall>k. k \<notin> {''availability'', ''_id'', ''_rev''} \<longrightarrow> jget_str k d = jget_str k e"
  shows "keeps_types before (before(i \<mapsto> d))"
  unfolding keeps_types_def
proof
  fix j
  show "(before(i \<mapsto> d)) j = before j \<or> starts_with j ''filesystem::'' \<and> (\<exists>d'. (before(i \<mapsto> d)) j = Some d' \<and>
       (case before j of None \<Rightarrow> jget_str ''type'' d' = Some ''filesystem''
        | Some e \<Rightarrow> \<forall>k. k \<notin> {''availability'', ''_id'', ''_rev''} \<longrightarrow> jget_str k d' = jget_str k e))"
    using assms by (cases "j = i") simp_all
qed

lemma published_types:
  assumes "published self owner root row before d"
  shows "case before of None \<Rightarrow> jget_str ''type'' d = Some ''filesystem''
    | Some e \<Rightarrow> \<forall>k. k \<notin> {''availability'', ''_id'', ''_rev''} \<longrightarrow> jget_str k d = jget_str k e"
proof (cases before)
  case None
  with assms show ?thesis by (simp add: published_def)
next
  case (Some e)
  with assms have "\<forall>k. k \<notin> {''availability'', ''_id'', ''_rev''} \<longrightarrow> jget k d = jget k e"
    unfolding published_def by (simp only: option.case) blast
  with Some show ?thesis by (simp add: jget_str_def)
qed

lemma filesystem_doc_prefix: "starts_with (filesystem_doc_id i) ''filesystem::''"
  by (simp add: filesystem_doc_id_def starts_with_def)

lemma publish_all_keeps:
  assumes laws: "reads_law db docs" "writes_law db docs"
  shows "publish_all db self now ps s = (r, s') \<Longrightarrow> keeps_types (docs s) (docs s')"
proof (induction ps arbitrary: s)
  case Nil
  then show ?case by (simp add: keeps_types_refl)
next
  case (Cons p ps)
  obtain r1 s1 where up: "upsert_filesystem db self (pb_filesystem_id p) (pb_owner p) (pb_root p)
      (pb_mount_type p) (pb_local_path p) now s = (r1, s1)" by (metis surj_pair)
  have step: "keeps_types (docs s) (docs s1)"
    using upsert_filesystem_effect [OF laws up]
  proof
    assume "r1 = Inr () \<and> (\<exists>d. docs s1 = (docs s)(filesystem_doc_id (pb_filesystem_id p) \<mapsto> d) \<and>
       published self (pb_owner p) (pb_root p) (availability_row self (pb_local_path p) (pb_mount_type p) now)
         (docs s (filesystem_doc_id (pb_filesystem_id p))) d)"
    then obtain d where d: "docs s1 = (docs s)(filesystem_doc_id (pb_filesystem_id p) \<mapsto> d)"
      and pub: "published self (pb_owner p) (pb_root p) (availability_row self (pb_local_path p) (pb_mount_type p) now)
         (docs s (filesystem_doc_id (pb_filesystem_id p))) d" by blast
    show ?thesis unfolding d by (rule keeps_types_update, rule filesystem_doc_prefix, rule published_types [OF pub])
  qed (simp add: keeps_types_refl)
  show ?case
  proof (cases "r1 = Inl AgentPanic")
    case True
    then show ?thesis using Cons.prems up step by simp
  next
    case False
    then have "publish_all db self now ps s1 = (r, s')"
      using Cons.prems up by (auto split: sum.splits agent_failure.splits)
    from keeps_types_trans [OF step Cons.IH [OF this]] show ?thesis .
  qed
qed

lemma republish_keeps:
  assumes "reads_law db docs" "writes_law db docs" "republish env db n storage s = (r, s')"
  shows "keeps_types (docs s) (docs s')"
proof (cases "Option.bind storage as_array")
  case None
  then show ?thesis using assms(3) by (simp add: republish_def keeps_types_refl)
next
  case (Some entries)
  obtain r1 s1 where "publish_filesystem_availability env db n (storage_entries entries) [] s = (r1, s1)"
    by (metis surj_pair)
  moreover from this have "s' = s1"
    using assms(3) Some by (auto simp: republish_def split: sum.splits agent_failure.splits)
  ultimately show ?thesis
    using publish_all_keeps [OF assms(1,2)] unfolding publish_filesystem_availability_def by blast
qed

text \<open>What a registration leaves behind.\<close>

lemma registered_doc_fields:
  assumes "registered_doc env n storage existing = Some doc"
  shows "jget_str ''machine_id'' doc = Some (ne_machine_id env)"
    and "jget_str ''type'' doc = (case existing of Some old \<Rightarrow> jget_str ''type'' old | None \<Rightarrow> Some ''node'')"
proof -
  have "jget ''machine_id'' doc = Some (JStr (ne_machine_id env)) \<and>
      jget ''type'' doc = (case existing of Some old \<Rightarrow> jget ''type'' old | None \<Rightarrow> Some (JStr ''node''))"
  proof (cases existing)
    case None
    with assms show ?thesis by (auto simp: registered_doc_def Let_def)
  next
    case (Some old)
    with assms have "jset_all ([(''name'', JStr (unwrap_or (strip_prefix ''node-'' n) n)), (''platform'', JStr (ne_platform env)),
               (''machine_id'', JStr (ne_machine_id env)), (''status'', JStr ''online''),
               (''last_heartbeat'', JStr (ne_now env))] @ (case storage of Some v \<Rightarrow> [(''storage'', v)] | None \<Rightarrow> [])) old = Some doc"
      by (simp add: registered_doc_def Let_def)
    from jset_all_jget [OF this, of "''machine_id''"] jset_all_jget [OF this, of "''type''"] Some
    show ?thesis by (cases storage) simp_all
  qed
  then show "jget_str ''machine_id'' doc = Some (ne_machine_id env)"
    "jget_str ''type'' doc = (case existing of Some old \<Rightarrow> jget_str ''type'' old | None \<Rightarrow> Some ''node'')"
    by (auto simp: jget_str_def split: option.split)
qed

lemma register_node_Inr:
  assumes "reads_law db docs" "register_node env db n paths s = (Inr (), s1)"
  shows "\<exists>doc resp s2. registered_doc env n (collect_storage_info env paths) (docs s (node_doc_id n)) = Some doc \<and>
    db_put db (node_doc_id n) doc s = (Inr resp, s2) \<and> republish env db n (collect_storage_info env paths) s2 = (Inr (), s1)"
proof -
  let ?doc = "registered_doc env n (collect_storage_info env paths) (docs s (node_doc_id n))"
  have run: "(case ?doc of None \<Rightarrow> (Inl AgentPanic, s)
      | Some doc \<Rightarrow> (case db_put db (node_doc_id n) doc s of
                  (Inl e, s2) \<Rightarrow> (Inl (AgentFailed e), s2)
                | (Inr _, s2) \<Rightarrow> republish env db n (collect_storage_info env paths) s2)) = (Inr (), s1)"
    using assms(2) unfolding register_node_def Let_def reads_law_get [OF assms(1)]
    by (cases "docs s (node_doc_id n)") simp_all
  then obtain doc where doc: "?doc = Some doc" by (cases ?doc) simp_all
  obtain r s2 where put: "db_put db (node_doc_id n) doc s = (r, s2)" by (metis surj_pair)
  with run doc show ?thesis by (cases r) simp_all
qed

lemma register_node_effect:
  assumes laws: "reads_law db docs" "writes_law db docs"
    and reg: "register_node env db n paths s = (Inr (), s1)"
  shows "\<exists>d. docs s1 (node_doc_id n) = Some d \<and> jget_str ''machine_id'' d = Some (ne_machine_id env) \<and>
      jget_str ''type'' d = (case docs s (node_doc_id n) of Some old \<Rightarrow> jget_str ''type'' old | None \<Rightarrow> Some ''node'') \<and>
      keeps_types ((docs s)(node_doc_id n \<mapsto> d)) (docs s1)"
proof -
  let ?i = "node_doc_id n"
  obtain doc resp s2 where doc: "registered_doc env n (collect_storage_info env paths) (docs s ?i) = Some doc"
    and put: "db_put db ?i doc s = (Inr resp, s2)"
    and rep: "republish env db n (collect_storage_info env paths) s2 = (Inr (), s1)"
    using register_node_Inr [OF laws(1) reg] by blast
  from writes_law_put [OF laws(2) put] obtain d where d: "same_fields d doc" "docs s2 = (docs s)(?i \<mapsto> d)" by blast
  have keeps: "keeps_types ((docs s)(?i \<mapsto> d)) (docs s1)" using republish_keeps [OF laws rep] unfolding d(2) .
  have "docs s1 ?i = Some d"
    using keeps [unfolded keeps_types_def, rule_format, of ?i] by simp
  moreover have "jget_str ''machine_id'' d = jget_str ''machine_id'' doc" "jget_str ''type'' d = jget_str ''type'' doc"
    using d(1) by (simp_all add: same_fields_def jget_str_def)
  ultimately show ?thesis using keeps registered_doc_fields [OF doc] by simp
qed

end
