(* ===== verification/Glob.thy ===== *)
theory Glob
  imports Rust_Prelude
begin

text \<open>
  Matching of file names: \<open>matches_query\<close> and \<open>glob_match\<close> of \<open>handlers/search.rs\<close>, and the
  copy \<open>simple_glob_match\<close> of \<open>handlers/labels.rs\<close>. The table of the dynamic program is a
  list of rows that is updated cell by cell. The Unicode lower-casing of the standard
  library is the parameter \<open>lower\<close>.
\<close>

section \<open>The table\<close>

definition set_cell :: "nat \<Rightarrow> nat \<Rightarrow> bool \<Rightarrow> bool list list \<Rightarrow> bool list list" where
  "set_cell i j v dp = dp[i := (dp ! i)[j := v]]"

definition empty_table :: "nat \<Rightarrow> nat \<Rightarrow> bool list list" where
  "empty_table tlen plen = set_cell 0 0 True (replicate (tlen + 1) (replicate (plen + 1) False))"

definition first_row_cell :: "string \<Rightarrow> nat \<Rightarrow> bool list list \<Rightarrow> bool list list" where
  "first_row_cell pattern j dp =
     (if pattern ! (j - 1) = CHR ''*'' then set_cell 0 j (dp ! 0 ! (j - 1)) dp else dp)"

definition glob_cell :: "string \<Rightarrow> string \<Rightarrow> nat \<Rightarrow> nat \<Rightarrow> bool list list \<Rightarrow> bool list list" where
  "glob_cell name pattern i j dp =
     (if pattern ! (j - 1) = CHR ''*'' then set_cell i j (dp ! (i - 1) ! j \<or> dp ! i ! (j - 1)) dp
      else if pattern ! (j - 1) = CHR ''?'' \<or> pattern ! (j - 1) = name ! (i - 1)
      then set_cell i j (dp ! (i - 1) ! (j - 1)) dp
      else dp)"

definition glob_row :: "string \<Rightarrow> string \<Rightarrow> nat \<Rightarrow> bool list list \<Rightarrow> bool list list" where
  "glob_row name pattern i dp = fold (glob_cell name pattern i) [1..<length pattern + 1] dp"

definition glob_table :: "string \<Rightarrow> string \<Rightarrow> bool list list" where
  "glob_table name pattern =
     fold (glob_row name pattern) [1..<length name + 1]
       (fold (first_row_cell pattern) [1..<length pattern + 1]
         (empty_table (length name) (length pattern)))"

definition glob_match :: "(string \<Rightarrow> string) \<Rightarrow> string \<Rightarrow> string \<Rightarrow> bool" where
  "glob_match lower name pattern =
     (let t = lower name; p = lower pattern in glob_table t p ! length t ! length p)"

definition simple_glob_match :: "(string \<Rightarrow> string) \<Rightarrow> string \<Rightarrow> string \<Rightarrow> bool" where
  "simple_glob_match lower name pattern =
     (let t = lower name; p = lower pattern in glob_table t p ! length t ! length p)"

definition matches_query :: "(string \<Rightarrow> string) \<Rightarrow> string \<Rightarrow> string \<Rightarrow> bool" where
  "matches_query lower name query =
     (if CHR ''*'' \<in> set query \<or> CHR ''?'' \<in> set query then glob_match lower name query
      else contains_str (lower query) (lower name))"

section \<open>What a pattern means\<close>

text \<open>
  A name matches when it splits into one piece per character of the pattern: any piece for
  a star, one byte for a question mark, the byte itself for every other.
\<close>

definition glob_piece :: "char \<Rightarrow> string \<Rightarrow> bool" where
  "glob_piece c w \<longleftrightarrow> c = CHR ''*'' \<or> (\<exists>x. w = [x] \<and> (c = CHR ''?'' \<or> c = x))"

definition glob_spec :: "string \<Rightarrow> string \<Rightarrow> bool" where
  "glob_spec p t \<longleftrightarrow> (\<exists>ws. list_all2 glob_piece p ws \<and> concat ws = t)"

lemma glob_spec_Nil [simp]: "glob_spec [] t \<longleftrightarrow> t = []"
  by (auto simp: glob_spec_def)

lemma glob_spec_snoc:
  "glob_spec (p @ [c]) t \<longleftrightarrow> (\<exists>u w. t = u @ w \<and> glob_spec p u \<and> glob_piece c w)"
proof
  assume "glob_spec (p @ [c]) t"
  then obtain ws where "list_all2 glob_piece (p @ [c]) ws" "concat ws = t"
    by (auto simp: glob_spec_def)
  then show "\<exists>u w. t = u @ w \<and> glob_spec p u \<and> glob_piece c w"
    by (auto simp: glob_spec_def list_all2_append1 list_all2_Cons1) blast
next
  assume "\<exists>u w. t = u @ w \<and> glob_spec p u \<and> glob_piece c w"
  then obtain ws w where "list_all2 glob_piece p ws" "t = concat ws @ w" "glob_piece c w"
    by (auto simp: glob_spec_def)
  then show "glob_spec (p @ [c]) t"
    unfolding glob_spec_def by (intro exI [of _ "ws @ [w]"]) (simp add: list_all2_appendI)
qed

lemma glob_spec_snoc_empty: "glob_spec (p @ [c]) [] \<longleftrightarrow> c = CHR ''*'' \<and> glob_spec p []"
  by (auto simp: glob_spec_snoc glob_piece_def)

lemma glob_spec_snoc_char:
  "c \<noteq> CHR ''*'' \<Longrightarrow> glob_spec (p @ [c]) (t @ [x]) \<longleftrightarrow> (c = CHR ''?'' \<or> c = x) \<and> glob_spec p t"
  by (auto simp: glob_spec_snoc glob_piece_def)

lemma glob_spec_snoc_star:
  "glob_spec (p @ ''*'') (t @ [x]) \<longleftrightarrow> glob_spec p (t @ [x]) \<or> glob_spec (p @ ''*'') t"
proof -
  have "glob_spec (p @ ''*'') (t @ [x]) \<longleftrightarrow> (\<exists>u w. t @ [x] = u @ w \<and> glob_spec p u)"
    by (auto simp: glob_spec_snoc glob_piece_def)
  also have "\<dots> \<longleftrightarrow> glob_spec p (t @ [x]) \<or> (\<exists>u w. t = u @ w \<and> glob_spec p u)"
    by (metis append.assoc append_self_conv butlast_append butlast_snoc)
  also have "(\<exists>u w. t = u @ w \<and> glob_spec p u) \<longleftrightarrow> glob_spec (p @ ''*'') t"
    by (auto simp: glob_spec_snoc glob_piece_def)
  finally show ?thesis .
qed

section \<open>The table computes it\<close>

text \<open>
  The cells in \<open>D\<close> hold the answer for the prefixes they stand for, the others are false.
\<close>

definition table_ok :: "string \<Rightarrow> string \<Rightarrow> (nat \<Rightarrow> nat \<Rightarrow> bool) \<Rightarrow> bool list list \<Rightarrow> bool" where
  "table_ok t p D dp \<longleftrightarrow> length dp = length t + 1 \<and>
     (\<forall>i \<le> length t. length (dp ! i) = length p + 1 \<and>
        (\<forall>j \<le> length p. dp ! i ! j \<longleftrightarrow> D i j \<and> glob_spec (take j p) (take i t)))"

lemma table_ok_set:
  assumes "table_ok t p D dp" "i \<le> length t" "j \<le> length p" "v \<longleftrightarrow> glob_spec (take j p) (take i t)"
    and "\<And>i' j'. D' i' j' \<longleftrightarrow> D i' j' \<or> (i' = i \<and> j' = j)"
  shows "table_ok t p D' (set_cell i j v dp)"
  using assms by (auto simp: table_ok_def set_cell_def nth_list_update)

lemma table_ok_skip:
  assumes "table_ok t p D dp" "\<not> glob_spec (take j p) (take i t)"
    and "\<And>i' j'. D' i' j' \<longleftrightarrow> D i' j' \<or> (i' = i \<and> j' = j)"
  shows "table_ok t p D' dp"
  using assms by (auto simp: table_ok_def)

lemma table_ok_cong:
  assumes "table_ok t p D dp" "\<And>i j. i \<le> length t \<Longrightarrow> j \<le> length p \<Longrightarrow> glob_spec (take j p) (take i t) \<Longrightarrow> D i j \<longleftrightarrow> D' i j"
  shows "table_ok t p D' dp"
  using assms by (auto simp: table_ok_def)

lemma take_pred: "1 \<le> j \<Longrightarrow> j \<le> length p \<Longrightarrow> take j p = take (j - 1) p @ [p ! (j - 1)]"
  by (cases j) (simp_all add: take_Suc_conv_app_nth)

lemma empty_table_ok: "table_ok t p (\<lambda>i j. i = 0 \<and> j = 0) (empty_table (length t) (length p))"
proof -
  have "table_ok t p (\<lambda>_ _. False) (replicate (length t + 1) (replicate (length p + 1) False))"
    unfolding table_ok_def by (auto simp del: replicate_Suc simp flip: Suc_eq_plus1)
  then show ?thesis
    unfolding empty_table_def by (rule table_ok_set) auto
qed

lemma first_row_ok:
  assumes "table_ok t p (\<lambda>i j. i = 0 \<and> j = 0) dp" "n \<le> length p"
  shows "table_ok t p (\<lambda>i j. i = 0 \<and> j \<le> n) (fold (first_row_cell p) [1..<n + 1] dp)"
  using assms(2)
proof (induction n)
  case 0
  with assms(1) show ?case by simp
next
  case (Suc n)
  let ?dp = "fold (first_row_cell p) [1..<n + 1] dp"
  from Suc have ok: "table_ok t p (\<lambda>i j. i = 0 \<and> j \<le> n) ?dp" by simp
  have spec: "glob_spec (take (Suc n) p) [] \<longleftrightarrow> p ! n = CHR ''*'' \<and> glob_spec (take n p) []"
    using Suc.prems by (simp add: take_Suc_conv_app_nth glob_spec_snoc_empty)
  have left: "?dp ! 0 ! n \<longleftrightarrow> glob_spec (take n p) []"
    using ok Suc.prems by (simp add: table_ok_def)
  have "table_ok t p (\<lambda>i j. i = 0 \<and> j \<le> Suc n) (first_row_cell p (Suc n) ?dp)"
  proof (cases "p ! n = CHR ''*''")
    case True
    have "table_ok t p (\<lambda>i j. i = 0 \<and> j \<le> Suc n) (set_cell 0 (Suc n) (?dp ! 0 ! n) ?dp)"
      by (rule table_ok_set [OF ok]) (use Suc.prems spec left True in auto)
    with True show ?thesis by (simp add: first_row_cell_def)
  next
    case False
    have "table_ok t p (\<lambda>i j. i = 0 \<and> j \<le> Suc n) ?dp"
      by (rule table_ok_skip [OF ok, of "Suc n" 0]) (use spec False in auto)
    with False show ?thesis by (simp add: first_row_cell_def)
  qed
  then show ?case by simp
qed

text \<open>In row \<open>i\<close> the cells up to column \<open>j\<close> are done, and all cells of the rows above.\<close>

definition done_to :: "nat \<Rightarrow> nat \<Rightarrow> nat \<Rightarrow> nat \<Rightarrow> bool" where
  "done_to i j i' j' \<longleftrightarrow> i' < i \<or> (i' = i \<and> j' \<le> j)"

lemma glob_cell_ok:
  assumes "table_ok t p (done_to i j) dp" "1 \<le> i" "i \<le> length t" "j < length p"
  shows "table_ok t p (done_to i (Suc j)) (glob_cell t p i (Suc j) dp)"
proof -
  have ti: "take i t = take (i - 1) t @ [t ! (i - 1)]" using assms(2,3) by (rule take_pred)
  have pj: "take (Suc j) p = take j p @ [p ! j]" using assms(4) by (simp add: take_Suc_conv_app_nth)
  have step: "done_to i (Suc j) i' j' \<longleftrightarrow> done_to i j i' j' \<or> (i' = i \<and> j' = Suc j)" for i' j'
    by (auto simp: done_to_def)
  have cell: "dp ! i' ! j' \<longleftrightarrow> glob_spec (take j' p) (take i' t)"
    if "done_to i j i' j'" "i' \<le> length t" "j' \<le> length p" for i' j'
    using assms(1) that by (simp add: table_ok_def)
  have "done_to i j (i - 1) (Suc j)" "done_to i j (i - 1) j" "done_to i j i j"
    using assms(2) by (auto simp: done_to_def)
  with assms(2-4) have above: "dp ! (i - 1) ! Suc j \<longleftrightarrow> glob_spec (take (Suc j) p) (take (i - 1) t)"
    "dp ! (i - 1) ! j \<longleftrightarrow> glob_spec (take j p) (take (i - 1) t)"
    and left: "dp ! i ! j \<longleftrightarrow> glob_spec (take j p) (take i t)"
    by (simp_all add: cell)
  show ?thesis
  proof (cases "p ! j = CHR ''*''")
    case True
    with above left have "dp ! (i - 1) ! Suc j \<or> dp ! i ! j \<longleftrightarrow> glob_spec (take (Suc j) p) (take i t)"
      unfolding pj ti by (auto simp: glob_spec_snoc_star)
    from table_ok_set [OF assms(1,3) _ this step] assms(4) True show ?thesis by (simp add: glob_cell_def)
  next
    case False
    then have spec: "glob_spec (take (Suc j) p) (take i t) \<longleftrightarrow>
        (p ! j = CHR ''?'' \<or> p ! j = t ! (i - 1)) \<and> glob_spec (take j p) (take (i - 1) t)"
      unfolding pj ti by (simp add: glob_spec_snoc_char)
    show ?thesis
    proof (cases "p ! j = CHR ''?'' \<or> p ! j = t ! (i - 1)")
      case True
      with spec above have "dp ! (i - 1) ! j \<longleftrightarrow> glob_spec (take (Suc j) p) (take i t)" by simp
      from table_ok_set [OF assms(1,3) _ this step] assms(4) True False show ?thesis
        by (auto simp: glob_cell_def)
    next
      case other: False
      with spec have "\<not> glob_spec (take (Suc j) p) (take i t)" by simp
      from table_ok_skip [OF assms(1) this step] other False show ?thesis by (simp add: glob_cell_def)
    qed
  qed
qed

lemma glob_row_ok:
  assumes "table_ok t p (done_to i 0) dp" "1 \<le> i" "i \<le> length t"
  shows "table_ok t p (done_to i (length p)) (glob_row t p i dp)"
proof -
  have "n \<le> length p \<Longrightarrow> table_ok t p (done_to i n) (fold (glob_cell t p i) [1..<n + 1] dp)" for n
    by (induction n) (simp_all add: assms(1) glob_cell_ok [OF _ assms(2,3)])
  then show ?thesis by (simp add: glob_row_def)
qed

lemma glob_table_ok: "table_ok t p (done_to (length t) (length p)) (glob_table t p)"
proof -
  let ?first = "fold (first_row_cell p) [1..<length p + 1] (empty_table (length t) (length p))"
  have "n \<le> length t \<Longrightarrow> table_ok t p (done_to n (length p)) (fold (glob_row t p) [1..<n + 1] ?first)" for n
  proof (induction n)
    case 0
    have "table_ok t p (done_to 0 (length p)) ?first"
      by (rule table_ok_cong [OF first_row_ok [OF empty_table_ok]]) (auto simp: done_to_def)
    then show ?case by simp
  next
    case (Suc n)
    let ?dp = "fold (glob_row t p) [1..<n + 1] ?first"
    from Suc have "table_ok t p (done_to n (length p)) ?dp" by simp
    then have "table_ok t p (done_to (Suc n) 0) ?dp"
      by (rule table_ok_cong) (auto simp: done_to_def)
    with Suc.prems have "table_ok t p (done_to (Suc n) (length p)) (glob_row t p (Suc n) ?dp)"
      by (intro glob_row_ok) simp_all
    then show ?case by simp
  qed
  from this [of "length t"] show ?thesis by (simp add: glob_table_def)
qed

lemma glob_table_answer: "glob_table t p ! length t ! length p \<longleftrightarrow> glob_spec p t"
  using glob_table_ok [of t p] by (auto simp: table_ok_def done_to_def)

lemma contains_str_iff: "contains_str p s \<longleftrightarrow> (\<exists>u v. s = u @ p @ v)"
  by (induction s) (auto simp: starts_with_iff Cons_eq_append_conv)

text \<open>
  C16: both dynamic programs decide the declarative meaning of the pattern on the lower-cased
  strings, and a query without wildcards is a case-insensitive search for a substring.
\<close>

theorem glob_match_correct:
  "glob_match lower name pattern = glob_spec (lower pattern) (lower name) \<and>
   simple_glob_match lower name pattern = glob_match lower name pattern \<and>
   matches_query lower name query =
     (if CHR ''*'' \<in> set query \<or> CHR ''?'' \<in> set query then glob_spec (lower query) (lower name)
      else (\<exists>u v. lower name = u @ lower query @ v))"
  by (simp add: glob_match_def simple_glob_match_def matches_query_def glob_table_answer contains_str_iff)

end
