(* ===== verification/Access_Tracker.thy ===== *)
theory Access_Tracker
  imports Json
begin

text \<open>
  \<open>AccessTracker\<close> of \<open>mosaicfs-server/src/state.rs\<close>: accesses wait in memory until the next
  flush; an access within an hour of the last flushed one is dropped. The pending map is an
  association list with distinct keys.
\<close>

record access_tracker =
  tk_pending :: "(string \<times> time) list"
  tk_last_written :: "string \<rightharpoonup> time"

definition new_tracker :: access_tracker where
  "new_tracker = \<lparr>tk_pending = [], tk_last_written = Map.empty\<rparr>"

definition debounce_window :: time where
  "debounce_window = 3600 * 1000000000"

definition tracker_record :: "time \<Rightarrow> string \<Rightarrow> access_tracker \<Rightarrow> access_tracker" where
  "tracker_record now file_id t =
     (if (case tk_last_written t file_id of Some at \<Rightarrow> now - at < debounce_window | None \<Rightarrow> False) then t
      else t\<lparr>tk_pending := AList.update file_id now (tk_pending t)\<rparr>)"

definition take_pending :: "access_tracker \<Rightarrow> (string \<times> time) list \<times> access_tracker" where
  "take_pending t =
     (tk_pending t,
      \<lparr>tk_pending = [], tk_last_written = fold (\<lambda>(i, ts) m. m(i \<mapsto> ts)) (tk_pending t) (tk_last_written t)\<rparr>)"

section \<open>Runs\<close>

datatype tracker_op = RecordAccess time string | TakePending

fun tracker_step :: "tracker_op \<Rightarrow> access_tracker \<Rightarrow> (string \<times> time) list \<times> access_tracker" where
  "tracker_step (RecordAccess now f) t = ([], tracker_record now f t)"
| "tracker_step TakePending t = take_pending t"

text \<open>Everything that is flushed, in the order of the flushes.\<close>

fun tracker_run :: "tracker_op list \<Rightarrow> access_tracker \<Rightarrow> (string \<times> time) list \<times> access_tracker" where
  "tracker_run [] t = ([], t)"
| "tracker_run (op # ops) t =
     (let (out, t1) = tracker_step op t; (rest, t2) = tracker_run ops t1 in (out @ rest, t2))"

definition tracker_ok :: "access_tracker \<Rightarrow> bool" where
  "tracker_ok t \<longleftrightarrow> distinct (map fst (tk_pending t)) \<and>
     (\<forall>f ts at. map_of (tk_pending t) f = Some ts \<longrightarrow> tk_last_written t f = Some at \<longrightarrow>
        debounce_window \<le> ts - at)"

definition flushed_times :: "string \<Rightarrow> (string \<times> time) list \<Rightarrow> time list" where
  "flushed_times f out = map snd (filter (\<lambda>e. fst e = f) out)"

lemma flushed_times_simps [simp]:
  "flushed_times f [] = []"
  "flushed_times f (e # es) = (if fst e = f then snd e # flushed_times f es else flushed_times f es)"
  "flushed_times f (xs @ ys) = flushed_times f xs @ flushed_times f ys"
  by (simp_all add: flushed_times_def)

lemma tracker_ok_record: "tracker_ok t \<Longrightarrow> tracker_ok (tracker_record now f t)"
  by (auto simp: tracker_ok_def tracker_record_def distinct_update update_conv' simp del: map_of_eq_Some_iff
      split: option.splits if_splits)

lemma fold_written:
  "distinct (map fst ps) \<Longrightarrow> fold (\<lambda>(i, ts) m. m(i \<mapsto> ts)) ps m f =
     (case map_of ps f of Some ts \<Rightarrow> Some ts | None \<Rightarrow> m f)"
proof (induction ps arbitrary: m)
  case Nil
  then show ?case by simp
next
  case (Cons p ps)
  obtain g u where p: "p = (g, u)" by (cases p)
  with Cons.prems have "map_of ps g = None" by (simp add: map_of_eq_None_iff)
  with Cons show ?case by (auto simp: p split: option.splits simp del: map_of_eq_Some_iff)
qed

lemma tracker_ok_take: "tracker_ok (snd (take_pending t))"
  by (simp add: tracker_ok_def take_pending_def)

lemma flushed_take:
  "distinct (map fst ps) \<Longrightarrow> flushed_times f ps = (case map_of ps f of Some ts \<Rightarrow> [ts] | None \<Rightarrow> [])"
proof (induction ps)
  case Nil
  then show ?case by simp
next
  case (Cons p ps)
  then have "fst p \<notin> fst ` set ps" by simp
  then have "map_of ps (fst p) = None" by (simp add: map_of_eq_None_iff)
  with Cons show ?case by (cases p) auto
qed

text \<open>Every flushed time is at least the window after the last one, and they are kept for later.\<close>

lemma tracker_run_spaced:
  assumes "tracker_ok t" "tracker_run ops t = (out, t')"
  shows "sorted_wrt (\<lambda>a b. debounce_window \<le> b - a) (flushed_times f out) \<and>
    (\<forall>at. tk_last_written t f = Some at \<longrightarrow> (\<forall>ts \<in> set (flushed_times f out). debounce_window \<le> ts - at))"
  using assms
proof (induction ops arbitrary: t out)
  case Nil
  then show ?case by simp
next
  case (Cons op ops)
  obtain o1 t1 where step: "tracker_step op t = (o1, t1)" by (cases "tracker_step op t")
  obtain rest t2 where run: "tracker_run ops t1 = (rest, t2)" by (cases "tracker_run ops t1")
  from Cons.prems(2) step run have out: "out = o1 @ rest" by simp
  show ?case
  proof (cases op)
    case (RecordAccess now g)
    with step have t1: "o1 = []" "t1 = tracker_record now g t" by auto
    then have "tk_last_written t1 = tk_last_written t" by (simp add: tracker_record_def)
    moreover have "tracker_ok t1" using tracker_ok_record [OF Cons.prems(1)] t1(2) by simp
    moreover have "tracker_run ops t1 = (rest, t')" using Cons.prems(2) step run by simp
    ultimately show ?thesis using Cons.IH [of t1 rest] out t1(1) by simp
  next
    case TakePending
    with step have o1: "o1 = tk_pending t" and t1: "t1 = snd (take_pending t)"
      by (auto simp: take_pending_def)
    have distinct: "distinct (map fst (tk_pending t))" using Cons.prems(1) by (simp add: tracker_ok_def)
    have written: "tk_last_written t1 f = (case map_of (tk_pending t) f of Some ts \<Rightarrow> Some ts | None \<Rightarrow> tk_last_written t f)"
      using fold_written [OF distinct] by (simp add: t1 take_pending_def)
    have now: "flushed_times f o1 = (case map_of (tk_pending t) f of Some ts \<Rightarrow> [ts] | None \<Rightarrow> [])"
      unfolding o1 by (rule flushed_take [OF distinct])
    have "t2 = t'" using Cons.prems(2) step run by simp
    with run have run': "tracker_run ops t1 = (rest, t')" by simp
    from Cons.IH [OF _ run'] tracker_ok_take [of t] t1 have
      rest: "sorted_wrt (\<lambda>a b. debounce_window \<le> b - a) (flushed_times f rest)"
      "\<And>at. tk_last_written t1 f = Some at \<Longrightarrow> \<forall>ts \<in> set (flushed_times f rest). debounce_window \<le> ts - at" by auto
    show ?thesis
    proof (cases "map_of (tk_pending t) f")
      case None
      with now written rest out show ?thesis by simp
    next
      case (Some ts)
      have gap: "debounce_window \<le> ts - at" if "tk_last_written t f = Some at" for at
        using Cons.prems(1) Some that by (auto simp: tracker_ok_def)
      have later: "\<forall>u \<in> set (flushed_times f rest). debounce_window \<le> u - ts"
        using rest(2) [of ts] written Some by simp
      have "0 \<le> debounce_window" by (simp add: debounce_window_def)
      with gap later Some now rest(1) out show ?thesis by fastforce
    qed
  qed
qed

text \<open>Whatever the order of accesses and flushes, and even if the clock runs backwards, two
  flushed accesses of one file are at least an hour apart.
\<close>

lemma flushes_debounced:
  "sorted_wrt (\<lambda>a b. 3600 * 1000000000 \<le> b - a) (flushed_times f (fst (tracker_run ops new_tracker)))"
proof -
  obtain out t' where run: "tracker_run ops new_tracker = (out, t')" by (cases "tracker_run ops new_tracker")
  have "tracker_ok new_tracker" by (simp add: tracker_ok_def new_tracker_def)
  from tracker_run_spaced [OF this run] run show ?thesis by (simp add: debounce_window_def)
qed

end
