(* ===== verification/Labels.thy ===== *)
theory Labels
  imports Api Glob Server_Caches
begin

text \<open>
  \<open>handlers/labels.rs\<close>: label assignments of single files, label rules, and the effective
  labels of a file.
\<close>

definition assignment_id :: "string \<Rightarrow> string" where
  "assignment_id file_id = ''label_assignment::'' @ file_uuid_of file_id"

section \<open>Labels of documents\<close>

definition doc_labels :: "json \<Rightarrow> string list" where
  "doc_labels doc =
     (case Option.bind (jget ''labels'' doc) as_array of
        Some labels \<Rightarrow> List.map_filter as_str labels
      | None \<Rightarrow> [])"

text \<open>A range whose query failed counts as empty.\<close>

definition range_docs :: "'s couch \<Rightarrow> string \<Rightarrow> 's \<Rightarrow> json list \<times> 's" where
  "range_docs db pre s =
     (case db_prefix db pre s of
        (Inr rows, s1) \<Rightarrow> (row_docs rows, s1)
      | (Inl _, s1) \<Rightarrow> ([], s1))"

text \<open>A set of labels collected and sorted.\<close>

definition sorted_labels :: "string list \<Rightarrow> json" where
  "sorted_labels ls = JArr (map JStr (sort (remdups ls)))"

definition list_labels :: "'s couch \<Rightarrow> 's \<Rightarrow> reply \<times> 's" where
  "list_labels db s =
     (let (assigned, s1) = range_docs db ''label_assignment::'' s;
          (rules, s2) = range_docs db ''label_rule::'' s1;
          labels = remdups (concat (map doc_labels (assigned @ rules)))
      in (Reply 200 (JObj [(''labels'', sorted_labels labels), (''total'', count_json labels)]), s2))"

section \<open>Assignments\<close>

definition list_assignments :: "'s couch \<Rightarrow> string option \<Rightarrow> 's \<Rightarrow> reply \<times> 's" where
  "list_assignments db file_id s =
     (case file_id of
        Some f \<Rightarrow>
          (case db_get db (assignment_id f) s of
             (Inr doc, s1) \<Rightarrow> (Reply 200 (listing_json [strip_internals doc]), s1)
           | (Inl (NotFound _), s1) \<Rightarrow> (Reply 200 (listing_json []), s1)
           | (Inl e, s1) \<Rightarrow> (internal e, s1))
      | None \<Rightarrow>
          on_ok (fetch_all db ''label_assignment::'' s) (\<lambda>docs s1.
            (Reply 200 (listing_json (map strip_internals docs)), s1)))"

definition assignment_doc :: "api_env \<Rightarrow> string \<Rightarrow> string list \<Rightarrow> string option \<Rightarrow> json" where
  "assignment_doc env file_id labels rv =
     JObj ([(''_id'', JStr (assignment_id file_id)), (''type'', JStr ''label_assignment''),
       (''file_id'', JStr (''file::'' @ file_uuid_of file_id)), (''labels'', JArr (map JStr labels)),
       (''updated_at'', JStr (ae_now env))] @
       (case rv of Some r \<Rightarrow> [(''_rev'', JStr r)] | None \<Rightarrow> []))"

definition upsert_assignment ::
  "api_env \<Rightarrow> 's couch \<Rightarrow> string \<Rightarrow> string list \<Rightarrow> 's \<Rightarrow> reply \<times> 's" where
  "upsert_assignment env db file_id labels s =
     (let (got, s1) = db_get db (assignment_id file_id) s;
          doc = assignment_doc env file_id labels (Option.bind (ok got) (jget_str ''_rev''))
      in store_doc db (assignment_id file_id) doc (Reply 200 (strip_internals doc)) s1)"

definition delete_assignment :: "'s couch \<Rightarrow> string option \<Rightarrow> 's \<Rightarrow> reply \<times> 's" where
  "delete_assignment db file_id s =
     (case file_id of
        None \<Rightarrow> (invalid ''file_id query param required'', s)
      | Some f \<Rightarrow>
          on_ok (fetch db (assignment_id f) ''Assignment not found'' s) (\<lambda>doc s1.
            remove_doc db (assignment_id f) doc s1))"

section \<open>Rules\<close>

record rule_request =
  rq_name :: "string option"
  rq_labels :: "string list"
  rq_node_id :: "string option"
  rq_path_prefix :: "string option"
  rq_glob :: "string option"
  rq_enabled :: bool

definition list_rules :: "'s couch \<Rightarrow> 's \<Rightarrow> reply \<times> 's" where
  "list_rules db s =
     on_ok (fetch_all db ''label_rule::'' s) (\<lambda>docs s1.
       (Reply 200 (listing_json (map strip_internals docs)), s1))"

definition ends_with_slash :: "string \<Rightarrow> bool" where
  "ends_with_slash p \<longleftrightarrow> (case rev p of c # _ \<Rightarrow> c = CHR ''/'' | [] \<Rightarrow> False)"

definition bad_prefix :: "string option \<Rightarrow> bool" where
  "bad_prefix p \<longleftrightarrow> (case p of Some q \<Rightarrow> \<not> ends_with_slash q | None \<Rightarrow> False)"

definition check_node :: "'s couch \<Rightarrow> string option \<Rightarrow> 's \<Rightarrow> (reply + unit) \<times> 's" where
  "check_node db node_id s =
     (case node_id of
        None \<Rightarrow> (Inr (), s)
      | Some n \<Rightarrow>
          (case db_get db (''node::'' @ n) s of
             (Inr _, s1) \<Rightarrow> (Inr (), s1)
           | (Inl (NotFound _), s1) \<Rightarrow> (Inl (invalid ''node_id not found''), s1)
           | (Inl e, s1) \<Rightarrow> (Inl (internal e), s1)))"

definition rule_doc_id :: "string \<Rightarrow> string" where
  "rule_doc_id rule_id = ''label_rule::'' @ rule_id"

definition rule_doc :: "api_env \<Rightarrow> rule_request \<Rightarrow> json" where
  "rule_doc env rq =
     (let rule_id = take 8 (ae_uuid env) in
      JObj [(''_id'', JStr (rule_doc_id rule_id)), (''type'', JStr ''label_rule''), (''rule_id'', JStr rule_id),
        (''name'', json_str_opt (rq_name rq)), (''labels'', JArr (map JStr (rq_labels rq))),
        (''node_id'', json_str_opt (rq_node_id rq)), (''path_prefix'', json_str_opt (rq_path_prefix rq)),
        (''glob'', json_str_opt (rq_glob rq)), (''enabled'', JBool (rq_enabled rq)),
        (''created_at'', JStr (ae_now env))])"

definition create_rule :: "api_env \<Rightarrow> 's couch \<Rightarrow> rule_request \<Rightarrow> 's \<Rightarrow> reply \<times> 's" where
  "create_rule env db rq s =
     (if rq_labels rq = [] then (invalid ''labels must not be empty'', s)
      else if bad_prefix (rq_path_prefix rq) then (invalid ''path_prefix must end with /'', s)
      else
        on_ok (check_node db (rq_node_id rq) s) (\<lambda>_ s1.
          let doc = rule_doc env rq in
          store_doc db (rule_doc_id (take 8 (ae_uuid env))) doc (Reply 201 (strip_internals doc)) s1))"

definition rule_fields :: "string list" where
  "rule_fields = [''labels'', ''enabled'', ''node_id'', ''path_prefix'', ''glob'']"

definition patch_rule :: "'s couch \<Rightarrow> string \<Rightarrow> json \<Rightarrow> 's \<Rightarrow> reply \<times> 's" where
  "patch_rule db rule_id body s =
     on_ok (fetch db (rule_doc_id rule_id) ''Rule not found'' s) (\<lambda>doc s1.
       if bad_prefix (jget_str ''path_prefix'' body) then (invalid ''path_prefix must end with /'', s1)
       else
         or_panic (jset_all (given rule_fields body) doc) (\<lambda>d s2.
           store_doc db (rule_doc_id rule_id) d ok_reply s2) s1)"

definition delete_rule :: "'s couch \<Rightarrow> string \<Rightarrow> 's \<Rightarrow> reply \<times> 's" where
  "delete_rule db rule_id s =
     on_ok (fetch db (rule_doc_id rule_id) ''Rule not found'' s) (\<lambda>doc s1.
       remove_doc db (rule_doc_id rule_id) doc s1)"

section \<open>Effective labels\<close>

definition rule_applies ::
  "(string \<Rightarrow> string) \<Rightarrow> string \<Rightarrow> string \<Rightarrow> string \<Rightarrow> json \<Rightarrow> bool" where
  "rule_applies lower file_node_id file_export_path file_name rule \<longleftrightarrow>
     Option.bind (jget ''enabled'' rule) as_bool = Some True \<and>
     (case jget_str ''node_id'' rule of Some n \<Rightarrow> n = file_node_id | None \<Rightarrow> True) \<and>
     (case jget_str ''path_prefix'' rule of Some p \<Rightarrow> starts_with file_export_path p | None \<Rightarrow> True) \<and>
     (case jget_str ''glob'' rule of Some g \<Rightarrow> simple_glob_match lower file_name g | None \<Rightarrow> True)"

definition rule_applies_to :: "(string \<Rightarrow> string) \<Rightarrow> json \<Rightarrow> json \<Rightarrow> bool" where
  "rule_applies_to lower file_doc rule =
     rule_applies lower (source_field ''node_id'' file_doc) (source_field ''export_path'' file_doc)
       (unwrap_or (jget_str ''name'' file_doc) []) rule"

definition effective_labels ::
  "(string \<Rightarrow> string) \<Rightarrow> 's couch \<Rightarrow> string option \<Rightarrow> 's \<Rightarrow> reply \<times> 's" where
  "effective_labels lower db file_id s =
     (case file_id of
        None \<Rightarrow> (invalid ''file_id query param required'', s)
      | Some f \<Rightarrow>
          (let full_file_id = ''file::'' @ file_uuid_of f in
           on_ok (fetch db full_file_id ''File not found'' s) (\<lambda>file_doc s1.
             let (got, s2) = db_get db (assignment_id f) s1;
                 direct = (case got of Inr doc \<Rightarrow> doc_labels doc | Inl _ \<Rightarrow> []);
                 (rules, s3) = range_docs db ''label_rule::'' s2;
                 ruled = concat (map doc_labels (filter (rule_applies_to lower file_doc) rules))
             in (Reply 200 (JObj [(''file_id'', JStr full_file_id),
                   (''labels'', sorted_labels (direct @ ruled))]), s3))))"


section \<open>What the effective labels are\<close>

definition effective_label ::
  "(string \<Rightarrow> string) \<Rightarrow> (string \<Rightarrow> json option) \<Rightarrow> string \<Rightarrow> json \<Rightarrow> string \<Rightarrow> bool" where
  "effective_label lower docs u file_doc l \<longleftrightarrow>
     (\<exists>d. docs (''label_assignment::'' @ u) = Some d \<and> l \<in> set (doc_labels d)) \<or>
     (\<exists>i rule. starts_with i ''label_rule::'' \<and> docs i = Some rule \<and>
        rule_applies_to lower file_doc rule \<and> l \<in> set (doc_labels rule))"

lemma range_docs_law:
  assumes "reads_law db docs"
  obtains ds where "range_docs db pre s = (ds, s)"
    "\<And>d. d \<in> set ds \<longleftrightarrow> (\<exists>i. starts_with i pre \<and> docs s i = Some d)"
proof -
  obtain ds where ds: "fetch_all db pre s = (Inr ds, s)"
    "\<And>d. d \<in> set ds \<longleftrightarrow> (\<exists>i. starts_with i pre \<and> docs s i = Some d)"
    by (rule fetch_all_law [OF assms, of pre s]) (rule that)
  then have "range_docs db pre s = (ds, s)"
    by (auto simp: fetch_all_def range_docs_def internal_def split: prod.splits sum.splits)
  from that [OF this ds(2)] show thesis by simp
qed

lemma effective_labels_set:
  assumes "reads_law db docs" "docs s (''file::'' @ file_uuid_of f) = Some file_doc"
  shows "\<exists>ls. effective_labels lower db (Some f) s =
      (Reply 200 (JObj [(''file_id'', JStr (''file::'' @ file_uuid_of f)), (''labels'', JArr (map JStr ls))]), s) \<and>
    sorted ls \<and> distinct ls \<and>
    (\<forall>l. l \<in> set ls \<longleftrightarrow> effective_label lower (docs s) (file_uuid_of f) file_doc l)"
proof -
  obtain rules where rules: "range_docs db ''label_rule::'' s = (rules, s)"
    "\<And>d. d \<in> set rules \<longleftrightarrow> (\<exists>i. starts_with i ''label_rule::'' \<and> docs s i = Some d)"
    by (rule range_docs_law [OF assms(1), of "''label_rule::''" s]) (rule that)
  let ?direct = "case docs s (assignment_id f) of Some d \<Rightarrow> doc_labels d | None \<Rightarrow> []"
  let ?ls = "sort (remdups (?direct @ concat (map doc_labels (filter (rule_applies_to lower file_doc) rules))))"
  have run: "effective_labels lower db (Some f) s =
      (Reply 200 (JObj [(''file_id'', JStr (''file::'' @ file_uuid_of f)), (''labels'', JArr (map JStr ?ls))]), s)"
    using assms(2)
    by (simp add: effective_labels_def fetch_law [OF assms(1)] reads_law_get [OF assms(1)] rules(1)
        sorted_labels_def split: option.split)
  have "l \<in> set ?ls \<longleftrightarrow> effective_label lower (docs s) (file_uuid_of f) file_doc l" for l
    by (auto simp: effective_label_def assignment_id_def rules(2) split: option.split)
  with run show ?thesis by (intro exI [of _ ?ls]) simp
qed

lemma doc_labels_same:
  "same_fields d' d \<Longrightarrow> doc_labels d' = doc_labels d"
  by (simp add: doc_labels_def same_fields_def)

lemma map_filter_as_str [simp]: "List.map_filter as_str (map JStr ls) = ls"
  by (induction ls) (simp_all add: map_filter_simps)

lemma doc_labels_assignment [simp]: "doc_labels (assignment_doc env f labels rv) = labels"
  by (simp add: doc_labels_def assignment_doc_def)

lemma assignment_not_rule [simp]: "\<not> starts_with (assignment_id f) ''label_rule::''"
  by (simp add: assignment_id_def starts_with_def)

lemma upsert_assignment_stored:
  assumes "reads_law db docs" "writes_law db docs"
    and "upsert_assignment env db f labels s = (Reply 200 body, s')"
  shows "\<exists>d. docs s' = (docs s)(assignment_id f \<mapsto> d) \<and> doc_labels d = labels"
proof -
  let ?rv = "Option.bind (docs s (assignment_id f)) (jget_str ''_rev'')"
  let ?doc = "assignment_doc env f labels ?rv"
  have "store_doc db (assignment_id f) ?doc (Reply 200 (strip_internals ?doc)) s = (Reply 200 body, s')"
    using assms(3) by (simp add: upsert_assignment_def reads_law_get [OF assms(1)] Let_def split: option.splits)
  from store_doc_cases [OF assms(2) this] obtain d' where
    "same_fields d' ?doc" "docs s' = (docs s)(assignment_id f \<mapsto> d')" by auto
  then show ?thesis using doc_labels_same by fastforce
qed

text \<open>
  The labels reported for a file are, sorted and without repetition, exactly those of its
  assignment and those of the enabled rules whose node, path prefix and name pattern fit it.
\<close>

theorem effective_labels_exact:
  assumes "reads_law db docs" "docs s (''file::'' @ file_uuid_of f) = Some file_doc"
  shows "\<exists>ls. effective_labels lower db (Some f) s =
      (Reply 200 (JObj [(''file_id'', JStr (''file::'' @ file_uuid_of f)), (''labels'', JArr (map JStr ls))]), s) \<and>
    sorted_wrt (<) ls \<and>
    (\<forall>l. l \<in> set ls \<longleftrightarrow> effective_label lower (docs s) (file_uuid_of f) file_doc l)"
  unfolding strict_sorted_iff using effective_labels_set [of db docs, OF assms, of lower] by (simp add: conj_assoc)

text \<open>
  The rules that give a file their labels, by the documents alone: the flag \<open>enabled\<close> is true, and the node, the
  prefix of the path and the pattern of the name are each absent or fit the file.
\<close>

inductive same_rule_node :: "json \<Rightarrow> json \<Rightarrow> bool" where
  any: "\<nexists>n. jget ''node_id'' rule = Some (JStr n) \<Longrightarrow> same_rule_node rule file"
| same: "jget ''node_id'' rule = Some (JStr n) \<Longrightarrow> jget ''source'' file = Some src \<Longrightarrow>
    jget ''node_id'' src = Some (JStr n) \<Longrightarrow> same_rule_node rule file"
| unknown: "jget ''node_id'' rule = Some (JStr []) \<Longrightarrow>
    \<nexists>src n. jget ''source'' file = Some src \<and> jget ''node_id'' src = Some (JStr n) \<Longrightarrow> same_rule_node rule file"

inductive fits_rule_glob :: "(string \<Rightarrow> string) \<Rightarrow> json \<Rightarrow> json \<Rightarrow> bool" for lower where
  any: "\<nexists>g. jget ''glob'' rule = Some (JStr g) \<Longrightarrow> fits_rule_glob lower rule file"
| named: "jget ''glob'' rule = Some (JStr g) \<Longrightarrow> jget ''name'' file = Some (JStr n) \<Longrightarrow>
    glob_spec (lower g) (lower n) \<Longrightarrow> fits_rule_glob lower rule file"
| nameless: "jget ''glob'' rule = Some (JStr g) \<Longrightarrow> \<nexists>n. jget ''name'' file = Some (JStr n) \<Longrightarrow>
    glob_spec (lower g) (lower []) \<Longrightarrow> fits_rule_glob lower rule file"

lemma rule_applies_to_spelled:
  "rule_applies_to lower file rule \<longleftrightarrow>
     jget ''enabled'' rule = Some (JBool True) \<and> same_rule_node rule file \<and> below_rule_prefix rule file \<and>
     fits_rule_glob lower rule file"
proof -
  have enabled: "Option.bind (jget ''enabled'' rule) as_bool = Some True \<longleftrightarrow> jget ''enabled'' rule = Some (JBool True)"
  proof (cases "jget ''enabled'' rule")
    case (Some v)
    then show ?thesis by (cases v) simp_all
  qed simp
  have node: "same_rule_node rule file \<longleftrightarrow>
      (case jget_str ''node_id'' rule of Some n \<Rightarrow> n = source_field ''node_id'' file | None \<Rightarrow> True)"
  proof (cases "jget_str ''node_id'' rule")
    case None
    then have "\<nexists>n. jget ''node_id'' rule = Some (JStr n)" by (simp add: jget_str_Some [symmetric])
    with None show ?thesis by (simp add: same_rule_node.any)
  next
    case (Some n)
    then have n: "jget ''node_id'' rule = Some (JStr n)" by (simp add: jget_str_Some)
    have "n = source_field ''node_id'' file \<longleftrightarrow> source_field ''node_id'' file = n" by blast
    with Some n show ?thesis by (simp add: same_rule_node.simps source_field_iff) blast
  qed
  have prefix: "below_rule_prefix rule file \<longleftrightarrow>
      (case jget_str ''path_prefix'' rule of
         Some p \<Rightarrow> starts_with (source_field ''export_path'' file) p | None \<Rightarrow> True)"
    unfolding below_rule_prefix_iff by (simp add: starts_with_iff split: option.split)
  have name: "unwrap_or (jget_str ''name'' file) [] = n \<longleftrightarrow> jget ''name'' file = Some (JStr n) \<or>
      (\<nexists>m. jget ''name'' file = Some (JStr m)) \<and> n = []" for n
    unfolding jget_str_Some [symmetric] by (cases "jget_str ''name'' file") auto
  have glob: "fits_rule_glob lower rule file \<longleftrightarrow>
      (case jget_str ''glob'' rule of
         Some g \<Rightarrow> simple_glob_match lower (unwrap_or (jget_str ''name'' file) []) g | None \<Rightarrow> True)"
  proof (cases "jget_str ''glob'' rule")
    case None
    then have "\<nexists>g. jget ''glob'' rule = Some (JStr g)" by (simp add: jget_str_Some [symmetric])
    with None show ?thesis by (simp add: fits_rule_glob.any)
  next
    case (Some g)
    then have g: "jget ''glob'' rule = Some (JStr g)" by (simp add: jget_str_Some)
    define name where "name = unwrap_or (jget_str ''name'' file) []"
    have "jget ''name'' file = Some (JStr name) \<or> (\<nexists>m. jget ''name'' file = Some (JStr m)) \<and> name = []"
      using name [of name] by (simp add: name_def)
    with g have "fits_rule_glob lower rule file \<longleftrightarrow> glob_spec (lower g) (lower name)"
      by (auto simp: fits_rule_glob.simps)
    with Some show ?thesis by (simp add: simple_glob_match_def glob_table_answer name_def)
  qed
  show ?thesis
    by (simp add: rule_applies_to_def rule_applies_def enabled node prefix glob)
qed

lemma doc_labels_iff:
  "l \<in> set (doc_labels d) \<longleftrightarrow> (\<exists>ls. jget ''labels'' d = Some (JArr ls) \<and> JStr l \<in> set ls)"
proof (cases "jget ''labels'' d")
  case None
  then show ?thesis by (simp add: doc_labels_def)
next
  case (Some v)
  then show ?thesis by (cases v) (simp_all add: doc_labels_def set_map_filter as_str_Some)
qed

text \<open>
  C18: an accepted assignment replaces the direct labels of the file: asked right after it, the
  server reports, sorted and without repetition, its labels and those of the rules, whatever was assigned before: of
  the rules whose flag enabled is true and whose node, path prefix and name pattern are each absent or fit the file.
  A rule for the node '*' fits the files of a node of that name only, although the document of the schemas has it
  cover every node, and the pattern of the name is not in that document.
\<close>

theorem assignment_takes_effect:
  assumes "reads_law db docs" "writes_law db docs" "uuid_of f u"
    and "docs s (''file::'' @ u) = Some file_doc"
    and "upsert_assignment env db f labels s = (Reply 200 body, s1)"
  shows "\<exists>ls. effective_labels lower db (Some f) s1 =
      (Reply 200 (JObj [(''file_id'', JStr (''file::'' @ u)), (''labels'', JArr (map JStr ls))]), s1) \<and>
    sorted_wrt (<) ls \<and>
    (\<forall>l. l \<in> set ls \<longleftrightarrow> l \<in> set labels \<or>
      (\<exists>i rule given. docs s (''label_rule::'' @ i) = Some rule \<and> jget ''enabled'' rule = Some (JBool True) \<and>
        same_rule_node rule file_doc \<and> below_rule_prefix rule file_doc \<and> fits_rule_glob lower rule file_doc \<and>
        jget ''labels'' rule = Some (JArr given) \<and> JStr l \<in> set given))"
proof -
  from assms(3) have u: "u = file_uuid_of f" by (simp add: file_uuid_of_iff)
  obtain d where d: "docs s1 = (docs s)(assignment_id f \<mapsto> d)" "doc_labels d = labels"
    using upsert_assignment_stored [OF assms(1,2,5)] by blast
  have "docs s1 (''file::'' @ file_uuid_of f) = Some file_doc"
    using assms(4) by (simp add: d(1) u assignment_id_def)
  note eff = effective_labels_set [of db docs, OF assms(1) this, of lower]
  have rules: "starts_with i ''label_rule::'' \<Longrightarrow> docs s1 i = docs s i" for i
    using assignment_not_rule [of f] by (auto simp: d(1))
  have "effective_label lower (docs s1) (file_uuid_of f) file_doc l \<longleftrightarrow> l \<in> set labels \<or>
      (\<exists>i rule given. docs s (''label_rule::'' @ i) = Some rule \<and> jget ''enabled'' rule = Some (JBool True) \<and>
        same_rule_node rule file_doc \<and> below_rule_prefix rule file_doc \<and> fits_rule_glob lower rule file_doc \<and>
        jget ''labels'' rule = Some (JArr given) \<and> JStr l \<in> set given)" for l
  proof -
    define applies where "applies rule \<longleftrightarrow> rule_applies_to lower file_doc rule \<and> l \<in> set (doc_labels rule)" for rule
    have spelled: "applies rule \<longleftrightarrow> (\<exists>given. jget ''enabled'' rule = Some (JBool True) \<and>
        same_rule_node rule file_doc \<and> below_rule_prefix rule file_doc \<and> fits_rule_glob lower rule file_doc \<and>
        jget ''labels'' rule = Some (JArr given) \<and> JStr l \<in> set given)" for rule
      unfolding applies_def rule_applies_to_spelled doc_labels_iff by blast
    have "(\<exists>i rule. starts_with i ''label_rule::'' \<and> docs s1 i = Some rule \<and> applies rule) \<longleftrightarrow>
        (\<exists>i rule. docs s1 (''label_rule::'' @ i) = Some rule \<and> applies rule)"
      unfolding starts_with_iff by blast
    also have "\<dots> \<longleftrightarrow> (\<exists>i rule. docs s (''label_rule::'' @ i) = Some rule \<and> applies rule)"
      by (intro iff_exI conj_cong refl) (simp add: rules starts_with_iff)
    finally have ruled: "(\<exists>i rule. starts_with i ''label_rule::'' \<and> docs s1 i = Some rule \<and> applies rule) \<longleftrightarrow>
        (\<exists>i rule. docs s (''label_rule::'' @ i) = Some rule \<and> applies rule)" .
    have "docs s1 (''label_assignment::'' @ file_uuid_of f) = Some d"
      by (simp add: d(1) assignment_id_def)
    with ruled have "effective_label lower (docs s1) (file_uuid_of f) file_doc l \<longleftrightarrow> l \<in> set labels \<or>
        (\<exists>i rule. docs s (''label_rule::'' @ i) = Some rule \<and> applies rule)"
      unfolding effective_label_def applies_def by (simp add: d(2))
    then show ?thesis unfolding spelled by blast
  qed
  with eff show ?thesis unfolding u strict_sorted_iff by (elim exE conjE) (intro exI conjI, assumption+, simp)
qed


definition rule_invalid :: "(string \<Rightarrow> json option) \<Rightarrow> rule_request \<Rightarrow> bool" where
  "rule_invalid docs rq \<longleftrightarrow> rq_labels rq = [] \<or> bad_prefix (rq_path_prefix rq) \<or>
     (\<exists>n. rq_node_id rq = Some n \<and> docs (''node::'' @ n) = None)"

lemma check_node_law:
  "reads_law db docs \<Longrightarrow> check_node db n s =
     ((case n of Some i \<Rightarrow> if docs s (''node::'' @ i) = None then Inl (invalid ''node_id not found'') else Inr ()
       | None \<Rightarrow> Inr ()), s)"
  by (auto simp: check_node_def reads_law_get split: option.split)

text \<open>A rule is stored exactly when it has labels, its path prefix ends with a slash and its
  node exists; a request that is invalid gets a 400, and a reply other than 201 leaves the
  database as it was.
\<close>

lemma create_rule_validated:
  assumes "reads_law db docs" "writes_law db docs" "create_rule env db rq s = (r, s')"
  shows "if rule_invalid (docs s) rq then reply_status r = Some 400 \<and> docs s' = docs s
    else (r = Reply 201 (strip_internals (rule_doc env rq)) \<and>
        (\<exists>d. same_fields d (rule_doc env rq) \<and>
          docs s' = (docs s)(rule_doc_id (take 8 (ae_uuid env)) \<mapsto> d))) \<or>
      (reply_status r = Some 500 \<and> docs s' = docs s)"
proof (cases "rule_invalid (docs s) rq")
  case True
  with assms(3) show ?thesis
    by (auto simp: create_rule_def rule_invalid_def check_node_law [OF assms(1)] invalid_def split: if_splits option.splits)
next
  case False
  then have node: "check_node db (rq_node_id rq) s = (Inr (), s)"
    by (auto simp: rule_invalid_def check_node_law [OF assms(1)] split: option.split)
  have "store_doc db (rule_doc_id (take 8 (ae_uuid env))) (rule_doc env rq)
      (Reply 201 (strip_internals (rule_doc env rq))) s = (r, s')"
    using assms(3) False by (simp add: create_rule_def rule_invalid_def node Let_def)
  from store_doc_cases [OF assms(2) this] False show ?thesis by auto
qed

section \<open>Concrete cases\<close>

definition sample_tagged :: store where
  "sample_tagged =
     [(''file::1'', JObj [(''_id'', JStr ''file::1''), (''type'', JStr ''file''), (''name'', JStr ''a.txt''),
         (''source'', JObj [(''node_id'', JStr ''n''), (''export_path'', JStr ''/d/a.txt'')])]),
      (''label_rule::r'', JObj [(''_id'', JStr ''label_rule::r''), (''labels'', JArr [JStr ''paper'']),
         (''enabled'', JBool True), (''glob'', JStr ''*.pdf'')]),
      (''label_rule::q'', JObj [(''_id'', JStr ''label_rule::q''), (''labels'', JArr [JStr ''note'']),
         (''enabled'', JBool True), (''glob'', JStr ''*.t?t'')]),
      (''node::n'', JObj [(''type'', JStr ''node'')])]"

lemma sample_tagged_rows [simp]:
  "filter (\<lambda>e. starts_with (fst e) ''label_rule::'') (AList.clearjunk sample_tagged) =
     [(''label_rule::r'', JObj [(''_id'', JStr ''label_rule::r''), (''labels'', JArr [JStr ''paper'']),
         (''enabled'', JBool True), (''glob'', JStr ''*.pdf'')]),
      (''label_rule::q'', JObj [(''_id'', JStr ''label_rule::q''), (''labels'', JArr [JStr ''note'']),
         (''enabled'', JBool True), (''glob'', JStr ''*.t?t'')])]"
  "filter (\<lambda>e. starts_with (fst e) ''label_assignment::'') (AList.clearjunk sample_tagged) = []"
  "filter (\<lambda>e. starts_with (fst e) ''file::'') (AList.clearjunk sample_tagged) =
     [(''file::1'', JObj [(''_id'', JStr ''file::1''), (''type'', JStr ''file''), (''name'', JStr ''a.txt''),
         (''source'', JObj [(''node_id'', JStr ''n''), (''export_path'', JStr ''/d/a.txt'')])])]"
  by (simp_all add: sample_tagged_def starts_with_def)

lemma sample_globs [simp]:
  "simple_glob_match id ''a.txt'' ''*.t?t''" "\<not> simple_glob_match id ''a.txt'' ''*.pdf''"
  by code_simp+

lemma sample_effective:
  "effective_labels id store_couch (Some ''1'') sample_tagged =
     (Reply 200 (JObj [(''file_id'', JStr ''file::1''), (''labels'', JArr [JStr ''note''])]), sample_tagged)"
proof -
  have "map_of sample_tagged ''label_assignment::1'' = None"
    by (simp add: sample_tagged_def)
  moreover have "map_of sample_tagged ''file::1'' =
      Some (JObj [(''_id'', JStr ''file::1''), (''type'', JStr ''file''), (''name'', JStr ''a.txt''),
         (''source'', JObj [(''node_id'', JStr ''n''), (''export_path'', JStr ''/d/a.txt'')])])"
    by (simp add: sample_tagged_def)
  ultimately show ?thesis
    by (simp add: effective_labels_def file_uuid_of_def fetch_def assignment_id_def range_docs_def doc_labels_def
        rule_applies_to_def rule_applies_def jget_str_def sorted_labels_def map_filter_simps)
qed

theorem effective_labels_exact_witness:
  "\<exists>ls. effective_labels id store_couch (Some ''1'') sample_tagged =
      (Reply 200 (JObj [(''file_id'', JStr ''file::1''), (''labels'', JArr (map JStr ls))]), sample_tagged) \<and>
    sorted_wrt (<) ls"
  using effective_labels_exact [of store_couch map_of sample_tagged "''1''" _ id, OF store_couch_reads]
  by (auto simp: sample_tagged_def file_uuid_of_def)

text \<open>
  The server's label cache applies a rule without looking at its name pattern: it says that
  a.txt has the label of a rule for *.pdf, which the effective labels of the file rightly lack.
\<close>

theorem cache_ignores_glob:
  "\<exists>c. build_labels store_couch sample_tagged = (Inr c, sample_tagged) \<and> cache_has_label c ''1'' ''paper'' \<and>
    effective_labels id store_couch (Some ''1'') sample_tagged =
      (Reply 200 (JObj [(''file_id'', JStr ''file::1''), (''labels'', JArr [JStr ''note''])]), sample_tagged)"
proof -
  have "starts_with x []" for x by (simp add: starts_with_def)
  then have "\<exists>c. build_labels store_couch sample_tagged = (Inr c, sample_tagged) \<and> cache_has_label c ''1'' ''paper''"
    by (simp add: build_labels_def cache_has_label_def enabled_rules_def rule_enabled_def apply_rules_def Let_def
        apply_rule_def rule_matches_file_def source_field_def jget_str_def add_labels_def map_filter_simps
        cached_labels_def file_uuid_of_def)
  with sample_effective show ?thesis by blast
qed

theorem assignment_takes_effect_witness:
  "\<exists>s1 ls. upsert_assignment \<lparr>ae_now = ''t'', ae_uuid = ''u'', ae_draws = []\<rparr> store_couch ''1'' [''todo''] sample_tagged =
      (Reply 200 (strip_internals (assignment_doc \<lparr>ae_now = ''t'', ae_uuid = ''u'', ae_draws = []\<rparr> ''1'' [''todo''] None)), s1) \<and>
    effective_labels id store_couch (Some ''1'') s1 =
      (Reply 200 (JObj [(''file_id'', JStr ''file::1''), (''labels'', JArr (map JStr ls))]), s1) \<and>
    ''todo'' \<in> set ls"
proof -
  let ?env = "\<lparr>ae_now = ''t'', ae_uuid = ''u'', ae_draws = []\<rparr>"
  let ?file = "JObj [(''_id'', JStr ''file::1''), (''type'', JStr ''file''), (''name'', JStr ''a.txt''),
         (''source'', JObj [(''node_id'', JStr ''n''), (''export_path'', JStr ''/d/a.txt'')])]"
  let ?s1 = "AList.update (assignment_id ''1'') (assignment_doc ?env ''1'' [''todo''] None) sample_tagged"
  have held: "map_of sample_tagged (''file::'' @ file_uuid_of ''1'') = Some ?file"
    by (simp add: sample_tagged_def file_uuid_of_def)
  have none: "map_of sample_tagged (assignment_id ''1'') = None"
    by (simp add: sample_tagged_def assignment_id_def file_uuid_of_def)
  have run: "upsert_assignment ?env store_couch ''1'' [''todo''] sample_tagged =
      (Reply 200 (strip_internals (assignment_doc ?env ''1'' [''todo''] None)), ?s1)"
    by (simp add: upsert_assignment_def none Let_def store_doc_def)
  have uuid: "uuid_of ''1'' ''1''" by (simp add: file_uuid_of_iff file_uuid_of_def)
  from assignment_takes_effect [of store_couch map_of "''1''" "''1''" sample_tagged ?file, OF store_couch_reads
      store_couch_writes uuid _ run, of id] held
  show ?thesis using run by (auto simp: file_uuid_of_def)
qed

end
