(* ===== verification/Open_File.thy ===== *)
theory Open_File
  imports Api Server_Caches "HOL-Library.Product_Lexorder"
begin

text \<open>
  \<open>ui/open.rs\<close>: where a file can be opened on this host. The file of another node is found
  through the network mount with the longest exported prefix, then the highest priority;
  the node's own file through the storage entry with the longest mount point. The
  canonicalisation of paths is a parameter.
\<close>

datatype open_error =
  FileNotFound string
| NoNodeId
| NodeNotRegistered
| NoHostMount string

record open_target =
  ot_node_id :: string
  ot_local_mount_path :: string
  ot_relative_path :: string

text \<open>\<open>max_by_key\<close>: the last of the elements with the greatest key.\<close>

fun max_by_key :: "('a \<Rightarrow> 'k::linorder) \<Rightarrow> 'a list \<Rightarrow> 'a option" where
  "max_by_key f [] = None"
| "max_by_key f (x # xs) =
     (case max_by_key f xs of
        None \<Rightarrow> Some x
      | Some y \<Rightarrow> if f y < f x then Some x else Some y)"

definition doc_array :: "string \<Rightarrow> json \<Rightarrow> json list" where
  "doc_array k doc = unwrap_or (Option.bind (jget k doc) as_array) []"

definition storage_match :: "string \<Rightarrow> json \<Rightarrow> (nat \<times> string) option" where
  "storage_match export_path e =
     (case jget_str ''mount_point'' e of
        Some m \<Rightarrow> if starts_with export_path m then Some (length m, m) else None
      | None \<Rightarrow> None)"

definition resolve_same_node :: "string \<Rightarrow> string \<Rightarrow> json \<Rightarrow> open_error + open_target" where
  "resolve_same_node source_node_id export_path node_doc =
     (case max_by_key fst (List.map_filter (storage_match export_path) (doc_array ''storage'' node_doc)) of
        None \<Rightarrow> Inl (NoHostMount source_node_id)
      | Some (_, mount_point) \<Rightarrow>
          Inr \<lparr>ot_node_id = source_node_id, ot_local_mount_path = mount_point,
               ot_relative_path =
                 trim_start (CHR ''/'') (unwrap_or (strip_prefix mount_point export_path) [])\<rparr>)"

record mount_match =
  mm_prefix_len :: nat
  mm_priority :: int
  mm_rel :: string
  mm_local_mount :: string

definition mount_candidate :: "string \<Rightarrow> json \<Rightarrow> mount_match option" where
  "mount_candidate export_path m =
     (case (jget_str ''remote_base_export_path'' m, jget_str ''local_mount_path'' m) of
        (Some base, Some local_mount) \<Rightarrow>
          map_option (\<lambda>rel. \<lparr>mm_prefix_len = length base,
              mm_priority = unwrap_or (Option.bind (jget ''priority'' m) as_i64) 0,
              mm_rel = rel, mm_local_mount = local_mount\<rparr>) (strip_prefix base export_path)
      | _ \<Rightarrow> None)"

definition mount_key :: "mount_match \<Rightarrow> nat \<times> int" where
  "mount_key c = (mm_prefix_len c, mm_priority c)"

definition mount_candidates :: "string \<Rightarrow> string \<Rightarrow> json \<Rightarrow> mount_match list" where
  "mount_candidates source_node_id export_path node_doc =
     List.map_filter (mount_candidate export_path)
       (filter (\<lambda>m. jget_str ''remote_node_id'' m = Some source_node_id) (doc_array ''network_mounts'' node_doc))"

definition resolve_cross_node :: "string \<Rightarrow> string \<Rightarrow> json \<Rightarrow> open_error + open_target" where
  "resolve_cross_node source_node_id export_path node_doc =
     (case max_by_key mount_key (mount_candidates source_node_id export_path node_doc) of
        None \<Rightarrow> Inl (NoHostMount source_node_id)
      | Some c \<Rightarrow>
          Inr \<lparr>ot_node_id = source_node_id, ot_local_mount_path = mm_local_mount c,
               ot_relative_path = trim_start (CHR ''/'') (mm_rel c)\<rparr>)"

definition read_node :: "'s couch \<Rightarrow> string \<Rightarrow> 's \<Rightarrow> (open_error + json) \<times> 's" where
  "read_node db n s = map_prod (\<lambda>r. case r of Inr d \<Rightarrow> Inr d | Inl _ \<Rightarrow> Inl NodeNotRegistered) id
     (db_get db (''node::'' @ n) s)"

definition open_file_by_id ::
  "'s couch \<Rightarrow> string option \<Rightarrow> string \<Rightarrow> 's \<Rightarrow> (open_error + open_target) \<times> 's" where
  "open_file_by_id db this_node_id file_id s =
     (case db_get db file_id s of
        (Inl _, s1) \<Rightarrow> (Inl (FileNotFound file_id), s1)
      | (Inr file_doc, s1) \<Rightarrow>
          (let source_node_id = source_field ''node_id'' file_doc;
               export_path = source_field ''export_path'' file_doc
           in if this_node_id = Some source_node_id then
                (let (r, s2) = read_node db source_node_id s1
                 in (and_then r (resolve_same_node source_node_id export_path), s2))
              else
                (case this_node_id of
                   None \<Rightarrow> (Inl NoNodeId, s1)
                 | Some this \<Rightarrow>
                     (let (r, s2) = read_node db this s1
                      in (and_then r (resolve_cross_node source_node_id export_path), s2)))))"

fun collapse_slashes :: "bool \<Rightarrow> string \<Rightarrow> string" where
  "collapse_slashes prev_slash [] = []"
| "collapse_slashes prev_slash (ch # cs) =
     (if ch = CHR ''/'' then
        (if prev_slash then collapse_slashes True cs else ch # collapse_slashes True cs)
      else ch # collapse_slashes False cs)"

definition normalize_mount_path :: "(string \<Rightarrow> string option) \<Rightarrow> string \<Rightarrow> string" where
  "normalize_mount_path canonicalize input =
     (if input = [] then []
      else
        (let collapsed = collapse_slashes False input;
             normalized = (if 1 < length collapsed then trim_end (CHR ''/'') collapsed else collapsed)
         in unwrap_or (canonicalize normalized) normalized))"

section \<open>The best match\<close>

lemma max_by_key_None [simp]: "max_by_key f xs = None \<longleftrightarrow> xs = []"
  by (cases xs) (auto split: option.split)

lemma max_by_key_Some:
  "max_by_key f xs = Some y \<Longrightarrow> y \<in> set xs \<and> (\<forall>x \<in> set xs. f x \<le> f y)"
proof (induction xs arbitrary: y)
  case Nil
  then show ?case by simp
next
  case (Cons x xs)
  show ?case
  proof (cases "max_by_key f xs")
    case None
    with Cons.prems show ?thesis by simp
  next
    case (Some z)
    from Cons.IH [OF this] Cons.prems Some show ?thesis by (auto split: if_splits)
  qed
qed

lemma map_filter_Nil: "List.map_filter f xs = [] \<longleftrightarrow> (\<forall>x \<in> set xs. f x = None)"
  by (induction xs) (auto simp: map_filter_simps split: option.splits)

lemma trim_start_parts: "\<exists>n. s = replicate n c @ trim_start c s"
proof (induction s)
  case Nil
  then show ?case by (simp add: trim_start_def)
next
  case (Cons x xs)
  show ?case
  proof (cases "x = c")
    case True
    from Cons.IH obtain n where n: "xs = replicate n c @ trim_start c xs" ..
    from True have "trim_start c (x # xs) = trim_start c xs" by (simp add: trim_start_def)
    with True n have "x # xs = replicate (Suc n) c @ trim_start c (x # xs)" by simp
    then show ?thesis ..
  next
    case False
    then have "x # xs = replicate 0 c @ trim_start c (x # xs)" by (simp add: trim_start_def)
    then show ?thesis ..
  qed
qed

lemma trim_start_hd: "trim_start c s = x # xs \<Longrightarrow> x \<noteq> c"
  unfolding trim_start_def by (blast dest: dropWhile_eq_Cons_conv [THEN iffD1, THEN conjunct2])

text \<open>The mounts of a node document that export a path, as triples.\<close>

definition exports ::
  "json \<Rightarrow> string \<Rightarrow> string \<Rightarrow> string \<Rightarrow> string \<Rightarrow> int \<Rightarrow> string \<Rightarrow> bool" where
  "exports node_doc owner path base rel prio local_mount \<longleftrightarrow>
     path = base @ rel \<and>
     (\<exists>m \<in> set (doc_array ''network_mounts'' node_doc). jget_str ''remote_node_id'' m = Some owner \<and>
        jget_str ''remote_base_export_path'' m = Some base \<and> jget_str ''local_mount_path'' m = Some local_mount \<and>
        unwrap_or (Option.bind (jget ''priority'' m) as_i64) 0 = prio)"

lemma mount_candidates_set:
  "c \<in> set (mount_candidates owner path doc) \<longleftrightarrow>
     (\<exists>base. exports doc owner path base (mm_rel c) (mm_priority c) (mm_local_mount c) \<and>
        mm_prefix_len c = length base)"
proof -
  have key: "mount_candidate path m = Some c \<longleftrightarrow>
    (\<exists>base. jget_str ''remote_base_export_path'' m = Some base \<and> jget_str ''local_mount_path'' m = Some (mm_local_mount c) \<and>
       unwrap_or (Option.bind (jget ''priority'' m) as_i64) 0 = mm_priority c \<and> path = base @ mm_rel c \<and>
       mm_prefix_len c = length base)" for m
    by (cases c) (auto simp: mount_candidate_def strip_prefix_Some split: option.split)
  then show ?thesis
    unfolding mount_candidates_def map_filter_set exports_def set_filter mem_Collect_eq Bex_def key by blast
qed

section \<open>Opening\<close>

text \<open>
  C19: a file of another node is opened below the mount that exports the longest prefix of its
  path, among those with the highest priority; the relative path is the rest of the path
  without leading slashes, and it fails exactly when no mount exports the file.
\<close>

theorem resolve_cross_node_best:
  "case resolve_cross_node owner path doc of
     Inl e \<Rightarrow> e = NoHostMount owner \<and> (\<nexists>base rel prio local_mount. exports doc owner path base rel prio local_mount)
   | Inr t \<Rightarrow> ot_node_id t = owner \<and> hd (ot_relative_path t @ ''.'') \<noteq> CHR ''/'' \<and>
       (\<exists>base n prio. exports doc owner path base (replicate n (CHR ''/'') @ ot_relative_path t) prio
            (ot_local_mount_path t) \<and>
          (\<nexists>base' rel prio' local_mount. exports doc owner path base' rel prio' local_mount \<and>
             (length base < length base' \<or> (length base = length base' \<and> prio < prio'))))"
proof (cases "max_by_key mount_key (mount_candidates owner path doc)")
  case None
  have "\<not> exports doc owner path base rel prio local_mount" for base rel prio local_mount
    using mount_candidates_set [of "\<lparr>mm_prefix_len = length base, mm_priority = prio, mm_rel = rel,
      mm_local_mount = local_mount\<rparr>" owner path doc] None by auto
  with None show ?thesis by (simp add: resolve_cross_node_def)
next
  case (Some c)
  let ?t = "\<lparr>ot_node_id = owner, ot_local_mount_path = mm_local_mount c,
    ot_relative_path = trim_start (CHR ''/'') (mm_rel c)\<rparr>"
  from max_by_key_Some [OF Some] have c: "c \<in> set (mount_candidates owner path doc)"
    and best: "\<And>x. x \<in> set (mount_candidates owner path doc) \<Longrightarrow> mount_key x \<le> mount_key c" by auto
  from c obtain base where base: "exports doc owner path base (mm_rel c) (mm_priority c) (mm_local_mount c)"
    "mm_prefix_len c = length base"
    unfolding mount_candidates_set by blast
  obtain n where n: "mm_rel c = replicate n (CHR ''/'') @ trim_start (CHR ''/'') (mm_rel c)"
    using trim_start_parts by blast
  have upper: "\<not> (length base < length base' \<or> (length base = length base' \<and> mm_priority c < prio'))"
    if "exports doc owner path base' rel prio' local_mount" for base' rel prio' local_mount
  proof -
    let ?x = "\<lparr>mm_prefix_len = length base', mm_priority = prio', mm_rel = rel, mm_local_mount = local_mount\<rparr>"
    have "?x \<in> set (mount_candidates owner path doc)" using that by (auto simp: mount_candidates_set)
    from best [OF this] base(2) show ?thesis by (auto simp: mount_key_def less_eq_prod_def)
  qed
  have "hd (trim_start (CHR ''/'') (mm_rel c) @ ''.'') \<noteq> CHR ''/''"
    by (cases "trim_start (CHR ''/'') (mm_rel c)") (auto dest: trim_start_hd)
  moreover have "\<exists>base n prio. exports doc owner path base (replicate n (CHR ''/'') @ ot_relative_path ?t) prio
      (ot_local_mount_path ?t) \<and>
    (\<nexists>base' rel prio' local_mount. exports doc owner path base' rel prio' local_mount \<and>
       (length base < length base' \<or> (length base = length base' \<and> prio < prio')))"
    using base(1) n upper by (intro exI [of _ base] exI [of _ n] exI [of _ "mm_priority c"]) (simp, metis)
  ultimately show ?thesis by (simp add: resolve_cross_node_def Some)
qed


text \<open>
  A file of this node is opened below the longest of its mount points that begins the path,
  and it fails exactly when there is none.
\<close>

theorem resolve_same_node_best:
  "case resolve_same_node owner path doc of
     Inl e \<Rightarrow> e = NoHostMount owner \<and>
       (\<nexists>s m rel. s \<in> set (doc_array ''storage'' doc) \<and> jget_str ''mount_point'' s = Some m \<and> path = m @ rel)
   | Inr t \<Rightarrow> ot_node_id t = owner \<and> hd (ot_relative_path t @ ''.'') \<noteq> CHR ''/'' \<and>
       (\<exists>n. path = ot_local_mount_path t @ replicate n (CHR ''/'') @ ot_relative_path t) \<and>
       (\<exists>s \<in> set (doc_array ''storage'' doc). jget_str ''mount_point'' s = Some (ot_local_mount_path t)) \<and>
       (\<forall>s m rel. s \<in> set (doc_array ''storage'' doc) \<and> jget_str ''mount_point'' s = Some m \<and> path = m @ rel \<longrightarrow>
          length m \<le> length (ot_local_mount_path t))"
proof -
  let ?ms = "List.map_filter (storage_match path) (doc_array ''storage'' doc)"
  have ms: "(k, m) \<in> set ?ms \<longleftrightarrow> k = length m \<and>
      (\<exists>s \<in> set (doc_array ''storage'' doc). jget_str ''mount_point'' s = Some m \<and> (\<exists>rel. path = m @ rel))" for k m
    unfolding map_filter_set by (fastforce simp: storage_match_def starts_with_iff split: option.splits if_splits)
  show ?thesis
  proof (cases "max_by_key fst ?ms")
    case None
    then have "?ms = []" by simp
    then have "(k, m) \<notin> set ?ms" for k m by simp
    with None show ?thesis unfolding ms by (simp add: resolve_same_node_def) blast
  next
    case (Some km)
    obtain k m where km: "km = (k, m)" by (cases km)
    from max_by_key_Some [OF Some] have m: "(k, m) \<in> set ?ms" and best: "\<And>j x. (j, x) \<in> set ?ms \<Longrightarrow> j \<le> k"
      by (force simp: km)+
    from m obtain s rel where s: "k = length m" "s \<in> set (doc_array ''storage'' doc)"
      "jget_str ''mount_point'' s = Some m" "path = m @ rel" unfolding ms by blast
    obtain n where n: "rel = replicate n (CHR ''/'') @ trim_start (CHR ''/'') rel" using trim_start_parts by blast
    have "hd (trim_start (CHR ''/'') rel @ ''.'') \<noteq> CHR ''/''"
      by (cases "trim_start (CHR ''/'') rel") (auto dest: trim_start_hd)
    moreover have "length x \<le> length m"
      if "y \<in> set (doc_array ''storage'' doc)" "jget_str ''mount_point'' y = Some x" "path = x @ r" for x y r
      using best [of "length x" x] that s(1) unfolding ms by blast
    moreover have run: "resolve_same_node owner path doc = Inr \<lparr>ot_node_id = owner, ot_local_mount_path = m,
        ot_relative_path = trim_start (CHR ''/'') rel\<rparr>"
      unfolding resolve_same_node_def Some km by (simp add: s(4))
    ultimately show ?thesis
      unfolding run sum.case open_target.simps using s n by (intro conjI; blast?)
  qed
qed

text \<open>
  The mount point is compared without a path boundary: a file of /database is opened below
  the mount point /data, at a path that is not its own.
\<close>

theorem open_ignores_boundary:
  "resolve_same_node ''n'' ''/database/x'' (JObj [(''storage'', JArr [JObj [(''mount_point'', JStr ''/data'')]])]) =
     Inr \<lparr>ot_node_id = ''n'', ot_local_mount_path = ''/data'', ot_relative_path = ''base/x''\<rparr>"
  by (simp add: resolve_same_node_def doc_array_def storage_match_def jget_str_def map_filter_simps
      starts_with_def trim_start_def)

section \<open>Normalised mount paths\<close>

fun no_double_slash :: "string \<Rightarrow> bool" where
  "no_double_slash (x # y # zs) \<longleftrightarrow> \<not> (x = CHR ''/'' \<and> y = CHR ''/'') \<and> no_double_slash (y # zs)"
| "no_double_slash _ \<longleftrightarrow> True"

lemma collapse_starts:
  "\<exists>r. collapse_slashes p (c # cs) = c # r" if "\<not> (p \<and> c = CHR ''/'')"
  using that by auto

lemma no_double_Cons: "no_double_slash (x # xs) \<longleftrightarrow>
    \<not> (x = CHR ''/'' \<and> xs \<noteq> [] \<and> hd xs = CHR ''/'') \<and> no_double_slash xs"
  by (cases xs) auto

lemma collapse_hd: "collapse_slashes True cs \<noteq> [] \<Longrightarrow> hd (collapse_slashes True cs) \<noteq> CHR ''/''"
  by (induction cs) auto

lemma collapse_no_double: "no_double_slash (collapse_slashes p cs)"
  by (induction p cs rule: collapse_slashes.induct) (auto simp: no_double_Cons collapse_hd)

lemma no_double_append: "no_double_slash (xs @ ys) \<Longrightarrow> no_double_slash xs"
  by (induction xs rule: no_double_slash.induct) auto

lemma trim_end_parts: "\<exists>n. s = trim_end c s @ replicate n c"
proof -
  obtain n where "rev s = replicate n c @ trim_start c (rev s)" using trim_start_parts by blast
  then have "s = rev (trim_start c (rev s)) @ replicate n c"
    by (metis rev_append rev_replicate rev_rev_ident)
  then show ?thesis by (auto simp: trim_end_def trim_start_def)
qed

lemma trim_end_last: "trim_end c s \<noteq> [] \<Longrightarrow> last (trim_end c s) \<noteq> c"
  using hd_dropWhile [of "\<lambda>x. x = c" "rev s"] by (auto simp: trim_end_def last_rev)

lemma trim_end_id: "s \<noteq> [] \<Longrightarrow> last s \<noteq> c \<Longrightarrow> trim_end c s = s"
  unfolding trim_end_def by (cases s rule: rev_cases) auto

lemma collapse_id:
  "no_double_slash s \<Longrightarrow> (prev \<and> s \<noteq> [] \<longrightarrow> hd s \<noteq> CHR ''/'') \<Longrightarrow> collapse_slashes prev s = s"
  by (induction prev s rule: collapse_slashes.induct) (auto simp: no_double_Cons)

definition normal_path :: "string \<Rightarrow> bool" where
  "normal_path s \<longleftrightarrow> no_double_slash s \<and> (s = ''/'' \<or> s = [] \<or> last s \<noteq> CHR ''/'')"

lemma normalize_normal: "normal_path s \<Longrightarrow> normalize_mount_path (\<lambda>_. None) s = s"
  by (auto simp: normal_path_def normalize_mount_path_def collapse_id trim_end_id)

lemma normal_normalized: "normal_path (normalize_mount_path (\<lambda>_. None) s)"
proof -
  let ?q = "collapse_slashes False s"
  have "no_double_slash ?q" by (rule collapse_no_double)
  moreover obtain n where "?q = trim_end (CHR ''/'') ?q @ replicate n (CHR ''/'')" using trim_end_parts by blast
  ultimately have "no_double_slash (trim_end (CHR ''/'') ?q)" using no_double_append by metis
  moreover have "normal_path ?q" if "length ?q \<le> 1"
    using that collapse_no_double [of False s] by (cases ?q) (auto simp: normal_path_def)
  ultimately show ?thesis
    using trim_end_last [of "CHR ''/''" ?q]
    by (auto simp: normalize_mount_path_def normal_path_def Let_def)
qed

text \<open>
  Where the path does not exist on the host, the normalised path has no double slash, no
  slash at the end unless it is the root, and normalising it again changes nothing.
\<close>

theorem normalize_mount_path_normal:
  fixes path
  defines "norm \<equiv> normalize_mount_path (\<lambda>_. None)"
  shows "no_double_slash (norm path) \<and> (norm path = ''/'' \<or> norm path = [] \<or> last (norm path) \<noteq> CHR ''/'') \<and>
    norm (norm path) = norm path"
  using normal_normalized [of path] normalize_normal unfolding norm_def normal_path_def by simp

end
