(* ===== verification/Nodes.thy ===== *)
theory Nodes
  imports Open_File Notifications
begin

text \<open>
  \<open>handlers/nodes.rs\<close>: the nodes as the API lists, registers, patches and disables them, and
  the network mounts kept in a node document.
\<close>

section \<open>Nodes\<close>

definition node_key :: "string \<Rightarrow> string" where
  "node_key node_id = ''node::'' @ node_id"

definition node_item :: "string option \<Rightarrow> json \<Rightarrow> json option" where
  "node_item status doc =
     (if jget_str ''type'' doc \<noteq> Some ''node'' then None
      else if (case status of Some f \<Rightarrow> jget_str ''status'' doc \<noteq> Some f | None \<Rightarrow> False) then None
      else Some (strip_internals doc))"

definition list_nodes ::
  "'s couch \<Rightarrow> string option \<Rightarrow> u64 option \<Rightarrow> u64 option \<Rightarrow> 's \<Rightarrow> reply \<times> 's" where
  "list_nodes db status offset limit s =
     on_ok (fetch_all db ''node::'' s) (\<lambda>docs s1.
       (Reply 200 (page offset limit (List.map_filter (node_item status) docs)), s1))"

definition get_node :: "'s couch \<Rightarrow> string \<Rightarrow> 's \<Rightarrow> reply \<times> 's" where
  "get_node db node_id s = get_stripped db (node_key node_id) ''Node not found'' s"

definition new_node_id :: "api_env \<Rightarrow> string" where
  "new_node_id env = ''node-'' @ take 8 (ae_uuid env)"

definition new_node_doc :: "api_env \<Rightarrow> string option \<Rightarrow> string option \<Rightarrow> json" where
  "new_node_doc env friendly_name platform =
     JObj [(''_id'', JStr (node_key (new_node_id env))), (''type'', JStr ''node''),
       (''friendly_name'', JStr (unwrap_or friendly_name (new_node_id env))),
       (''platform'', JStr (unwrap_or platform ''unknown'')), (''status'', JStr ''online''),
       (''last_heartbeat'', JStr (ae_now env)), (''vfs_capable'', JBool False), (''capabilities'', JArr [])]"

text \<open>The notification is emitted by a task of its own; here it runs as soon as the node is stored.\<close>

definition register_node ::
  "api_env \<Rightarrow> 's couch \<Rightarrow> string option \<Rightarrow> string option \<Rightarrow> 's \<Rightarrow> reply \<times> 's" where
  "register_node env db friendly_name platform s =
     (let nid = new_node_id env in
      case db_put db (node_key nid) (new_node_doc env friendly_name platform) s of
        (Inl e, s1) \<Rightarrow> (internal e, s1)
      | (Inr _, s1) \<Rightarrow>
          (Reply 201 (JObj [(''node_id'', JStr nid)]),
           emit_control_plane_notification db ''nodes'' (''new_node_registered:'' @ nid) ''info''
             ''New node registered'' (''Node '' @ [CHR 0x27] @ nid @ [CHR 0x27] @ '' has been registered.'') (ae_now env) s1))"

definition patch_node :: "'s couch \<Rightarrow> string \<Rightarrow> json \<Rightarrow> 's \<Rightarrow> reply \<times> 's" where
  "patch_node db node_id body s =
     on_ok (fetch db (node_key node_id) ''Node not found'' s) (\<lambda>doc s1.
       or_panic (jset_all
           ((case jget_str ''friendly_name'' body of Some n \<Rightarrow> [(''friendly_name'', JStr n)] | None \<Rightarrow> []) @
            given [''watch_paths''] body) doc)
         (\<lambda>d s2. store_doc db (node_key node_id) d ok_reply s2) s1)"

definition delete_node :: "'s couch \<Rightarrow> string \<Rightarrow> 's \<Rightarrow> reply \<times> 's" where
  "delete_node db node_id s =
     on_ok (fetch db (node_key node_id) ''Node not found'' s) (\<lambda>doc s1.
       or_panic (jset ''status'' (JStr ''disabled'') doc)
         (\<lambda>d s2. store_doc db (node_key node_id) d ok_reply s2) s1)"

definition get_node_status :: "'s couch \<Rightarrow> string \<Rightarrow> 's \<Rightarrow> reply \<times> 's" where
  "get_node_status db node_id s = get_stripped db (''status::'' @ node_id) ''Agent status not found'' s"

section \<open>Network mounts\<close>

definition list_mounts :: "'s couch \<Rightarrow> string \<Rightarrow> 's \<Rightarrow> reply \<times> 's" where
  "list_mounts db node_id s =
     on_ok (fetch db (node_key node_id) ''Node not found'' s) (\<lambda>doc s1.
       (Reply 200 (JObj [(''items'', unwrap_or (jget ''network_mounts'' doc) (JArr []))]), s1))"

record mount_request =
  mq_remote_node_id :: string
  mq_remote_base_export_path :: string
  mq_local_mount_path :: string
  mq_mount_type :: string
  mq_priority :: int

definition mount_json :: "(string \<Rightarrow> string option) \<Rightarrow> string \<Rightarrow> mount_request \<Rightarrow> json" where
  "mount_json canonicalize mount_id rq =
     JObj [(''mount_id'', JStr mount_id), (''remote_node_id'', JStr (mq_remote_node_id rq)),
       (''remote_base_export_path'', JStr (mq_remote_base_export_path rq)),
       (''local_mount_path'', JStr (normalize_mount_path canonicalize (mq_local_mount_path rq))),
       (''mount_type'', JStr (mq_mount_type rq)), (''priority'', num_of_int (mq_priority rq))]"

text \<open>The push into the array of the document; a missing array is created first.\<close>

definition push_mount :: "json \<Rightarrow> json \<Rightarrow> json option" where
  "push_mount mount doc =
     (if \<not> is_object doc then None
      else (case jget ''network_mounts'' doc of
              None \<Rightarrow> jset ''network_mounts'' (JArr [mount]) doc
            | Some v \<Rightarrow>
                (case as_array v of
                   None \<Rightarrow> None
                 | Some ms \<Rightarrow> jset ''network_mounts'' (JArr (ms @ [mount])) doc)))"

definition add_mount ::
  "(string \<Rightarrow> string option) \<Rightarrow> api_env \<Rightarrow> 's couch \<Rightarrow> string \<Rightarrow> mount_request \<Rightarrow> 's \<Rightarrow> reply \<times> 's" where
  "add_mount canonicalize env db node_id rq s =
     on_ok (fetch db (node_key node_id) ''Node not found'' s) (\<lambda>doc s1.
       let mount_id = take 8 (ae_uuid env) in
       or_panic (push_mount (mount_json canonicalize mount_id rq) doc)
         (\<lambda>d s2. store_doc db (node_key node_id) d
            (Reply 201 (JObj [(''mount_id'', JStr mount_id)])) s2) s1)"

definition has_mount_id :: "string \<Rightarrow> json \<Rightarrow> bool" where
  "has_mount_id mount_id m \<longleftrightarrow> jget_str ''mount_id'' m = Some mount_id"

definition patch_field :: "(string \<Rightarrow> string option) \<Rightarrow> string \<times> json \<Rightarrow> json \<Rightarrow> json option" where
  "patch_field canonicalize kv mount =
     (let (k, v) = kv in
      if k = ''mount_id'' then Some mount
      else if k = ''local_mount_path'' then
        (case as_str v of
           Some p \<Rightarrow> jset k (JStr (normalize_mount_path canonicalize p)) mount
         | None \<Rightarrow> Some mount)
      else jset k v mount)"

fun patch_fields :: "(string \<Rightarrow> string option) \<Rightarrow> (string \<times> json) list \<Rightarrow> json \<Rightarrow> json option" where
  "patch_fields canonicalize [] mount = Some mount"
| "patch_fields canonicalize (kv # kvs) mount =
     Option.bind (patch_field canonicalize kv mount) (patch_fields canonicalize kvs)"

fun object_entries :: "json \<Rightarrow> (string \<times> json) list" where
  "object_entries (JObj kvs) = kvs"
| "object_entries _ = []"

text \<open>The first element that satisfies the test is replaced; the outer \<open>None\<close> is that there is none.\<close>

fun patch_first :: "(json \<Rightarrow> bool) \<Rightarrow> (json \<Rightarrow> json option) \<Rightarrow> json list \<Rightarrow> json list option option" where
  "patch_first P f [] = None"
| "patch_first P f (m # ms) =
     (if P m then Some (map_option (\<lambda>m'. m' # ms) (f m))
      else map_option (map_option (Cons m)) (patch_first P f ms))"

definition patch_mount ::
  "(string \<Rightarrow> string option) \<Rightarrow> 's couch \<Rightarrow> string \<Rightarrow> string \<Rightarrow> json \<Rightarrow> 's \<Rightarrow> reply \<times> 's" where
  "patch_mount canonicalize db node_id mount_id body s =
     on_ok (fetch db (node_key node_id) ''Node not found'' s) (\<lambda>doc s1.
       case Option.bind (jget ''network_mounts'' doc) as_array of
         None \<Rightarrow> (not_found ''Mount not found'', s1)
       | Some ms \<Rightarrow>
           (case patch_first (has_mount_id mount_id) (patch_fields canonicalize (object_entries body)) ms of
              None \<Rightarrow> (not_found ''Mount not found'', s1)
            | Some ms' \<Rightarrow>
                or_panic (Option.bind ms' (\<lambda>l. jset ''network_mounts'' (JArr l) doc))
                  (\<lambda>d s2. store_doc db (node_key node_id) d ok_reply s2) s1))"

definition delete_mount :: "'s couch \<Rightarrow> string \<Rightarrow> string \<Rightarrow> 's \<Rightarrow> reply \<times> 's" where
  "delete_mount db node_id mount_id s =
     on_ok (fetch db (node_key node_id) ''Node not found'' s) (\<lambda>doc s1.
       or_panic (case Option.bind (jget ''network_mounts'' doc) as_array of
           Some ms \<Rightarrow> jset ''network_mounts'' (JArr (filter (\<lambda>m. \<not> has_mount_id mount_id m) ms)) doc
         | None \<Rightarrow> Some doc)
         (\<lambda>d s2. store_doc db (node_key node_id) d ok_reply s2) s1)"


section \<open>The mounts of a node as a list\<close>

lemma doc_array_jset: "jset k (JArr xs) doc = Some d \<Longrightarrow> doc_array k d = xs"
  by (simp add: doc_array_def jget_jset)

lemma doc_array_same: "same_fields d' d \<Longrightarrow> k \<noteq> ''_id'' \<Longrightarrow> k \<noteq> ''_rev'' \<Longrightarrow> doc_array k d' = doc_array k d"
  by (simp add: doc_array_def same_fields_def)

lemma push_mount_appends:
  assumes "push_mount m doc = Some d"
  shows "jget ''network_mounts'' d = Some (JArr (doc_array ''network_mounts'' doc @ [m])) \<and>
    (\<forall>k. k \<noteq> ''network_mounts'' \<longrightarrow> jget k d = jget k doc)"
  using assms by (auto simp: push_mount_def doc_array_def jget_jset split: if_splits option.splits)

lemma patch_field_keeps_id:
  "patch_field canon kv m = Some m' \<Longrightarrow> jget_str ''mount_id'' m' = jget_str ''mount_id'' m"
  by (auto simp: patch_field_def jget_str_jset Let_def split: prod.splits if_splits option.splits)

lemma patch_fields_keep_id:
  "patch_fields canon kvs m = Some m' \<Longrightarrow> jget_str ''mount_id'' m' = jget_str ''mount_id'' m"
  by (induction canon kvs m rule: patch_fields.induct) (auto simp: bind_eq_Some_conv dest: patch_field_keeps_id)

lemma patch_first_Some:
  "patch_first P f ms = Some (Some ms') \<Longrightarrow>
     \<exists>pre m m' post. ms = pre @ m # post \<and> ms' = pre @ m' # post \<and> (\<forall>x \<in> set pre. \<not> P x) \<and> P m \<and> f m = Some m'"
proof (induction ms arbitrary: ms')
  case Nil
  then show ?case by simp
next
  case (Cons m ms)
  show ?case
  proof (cases "P m")
    case True
    with Cons.prems show ?thesis by (intro exI [of _ "[]"]) auto
  next
    case False
    with Cons.prems obtain l where l: "patch_first P f ms = Some (Some l)" "ms' = m # l" by auto
    from Cons.IH [OF l(1)] obtain pre x x' post where
      "ms = pre @ x # post" "l = pre @ x' # post" "\<forall>y \<in> set pre. \<not> P y" "P x" "f x = Some x'" by blast
    with False l(2) show ?thesis by (intro exI [of _ "m # pre"]) auto
  qed
qed

text \<open>What a handler that stores a changed document has done when it replies with success.\<close>

lemma or_panic_store:
  assumes "writes_law db docs" "or_panic x (\<lambda>d s2. store_doc db i d (Reply n b) s2) s = (Reply m body, s')"
    and "m \<noteq> 500" "n \<noteq> 500"
  shows "\<exists>d d'. x = Some d \<and> same_fields d' d \<and> docs s' = (docs s)(i \<mapsto> d')"
  using assms(2) store_doc_cases [OF assms(1), of i _ "Reply n b" s "Reply m body" s'] assms(3,4)
  by (cases x) auto

lemma list_mounts_law:
  assumes "reads_law db docs" "docs s (node_key n) = Some doc"
  shows "list_mounts db n s =
    (Reply 200 (JObj [(''items'', unwrap_or (jget ''network_mounts'' doc) (JArr []))]), s)"
  by (simp add: list_mounts_def fetch_law [OF assms(1)] assms(2))

lemma add_mount_stored:
  assumes "reads_law db docs" "writes_law db docs" "docs s (node_key n) = Some doc"
    and "add_mount canon env db n rq s = (Reply 201 body, s1)"
  shows "\<exists>d. docs s1 = (docs s)(node_key n \<mapsto> d) \<and>
    jget ''network_mounts'' d =
      Some (JArr (doc_array ''network_mounts'' doc @ [mount_json canon (take 8 (ae_uuid env)) rq])) \<and>
    (\<forall>k. k \<notin> {''network_mounts'', ''_id'', ''_rev''} \<longrightarrow> jget k d = jget k doc)"
proof -
  have "or_panic (push_mount (mount_json canon (take 8 (ae_uuid env)) rq) doc)
      (\<lambda>d s2. store_doc db (node_key n) d
        (Reply 201 (JObj [(''mount_id'', JStr (take 8 (ae_uuid env)))])) s2) s = (Reply 201 body, s1)"
    using assms(4) by (simp add: add_mount_def fetch_law [OF assms(1)] assms(3) Let_def)
  from or_panic_store [OF assms(2) this] obtain d d' where
    d: "push_mount (mount_json canon (take 8 (ae_uuid env)) rq) doc = Some d" "same_fields d' d"
      "docs s1 = (docs s)(node_key n \<mapsto> d')" by auto
  from push_mount_appends [OF d(1)] d(2,3) show ?thesis
    by (intro exI [of _ d']) (simp add: same_fields_def)
qed

lemma delete_mount_stored:
  assumes "reads_law db docs" "writes_law db docs" "docs s (node_key n) = Some doc"
    and "jget ''network_mounts'' doc = Some (JArr ms)"
    and "delete_mount db n mount_id s = (Reply 200 body, s1)"
  shows "\<exists>d. docs s1 = (docs s)(node_key n \<mapsto> d) \<and>
    jget ''network_mounts'' d = Some (JArr (filter (\<lambda>m. \<not> has_mount_id mount_id m) ms)) \<and>
    (\<forall>k. k \<notin> {''network_mounts'', ''_id'', ''_rev''} \<longrightarrow> jget k d = jget k doc)"
proof -
  have "or_panic (jset ''network_mounts'' (JArr (filter (\<lambda>m. \<not> has_mount_id mount_id m) ms)) doc)
      (\<lambda>d s2. store_doc db (node_key n) d ok_reply s2) s = (Reply 200 body, s1)"
    using assms(5) by (simp add: delete_mount_def fetch_law [OF assms(1)] assms(3,4))
  from or_panic_store [OF assms(2) this [unfolded ok_reply_def]] obtain d d' where
    "jset ''network_mounts'' (JArr (filter (\<lambda>m. \<not> has_mount_id mount_id m) ms)) doc = Some d"
    "same_fields d' d" "docs s1 = (docs s)(node_key n \<mapsto> d')" by auto
  then show ?thesis
    by (intro exI [of _ d']) (simp add: same_fields_def jget_jset)
qed

text \<open>A mount that was added is listed after the mounts the node had; deleting it by the
  identifier of the reply gives the old list back, when no other mount has that identifier,
  and neither step touches another field of the node or another document.
\<close>

lemma mount_lifecycle:
  assumes "reads_law db docs" "writes_law db docs" "docs s (node_key n) = Some doc"
    and "\<forall>m \<in> set (doc_array ''network_mounts'' doc). \<not> has_mount_id (take 8 (ae_uuid env)) m"
    and "add_mount canon env db n rq s = (Reply 201 body, s1)"
    and "delete_mount db n (take 8 (ae_uuid env)) s1 = (Reply 200 body', s2)"
  shows "list_mounts db n s1 = (Reply 200 (JObj [(''items'',
      JArr (doc_array ''network_mounts'' doc @ [mount_json canon (take 8 (ae_uuid env)) rq]))]), s1) \<and>
    list_mounts db n s2 = (Reply 200 (JObj [(''items'', JArr (doc_array ''network_mounts'' doc))]), s2) \<and>
    (\<exists>d. docs s2 = (docs s)(node_key n \<mapsto> d) \<and>
      (\<forall>k. k \<notin> {''network_mounts'', ''_id'', ''_rev''} \<longrightarrow> jget k d = jget k doc))"
proof -
  let ?id = "take 8 (ae_uuid env)"
  let ?ms = "doc_array ''network_mounts'' doc"
  let ?m = "mount_json canon ?id rq"
  obtain d1 where d1: "docs s1 = (docs s)(node_key n \<mapsto> d1)" "jget ''network_mounts'' d1 = Some (JArr (?ms @ [?m]))"
    "\<forall>k. k \<notin> {''network_mounts'', ''_id'', ''_rev''} \<longrightarrow> jget k d1 = jget k doc"
    using add_mount_stored [OF assms(1-3,5)] by blast
  from d1(1) have at1: "docs s1 (node_key n) = Some d1" by simp
  obtain d2 where d2: "docs s2 = (docs s1)(node_key n \<mapsto> d2)"
    "jget ''network_mounts'' d2 = Some (JArr (filter (\<lambda>m. \<not> has_mount_id ?id m) (?ms @ [?m])))"
    "\<forall>k. k \<notin> {''network_mounts'', ''_id'', ''_rev''} \<longrightarrow> jget k d2 = jget k d1"
    using delete_mount_stored [OF assms(1,2) at1 d1(2) assms(6)] by blast
  have "filter (\<lambda>m. \<not> has_mount_id ?id m) (?ms @ [?m]) = ?ms"
    using assms(4) by (simp add: has_mount_id_def mount_json_def jget_str_def)
  with d2 have "jget ''network_mounts'' d2 = Some (JArr ?ms)" "docs s2 (node_key n) = Some d2" by simp_all
  then have "list_mounts db n s2 = (Reply 200 (JObj [(''items'', JArr ?ms)]), s2)"
    using list_mounts_law [OF assms(1), of s2 n d2] by simp
  moreover have "list_mounts db n s1 = (Reply 200 (JObj [(''items'', JArr (?ms @ [?m]))]), s1)"
    using list_mounts_law [OF assms(1) at1] d1(2) by simp
  moreover have "docs s2 = (docs s)(node_key n \<mapsto> d2)" using d1(1) d2(1) by simp
  moreover have "\<forall>k. k \<notin> {''network_mounts'', ''_id'', ''_rev''} \<longrightarrow> jget k d2 = jget k doc"
    using d1(3) d2(3) by simp
  ultimately show ?thesis by blast
qed

text \<open>
  A patched mount keeps its identifier and its place; the other mounts of the node, the
  other fields and the other documents stay as they are.
\<close>

theorem patch_mount_keeps_the_rest:
  assumes "reads_law db docs" "writes_law db docs" "docs s (node_key n) = Some doc"
    and "patch_mount canon db n mount_id body s = (Reply 200 b, s')"
  shows "\<exists>d pre m m' post. docs s' = (docs s)(node_key n \<mapsto> d) \<and>
    doc_array ''network_mounts'' doc = pre @ m # post \<and> doc_array ''network_mounts'' d = pre @ m' # post \<and>
    has_mount_id mount_id m \<and> has_mount_id mount_id m' \<and> (\<forall>x \<in> set pre. \<not> has_mount_id mount_id x) \<and>
    (\<forall>k. k \<notin> {''network_mounts'', ''_id'', ''_rev''} \<longrightarrow> jget k d = jget k doc)"
proof -
  obtain ms ms' where ms: "jget ''network_mounts'' doc = Some (JArr ms)"
    "patch_first (has_mount_id mount_id) (patch_fields canon (object_entries body)) ms = Some ms'"
    and run: "or_panic (Option.bind ms' (\<lambda>l. jset ''network_mounts'' (JArr l) doc))
      (\<lambda>d s2. store_doc db (node_key n) d ok_reply s2) s = (Reply 200 b, s')"
  proof (cases "Option.bind (jget ''network_mounts'' doc) as_array")
    case None
    with assms(4) show thesis by (simp add: patch_mount_def fetch_law [OF assms(1)] assms(3) not_found_def)
  next
    case (Some ms)
    then have arr: "jget ''network_mounts'' doc = Some (JArr ms)"
      by (auto simp: bind_eq_Some_conv elim!: as_array.elims)
    show thesis
    proof (cases "patch_first (has_mount_id mount_id) (patch_fields canon (object_entries body)) ms")
      case None
      with arr assms(4) show thesis
        by (simp add: patch_mount_def fetch_law [OF assms(1)] assms(3) not_found_def)
    next
      case (Some ms')
      with arr assms(4) show thesis
        by (intro that [OF arr Some]) (simp add: patch_mount_def fetch_law [OF assms(1)] assms(3))
    qed
  qed
  from or_panic_store [OF assms(2) run [unfolded ok_reply_def]] obtain d d' l where
    l: "ms' = Some l" "jset ''network_mounts'' (JArr l) doc = Some d" "same_fields d' d"
      "docs s' = (docs s)(node_key n \<mapsto> d')" by (auto simp: bind_eq_Some_conv)
  obtain pre m m' post where parts: "ms = pre @ m # post" "l = pre @ m' # post"
    "\<forall>x \<in> set pre. \<not> has_mount_id mount_id x" "has_mount_id mount_id m"
    "patch_fields canon (object_entries body) m = Some m'"
    using patch_first_Some ms(2) l(1) by blast
  have "has_mount_id mount_id m'"
    using patch_fields_keep_id [OF parts(5)] parts(4) by (simp add: has_mount_id_def)
  moreover have "doc_array ''network_mounts'' doc = ms" using ms(1) by (simp add: doc_array_def)
  moreover have "doc_array ''network_mounts'' d' = l"
    using doc_array_same [OF l(3)] doc_array_jset [OF l(2)] by simp
  moreover have "\<forall>k. k \<notin> {''network_mounts'', ''_id'', ''_rev''} \<longrightarrow> jget k d' = jget k doc"
    using l(2,3) by (simp add: same_fields_def jget_jset)
  ultimately show ?thesis using parts l(4) by blast
qed


definition sample_mount_request :: mount_request where
  "sample_mount_request = \<lparr>mq_remote_node_id = ''b'', mq_remote_base_export_path = ''/x'',
     mq_local_mount_path = ''/mnt//x/'', mq_mount_type = ''nfs'', mq_priority = 1\<rparr>"

definition sample_node :: store where
  "sample_node = [(''node::a'', JObj [(''type'', JStr ''node''),
     (''network_mounts'', JArr [JObj [(''mount_id'', JStr ''m1''), (''priority'', JNum (PosInt 0))]])])]"

definition sample_api_env :: api_env where
  "sample_api_env = \<lparr>ae_now = ''t'', ae_uuid = ''12345678-aa'', ae_draws = [7, 4711]\<rparr>"

lemma sample_node_get: "map_of sample_node (node_key ''a'') = Some (JObj [(''type'', JStr ''node''),
     (''network_mounts'', JArr [JObj [(''mount_id'', JStr ''m1''), (''priority'', JNum (PosInt 0))]])])"
  by (simp add: sample_node_def node_key_def)

theorem patch_mount_keeps_the_rest_witness:
  "\<exists>s'. patch_mount (\<lambda>_. None) store_couch ''a'' ''m1''
      (JObj [(''mount_id'', JStr ''other''), (''priority'', JNum (PosInt 5))]) sample_node = (ok_reply, s') \<and>
    (\<exists>d m. map_of s' (node_key ''a'') = Some d \<and> doc_array ''network_mounts'' d = [m] \<and> has_mount_id ''m1'' m)"
proof -
  let ?body = "JObj [(''mount_id'', JStr ''other''), (''priority'', JNum (PosInt 5))]"
  obtain s' where run: "patch_mount (\<lambda>_. None) store_couch ''a'' ''m1'' ?body sample_node = (ok_reply, s')"
    by (simp add: patch_mount_def fetch_def sample_node_get store_doc_def has_mount_id_def jget_str_def
        patch_field_def Let_def)
  from patch_mount_keeps_the_rest [OF store_couch_reads store_couch_writes sample_node_get run [unfolded ok_reply_def]]
  show ?thesis
  proof (elim exE conjE)
    fix d pre m m' post
    assume stored: "map_of s' = (map_of sample_node)(node_key ''a'' \<mapsto> d)"
      and before: "doc_array ''network_mounts'' (JObj [(''type'', JStr ''node''), (''network_mounts'',
        JArr [JObj [(''mount_id'', JStr ''m1''), (''priority'', JNum (PosInt 0))]])]) = pre @ m # post"
      and after: "doc_array ''network_mounts'' d = pre @ m' # post" "has_mount_id ''m1'' m'"
    from arg_cong [OF before, of length] have "pre = []" "post = []" by (simp_all add: doc_array_def)
    with run after stored show ?thesis by simp
  qed
qed

end
