(* ===== verification/Notification_Api.thy ===== *)
theory Notification_Api
  imports Api
begin

text \<open>\<open>handlers/notifications.rs\<close>: listing, acknowledging and the history of notifications.\<close>

section \<open>Listing\<close>

definition listed_notification :: "string option \<Rightarrow> string option \<Rightarrow> json \<Rightarrow> json option" where
  "listed_notification status severity doc =
     (if jget_str ''type'' doc \<noteq> Some ''notification'' then None
      else
        (let doc_status = unwrap_or (jget_str ''status'' doc) ''active'' in
         if (case status of Some f \<Rightarrow> doc_status \<noteq> f | None \<Rightarrow> doc_status = ''resolved'') then None
         else if (case severity of Some f \<Rightarrow> unwrap_or (jget_str ''severity'' doc) [] \<noteq> f | None \<Rightarrow> False) then None
         else Some (strip_internals doc)))"

definition severity_order :: "json \<Rightarrow> nat" where
  "severity_order doc =
     (let sev = unwrap_or (jget_str ''severity'' doc) ''info'' in
      if sev = ''error'' then 0 else if sev = ''warning'' then 1 else 2)"

definition last_seen_of :: "json \<Rightarrow> string" where
  "last_seen_of doc = unwrap_or (jget_str ''last_seen'' doc) []"

definition compare_notifications :: "json \<Rightarrow> json \<Rightarrow> ordering" where
  "compare_notifications a b =
     (let c = cmp_of (severity_order a) (severity_order b) in
      if c \<noteq> Equal then c else cmp_of (last_seen_of b) (last_seen_of a))"

definition list_notifications ::
  "'s couch \<Rightarrow> string option \<Rightarrow> string option \<Rightarrow> u64 option \<Rightarrow> u64 option \<Rightarrow> 's \<Rightarrow> reply \<times> 's" where
  "list_notifications db status severity offset limit s =
     on_ok (fetch_all db ''notification::'' s) (\<lambda>docs s1.
       (Reply 200 (page offset limit (sort_by compare_notifications
          (List.map_filter (listed_notification status severity) docs))), s1))"

section \<open>Acknowledging\<close>

definition acknowledged :: "string \<Rightarrow> json \<Rightarrow> json option" where
  "acknowledged now doc =
     jset_all [(''status'', JStr ''acknowledged''), (''acknowledged_at'', JStr now)] doc"

definition notification_key :: "string \<Rightarrow> string" where
  "notification_key i = (if starts_with i ''notification::'' then i else ''notification::'' @ i)"

definition acknowledge_notification :: "string \<Rightarrow> 's couch \<Rightarrow> string \<Rightarrow> 's \<Rightarrow> reply \<times> 's" where
  "acknowledge_notification now db i s =
     on_ok (fetch db (notification_key i) ''Notification not found'' s) (\<lambda>doc s1.
       or_panic (acknowledged now doc) (\<lambda>d s2. store_doc db (notification_key i) d ok_reply s2) s1)"

definition to_acknowledge :: "string option \<Rightarrow> json \<Rightarrow> bool" where
  "to_acknowledge severity doc \<longleftrightarrow>
     unwrap_or (jget_str ''type'' doc) [] = ''notification'' \<and>
     unwrap_or (jget_str ''status'' doc) [] = ''active'' \<and>
     (case severity of Some f \<Rightarrow> unwrap_or (jget_str ''severity'' doc) [] = f | None \<Rightarrow> True)"

definition acknowledge_all :: "string \<Rightarrow> 's couch \<Rightarrow> string option \<Rightarrow> 's \<Rightarrow> reply \<times> 's" where
  "acknowledge_all now db severity s =
     on_ok (fetch_all db ''notification::'' s) (\<lambda>docs s1.
       or_panic (those (map (acknowledged now) (filter (to_acknowledge severity) docs))) (\<lambda>updates s2.
         let done = Reply 200 (JObj [(''ok'', JBool True), (''count'', count_json updates)]) in
         if updates = [] then (done, s2)
         else (case db_bulk db updates s2 of
                 (Inl e, s3) \<Rightarrow> (internal e, s3)
               | (Inr _, s3) \<Rightarrow> (done, s3))) s1)"

section \<open>History\<close>

definition history_time :: "json \<Rightarrow> string" where
  "history_time doc =
     unwrap_or (Option.bind
       (case jget ''resolved_at'' doc of Some v \<Rightarrow> Some v | None \<Rightarrow> jget ''acknowledged_at'' doc) as_str) []"

definition history_item :: "string \<Rightarrow> json \<Rightarrow> json option" where
  "history_item since doc =
     (if jget_str ''type'' doc \<noteq> Some ''notification'' then None
      else
        (let status = unwrap_or (jget_str ''status'' doc) [] in
         if status \<noteq> ''resolved'' \<and> status \<noteq> ''acknowledged'' then None
         else if since \<noteq> [] \<and> history_time doc < since then None
         else Some (strip_internals doc)))"

definition notification_history ::
  "'s couch \<Rightarrow> u64 option \<Rightarrow> string option \<Rightarrow> 's \<Rightarrow> reply \<times> 's" where
  "notification_history db limit since s =
     on_ok (fetch_all db ''notification::'' s) (\<lambda>docs s1.
       let items = sort_by (\<lambda>a b. cmp_of (history_time b) (history_time a))
                     (List.map_filter (history_item (unwrap_or since [])) docs)
       in (Reply 200 (JObj [(''items'', JArr (take (unat (unwrap_or limit 50)) items))]), s1))"

section \<open>Order\<close>

declare cmp_of_iff(2,3) [simp]

lemma compare_notifications_Greater:
  "compare_notifications a b = Greater \<longleftrightarrow> severity_order b < severity_order a \<or>
     (severity_order a = severity_order b \<and> last_seen_of a < last_seen_of b)"
  by (auto simp: compare_notifications_def Let_def)

lemma key_orders:
  fixes f :: "'a \<Rightarrow> nat" and g :: "'a \<Rightarrow> 'k::linorder"
  assumes "\<And>a b. c a b = Greater \<longleftrightarrow> f b < f a \<or> (f a = f b \<and> g a < g b)"
  shows "orders c"
  unfolding orders_def assms
proof (intro conjI allI impI)
  fix x y
  assume "f y < f x \<or> f x = f y \<and> g x < g y"
  then show "\<not> (f x < f y \<or> f y = f x \<and> g y < g x)" by auto
next
  fix x y z
  assume "\<not> (f y < f x \<or> f x = f y \<and> g x < g y)" "\<not> (f z < f y \<or> f y = f z \<and> g y < g z)"
  then have "f x \<le> f y" "f y \<le> f z" "f x = f y \<longrightarrow> g y \<le> g x" "f y = f z \<longrightarrow> g z \<le> g y"
    by (auto simp: not_less)
  then show "\<not> (f z < f x \<or> f x = f z \<and> g x < g z)" by auto
qed

lemma compare_notifications_orders: "orders compare_notifications"
  by (rule key_orders [of _ severity_order last_seen_of]) (rule compare_notifications_Greater)

text \<open>The page of notifications is cut from one list: all notifications that match the filters,
  resolved ones only when asked for, errors before warnings before the rest, and within a
  severity the one seen last first.
\<close>

lemma list_notifications_ordered:
  assumes "reads_law db docs"
  shows "\<exists>items. list_notifications db status severity offset limit s = (Reply 200 (page offset limit items), s) \<and>
    (\<forall>d'. d' \<in> set items \<longleftrightarrow> (\<exists>i d. starts_with i ''notification::'' \<and> docs s i = Some d \<and>
       listed_notification status severity d = Some d')) \<and>
    sorted_wrt (\<lambda>a b. severity_order a < severity_order b \<or>
      (severity_order a = severity_order b \<and> last_seen_of b \<le> last_seen_of a)) items"
proof -
  obtain ds where ds: "fetch_all db ''notification::'' s = (Inr ds, s)"
    "\<And>d. d \<in> set ds \<longleftrightarrow> (\<exists>i. starts_with i ''notification::'' \<and> docs s i = Some d)"
    by (rule fetch_all_law [OF assms, of "''notification::''" s]) (rule that)
  let ?items = "sort_by compare_notifications (List.map_filter (listed_notification status severity) ds)"
  have "sorted_wrt (\<lambda>a b. compare_notifications a b \<noteq> Greater) ?items"
    by (rule sorted_sort_by [OF compare_notifications_orders])
  then have "sorted_wrt (\<lambda>a b. severity_order a < severity_order b \<or>
      (severity_order a = severity_order b \<and> last_seen_of b \<le> last_seen_of a)) ?items"
    by (rule sorted_wrt_mono_rel [rotated]) (auto simp: compare_notifications_Greater not_less)
  moreover have "d' \<in> set ?items \<longleftrightarrow> (\<exists>i d. starts_with i ''notification::'' \<and> docs s i = Some d \<and>
       listed_notification status severity d = Some d')" for d'
    unfolding set_sort_by map_filter_set ds(2) Bex_def by blast
  ultimately show ?thesis
    by (intro exI [of _ ?items]) (simp add: list_notifications_def ds(1))
qed

section \<open>Acknowledging all\<close>

definition acknowledges :: "string \<Rightarrow> json \<Rightarrow> json \<Rightarrow> bool" where
  "acknowledges now d d' \<longleftrightarrow> jget_str ''status'' d' = Some ''acknowledged'' \<and>
     jget_str ''acknowledged_at'' d' = Some now \<and>
     (\<forall>k. k \<notin> {''status'', ''acknowledged_at''} \<longrightarrow> jget k d' = jget k d)"

lemma acknowledged_Some:
  assumes "acknowledged now d = Some d'"
  shows "acknowledges now d d'"
  by (simp add: acknowledges_def jget_str_def jset_all_jget [OF assms [unfolded acknowledged_def]])

lemma those_all2: "those (map f xs) = Some ys \<Longrightarrow> list_all2 (\<lambda>x y. f x = Some y) xs ys"
  by (induction xs arbitrary: ys) (auto split: option.splits)

text \<open>Acknowledging all notifications sends at most one bulk write, with exactly the active
  notifications of the severity asked for, each marked acknowledged now and otherwise
  unchanged, and reports their number.
\<close>

lemma acknowledge_all_exact:
  assumes "db_prefix db ''notification::'' s = (Inr rows, s1)"
    and "acknowledge_all now (logged db) severity (s, []) = (Reply 200 body, s', log)"
  shows "list_all2 (acknowledges now) (filter (to_acknowledge severity) (row_docs rows)) (concat log) \<and>
    length log \<le> 1 \<and> (\<forall>b \<in> set log. b \<noteq> []) \<and> jget ''count'' body = Some (count_json (concat log))"
proof -
  let ?old = "filter (to_acknowledge severity) (row_docs rows)"
  have read: "fetch_all (logged db) ''notification::'' (s, []) = (Inr (row_docs rows), s1, [])"
    by (simp add: fetch_all_def kept_log_def assms(1))
  obtain updates where u: "those (map (acknowledged now) ?old) = Some updates"
    using assms(2) by (cases "those (map (acknowledged now) ?old)") (simp_all add: acknowledge_all_def read)
  then have all2: "list_all2 (acknowledges now) ?old updates"
    by (rule list_all2_mono [OF those_all2 acknowledged_Some])
  have run: "(let done = Reply 200 (JObj [(''ok'', JBool True), (''count'', count_json updates)]) in
      if updates = [] then (done, s1, [])
      else (case db_bulk (logged db) updates (s1, []) of
              (Inl e, s3) \<Rightarrow> (internal e, s3) | (Inr _, s3) \<Rightarrow> (done, s3))) = (Reply 200 body, s', log)"
    using assms(2) by (simp add: acknowledge_all_def read u)
  show ?thesis
  proof (cases "updates = []")
    case True
    with run all2 show ?thesis by auto
  next
    case False
    obtain rr s2 where "db_bulk db updates s1 = (rr, s2)" by (cases "db_bulk db updates s1")
    with run False have "log = [updates]" "jget ''count'' body = Some (count_json updates)"
      by (auto simp: internal_def split: sum.splits)
    with all2 False show ?thesis by simp
  qed
qed

section \<open>Concrete notifications\<close>

definition sample_notices :: store where
  "sample_notices =
     [(''notification::1'', JObj [(''_id'', JStr ''notification::1''), (''type'', JStr ''notification''),
         (''status'', JStr ''active''), (''severity'', JStr ''info''), (''last_seen'', JStr ''2'')]),
      (''notification::2'', JObj [(''_id'', JStr ''notification::2''), (''type'', JStr ''notification''),
         (''status'', JStr ''resolved''), (''severity'', JStr ''error''), (''last_seen'', JStr ''1'')])]"

end
