(* ===== verification/Vfs_Api.thy ===== *)
theory Vfs_Api
  imports Api Server_Caches
begin

text \<open>
  \<open>handlers/vfs.rs\<close>: the virtual directories as the API lists, creates, patches, previews and
  deletes them. Handlers that use the listing cache take it as the first part of their state.
\<close>

section \<open>Paths\<close>

definition vfs_dir_id :: "libs \<Rightarrow> string \<Rightarrow> string" where
  "vfs_dir_id lb virtual_path =
     (if virtual_path = ''/'' then ''dir::root'' else ''dir::'' @ sha256_hex lb virtual_path)"

definition validate_virtual_path :: "string \<Rightarrow> string + unit" where
  "validate_virtual_path path =
     (if \<not> starts_with path ''/'' then Inl ''Virtual path must start with /''
      else if starts_with path ''/federation/'' then Inl ''Cannot use /federation/ prefix''
      else if contains_str ''//'' path then Inl ''Virtual path must not contain //''
      else Inr ())"

text \<open>The path of a request: the rest of the URL with exactly one slash in front.\<close>

definition request_path :: "string \<Rightarrow> string" where
  "request_path path =
     (let p = trim_start (CHR ''/'') path in if p = [] then ''/'' else ''/'' @ p)"

definition is_child_of :: "string \<Rightarrow> json \<Rightarrow> bool" where
  "is_child_of path doc \<longleftrightarrow> jget_str ''parent_path'' doc = Some path"

section \<open>Mounts as they are saved\<close>

record step_scan =
  sn_node_id :: "string option"
  sn_export_path :: string
  sn_label :: "string option"

definition scan_step :: "json \<Rightarrow> step_scan \<Rightarrow> step_scan" where
  "scan_step step n =
     (let ty = unwrap_or (jget_str ''type'' step) [] in
      if ty = ''node'' then n\<lparr>sn_node_id := jget_str ''node_id'' step\<rparr>
      else if ty = ''path_prefix'' then
        (case jget_str ''prefix'' step of Some p \<Rightarrow> n\<lparr>sn_export_path := p\<rparr> | None \<Rightarrow> n)
      else if ty = ''label'' then n\<lparr>sn_label := jget_str ''label'' step\<rparr>
      else n)"

definition plain_mount :: "nat \<Rightarrow> mount_source \<Rightarrow> mount_entry" where
  "plain_mount i source =
     \<lparr>me_mount_id = ''m'' @ nat_str i, me_source = source, me_strategy = Flatten, me_source_prefix = None,
      me_steps = [], me_default_result = Include, me_conflict_policy = LastWriteWins\<rparr>"

text \<open>A mount in one of the three formats: structured, flat, or a list of steps.\<close>

definition parse_mount :: "nat \<Rightarrow> json \<Rightarrow> mount_entry option" where
  "parse_mount i m =
     (case mount_entry_of_json m of
        Some e \<Rightarrow> Some e
      | None \<Rightarrow>
          (case jget_str ''node'' m of
             Some node \<Rightarrow>
               Some (plain_mount i (SourceNode node (unwrap_or (jget_str ''path'' m) ''/'')))
           | None \<Rightarrow>
               (case Option.bind (jget ''steps'' m) as_array of
                  None \<Rightarrow> None
                | Some steps \<Rightarrow>
                    (let n = fold scan_step steps
                          \<lparr>sn_node_id = None, sn_export_path = ''/'', sn_label = None\<rparr>
                     in case sn_node_id n of
                          Some nid \<Rightarrow> Some (plain_mount i (SourceNode nid (sn_export_path n)))
                        | None \<Rightarrow> map_option (\<lambda>l. plain_mount i (SourceLabel l)) (sn_label n)))))"

definition parse_step_based_mounts :: "json \<Rightarrow> mount_entry list" where
  "parse_step_based_mounts mounts_json =
     (case as_array mounts_json of
        None \<Rightarrow> []
      | Some arr \<Rightarrow> List.map_filter (\<lambda>(i, m). parse_mount i m) (enumerate 0 arr))"

section \<open>Listing\<close>

definition subdir_json :: "json \<Rightarrow> json" where
  "subdir_json doc =
     JObj [(''name'', json_opt (jget ''name'' doc)), (''virtual_path'', json_opt (jget ''virtual_path'' doc)),
       (''type'', JStr ''directory'')]"

definition directory_steps :: "json \<Rightarrow> step list" where
  "directory_steps dir_doc =
     (case Option.bind (jget ''steps'' dir_doc) as_array of
        Some ss \<Rightarrow> List.map_filter step_of_json ss
      | None \<Rightarrow> [])"

record server_caches =
  sc_labels :: label_cache
  sc_accesses :: access_cache

text \<open>
  The files of a directory, from the listing cache when it holds an entry for the path and
  the revision of the directory. \<open>instant\<close> is the monotonic clock of the cache.
\<close>

definition directory_files ::
  "libs \<Rightarrow> nat \<Rightarrow> time \<Rightarrow> 's couch \<Rightarrow> server_caches \<Rightarrow> string \<Rightarrow> json \<Rightarrow> string list \<Rightarrow>
     readdir_cache \<Rightarrow> 's \<Rightarrow> (couch_error + readdir_entry list) \<times> readdir_cache \<times> 's" where
  "directory_files lb instant now db caches path dir_doc child_names rc s =
     (let dir_rev = unwrap_or (jget_str ''_rev'' dir_doc) [] in
      case readdir_get instant rc path dir_rev of
        Some cached \<Rightarrow> (Inr cached, rc, s)
      | None \<Rightarrow>
          (case collect_inherited_steps lb db path s of
             (Inl e, s1) \<Rightarrow> (Inl e, rc, s1)
           | (Inr inherited, s1) \<Rightarrow>
               (case server_readdir lb now db (sc_labels caches) (sc_accesses caches)
                       (parse_step_based_mounts (unwrap_or (jget ''mounts'' dir_doc) (JArr [])))
                       (inherited @ directory_steps dir_doc) child_names s1 of
                  (Inl e, s2) \<Rightarrow> (Inl e, rc, s2)
                | (Inr entries, s2) \<Rightarrow>
                    (Inr entries, readdir_put instant path dir_rev entries rc, s2))))"

definition list_vfs ::
  "libs \<Rightarrow> nat \<Rightarrow> time \<Rightarrow> 's couch \<Rightarrow> server_caches \<Rightarrow> string option \<Rightarrow> readdir_cache \<times> 's \<Rightarrow>
     reply \<times> readdir_cache \<times> 's" where
  "list_vfs lb instant now db caches query st =
     (let path = unwrap_or query ''/''; (rc, s) = st in
      on_ok (with_cache rc (fetch db (vfs_dir_id lb path) ''Directory not found'' s)) (\<lambda>dir_doc (rc1, s1).
      on_ok (with_cache rc1 (fetch_all db ''dir::'' s1)) (\<lambda>dirs (rc2, s2).
        let subdirs = map subdir_json (filter (is_child_of path) dirs);
            mounts = unwrap_or (jget ''mounts'' dir_doc) (JArr []);
            child_names = List.map_filter (jget_str ''name'') subdirs
        in case directory_files lb instant now db caches path dir_doc child_names rc2 s2 of
             (Inl e, st3) \<Rightarrow> (internal e, st3)
           | (Inr entries, st3) \<Rightarrow>
               (Reply 200 (JObj [(''path'', JStr path), (''directories'', JArr subdirs), (''mounts'', mounts),
                  (''files'', JArr (entries_to_json lb entries))]), st3))))"

definition tree_item :: "string \<Rightarrow> nat \<Rightarrow> json \<Rightarrow> json option" where
  "tree_item path max_depth doc =
     (case jget_str ''virtual_path'' doc of
        None \<Rightarrow> None
      | Some vpath \<Rightarrow>
          (if vpath = path \<or> starts_with vpath (trim_end (CHR ''/'') path @ ''/'') then
             (case (if path = ''/'' then Some vpath else strip_prefix path vpath) of
                None \<Rightarrow> None
              | Some rel \<Rightarrow>
                  (if count_list rel (CHR ''/'') \<le> max_depth
                   then Some (JObj [(''name'', json_opt (jget ''name'' doc)), (''virtual_path'', JStr vpath),
                     (''has_children'', JBool False)])
                   else None))
           else None))"

definition get_tree :: "'s couch \<Rightarrow> string option \<Rightarrow> nat option \<Rightarrow> 's \<Rightarrow> reply \<times> 's" where
  "get_tree db query depth s =
     (let path = unwrap_or query ''/''; max_depth = min (unwrap_or depth 3) 10 in
      on_ok (fetch_all db ''dir::'' s) (\<lambda>docs s1.
        (Reply 200 (JObj [(''path'', JStr path),
           (''tree'', JArr (List.map_filter (tree_item path max_depth) docs))]), s1)))"

section \<open>Creating, reading, patching\<close>

definition derived_name :: "string \<Rightarrow> string" where
  "derived_name virtual_path =
     (let p = trim_end (CHR ''/'') virtual_path in
      case rsplit_once (CHR ''/'') p of Some (_, b) \<Rightarrow> b | None \<Rightarrow> p)"

definition derived_parent :: "string \<Rightarrow> string option" where
  "derived_parent virtual_path =
     (if virtual_path = ''/'' then None
      else (case rsplit_once (CHR ''/'') (trim_end (CHR ''/'') virtual_path) of
              Some (a, _) \<Rightarrow> Some (if a = [] then ''/'' else a)
            | None \<Rightarrow> Some ''/''))"

text \<open>The loop draws until a number is at least 1000.\<close>

fun fresh_inode :: "u64 list \<Rightarrow> u64 option" where
  "fresh_inode [] = None"
| "fresh_inode (v # vs) = (if 1000 \<le> v then Some v else fresh_inode vs)"

definition directory_doc :: "libs \<Rightarrow> api_env \<Rightarrow> string \<Rightarrow> string option \<Rightarrow> u64 \<Rightarrow> json" where
  "directory_doc lb env virtual_path name inode =
     JObj [(''_id'', JStr (vfs_dir_id lb virtual_path)), (''type'', JStr ''virtual_directory''),
       (''inode'', JNum (PosInt inode)), (''virtual_path'', JStr virtual_path),
       (''name'', JStr (unwrap_or name (derived_name virtual_path))),
       (''parent_path'', json_str_opt (derived_parent virtual_path)), (''created_at'', JStr (ae_now env)),
       (''enforce_steps_on_children'', JBool False), (''mounts'', JArr [])]"

definition create_directory ::
  "libs \<Rightarrow> api_env \<Rightarrow> 's couch \<Rightarrow> string \<Rightarrow> string option \<Rightarrow> 's \<Rightarrow> reply \<times> 's" where
  "create_directory lb env db virtual_path name s =
     (case validate_virtual_path virtual_path of
        Inl msg \<Rightarrow> (invalid msg, s)
      | Inr _ \<Rightarrow>
          (case db_get db (vfs_dir_id lb virtual_path) s of
             (Inr _, s1) \<Rightarrow> (Reply 409 (error_json ''conflict'' ''Directory already exists''), s1)
           | (Inl _, s1) \<Rightarrow>
               (case fresh_inode (ae_draws env) of
                  None \<Rightarrow> (Pending, s1)
                | Some inode \<Rightarrow>
                    (let doc = directory_doc lb env virtual_path name inode in
                     store_doc db (vfs_dir_id lb virtual_path) doc (Reply 201 (strip_internals doc)) s1))))"

definition get_directory :: "libs \<Rightarrow> 's couch \<Rightarrow> string \<Rightarrow> 's \<Rightarrow> reply \<times> 's" where
  "get_directory lb db path s =
     (let virtual_path = request_path path in
      case db_get db (vfs_dir_id lb virtual_path) s of
        (Inr doc, s1) \<Rightarrow> (Reply 200 (strip_internals doc), s1)
      | (Inl (NotFound _), s1) \<Rightarrow>
          (if virtual_path = ''/'' then
             (case db_get db ''dir::root'' s1 of
                (Inr doc, s2) \<Rightarrow> (Reply 200 (strip_internals doc), s2)
              | (Inl _, s2) \<Rightarrow> (not_found ''Directory not found'', s2))
           else (not_found ''Directory not found'', s1))
      | (Inl e, s1) \<Rightarrow> (internal e, s1))"

definition patch_directory :: "libs \<Rightarrow> 's couch \<Rightarrow> string \<Rightarrow> json \<Rightarrow> 's \<Rightarrow> reply \<times> 's" where
  "patch_directory lb db path body s =
     (let doc_id = vfs_dir_id lb (request_path path) in
      on_ok (fetch db doc_id ''Directory not found'' s) (\<lambda>doc s1.
        or_panic (jset_all
            ((case jget_str ''name'' body of Some n \<Rightarrow> [(''name'', JStr n)] | None \<Rightarrow> []) @
             (case Option.bind (jget ''enforce_steps_on_children'' body) as_bool of
                Some b \<Rightarrow> [(''enforce_steps_on_children'', JBool b)] | None \<Rightarrow> []) @
             given [''mounts'', ''steps''] body) doc)
          (\<lambda>d s2. store_doc db doc_id d ok_reply s2) s1))"

section \<open>Deleting\<close>

text \<open>Children are deleted one by one, those without identifier or revision are left; failures are ignored.\<close>

fun delete_children :: "'s couch \<Rightarrow> json list \<Rightarrow> 's \<Rightarrow> 's" where
  "delete_children db [] s = s"
| "delete_children db (child # children) s =
     delete_children db children
       (case (jget_str ''_id'' child, jget_str ''_rev'' child) of
          (Some i, Some rv) \<Rightarrow> snd (db_delete db i rv s)
        | _ \<Rightarrow> s)"

definition delete_directory :: "libs \<Rightarrow> 's couch \<Rightarrow> string \<Rightarrow> bool option \<Rightarrow> 's \<Rightarrow> reply \<times> 's" where
  "delete_directory lb db path force s =
     (let virtual_path = request_path path; doc_id = vfs_dir_id lb virtual_path in
      on_ok (fetch db doc_id ''Directory not found'' s) (\<lambda>doc s1.
        if Option.bind (jget ''system'' doc) as_bool = Some True
        then (Reply 403 (error_json ''forbidden'' ''Cannot delete system directory''), s1)
        else
          on_ok (fetch_all db ''dir::'' s1) (\<lambda>dirs s2.
            let children = filter (is_child_of virtual_path) dirs in
            if children \<noteq> [] \<and> force \<noteq> Some True
            then (Reply 409 (error_json ''conflict''
                    ''Directory has children. Use ?force=true to cascade delete.''), s2)
            else remove_doc db doc_id doc
                   (if force = Some True then delete_children db children s2 else s2))))"

section \<open>Preview and the root directory\<close>

record preview_request =
  pr_mounts :: json
  pr_inherited_steps :: "step list"

definition preview_directory ::
  "libs \<Rightarrow> time \<Rightarrow> 's couch \<Rightarrow> server_caches \<Rightarrow> string \<Rightarrow> preview_request \<Rightarrow> 's \<Rightarrow> reply \<times> 's" where
  "preview_directory lb now db caches path body s =
     (let virtual_path = request_path path in
      on_ok (fetch_all db ''dir::'' s) (\<lambda>dirs s1.
        let child_names = List.map_filter (jget_str ''name'') (filter (is_child_of virtual_path) dirs);
            request_mounts = parse_step_based_mounts (pr_mounts body);
            (mounts, s2) =
              (if request_mounts = [] then
                 (case db_get db (vfs_dir_id lb virtual_path) s1 of
                    (Inr doc, s2) \<Rightarrow> (parse_step_based_mounts (unwrap_or (jget ''mounts'' doc) (JArr [])), s2)
                  | (Inl _, s2) \<Rightarrow> ([], s2))
               else (request_mounts, s1))
        in case server_readdir lb now db (sc_labels caches) (sc_accesses caches) mounts
                  (pr_inherited_steps body) child_names s2 of
             (Inl e, s3) \<Rightarrow> (internal e, s3)
           | (Inr entries, s3) \<Rightarrow>
               (Reply 200 (JObj [(''path'', JStr virtual_path), (''files'', JArr (entries_to_json lb entries)),
                  (''total'', count_json entries)]), s3)))"

definition root_directory_doc :: "string \<Rightarrow> json" where
  "root_directory_doc now =
     JObj [(''_id'', JStr ''dir::root''), (''type'', JStr ''virtual_directory''), (''inode'', JNum (PosInt 1)),
       (''virtual_path'', JStr ''/''), (''name'', JStr []), (''parent_path'', JNull), (''system'', JBool True),
       (''created_at'', JStr now), (''enforce_steps_on_children'', JBool False), (''mounts'', JArr [])]"

definition ensure_root_directory :: "string \<Rightarrow> 's couch \<Rightarrow> 's \<Rightarrow> (couch_error + unit) \<times> 's" where
  "ensure_root_directory now db s =
     (case db_get db ''dir::root'' s of
        (Inr _, s1) \<Rightarrow> (Inr (), s1)
      | (Inl (NotFound _), s1) \<Rightarrow>
          (case db_put db ''dir::root'' (root_directory_doc now) s1 of
             (Inr _, s2) \<Rightarrow> (Inr (), s2)
           | (Inl e, s2) \<Rightarrow> (Inl e, s2))
      | (Inl e, s1) \<Rightarrow> (Inl e, s1))"


section \<open>Deletion is contained\<close>

lemma delete_children_effect:
  assumes "writes_law db docs"
  shows "docs (delete_children db cs s) i = docs s i \<or>
    (docs (delete_children db cs s) i = None \<and> Some i \<in> jget_str ''_id'' ` set cs)"
proof (induction cs arbitrary: s)
  case Nil
  then show ?case by simp
next
  case (Cons c cs)
  let ?s1 = "case (jget_str ''_id'' c, jget_str ''_rev'' c) of
     (Some i, Some rv) \<Rightarrow> snd (db_delete db i rv s) | _ \<Rightarrow> s"
  have "docs ?s1 = docs s \<or> (\<exists>j. jget_str ''_id'' c = Some j \<and> docs ?s1 = (docs s)(j := None))"
  proof (cases "jget_str ''_id'' c = None \<or> jget_str ''_rev'' c = None")
    case True
    then show ?thesis by (auto split: option.split)
  next
    case False
    then obtain j rv where j: "jget_str ''_id'' c = Some j" "jget_str ''_rev'' c = Some rv" by auto
    obtain r s2 where del: "db_delete db j rv s = (r, s2)" by (cases "db_delete db j rv s")
    show ?thesis
    proof (cases r)
      case (Inl e)
      with writes_law_delete_failed [OF assms, of j rv s e s2] del j show ?thesis by simp
    next
      case (Inr a)
      with writes_law_delete [OF assms, of j rv s a s2] del j show ?thesis by simp
    qed
  qed
  with Cons.IH [of ?s1] show ?case by (auto split: if_splits)
qed

text \<open>A deletion is refused before anything is written, or it comes to the removal of the directory itself.\<close>

lemma delete_directory_cases:
  fixes path
  defines "p \<equiv> request_path path"
  assumes reads: "reads_law db docs" and run: "delete_directory lb db path force s = (r, s')"
  obtains (refused) "reply_status r \<in> {Some 403, Some 404, Some 409}" "s' = s"
  | (removed) doc ds where "docs s (vfs_dir_id lb p) = Some doc"
      "Option.bind (jget ''system'' doc) as_bool \<noteq> Some True"
      "\<And>d. d \<in> set ds \<longleftrightarrow> (\<exists>i. starts_with i ''dir::'' \<and> docs s i = Some d)"
      "filter (is_child_of p) ds = [] \<or> force = Some True"
      "remove_doc db (vfs_dir_id lb p) doc
         (if force = Some True then delete_children db (filter (is_child_of p) ds) s else s) = (r, s')"
proof (cases "docs s (vfs_dir_id lb p)")
  case None
  with run have "r = not_found ''Directory not found''" "s' = s"
    by (simp_all add: delete_directory_def Let_def fetch_law [OF reads] p_def)
  with refused show ?thesis by (simp add: not_found_def)
next
  case (Some doc)
  obtain ds where ds: "fetch_all db ''dir::'' s = (Inr ds, s)"
    "\<And>d. d \<in> set ds \<longleftrightarrow> (\<exists>i. starts_with i ''dir::'' \<and> docs s i = Some d)"
    by (rule fetch_all_law [OF reads, of "''dir::''" s]) (rule that)
  consider "Option.bind (jget ''system'' doc) as_bool = Some True"
    | "Option.bind (jget ''system'' doc) as_bool \<noteq> Some True" "filter (is_child_of p) ds \<noteq> []" "force \<noteq> Some True"
    | "Option.bind (jget ''system'' doc) as_bool \<noteq> Some True" "filter (is_child_of p) ds = [] \<or> force = Some True"
    by blast
  then show ?thesis
  proof cases
    case 1
    with run Some have "reply_status r = Some 403" "s' = s"
      by (auto simp: delete_directory_def Let_def fetch_law [OF reads] p_def)
    then show ?thesis by (intro refused) simp_all
  next
    case 2
    with run Some ds(1) have "reply_status r = Some 409" "s' = s"
      by (auto simp: delete_directory_def Let_def fetch_law [OF reads] p_def)
    then show ?thesis by (intro refused) simp_all
  next
    case 3
    with run Some ds(1) have "remove_doc db (vfs_dir_id lb p) doc
        (if force = Some True then delete_children db (filter (is_child_of p) ds) s else s) = (r, s')"
      unfolding delete_directory_def Let_def p_def [symmetric] fetch_law [OF reads] by auto
    with removed Some 3 ds(2) show ?thesis by blast
  qed
qed

text \<open>A forced deletion takes direct children away and nothing else.\<close>

lemma children_removed:
  assumes writes: "writes_law db docs"
    and ids: "\<forall>i d. starts_with i ''dir::'' \<and> docs s i = Some d \<longrightarrow> jget_str ''_id'' d = Some i"
    and ds: "\<And>d. d \<in> set ds \<longleftrightarrow> (\<exists>i. starts_with i ''dir::'' \<and> docs s i = Some d)"
  shows "docs (delete_children db (filter (is_child_of p) ds) s) i = docs s i \<or>
    docs (delete_children db (filter (is_child_of p) ds) s) i = None \<and> (\<exists>d. docs s i = Some d \<and> is_child_of p d)"
proof (cases "Some i \<in> jget_str ''_id'' ` set (filter (is_child_of p) ds)")
  case True
  then obtain d where d: "jget_str ''_id'' d = Some i" "d \<in> set ds" "is_child_of p d" by (auto simp: image_iff)
  then obtain j where j: "starts_with j ''dir::''" "docs s j = Some d" unfolding ds by blast
  with ids d(1) have "j = i" by fastforce
  with j d(3) delete_children_effect [OF writes, of "filter (is_child_of p) ds" s i] show ?thesis by auto
next
  case False
  with delete_children_effect [OF writes, of "filter (is_child_of p) ds" s i] show ?thesis by auto
qed


section \<open>Creation\<close>

lemma request_path_valid:
  assumes "validate_virtual_path p = Inr ()"
  shows "request_path p = p"
proof -
  from assms have p: "starts_with p ''/''" "\<not> contains_str ''//'' p"
    by (auto simp: validate_virtual_path_def split: if_splits)
  then obtain q where q: "p = CHR ''/'' # q" by (auto simp: starts_with_iff)
  with p(2) have "\<not> starts_with p ''//''" by simp
  with q have "q \<noteq> [] \<Longrightarrow> hd q \<noteq> CHR ''/''" by (cases q) (auto simp: starts_with_iff)
  then have "trim_start (CHR ''/'') p = q"
    using q by (cases q) (auto simp: trim_start_def)
  then show ?thesis by (simp add: request_path_def q)
qed

lemma fresh_inode_large: "fresh_inode vs = Some v \<Longrightarrow> 1000 \<le> v"
  by (induction vs) (auto split: if_splits)

text \<open>
  C20: a directory is created only at a valid path that is free; the stored document has the
  path, the name and the parent derived from it, and an inode outside the reserved range;
  it is what the server then returns for that path, and no other document changes.
\<close>

theorem create_then_get_directory:
  assumes laws: "reads_law db docs" "writes_law db docs"
    and run: "create_directory lb env db virtual_path name s = (Reply 201 body, s1)"
  shows "validate_virtual_path virtual_path = Inr () \<and> docs s (vfs_dir_id lb virtual_path) = None \<and>
    (\<exists>d inode. docs s1 = (docs s)(vfs_dir_id lb virtual_path \<mapsto> d) \<and> 1000 \<le> inode \<and>
      same_fields d (directory_doc lb env virtual_path name inode) \<and>
      (\<forall>parent. derived_parent virtual_path = Some parent \<longrightarrow> is_child_of parent d) \<and>
      get_directory lb db virtual_path s1 = (Reply 200 (strip_internals d), s1))"
proof -
  let ?did = "vfs_dir_id lb virtual_path"
  have valid: "validate_virtual_path virtual_path = Inr ()"
    using run by (auto simp: create_directory_def invalid_def split: sum.splits)
  have free: "docs s ?did = None"
    using run valid by (auto simp: create_directory_def reads_law_get [OF laws(1)] split: option.splits)
  obtain inode where inode: "fresh_inode (ae_draws env) = Some inode"
    using run valid free
    by (cases "fresh_inode (ae_draws env)") (simp_all add: create_directory_def reads_law_get [OF laws(1)])
  let ?doc = "directory_doc lb env virtual_path name inode"
  have "store_doc db ?did ?doc (Reply 201 (strip_internals ?doc)) s = (Reply 201 body, s1)"
    using run valid free inode by (simp add: create_directory_def reads_law_get [OF laws(1)] Let_def)
  from store_doc_cases [OF laws(2) this] obtain d where
    d: "same_fields d ?doc" "docs s1 = (docs s)(?did \<mapsto> d)" by auto
  have "get_directory lb db virtual_path s1 = (Reply 200 (strip_internals d), s1)"
    by (simp add: get_directory_def request_path_valid [OF valid] reads_law_get [OF laws(1)] d(2))
  moreover have "is_child_of parent d" if "derived_parent virtual_path = Some parent" for parent
    using that d(1) by (simp add: is_child_of_def same_fields_def jget_str_def directory_doc_def json_str_opt_def)
  ultimately show ?thesis using valid free d fresh_inode_large [OF inode] by blast
qed

section \<open>The tree\<close>

text \<open>
  Every directory of a tree is the requested one or lies below it, at most ten levels down,
  whatever depth was asked for.
\<close>

theorem tree_bounded:
  assumes "get_tree db query depth s = (Reply 200 body, s')"
    and "jget ''tree'' body = Some (JArr items)" "item \<in> set items"
  shows "\<exists>v. jget_str ''virtual_path'' item = Some v \<and>
    (v = unwrap_or query ''/'' \<or> starts_with v (trim_end (CHR ''/'') (unwrap_or query ''/'') @ ''/'')) \<and>
    count_list v (CHR ''/'') \<le> count_list (unwrap_or query ''/'') (CHR ''/'') + 10"
proof -
  let ?path = "unwrap_or query ''/''"
  let ?m = "min (unwrap_or depth 3) 10"
  obtain ds s1 where ds: "fetch_all db ''dir::'' s = (Inr ds, s1)"
    using assms(1) by (auto simp: get_tree_def Let_def fetch_all_def internal_def split: prod.splits sum.splits)
  have "items = List.map_filter (tree_item ?path ?m) ds"
    using assms(1,2) by (auto simp: get_tree_def Let_def ds)
  then obtain doc where item: "tree_item ?path ?m doc = Some item"
    using assms(3) by (auto simp: map_filter_set)
  then obtain v rel where v: "jget_str ''virtual_path'' doc = Some v"
    "v = ?path \<or> starts_with v (trim_end (CHR ''/'') ?path @ ''/'')"
    "(if ?path = ''/'' then Some v else strip_prefix ?path v) = Some rel"
    "count_list rel (CHR ''/'') \<le> ?m" "jget_str ''virtual_path'' item = Some v"
    by (auto simp: tree_item_def jget_str_def split: option.splits if_splits)
  have "count_list rel (CHR ''/'') \<le> 10"
    using v(4) by simp
  moreover have "count_list v (CHR ''/'') \<le> count_list ?path (CHR ''/'') + count_list rel (CHR ''/'')"
    using v(3) by (auto simp: strip_prefix_Some split: if_splits)
  ultimately show ?thesis using v(2,5) by auto
qed

section \<open>Concrete directories\<close>

definition sample_dir :: "string \<Rightarrow> string option \<Rightarrow> string \<times> json" where
  "sample_dir path parent = (''dir::'' @ path,
     JObj [(''_id'', JStr (''dir::'' @ path)), (''_rev'', JStr ''1''), (''virtual_path'', JStr path),
       (''parent_path'', json_str_opt parent)])"

definition sample_dirs :: store where
  "sample_dirs = [sample_dir ''/a'' (Some ''/''), sample_dir ''/a/b'' (Some ''/a''), sample_dir ''/a/b/c'' (Some ''/a/b'')]"

lemma sample_dirs_ids:
  "\<forall>i d. starts_with i ''dir::'' \<and> map_of sample_dirs i = Some d \<longrightarrow> jget_str ''_id'' d = Some i"
  by (auto simp: sample_dirs_def sample_dir_def jget_str_def split: if_splits)

lemma sample_dirs_get [simp]:
  "map_of sample_dirs ''dir::/a'' = Some (snd (sample_dir ''/a'' (Some ''/'')))"
  "map_of sample_dirs ''dir::/a/b/c'' = Some (snd (sample_dir ''/a/b/c'' (Some ''/a/b'')))"
  "map_of sample_dirs ''dir::/x'' = None"
  by (simp_all add: sample_dirs_def sample_dir_def)

lemma sample_dirs_rows [simp]:
  "filter (\<lambda>e. starts_with (fst e) ''dir::'') (AList.clearjunk sample_dirs) = sample_dirs"
  by (simp add: sample_dirs_def sample_dir_def starts_with_def)

lemma sample_request_paths [simp]:
  "request_path ''a'' = ''/a''" "vfs_dir_id sample_libs ''/a'' = ''dir::/a''" "vfs_dir_id sample_libs ''/x'' = ''dir::/x''"
  by (simp_all add: request_path_def trim_start_def vfs_dir_id_def)

text \<open>
  A forced deletion is not a cascade: with /a, /a/b and /a/b/c it deletes /a and /a/b and
  leaves /a/b/c, a directory without a parent.
\<close>

theorem forced_delete_leaves_orphans:
  "\<exists>s'. delete_directory sample_libs store_couch ''a'' (Some True) sample_dirs = (ok_reply, s') \<and>
    map fst s' = [''dir::/a/b/c'']"
proof -
  have rows: "row_docs (map doc_row sample_dirs) = map snd sample_dirs"
    by (simp add: sample_dirs_def)
  have cs: "filter (is_child_of ''/a'') (map snd sample_dirs) = [snd (sample_dir ''/a/b'' (Some ''/a''))]"
    by (simp add: sample_dirs_def sample_dir_def is_child_of_def jget_str_def json_str_opt_def)
  have "fetch store_couch ''dir::/a'' ''Directory not found'' sample_dirs =
      (Inr (snd (sample_dir ''/a'' (Some ''/''))), sample_dirs)"
    by (simp add: fetch_def)
  then show ?thesis
    by (simp add: delete_directory_def Let_def fetch_all_def rows cs)
      (simp add: sample_dir_def remove_doc_def jget_str_def sample_dirs_def)
qed


theorem create_then_get_directory_witness:
  "\<exists>s1 body d. create_directory sample_libs \<lparr>ae_now = ''t'', ae_uuid = ''u'', ae_draws = [7, 4711]\<rparr> store_couch ''/x'' None
      sample_dirs = (Reply 201 body, s1) \<and>
    get_directory sample_libs store_couch ''/x'' s1 = (Reply 200 (strip_internals d), s1) \<and> is_child_of ''/'' d"
proof -
  let ?env = "\<lparr>ae_now = ''t'', ae_uuid = ''u'', ae_draws = [7, 4711]\<rparr>"
  obtain body s1 where run: "create_directory sample_libs ?env store_couch ''/x'' None sample_dirs = (Reply 201 body, s1)"
    by (simp add: create_directory_def validate_virtual_path_def starts_with_def Let_def store_doc_def)
  have "derived_parent ''/x'' = Some ''/''" by (simp add: derived_parent_def trim_end_def rsplit_once_def)
  with create_then_get_directory [OF store_couch_reads store_couch_writes run] run show ?thesis by blast
qed

theorem tree_bounded_witness:
  "\<exists>v. jget_str ''virtual_path'' (JObj [(''name'', JNull), (''virtual_path'', JStr ''/a/b''), (''has_children'', JBool False)]) = Some v \<and>
    count_list v (CHR ''/'') \<le> count_list ''/a'' (CHR ''/'') + 10"
proof -
  have rows: "row_docs (map doc_row sample_dirs) = map snd sample_dirs"
    by (simp add: sample_dirs_def)
  let ?item = "\<lambda>p. JObj [(''name'', JNull), (''virtual_path'', JStr p), (''has_children'', JBool False)]"
  have tree: "List.map_filter (tree_item ''/a'' 3) (map snd sample_dirs) = [?item ''/a'', ?item ''/a/b'', ?item ''/a/b/c'']"
    by (simp add: sample_dirs_def sample_dir_def map_filter_simps tree_item_def jget_str_def starts_with_def trim_end_def
        json_opt_def)
  have run: "get_tree store_couch (Some ''/a'') None sample_dirs =
      (Reply 200 (JObj [(''path'', JStr ''/a''), (''tree'', JArr [?item ''/a'', ?item ''/a/b'', ?item ''/a/b/c''])]), sample_dirs)"
    by (simp add: get_tree_def fetch_all_def rows tree Let_def)
  from tree_bounded [OF run, of "[?item ''/a'', ?item ''/a/b'', ?item ''/a/b/c'']" "?item ''/a/b''"]
  show ?thesis by auto
qed

end
