(* ===== verification/Agent_Api.thy ===== *)
theory Agent_Api
  imports Api Server_Caches Access_Tracker "HOL-Library.Countable"
begin

text \<open>
  \<open>handlers/agent.rs\<close>: the replication proxies with their type filters, and the endpoints
  agents report to. The text of a JSON value is a parameter, as is the HTTP request to
  CouchDB: it gives the status, the content type and the body, or nothing when CouchDB is
  not reachable.
\<close>

section \<open>Flows\<close>

definition FLOW1_PUSH_TYPES :: "string list" where
  "FLOW1_PUSH_TYPES = [''file'', ''node'', ''agent_status'', ''utilization_snapshot'', ''annotation'',
     ''access'', ''replica'', ''notification'']"

definition FLOW2_PULL_EXCLUDE :: "string list" where
  "FLOW2_PULL_EXCLUDE = [''agent_status'', ''utilization_snapshot'']"

definition FLOW3_BROWSER_EXCLUDE :: "string list" where
  "FLOW3_BROWSER_EXCLUDE = [''credential'', ''utilization_snapshot'']"

definition is_allowed_flow1 :: "string \<Rightarrow> bool" where
  "is_allowed_flow1 doc_type \<longleftrightarrow> doc_type \<in> set FLOW1_PUSH_TYPES"

definition is_allowed_flow2 :: "string \<Rightarrow> bool" where
  "is_allowed_flow2 doc_type \<longleftrightarrow> doc_type \<notin> set FLOW2_PULL_EXCLUDE"

definition is_allowed_flow3 :: "string \<Rightarrow> bool" where
  "is_allowed_flow3 doc_type \<longleftrightarrow> doc_type \<notin> set FLOW3_BROWSER_EXCLUDE"

section \<open>The proxies\<close>

record text_codec =
  tc_parse :: "string \<Rightarrow> json option"
  tc_print :: "json \<Rightarrow> string"

datatype proxy_method = GetM | PostM | PutM | DeleteM | HeadM | OtherM

text \<open>\<open>px_body\<close> is \<open>None\<close> when the body is larger than the limit of the route.\<close>

record proxy_request =
  px_method :: proxy_method
  px_uri :: string
  px_content_type :: "string option"
  px_body :: "string option"

record proxied =
  pd_status :: nat
  pd_content_type :: "string option"
  pd_body :: string

type_synonym 's upstream =
  "proxy_method \<Rightarrow> string \<Rightarrow> string option \<Rightarrow> string option \<Rightarrow> 's \<Rightarrow> proxied option \<times> 's"

datatype proxy_reply = Proxied nat "string option" string | ProxyText nat string | ProxyJson nat json

text \<open>\<open>retain\<close> on an array of the object, when there is one.\<close>

definition retain_in :: "string \<Rightarrow> (json \<Rightarrow> bool) \<Rightarrow> json \<Rightarrow> json" where
  "retain_in k P j =
     (case Option.bind (jget k j) as_array of
        Some xs \<Rightarrow> unwrap_or (jset k (JArr (filter P xs)) j) j
      | None \<Rightarrow> j)"

definition keep_change :: "json \<Rightarrow> bool" where
  "keep_change change \<longleftrightarrow>
     (let i = unwrap_or (jget_str ''id'' change) [] in
      if starts_with i ''credential::'' \<or> starts_with i ''utilization::'' then False
      else (case Option.bind (jget ''doc'' change) (jget_str ''type'') of
              Some doc_type \<Rightarrow> is_allowed_flow3 doc_type
            | None \<Rightarrow> True))"

definition first_ok_doc :: "json \<Rightarrow> json option" where
  "first_ok_doc entry =
     (case Option.bind (jget ''docs'' entry) as_array of
        Some (first # _) \<Rightarrow> jget ''ok'' first
      | _ \<Rightarrow> None)"

definition keep_bulk_entry :: "json \<Rightarrow> bool" where
  "keep_bulk_entry entry \<longleftrightarrow>
     (case Option.bind (first_ok_doc entry) (jget_str ''type'') of
        Some doc_type \<Rightarrow> is_allowed_flow3 doc_type
      | None \<Rightarrow> True)"

definition filter_changes_flow3 :: "text_codec \<Rightarrow> string \<Rightarrow> string option" where
  "filter_changes_flow3 tc body = map_option (\<lambda>j. tc_print tc (retain_in ''results'' keep_change j)) (tc_parse tc body)"

definition filter_bulk_get_flow3 :: "text_codec \<Rightarrow> string \<Rightarrow> string option" where
  "filter_bulk_get_flow3 tc body =
     map_option (\<lambda>j. tc_print tc (retain_in ''results'' keep_bulk_entry j)) (tc_parse tc body)"

definition filter_bulk_docs :: "text_codec \<Rightarrow> string \<Rightarrow> string option" where
  "filter_bulk_docs tc body =
     map_option (\<lambda>j. tc_print tc
       (retain_in ''docs'' (\<lambda>doc. is_allowed_flow1 (unwrap_or (jget_str ''type'' doc) [])) j)) (tc_parse tc body)"

text \<open>What the browser gets of CouchDB's answer.\<close>

definition browser_view :: "text_codec \<Rightarrow> proxy_method \<Rightarrow> string \<Rightarrow> proxied \<Rightarrow> proxy_reply" where
  "browser_view tc meth couch_path resp =
     (let body = pd_body resp; reply = Proxied (pd_status resp) (pd_content_type resp) in
      if contains_str ''/_bulk_get'' couch_path then reply (unwrap_or (filter_bulk_get_flow3 tc body) body)
      else if contains_str ''/_changes'' couch_path then reply (unwrap_or (filter_changes_flow3 tc body) body)
      else if meth = GetM \<and> is_success (pd_status resp) then
        (case tc_parse tc body of
           Some doc \<Rightarrow>
             (let doc_type = unwrap_or (jget_str ''type'' doc) [] in
              if doc_type \<noteq> [] \<and> \<not> is_allowed_flow3 doc_type
              then ProxyJson 404 (JObj [(''error'', JStr ''not_found''), (''reason'', JStr ''missing'')])
              else reply body)
         | None \<Rightarrow> reply body)
      else reply body)"

definition db_proxy ::
  "text_codec \<Rightarrow> string \<Rightarrow> 's upstream \<Rightarrow> proxy_request \<Rightarrow> 's \<Rightarrow> proxy_reply \<times> 's" where
  "db_proxy tc couchdb_url send req s =
     (case px_body req of
        None \<Rightarrow> (ProxyText 400 ''Body too large'', s)
      | Some body \<Rightarrow>
          (if px_method req = OtherM then (ProxyText 405 ''Method not allowed'', s)
           else
             (let couch_path = unwrap_or (strip_prefix ''/db'' (px_uri req)) ''/'';
                  (r, s1) = send (px_method req) (couchdb_url @ couch_path) (px_content_type req)
                              (if body = [] then None else Some body) s
              in case r of
                   None \<Rightarrow> (ProxyText 502 ''CouchDB unreachable'', s1)
                 | Some resp \<Rightarrow> (browser_view tc (px_method req) couch_path resp, s1))))"

definition push_body :: "text_codec \<Rightarrow> proxy_method \<Rightarrow> string \<Rightarrow> string \<Rightarrow> string" where
  "push_body tc meth couch_path body =
     (if contains_str ''_bulk_docs'' couch_path \<and> meth = PostM
      then unwrap_or (filter_bulk_docs tc body) body else body)"

definition replicate_proxy ::
  "text_codec \<Rightarrow> string \<Rightarrow> 's upstream \<Rightarrow> proxy_request \<Rightarrow> 's \<Rightarrow> proxy_reply \<times> 's" where
  "replicate_proxy tc couchdb_url send req s =
     (case px_body req of
        None \<Rightarrow> (ProxyText 400 ''Request body too large'', s)
      | Some body \<Rightarrow>
          (let couch_path = unwrap_or (strip_prefix ''/api/agent/replicate'' (px_uri req)) ''/'' in
           if px_method req = OtherM then (ProxyText 405 ''Method not allowed'', s)
           else
             (let (r, s1) = send (px_method req) (couchdb_url @ couch_path) (px_content_type req)
                              (Some (push_body tc (px_method req) couch_path body)) s
              in case r of
                   None \<Rightarrow> (ProxyText 502 ''CouchDB unreachable'', s1)
                 | Some resp \<Rightarrow> (Proxied (pd_status resp) None (pd_body resp), s1))))"

section \<open>Reports of agents\<close>

text \<open>A heartbeat's body that is not JSON counts as an empty object.\<close>

definition agent_beat :: "string \<Rightarrow> 's couch \<Rightarrow> json option \<Rightarrow> 's \<Rightarrow> reply \<times> 's" where
  "agent_beat now db parsed s =
     (let body = unwrap_or parsed (JObj []); node_id = unwrap_or (jget_str ''node_id'' body) [] in
      if node_id = [] then (invalid ''node_id is required'', s)
      else
        on_ok (fetch db (''node::'' @ node_id) ''Node not found'' s) (\<lambda>doc s1.
          or_panic (jset_all ([(''last_heartbeat'', JStr now), (''status'', JStr ''online'')] @
              given [''storage''] body @
              (case jget_str ''agent_version'' body of Some v \<Rightarrow> [(''agent_version'', JStr v)] | None \<Rightarrow> [])) doc)
            (\<lambda>d s2. store_doc db (''node::'' @ node_id) d ok_reply s2) s1))"

definition bulk_reject :: "json \<Rightarrow> json option" where
  "bulk_reject doc =
     (let doc_id = unwrap_or (jget_str ''_id'' doc) [] in
      if unwrap_or (jget_str ''type'' doc) [] \<noteq> ''file'' then
        Some (JObj [(''id'', JStr doc_id), (''ok'', JBool False), (''error'', JStr ''invalid_type''),
          (''reason'', JStr ''Only file documents are accepted'')])
      else if doc_id = [] then
        Some (JObj [(''id'', JNull), (''ok'', JBool False), (''error'', JStr ''missing_id''),
          (''reason'', JStr ''_id is required'')])
      else None)"

definition bulk_result :: "bulk_doc_result \<Rightarrow> json" where
  "bulk_result br =
     (let i = unwrap_or (cr_id br) [] in
      if cr_ok br = Some True
      then JObj [(''id'', JStr i), (''ok'', JBool True), (''rev'', json_str_opt (cr_rev br))]
      else JObj [(''id'', JStr i), (''ok'', JBool False), (''error'', JStr (unwrap_or (cr_error br) ''unknown'')),
        (''reason'', JStr (unwrap_or (cr_reason br) []))])"

definition bulk_failed :: "couch_error \<Rightarrow> json \<Rightarrow> json" where
  "bulk_failed e doc =
     JObj [(''id'', JStr (unwrap_or (jget_str ''_id'' doc) [])), (''ok'', JBool False),
       (''error'', JStr ''internal''), (''reason'', JStr (couch_error_text e))]"

definition result_ok :: "json \<Rightarrow> bool" where
  "result_ok r \<longleftrightarrow> jget ''ok'' r = Some (JBool True)"

definition bulk_summary :: "json list \<Rightarrow> reply" where
  "bulk_summary rs =
     Reply 200 (JObj [(''results'', JArr rs), (''accepted'', count_json (filter result_ok rs)),
       (''rejected'', JNum (PosInt (of_nat (length rs - length (filter result_ok rs)))))])"

definition bulk_files :: "'s couch \<Rightarrow> json list \<Rightarrow> 's \<Rightarrow> reply \<times> 's" where
  "bulk_files db docs s =
     (if docs = [] then (bulk_summary [], s)
      else
        (let valid_docs = filter (\<lambda>d. bulk_reject d = None) docs;
             rejects = List.map_filter bulk_reject docs
         in if valid_docs = [] then (bulk_summary rejects, s)
            else (case db_bulk db valid_docs s of
                    (Inr brs, s1) \<Rightarrow> (bulk_summary (rejects @ map bulk_result brs), s1)
                  | (Inl e, s1) \<Rightarrow> (bulk_summary (rejects @ map (bulk_failed e) valid_docs), s1))))"

definition agent_status :: "string \<Rightarrow> 's couch \<Rightarrow> json \<Rightarrow> 's \<Rightarrow> reply \<times> 's" where
  "agent_status now db body s =
     (case jget_str ''node_id'' body of
        None \<Rightarrow> (invalid ''node_id is required'', s)
      | Some node_id \<Rightarrow>
          (let doc_id = ''status::'' @ node_id; (got, s1) = db_get db doc_id s;
               rv = Option.bind (ok got) (jget_str ''_rev'')
           in or_panic (jset_all ([(''_id'', JStr doc_id), (''type'', JStr ''agent_status''), (''updated_at'', JStr now)] @
                  (case rv of Some r \<Rightarrow> [(''_rev'', JStr r)] | None \<Rightarrow> [])) body)
                (\<lambda>d s2. store_doc db doc_id d ok_reply s2) s1))"

text \<open>\<open>stamp\<close> is the time of the request in the format of the identifier.\<close>

definition agent_utilization :: "string \<Rightarrow> string \<Rightarrow> 's couch \<Rightarrow> json \<Rightarrow> 's \<Rightarrow> reply \<times> 's" where
  "agent_utilization stamp now db body s =
     (case jget_str ''node_id'' body of
        None \<Rightarrow> (invalid ''node_id is required'', s)
      | Some node_id \<Rightarrow>
          (let doc_id = ''utilization::'' @ node_id @ ''::'' @ stamp in
           or_panic (jset_all [(''_id'', JStr doc_id), (''type'', JStr ''utilization_snapshot''),
               (''timestamp'', JStr now)] body)
             (\<lambda>d s2. store_doc db doc_id d ok_reply s2) s))"

definition agent_credentials :: "'s couch \<Rightarrow> string \<Rightarrow> 's \<Rightarrow> reply \<times> 's" where
  "agent_credentials db access_key_id s =
     (case db_get db (''credential::'' @ access_key_id) s of
        (Inr doc, s1) \<Rightarrow>
          (Reply 200 (JObj [(''access_key_id'', JStr access_key_id), (''name'', json_opt (jget ''name'' doc)),
             (''enabled'', json_opt (jget ''enabled'' doc))]), s1)
      | (Inl e, s1) \<Rightarrow> (internal e, s1))"

definition file_key :: "string \<Rightarrow> string" where
  "file_key file_id = (if starts_with file_id ''file::'' then file_id else ''file::'' @ file_id)"

definition agent_transfer ::
  "time \<Rightarrow> 's couch \<Rightarrow> string \<Rightarrow> access_tracker \<times> 's \<Rightarrow> reply \<times> access_tracker \<times> 's" where
  "agent_transfer now db file_id st =
     (let (t, s) = st; doc_id = file_key file_id in
      on_ok (with_cache t (fetch db doc_id ''File not found'' s)) (\<lambda>doc (t1, s1).
        (Reply 200 (JObj [(''file_id'', JStr doc_id), (''node_id'', JStr (source_field ''node_id'' doc)),
           (''export_path'', JStr (source_field ''export_path'' doc)), (''size'', json_opt (jget ''size'' doc)),
           (''mime_type'', json_opt (jget ''mime_type'' doc))]),
         tracker_record now doc_id t1, s1)))"


section \<open>What the filters let through\<close>

text \<open>A codec that reads back what it prints, as serde_json does.\<close>

definition text_law :: "text_codec \<Rightarrow> bool" where
  "text_law tc \<longleftrightarrow> (\<forall>j. tc_parse tc (tc_print tc j) = Some j)"

definition array_of :: "string \<Rightarrow> json \<Rightarrow> json list" where
  "array_of k j = unwrap_or (Option.bind (jget k j) as_array) []"

lemma array_of_retain: "array_of k (retain_in k P j) = filter P (array_of k j)"
proof (cases "Option.bind (jget k j) as_array")
  case None
  then show ?thesis by (simp add: retain_in_def array_of_def)
next
  case (Some xs)
  then have "is_object j" by (cases j) auto
  then obtain j' where "jset k (JArr (filter P xs)) j = Some j'" using jset_object by blast
  with Some show ?thesis by (simp add: retain_in_def array_of_def jget_jset)
qed

text \<open>
  C17: an agent's bulk push reaches CouchDB with exactly its documents of the types an agent may
  write, in their order; credentials, rules and directories never pass that way.
\<close>

theorem push_filtered:
  assumes "text_law tc" "tc_parse tc body = Some j" "px_body req = Some body" "px_method req = PostM"
    and "strip_prefix ''/api/agent/replicate'' (px_uri req) = Some path" "contains_str ''_bulk_docs'' path"
  shows "\<exists>sent j'. replicate_proxy tc base send req s =
      (case send PostM (base @ path) (px_content_type req) (Some sent) s of
         (None, s1) \<Rightarrow> (ProxyText 502 ''CouchDB unreachable'', s1)
       | (Some resp, s1) \<Rightarrow> (Proxied (pd_status resp) None (pd_body resp), s1)) \<and>
    tc_parse tc sent = Some j' \<and>
    array_of ''docs'' j' =
      filter (\<lambda>d. \<exists>ty \<in> {''file'', ''node'', ''agent_status'', ''utilization_snapshot'', ''annotation'', ''access'',
        ''replica'', ''notification''}. jget_str ''type'' d = Some ty) (array_of ''docs'' j)"
proof -
  let ?P = "\<lambda>d. is_allowed_flow1 (unwrap_or (jget_str ''type'' d) [])"
  let ?j = "retain_in ''docs'' ?P j"
  have P: "?P d \<longleftrightarrow> (\<exists>ty \<in> {''file'', ''node'', ''agent_status'', ''utilization_snapshot'', ''annotation'', ''access'',
        ''replica'', ''notification''}. jget_str ''type'' d = Some ty)" for d
    by (cases "jget_str ''type'' d") (auto simp: is_allowed_flow1_def FLOW1_PUSH_TYPES_def)
  have sent: "push_body tc PostM path body = tc_print tc ?j"
    by (simp add: push_body_def assms(2,6) filter_bulk_docs_def)
  have run: "replicate_proxy tc base send req s =
      (case send PostM (base @ path) (px_content_type req) (Some (tc_print tc ?j)) s of
         (None, s1) \<Rightarrow> (ProxyText 502 ''CouchDB unreachable'', s1)
       | (Some resp, s1) \<Rightarrow> (Proxied (pd_status resp) None (pd_body resp), s1))"
    unfolding replicate_proxy_def assms(3-5) Let_def
    by (simp add: sent split: prod.split option.split)
  moreover have "tc_parse tc (tc_print tc ?j) = Some ?j" using assms(1) by (simp add: text_law_def)
  ultimately show ?thesis using array_of_retain [of "''docs''" ?P j] unfolding P by blast
qed

text \<open>
  The filter looks only at bulk pushes: an agent that puts a credential document by its own
  URL has it forwarded with the administrator's rights, unchanged.
\<close>

theorem agent_writes_credential:
  "replicate_proxy tc base send
     \<lparr>px_method = PutM, px_uri = ''/api/agent/replicate/credential::k'', px_content_type = ct, px_body = Some body\<rparr> s =
   (case send PutM (base @ ''/credential::k'') ct (Some body) s of
      (None, s1) \<Rightarrow> (ProxyText 502 ''CouchDB unreachable'', s1)
    | (Some resp, s1) \<Rightarrow> (Proxied (pd_status resp) None (pd_body resp), s1))"
  by (simp add: replicate_proxy_def push_body_def split: prod.split option.split)

text \<open>The browser's proxy filters single documents, bulk reads and the changes feed only: a
  listing of all documents comes through as CouchDB wrote it, credentials included, for any
  answer that is not itself a document with a type.
\<close>

lemma browser_lists_credentials:
  assumes "send GetM (base @ ''/_all_docs?include_docs=true'') ct None s = (Some resp, s1)"
    and "\<forall>j. tc_parse tc (pd_body resp) = Some j \<longrightarrow> jget ''type'' j = None"
  shows "db_proxy tc base send
      \<lparr>px_method = GetM, px_uri = ''/db/_all_docs?include_docs=true'', px_content_type = ct, px_body = Some []\<rparr> s =
    (Proxied (pd_status resp) (pd_content_type resp) (pd_body resp), s1)"
proof -
  have paths: "\<not> contains_str ''/_bulk_get'' ''/_all_docs?include_docs=true''"
    "\<not> contains_str ''/_changes'' ''/_all_docs?include_docs=true''"
    by (simp_all add: starts_with_def)
  have ty: "jget_str ''type'' j = None" if "tc_parse tc (pd_body resp) = Some j" for j
    using assms(2) that by (simp add: jget_str_def)
  have "browser_view tc GetM ''/_all_docs?include_docs=true'' resp =
      Proxied (pd_status resp) (pd_content_type resp) (pd_body resp)"
    unfolding browser_view_def Let_def
    by (simp only: paths if_False) (simp add: ty split: option.split)
  with assms(1) show ?thesis by (simp add: db_proxy_def)
qed

text \<open>The changes feed of the browser carries no credential and no utilization snapshot, by
  identifier or by the type of an included document, and loses no other change.
\<close>

lemma browser_changes_filtered:
  assumes "text_law tc" "tc_parse tc (pd_body resp) = Some j"
    and "contains_str ''/_changes'' path" "\<not> contains_str ''/_bulk_get'' path"
  shows "\<exists>out j'. browser_view tc meth path resp = Proxied (pd_status resp) (pd_content_type resp) out \<and>
    tc_parse tc out = Some j' \<and>
    array_of ''results'' j' = filter (\<lambda>c.
      \<not> (\<exists>i. jget_str ''id'' c = Some i \<and> (starts_with i ''credential::'' \<or> starts_with i ''utilization::'')) \<and>
      \<not> (\<exists>d. jget ''doc'' c = Some d \<and>
          (jget_str ''type'' d = Some ''credential'' \<or> jget_str ''type'' d = Some ''utilization_snapshot'')))
      (array_of ''results'' j)"
proof -
  have keep: "keep_change c \<longleftrightarrow>
      \<not> (\<exists>i. jget_str ''id'' c = Some i \<and> (starts_with i ''credential::'' \<or> starts_with i ''utilization::'')) \<and>
      \<not> (\<exists>d. jget ''doc'' c = Some d \<and>
          (jget_str ''type'' d = Some ''credential'' \<or> jget_str ''type'' d = Some ''utilization_snapshot''))" for c
  proof -
    have "\<not> starts_with [] ''credential::''" "\<not> starts_with [] ''utilization::''"
      by (simp_all add: starts_with_def)
    then show ?thesis
      by (cases "jget_str ''id'' c"; cases "jget ''doc'' c")
        (auto simp: keep_change_def Let_def is_allowed_flow3_def FLOW3_BROWSER_EXCLUDE_def split: option.splits)
  qed
  let ?j = "retain_in ''results'' keep_change j"
  have "browser_view tc meth path resp = Proxied (pd_status resp) (pd_content_type resp) (tc_print tc ?j)"
    unfolding browser_view_def Let_def filter_changes_flow3_def by (simp add: assms(2-4))
  moreover have "tc_parse tc (tc_print tc ?j) = Some ?j" using assms(1) by (simp add: text_law_def)
  moreover have "array_of ''results'' ?j = filter keep_change (array_of ''results'' j)" by (rule array_of_retain)
  ultimately show ?thesis unfolding keep by blast
qed

section \<open>Accounting of bulk uploads\<close>

definition valid_upload :: "json \<Rightarrow> bool" where
  "valid_upload d \<longleftrightarrow> jget_str ''type'' d = Some ''file'' \<and> (\<exists>i. jget_str ''_id'' d = Some i \<and> i \<noteq> [])"

lemma bulk_reject_None: "bulk_reject d = None \<longleftrightarrow> valid_upload d"
  by (cases "jget_str ''type'' d"; cases "jget_str ''_id'' d") (auto simp: bulk_reject_def valid_upload_def Let_def)

lemma length_rejects: "length (List.map_filter f xs) + length (filter (\<lambda>d. f d = None) xs) = length xs"
  by (induction xs) (auto simp: map_filter_simps split: option.splits)

text \<open>A bulk upload writes, in one request, exactly the file documents that have an identifier,
  and reports one result per submitted document, as CouchDB gives one per written one; the
  numbers of accepted and rejected documents are those of the results.
\<close>

lemma bulk_files_accounted:
  assumes "\<forall>ds s r s'. db_bulk db ds s = (Inr r, s') \<longrightarrow> length r = length ds"
    and "bulk_files (logged db) docs (s, []) = (reply, s', log)"
  shows "\<exists>rs. reply = Reply 200 (JObj [(''results'', JArr rs),
      (''accepted'', count_json (filter result_ok rs)),
      (''rejected'', count_json (filter (\<lambda>r. \<not> result_ok r) rs))]) \<and>
    length rs = length docs \<and> concat log = filter valid_upload docs \<and> length log \<le> 1"
proof -
  have rest: "count_json (filter (\<lambda>r. \<not> result_ok r) rs) =
      JNum (PosInt (of_nat (length rs - length (filter result_ok rs))))" for rs
  proof -
    have "length rs - length (filter result_ok rs) = length (filter (\<lambda>r. \<not> result_ok r) rs)"
      using sum_length_filter_compl [of result_ok rs] by linarith
    then show ?thesis by (simp add: count_json_def)
  qed
  let ?valid = "filter valid_upload docs"
  let ?rejects = "List.map_filter bulk_reject docs"
  have n: "length ?rejects + length ?valid = length docs"
    using length_rejects [of bulk_reject docs] by (simp add: bulk_reject_None)
  show ?thesis
  proof (cases "?valid = []")
    case True
    with assms(2) n have "log = []" "reply = bulk_summary ?rejects \<and> length ?rejects = length docs"
      by (auto simp: bulk_files_def bulk_reject_None Let_def map_filter_simps split: if_splits)
    with True show ?thesis unfolding bulk_summary_def rest [symmetric] by (intro exI [of _ ?rejects]) simp
  next
    case False
    then have "docs \<noteq> []" by auto
    obtain r s1 where bulk: "db_bulk db ?valid s = (r, s1)" by (cases "db_bulk db ?valid s")
    obtain rs where rs: "reply = bulk_summary (?rejects @ rs)" "length rs = length ?valid" "log = [?valid]"
    proof (cases r)
      case (Inr brs)
      with bulk assms(1) have "length brs = length ?valid" by blast
      with Inr False \<open>docs \<noteq> []\<close> assms(2) bulk show thesis
        by (intro that [of "map bulk_result brs"]) (simp_all add: bulk_files_def bulk_reject_None Let_def)
    next
      case (Inl e)
      with False \<open>docs \<noteq> []\<close> assms(2) bulk show thesis
        by (intro that [of "map (bulk_failed e) ?valid"]) (simp_all add: bulk_files_def bulk_reject_None Let_def)
    qed
    with n show ?thesis unfolding bulk_summary_def rest [symmetric] by (intro exI [of _ "?rejects @ rs"]) simp
  qed
qed

section \<open>Concrete requests\<close>

text \<open>
  A codec with the law: a value is printed in unary as the number that codes it among the
  countably many values.
\<close>

instance jnum :: countable
  by countable_datatype

instance json :: countable
  by countable_datatype

definition unary_codec :: text_codec where
  "unary_codec =
     \<lparr>tc_parse = (\<lambda>t. Some (from_nat (length t))), tc_print = (\<lambda>j. replicate (to_nat j) (CHR ''x''))\<rparr>"

lemma unary_codec_law: "text_law unary_codec"
  by (simp add: text_law_def unary_codec_def)

definition sample_push :: json where
  "sample_push = JObj [(''docs'', JArr [JObj [(''type'', JStr ''file'')], JObj [(''type'', JStr ''credential'')]])]"

theorem push_filtered_witness:
  "\<exists>sent j'. replicate_proxy unary_codec ''http://db'' (\<lambda>m url ct b s. (None, s @ [(url, b)]))
      \<lparr>px_method = PostM, px_uri = ''/api/agent/replicate/_bulk_docs'', px_content_type = None,
        px_body = Some (tc_print unary_codec sample_push)\<rparr> [] =
      (ProxyText 502 ''CouchDB unreachable'', [(''http://db/_bulk_docs'', Some sent)]) \<and>
    tc_parse unary_codec sent = Some j' \<and> array_of ''docs'' j' = [JObj [(''type'', JStr ''file'')]]"
proof -
  let ?req = "\<lparr>px_method = PostM, px_uri = ''/api/agent/replicate/_bulk_docs'', px_content_type = None,
        px_body = Some (tc_print unary_codec sample_push)\<rparr>"
  have parse: "tc_parse unary_codec (tc_print unary_codec sample_push) = Some sample_push"
    using unary_codec_law by (simp add: text_law_def)
  have path: "strip_prefix ''/api/agent/replicate'' (px_uri ?req) = Some ''/_bulk_docs''"
    "contains_str ''_bulk_docs'' ''/_bulk_docs''"
    by (simp_all add: starts_with_def)
  have docs: "array_of ''docs'' sample_push = [JObj [(''type'', JStr ''file'')], JObj [(''type'', JStr ''credential'')]]"
    by (simp add: array_of_def sample_push_def)
  from push_filtered [OF unary_codec_law parse _ _ path, of "''http://db''" "\<lambda>m url ct b s. (None, s @ [(url, b)])" "[]"]
  show ?thesis by (simp add: docs jget_str_def)
qed

definition sample_changes :: json where
  "sample_changes = JObj [(''results'', JArr [JObj [(''id'', JStr ''credential::k'')], JObj [(''id'', JStr ''file::1'')]])]"

end
