(* ===== verification/Files_Api.thy ===== *)
theory Files_Api
  imports Api Access_Tracker Numbers
begin

text \<open>
  \<open>handlers/files.rs\<close>: the file listing, the documents of one file, its content with range
  requests, and its access record. The file system, the header parser of the HTTP library
  and the clock are the record \<open>file_env\<close>; \<open>fe_checks\<close> says whether the build panics on
  arithmetic overflow.
\<close>

record file_env =
  fe_now :: time
  fe_present :: "string \<Rightarrow> bool"
  fe_len :: "string \<Rightarrow> u64 option"
  fe_open :: "string \<Rightarrow> u8 list option"
  fe_seek :: "string \<Rightarrow> u64 \<Rightarrow> bool"
  fe_header :: "string \<Rightarrow> bool"
  fe_checks :: bool

text \<open>The error body of this module has one code for every error.\<close>

definition file_error :: "nat \<Rightarrow> string \<Rightarrow> reply" where
  "file_error status message = Reply status (error_json ''error'' message)"

definition fetch_file :: "'s couch \<Rightarrow> string \<Rightarrow> 's \<Rightarrow> (reply + json) \<times> 's" where
  "fetch_file db doc_id s =
     (case db_get db doc_id s of
        (Inr doc, s1) \<Rightarrow> (Inr doc, s1)
      | (Inl (NotFound _), s1) \<Rightarrow> (Inl (file_error 404 ''File not found''), s1)
      | (Inl e, s1) \<Rightarrow> (Inl (file_error 500 (couch_error_text e)), s1))"

definition file_key :: "string \<Rightarrow> string" where
  "file_key file_id = (if starts_with file_id ''file::'' then file_id else ''file::'' @ file_id)"

section \<open>Listing and lookup\<close>

record file_query =
  fq_node_id :: "string option"
  fq_status :: "string option"
  fq_mime_type :: "string option"
  fq_limit :: "u64 option"
  fq_offset :: "u64 option"

definition listed_file :: "file_query \<Rightarrow> json \<Rightarrow> json option" where
  "listed_file q doc =
     (if jget_str ''type'' doc \<noteq> Some ''file'' then None
      else if (case fq_node_id q of None \<Rightarrow> False
               | Some n \<Rightarrow> Option.bind (jget ''source'' doc) (jget_str ''node_id'') \<noteq> Some n) then None
      else if jget_str ''status'' doc \<noteq> Some (unwrap_or (fq_status q) ''active'') then None
      else if (case fq_mime_type q of None \<Rightarrow> False
               | Some m \<Rightarrow> unwrap_or (jget_str ''mime_type'' doc) [] \<noteq> m) then None
      else Some (strip_internals doc))"

definition list_files :: "'s couch \<Rightarrow> file_query \<Rightarrow> 's \<Rightarrow> reply \<times> 's" where
  "list_files db q s =
     (case db_prefix db ''file::'' s of
        (Inl e, s1) \<Rightarrow> (file_error 500 (couch_error_text e), s1)
      | (Inr rows, s1) \<Rightarrow>
          (Reply 200 (page (fq_offset q) (fq_limit q) (List.map_filter (listed_file q) (row_docs rows))), s1))"

definition get_file :: "'s couch \<Rightarrow> string \<Rightarrow> 's \<Rightarrow> reply \<times> 's" where
  "get_file db file_id s =
     on_ok (fetch_file db (file_key file_id) s) (\<lambda>doc s1. (Reply 200 (strip_internals doc), s1))"

definition path_selector :: "string \<Rightarrow> json" where
  "path_selector path =
     JObj [(''type'', JStr ''file''), (''source.export_path'', JStr path), (''status'', JStr ''active'')]"

definition get_file_by_path :: "'s couch \<Rightarrow> string \<Rightarrow> 's \<Rightarrow> reply \<times> 's" where
  "get_file_by_path db path s =
     (case db_find db (path_selector path) s of
        (Inl e, s1) \<Rightarrow> (file_error 500 (couch_error_text e), s1)
      | (Inr [], s1) \<Rightarrow> (file_error 404 ''File not found at path'', s1)
      | (Inr (doc # _), s1) \<Rightarrow> (Reply 200 (strip_internals doc), s1))"

section \<open>Content\<close>

text \<open>Answers with a JSON body, a text, or the bytes of a file with the headers.\<close>

datatype file_reply =
  Answer reply
| TextReply nat string
| Content nat "(string \<times> string) list" "u8 list"

definition parse_range :: "string \<Rightarrow> (u64 \<times> u64 option) option" where
  "parse_range range_str =
     Option.bind (strip_prefix ''bytes='' range_str) (\<lambda>r.
       let (first, rest) = (case split_once (CHR ''-'') r of Some (a, b) \<Rightarrow> (a, Some b) | None \<Rightarrow> (r, None)) in
       map_option (\<lambda>start. (start, Option.bind rest (\<lambda>b. if b = [] then None else parse_u64 b)))
         (parse_u64 first))"

definition quote_char :: char where
  "quote_char = CHR 34"

definition escape_quotes :: "string \<Rightarrow> string" where
  "escape_quotes name = concat (map (\<lambda>c. if c = quote_char then [CHR 92, quote_char] else [c]) name)"

definition disposition_of :: "string \<Rightarrow> string" where
  "disposition_of name = ''inline; filename='' @ [quote_char] @ escape_quotes name @ [quote_char]"

text \<open>\<open>Response::builder\<close>: an invalid header value makes the final unwrap panic.\<close>

definition build_response :: "file_env \<Rightarrow> nat \<Rightarrow> (string \<times> string) list \<Rightarrow> u8 list \<Rightarrow> file_reply" where
  "build_response e status headers body =
     (if list_all (\<lambda>h. fe_header e (snd h)) headers then Content status headers body else Answer Panicked)"

definition serve_range ::
  "file_env \<Rightarrow> string \<Rightarrow> string \<Rightarrow> string \<Rightarrow> u64 \<Rightarrow> u64 \<Rightarrow> u64 option \<Rightarrow> file_reply" where
  "serve_range e path mime_type disposition total_size start end_opt =
     (if total_size = 0 \<and> fe_checks e then Answer Panicked
      else
        (let last_byte = min (unwrap_or end_opt (total_size - 1)) (total_size - 1) in
         if start > last_byte \<or> start \<ge> total_size then TextReply 416 ''Invalid range''
         else
           (let len = last_byte - start + 1 in
            case fe_open e path of
              None \<Rightarrow> TextReply 500 ''Failed to open file''
            | Some bytes \<Rightarrow>
                if \<not> fe_seek e path start then TextReply 500 ''Failed to seek''
                else
                  (let buf = take (unat len) (drop (unat start) bytes) in
                   if length buf < unat len then TextReply 500 ''Failed to read file''
                   else build_response e 206
                     [(''content-type'', mime_type), (''content-length'', nat_str (unat len)),
                      (''content-disposition'', disposition),
                      (''content-range'', ''bytes '' @ nat_str (unat start) @ ''-'' @ nat_str (unat last_byte) @
                         ''/'' @ nat_str (unat total_size)),
                      (''accept-ranges'', ''bytes'')] buf))))"

definition serve_whole :: "file_env \<Rightarrow> string \<Rightarrow> string \<Rightarrow> string \<Rightarrow> u64 \<Rightarrow> file_reply" where
  "serve_whole e path mime_type disposition total_size =
     (case fe_open e path of
        None \<Rightarrow> TextReply 500 ''Failed to open file''
      | Some bytes \<Rightarrow>
          build_response e 200
            [(''content-type'', mime_type), (''content-length'', nat_str (unat total_size)),
             (''content-disposition'', disposition), (''accept-ranges'', ''bytes'')] bytes)"

definition export_path_of :: "json \<Rightarrow> string" where
  "export_path_of doc = unwrap_or (Option.bind (jget ''source'' doc) (jget_str ''export_path'')) []"

definition serve_path :: "file_env \<Rightarrow> json \<Rightarrow> string option \<Rightarrow> file_reply" where
  "serve_path e doc range_header =
     (let mime_type = unwrap_or (jget_str ''mime_type'' doc) ''application/octet-stream'';
          path = export_path_of doc;
          disposition = disposition_of (unwrap_or (jget_str ''name'' doc) ''file'') in
      if path = [] then Answer (file_error 404 ''File has no source path'')
      else if \<not> fe_present e path then
        Answer (file_error 404 ''File not present on this node and inter-node transport has been removed'')
      else
        (case fe_len e path of
           None \<Rightarrow> Answer (file_error 500 ''Failed to read file'')
         | Some total_size \<Rightarrow>
             (case Option.bind range_header parse_range of
                Some (start, end_opt) \<Rightarrow> serve_range e path mime_type disposition total_size start end_opt
              | None \<Rightarrow> serve_whole e path mime_type disposition total_size)))"

definition serve_file_content ::
  "file_env \<Rightarrow> 's couch \<Rightarrow> string \<Rightarrow> string option \<Rightarrow> access_tracker \<times> 's \<Rightarrow> file_reply \<times> access_tracker \<times> 's" where
  "serve_file_content e db doc_id range_header ts =
     (case ts of (t, s) \<Rightarrow>
        (case fetch_file db doc_id s of
           (Inl r, s1) \<Rightarrow> (Answer r, t, s1)
         | (Inr doc, s1) \<Rightarrow> (serve_path e doc range_header, tracker_record (fe_now e) doc_id t, s1)))"

definition get_file_content ::
  "file_env \<Rightarrow> 's couch \<Rightarrow> string \<Rightarrow> string option \<Rightarrow> access_tracker \<times> 's \<Rightarrow> file_reply \<times> access_tracker \<times> 's" where
  "get_file_content e db file_id range_header ts = serve_file_content e db (file_key file_id) range_header ts"

section \<open>Access record\<close>

definition access_key :: "string \<Rightarrow> string" where
  "access_key file_uuid = ''access::'' @ file_uuid"

definition access_reply :: "string \<Rightarrow> json \<Rightarrow> reply" where
  "access_reply file_uuid last_access =
     Reply 200 (JObj [(''file_id'', JStr (''file::'' @ file_uuid)), (''last_access'', last_access)])"

definition get_file_access :: "'s couch \<Rightarrow> string \<Rightarrow> 's \<Rightarrow> reply \<times> 's" where
  "get_file_access db file_id s =
     (let file_uuid = unwrap_or (strip_prefix ''file::'' file_id) file_id in
      case db_get db (access_key file_uuid) s of
        (Inr doc, s1) \<Rightarrow> (access_reply file_uuid (json_opt (jget ''last_access'' doc)), s1)
      | (Inl (NotFound _), s1) \<Rightarrow> (access_reply file_uuid JNull, s1)
      | (Inl e, s1) \<Rightarrow> (file_error 500 (couch_error_text e), s1))"

section \<open>Serving a range\<close>

definition range_header :: "nat \<Rightarrow> nat \<Rightarrow> string" where
  "range_header a b = ''bytes='' @ nat_str a @ ''-'' @ nat_str b"

text \<open>The bytes of a partial answer.\<close>

fun part_of :: "file_reply \<Rightarrow> u8 list option" where
  "part_of (Content n _ bytes) = (if n = 206 then Some bytes else None)"
| "part_of _ = None"

lemma parse_unsigned_u64: "n < 2 ^ 64 \<Longrightarrow> parse_u64 (nat_str n) = Some (of_nat n)"
  by (simp only: parse_u64_def parse_unsigned_nat_str) simp

lemma parse_range_header:
  assumes "a < 2 ^ 64" "b < 2 ^ 64"
  shows "parse_range (range_header a b) = Some (of_nat a, Some (of_nat b))"
proof -
  have "CHR ''-'' \<notin> set (nat_str a)"
    by (rule nat_str_no) (simp add: is_digit_def digit_value_def)
  then have split: "split_once (CHR ''-'') (nat_str a @ CHR ''-'' # nat_str b) = Some (nat_str a, nat_str b)"
    by (simp add: split_once_Some)
  have "nat_str b \<noteq> []" using nat_str_digits [of b] by simp
  then show ?thesis
    using assms by (simp add: parse_range_def range_header_def split parse_unsigned_u64 del: parse_u64_nat_str)
qed

definition printable :: "char \<Rightarrow> bool" where
  "printable c \<longleftrightarrow> 32 \<le> (of_char c :: nat) \<and> of_char c < (127 :: nat)"

text \<open>A file the server can read, and header values the HTTP library accepts.\<close>

definition readable :: "file_env \<Rightarrow> json \<Rightarrow> u8 list \<Rightarrow> bool" where
  "readable e doc bytes \<longleftrightarrow>
     (let path = export_path_of doc in
      path \<noteq> [] \<and> fe_present e path \<and> fe_len e path = Some (of_nat (length bytes)) \<and>
      length bytes < 2 ^ 64 \<and> fe_open e path = Some bytes \<and> (\<forall>p. fe_seek e path p) \<and>
      fe_header e (unwrap_or (jget_str ''mime_type'' doc) ''application/octet-stream'') \<and>
      fe_header e (disposition_of (unwrap_or (jget_str ''name'' doc) ''file'')) \<and>
      (\<forall>h. list_all printable h \<longrightarrow> fe_header e h))"

lemma nat_str_all: "\<forall>d < 10. P (digit_char d) \<Longrightarrow> list_all P (nat_str n)"
proof (induction n rule: nat_str.induct)
  case (1 n)
  then show ?case by (cases "n < 10"; subst nat_str.simps) auto
qed

lemma nat_str_printable: "list_all printable (nat_str n)"
  by (rule nat_str_all) (simp add: printable_def digit_char_def)

lemma serve_range_in_file:
  assumes "readable e doc bytes" "a \<le> b" "a < length bytes" "b < 2 ^ 64"
  shows "part_of (serve_path e doc (Some (range_header a b))) = Some (take (b - a + 1) (drop a bytes))"
proof -
  note r = assms(1) [unfolded readable_def Let_def]
  let ?n = "of_nat (length bytes) :: u64" and ?a = "of_nat a :: u64" and ?b = "of_nat b :: u64"
  have len: "length bytes < 2 ^ 64" using r by blast
  have un: "unat ?n = length bytes" "unat ?a = a" "unat ?b = b"
    using len assms by (simp_all only: unat_of_nat) simp_all
  have n0: "?n \<noteq> 0" using un(1) assms(3) by (metis not_less_zero unat_0)
  have pred: "unat (?n - 1) = length bytes - 1"
    using n0 un(1) by (simp add: unat_minus_one)
  let ?last = "min ?b (?n - 1)"
  have last_nat: "unat ?last = min b (length bytes - 1)"
    by (simp add: min_def un pred word_le_nat_alt)
  have start: "\<not> ?a > ?last" "\<not> ?a \<ge> ?n"
    using assms by (simp_all add: word_less_nat_alt word_le_nat_alt last_nat un not_less not_le del: min_less_iff_conj)
  have le: "?a \<le> ?last" using start(1) by (simp only: not_less)
  have diff: "unat (?last - ?a) = min b (length bytes - 1) - a"
    using unat_sub [OF le] by (simp only: last_nat un)
  have small: "min b (length bytes - 1) - a + 1 < 2 ^ 64" using len assms(3) by linarith
  have cnt: "unat (?last - ?a + 1) = min b (length bytes - 1) - a + 1"
  proof -
    have "unat (?last - ?a + 1) = (unat (?last - ?a) + unat (1 :: u64)) mod 2 ^ 64"
      by (simp add: unat_word_ariths)
    then show ?thesis using small by (simp only: diff unat_1 mod_less)
  qed
  have whole: "take (min b (length bytes - 1) - a + 1) (drop a bytes) = take (b - a + 1) (drop a bytes)"
    using assms(2,3) by (cases "b < length bytes") (simp_all add: min_def, linarith)
  have enough: "\<not> length (take (min b (length bytes - 1) - a + 1) (drop a bytes)) < min b (length bytes - 1) - a + 1"
    using assms(2,3) by simp
  have header: "fe_header e h" if "list_all printable h" for h
    using r that by blast
  have h: "fe_header e (nat_str n)" "fe_header e ''bytes''"
    "fe_header e (''bytes '' @ nat_str n @ ''-'' @ nat_str m @ ''/'' @ nat_str k)" for n m k
    by (rule header; simp add: nat_str_printable; simp add: printable_def)+
  have ranged: "parse_range (range_header a b) = Some (?a, Some ?b)"
    by (rule parse_range_header [OF less_trans [OF assms(3) len] assms(4)])
  let ?mime = "unwrap_or (jget_str ''mime_type'' doc) ''application/octet-stream''"
  let ?disp = "disposition_of (unwrap_or (jget_str ''name'' doc) ''file'')"
  let ?path = "export_path_of doc"
  have path: "serve_path e doc (Some (range_header a b)) = serve_range e ?path ?mime ?disp ?n ?a (Some ?b)"
    using r unfolding serve_path_def Let_def by (simp only: ranged bind.bind_lunit option.case prod.case if_False simp_thms)
  have disk: "fe_open e ?path = Some bytes" "fe_seek e ?path ?a" "fe_header e ?mime" "fe_header e ?disp"
    using r by blast+
  have "part_of (serve_range e ?path ?mime ?disp ?n ?a (Some ?b)) = Some (take (b - a + 1) (drop a bytes))"
    unfolding serve_range_def Let_def unwrap_or_simps
    by (simp only: n0 start if_False simp_thms disk option.case un cnt enough)
      (simp only: build_response_def list.pred_inject snd_conv disk h simp_thms if_True part_of.simps whole refl)
  then show ?thesis by (simp only: path)
qed

lemma concat_chunks: "concat (map (\<lambda>i. take c (drop (i * c) xs)) [0..<n]) = take (n * c) xs"
proof (induction n)
  case 0
  then show ?case by simp
next
  case (Suc n)
  have "take (Suc n * c) xs = take (n * c) xs @ take c (drop (n * c) xs)"
    by (metis add.commute mult_Suc take_add)
  with Suc show ?case by simp
qed

text \<open>The request for the i-th chunk of \<open>c\<close> bytes.\<close>

definition chunk_request :: "nat \<Rightarrow> nat \<Rightarrow> string" where
  "chunk_request c i = range_header (i * c) (i * c + c - 1)"

text \<open>
  C14: a client that downloads a file in chunks with range requests gets every chunk as a
  partial answer, the last one cut at the end of the file, and their concatenation is the file.
\<close>

theorem chunked_download:
  assumes "db_get db (file_key file_id) s = (Inr doc, s)" and "readable e doc bytes"
    and "0 < c" "length bytes + c < 2 ^ 64"
  shows "\<exists>parts.
    map (\<lambda>i. part_of (fst (get_file_content e db file_id (Some (chunk_request c i)) (t, s))))
      [0..<(length bytes + c - 1) div c] = map Some parts \<and> concat parts = bytes"
proof -
  let ?n = "(length bytes + c - 1) div c"
  let ?parts = "map (\<lambda>i. take c (drop (i * c) bytes)) [0..<?n]"
  have part: "part_of (fst (get_file_content e db file_id (Some (chunk_request c i)) (t, s))) =
      Some (take c (drop (i * c) bytes))" if i: "i < ?n" for i
  proof -
    have "i + 1 \<le> ?n" using i by simp
    then have "(i + 1) * c \<le> length bytes + c - 1"
      using assms(3) by (simp add: less_eq_div_iff_mult_less_eq)
    then have start: "i * c < length bytes" using assms(3) by (simp add: algebra_simps)
    moreover have "i * c + c - 1 - i * c + 1 = c" using assms(3) by simp
    moreover have "i * c \<le> i * c + c - 1" "i * c + c - 1 < 2 ^ 64" using assms(3,4) start by simp_all
    ultimately have "part_of (serve_path e doc (Some (chunk_request c i))) = Some (take c (drop (i * c) bytes))"
      unfolding chunk_request_def using serve_range_in_file [OF assms(2)] by metis
    then show ?thesis by (simp add: get_file_content_def serve_file_content_def fetch_file_def assms(1))
  qed
  have "length bytes \<le> ?n * c"
  proof -
    have "(length bytes + c - 1) mod c < c" using assms(3) by simp
    moreover have "length bytes + c - 1 = ?n * c + (length bytes + c - 1) mod c" by simp
    ultimately show ?thesis using assms(3) by linarith
  qed
  then have "concat ?parts = bytes" by (simp add: concat_chunks)
  moreover have "map (\<lambda>i. part_of (fst (get_file_content e db file_id (Some (chunk_request c i)) (t, s)))) [0..<?n] =
      map Some ?parts"
    by (simp add: part)
  ultimately show ?thesis by blast
qed

text \<open>
  A range request for an empty file has no satisfiable range; a build with overflow checks
  panics on the size minus one instead of answering 416.
\<close>

theorem empty_file_range:
  assumes "parse_range header = Some (start, end_opt)" and "export_path_of doc \<noteq> []"
    and "fe_present e (export_path_of doc)" "fe_len e (export_path_of doc) = Some 0"
  shows "serve_path e doc (Some header) =
    (if fe_checks e then Answer Panicked else TextReply 416 ''Invalid range'')"
  using assms by (simp add: serve_path_def serve_range_def Let_def)

text \<open>
  The file listing holds exactly the documents of type file that match the filters, active
  ones when no status is asked for, each without CouchDB's own fields.
\<close>

theorem list_files_exact:
  assumes "reads_law db docs"
  shows "\<exists>items. list_files db q s = (Reply 200 (page (fq_offset q) (fq_limit q) items), s) \<and>
    (\<forall>d'. d' \<in> set items \<longleftrightarrow> (\<exists>i d. starts_with i ''file::'' \<and> docs s i = Some d \<and> d' = strip_internals d \<and>
       jget_str ''type'' d = Some ''file'' \<and>
       jget_str ''status'' d = Some (case fq_status q of Some st \<Rightarrow> st | None \<Rightarrow> ''active'') \<and>
       (\<forall>n. fq_node_id q = Some n \<longrightarrow> Option.bind (jget ''source'' d) (jget_str ''node_id'') = Some n) \<and>
       (\<forall>m. fq_mime_type q = Some m \<longrightarrow>
          (case jget_str ''mime_type'' d of Some t \<Rightarrow> t | None \<Rightarrow> []) = m)))"
proof -
  obtain rows where rows: "db_prefix db ''file::'' s = (Inr rows, s)"
    "\<And>i d. (\<exists>r \<in> set rows. row_id r = i \<and> row_doc r = Some d) \<longleftrightarrow> starts_with i ''file::'' \<and> docs s i = Some d"
    by (rule reads_law_prefix [OF assms, of "''file::''" s]) (rule that)
  have mem: "d \<in> set (row_docs rows) \<longleftrightarrow> (\<exists>i. starts_with i ''file::'' \<and> docs s i = Some d)" for d
    unfolding set_row_docs using rows(2) [of _ d] by blast
  have listed: "listed_file q d = Some d' \<longleftrightarrow> d' = strip_internals d \<and>
       jget_str ''type'' d = Some ''file'' \<and>
       jget_str ''status'' d = Some (case fq_status q of Some st \<Rightarrow> st | None \<Rightarrow> ''active'') \<and>
       (\<forall>n. fq_node_id q = Some n \<longrightarrow> Option.bind (jget ''source'' d) (jget_str ''node_id'') = Some n) \<and>
       (\<forall>m. fq_mime_type q = Some m \<longrightarrow>
          (case jget_str ''mime_type'' d of Some t \<Rightarrow> t | None \<Rightarrow> []) = m)" for d d'
    by (auto simp: listed_file_def unwrap_or_def split: option.splits)
  show ?thesis
    by (rule exI [of _ "List.map_filter (listed_file q) (row_docs rows)"])
      (simp add: list_files_def rows(1) map_filter_set mem listed Bex_def, blast)
qed

section \<open>A concrete file\<close>

definition sample_file_doc :: json where
  "sample_file_doc =
     JObj [(''_id'', JStr ''file::1''), (''type'', JStr ''file''), (''status'', JStr ''active''),
       (''name'', JStr ''a.txt''), (''source'', JObj [(''export_path'', JStr ''/d/a.txt'')])]"

definition sample_file_store :: store where
  "sample_file_store = [(''file::1'', sample_file_doc)]"

definition sample_file_env :: "u8 list \<Rightarrow> file_env" where
  "sample_file_env bytes =
     \<lparr>fe_now = 0, fe_present = (\<lambda>p. True), fe_len = (\<lambda>p. Some (of_nat (length bytes))),
      fe_open = (\<lambda>p. Some bytes), fe_seek = (\<lambda>p o'. True), fe_header = (\<lambda>h. True), fe_checks = True\<rparr>"

theorem chunked_download_witness:
  "\<exists>parts.
    map (\<lambda>i. part_of (fst (get_file_content (sample_file_env [1, 2, 3]) store_couch ''1''
      (Some (chunk_request 2 i)) (new_tracker, sample_file_store)))) [0..<2] = map Some parts \<and>
    concat parts = [1, 2, 3 :: u8]"
proof -
  have doc: "db_get store_couch (file_key ''1'') sample_file_store = (Inr sample_file_doc, sample_file_store)"
    by (simp add: file_key_def starts_with_def sample_file_store_def)
  have disk: "readable (sample_file_env [1, 2, 3]) sample_file_doc [1, 2, 3 :: u8]"
    by (simp add: readable_def sample_file_env_def sample_file_doc_def export_path_of_def jget_str_def)
  have count: "(length [1, 2, 3 :: u8] + 2 - 1) div 2 = 2" "(0 :: nat) < 2" "length [1, 2, 3 :: u8] + 2 < 2 ^ 64"
    by simp_all
  from chunked_download [OF doc disk count(2, 3), of new_tracker] show ?thesis by (simp only: count(1))
qed

theorem empty_file_range_witness:
  "serve_path (sample_file_env []) sample_file_doc (Some ''bytes=0-'') = Answer Panicked"
proof -
  have "nat_str 0 = ''0''" by code_simp
  with parse_unsigned_u64 [of 0] have "parse_u64 ''0'' = Some 0" by simp
  then have "parse_range ''bytes=0-'' = Some (0, None)"
    by (simp add: parse_range_def)
  moreover have "export_path_of sample_file_doc \<noteq> []"
    by (simp add: sample_file_doc_def export_path_of_def jget_str_def)
  ultimately show ?thesis
    using empty_file_range [of "''bytes=0-''" 0 None sample_file_doc "sample_file_env []"]
    by (simp add: sample_file_env_def)
qed

theorem list_files_exact_witness:
  "\<exists>items. list_files store_couch \<lparr>fq_node_id = None, fq_status = None, fq_mime_type = None,
      fq_limit = None, fq_offset = None\<rparr> sample_file_store =
    (Reply 200 (page None None items), sample_file_store) \<and> strip_internals sample_file_doc \<in> set items"
proof -
  let ?q = "\<lparr>fq_node_id = None, fq_status = None, fq_mime_type = None, fq_limit = None, fq_offset = None\<rparr>"
  have doc: "starts_with ''file::1'' ''file::''" "map_of sample_file_store ''file::1'' = Some sample_file_doc"
    "jget_str ''type'' sample_file_doc = Some ''file''" "jget_str ''status'' sample_file_doc = Some ''active''"
    by (simp_all add: starts_with_def sample_file_store_def sample_file_doc_def jget_str_def)
  from list_files_exact [OF store_couch_reads, of ?q sample_file_store]
  show ?thesis using doc by (elim exE conjE) (intro exI conjI; fastforce)
qed

end
