(* ===== verification/System_Api.thy ===== *)
theory System_Api
  imports Vfs_Api
begin

text \<open>
  \<open>handlers/system.rs\<close>: health and system information, backup and restore of the documents,
  and the deletion of all data in developer mode. The requests on the whole database are the
  record \<open>db_admin\<close>, with \<open>http_admin\<close> its instance over the client of \<open>couchdb.rs\<close>.
\<close>

section \<open>The database as a whole\<close>

record 's db_admin =
  da_all :: "bool \<Rightarrow> 's \<Rightarrow> (couch_error + all_docs_row list) \<times> 's"
  da_info :: "'s \<Rightarrow> (couch_error + json) \<times> 's"
  da_delete_db :: "'s \<Rightarrow> (couch_error + unit) \<times> 's"
  da_ensure_db :: "'s \<Rightarrow> (couch_error + unit) \<times> 's"
  da_create_indexes :: "'s \<Rightarrow> (couch_error + unit) \<times> 's"

definition http_admin :: "'w transport \<Rightarrow> couch_client \<Rightarrow> 'w db_admin" where
  "http_admin send c =
     \<lparr>da_all = (\<lambda>include_docs w. map_prod (map_sum id ad_rows) id (all_docs send c include_docs w)),
      da_info = db_info send c, da_delete_db = delete_db send c,
      da_ensure_db = ensure_db send c, da_create_indexes = create_indexes send c\<rparr>"

definition is_design :: "all_docs_row \<Rightarrow> bool" where
  "is_design row \<longleftrightarrow> starts_with (row_id row) ''_design/''"

definition count_non_design_docs :: "'s db_admin \<Rightarrow> 's \<Rightarrow> (couch_error + nat) \<times> 's" where
  "count_non_design_docs adm s =
     (case da_all adm False s of
        (Inl e, s1) \<Rightarrow> (Inl e, s1)
      | (Inr rows, s1) \<Rightarrow> (Inr (length (filter (\<lambda>r. \<not> is_design r) rows)), s1))"

section \<open>Health and information\<close>

definition health :: "'s db_admin \<Rightarrow> 's \<Rightarrow> reply \<times> 's" where
  "health adm s =
     (case da_info adm s of
        (Inr _, s1) \<Rightarrow> (Reply 200 (JObj [(''status'', JStr ''ok''), (''couchdb'', JStr ''ok'')]), s1)
      | (Inl _, s1) \<Rightarrow> (Reply 503 (JObj [(''status'', JStr ''degraded''), (''couchdb'', JStr ''unreachable'')]), s1))"

definition uptime_text :: "nat \<Rightarrow> string" where
  "uptime_text secs = nat_str (secs div 3600) @ ''h '' @ nat_str (secs mod 3600 div 60) @ ''m''"

definition update_seq_text :: "libs \<Rightarrow> json \<Rightarrow> string" where
  "update_seq_text lb info =
     (case jget ''update_seq'' info of
        Some (JStr t) \<Rightarrow> t
      | Some other \<Rightarrow> json_text lb other
      | None \<Rightarrow> ''0'')"

definition system_info :: "libs \<Rightarrow> string \<Rightarrow> nat \<Rightarrow> bool \<Rightarrow> 's db_admin \<Rightarrow> 's \<Rightarrow> reply \<times> 's" where
  "system_info lb version elapsed_secs developer_mode adm s =
     (let (r, s1) = da_info adm s;
          (doc_count, update_seq) =
            (case r of
               Inr info \<Rightarrow> (unwrap_or (Option.bind (jget ''doc_count'' info) as_u64) 0, update_seq_text lb info)
             | Inl _ \<Rightarrow> (0, ''0''))
      in (Reply 200 (JObj [(''version'', JStr version), (''uptime'', JStr (uptime_text elapsed_secs)),
            (''pouchdb_doc_count'', JNum (PosInt doc_count)), (''pouchdb_update_seq'', JStr update_seq),
            (''developer_mode'', JBool developer_mode)]), s1))"

section \<open>Backup\<close>

definition MINIMAL_TYPES :: "string list" where
  "MINIMAL_TYPES = [''virtual_directory'', ''label_assignment'', ''label_rule'', ''credential'', ''node'']"

definition NODE_PARTIAL_FIELDS :: "string list" where
  "NODE_PARTIAL_FIELDS = [''_id'', ''type'', ''friendly_name'', ''network_mounts'']"

definition type_of_doc :: "json \<Rightarrow> string" where
  "type_of_doc doc = unwrap_or (jget_str ''type'' doc) []"

definition without_instance_fields :: "json \<Rightarrow> json" where
  "without_instance_fields doc = jremove ''_conflicts'' (jremove ''_rev'' doc)"

definition backup_doc :: "bool \<Rightarrow> json \<Rightarrow> json option" where
  "backup_doc is_minimal doc =
     (if is_minimal \<and> type_of_doc doc \<notin> set MINIMAL_TYPES then None
      else if is_minimal \<and> type_of_doc doc = ''node''
      then Some (JObj (given NODE_PARTIAL_FIELDS (without_instance_fields doc)))
      else Some (without_instance_fields doc))"

definition backup_headers :: "string \<Rightarrow> string \<Rightarrow> (string \<times> string) list" where
  "backup_headers backup_type timestamp =
     [(''content-type'', ''application/json''),
      (''content-disposition'',
         ''attachment; filename='' @ [CHR 34] @ ''mosaicfs-backup-'' @ backup_type @ ''-'' @ timestamp @ ''.json'' @ [CHR 34])]"

definition backup ::
  "string \<Rightarrow> 's db_admin \<Rightarrow> string option \<Rightarrow> 's \<Rightarrow> (reply \<times> (string \<times> string) list) \<times> 's" where
  "backup timestamp adm query s =
     (let backup_type = unwrap_or query ''minimal'' in
      if backup_type \<noteq> ''minimal'' \<and> backup_type \<noteq> ''full''
      then ((Reply 400 (error_json ''bad_request''
               (''type must be '' @ [CHR 39] @ ''minimal'' @ [CHR 39] @ '' or '' @ [CHR 39] @ ''full'' @ [CHR 39])), []), s)
      else
        (case da_all adm True s of
           (Inl e, s1) \<Rightarrow> ((internal e, []), s1)
         | (Inr rows, s1) \<Rightarrow>
             (let docs = List.map_filter (backup_doc (backup_type = ''minimal''))
                    (row_docs (filter (\<lambda>r. \<not> is_design r) rows))
              in ((Reply 200 (JObj [(''docs'', JArr docs)]), backup_headers backup_type timestamp), s1))))"

definition backup_status :: "'s db_admin \<Rightarrow> 's \<Rightarrow> reply \<times> 's" where
  "backup_status adm s =
     (case count_non_design_docs adm s of
        (Inl e, s1) \<Rightarrow> (internal e, s1)
      | (Inr n, s1) \<Rightarrow>
          (Reply 200 (JObj [(''empty'', JBool (n = 0)), (''document_count'', JNum (PosInt (of_nat n)))]), s1))"

section \<open>Restore\<close>

definition RECOGNIZED_TYPES :: "string list" where
  "RECOGNIZED_TYPES =
     [''file'', ''node'', ''virtual_directory'', ''credential'', ''label_assignment'', ''label_rule'',
      ''access'', ''agent_status'', ''utilization_snapshot'', ''notification'']"

definition bad_request :: "string \<Rightarrow> reply" where
  "bad_request message = Reply 400 (error_json ''bad_request'' message)"

text \<open>The reply for the first document with a bad type.\<close>

fun check_types :: "json list \<Rightarrow> reply option" where
  "check_types [] = None"
| "check_types (doc # docs) =
     (let doc_type = type_of_doc doc in
      if doc_type = [] then
        Some (bad_request (''Document missing '' @ [CHR 39] @ ''type'' @ [CHR 39] @ '' field''))
      else if doc_type \<notin> set RECOGNIZED_TYPES then
        Some (bad_request (''Unrecognized document type: '' @ [CHR 39] @ doc_type @ [CHR 39]))
      else check_types docs)"

definition BULK_BATCH_SIZE :: nat where
  "BULK_BATCH_SIZE = 500"

function chunks :: "nat \<Rightarrow> 'a list \<Rightarrow> 'a list list" where
  "chunks n xs = (if xs = [] \<or> n = 0 then [] else take n xs # chunks n (drop n xs))"
  by pat_completeness auto
termination
  by (relation "measure (\<lambda>(n, xs). length xs)") auto

declare chunks.simps [simp del]

definition result_error :: "bulk_doc_result \<Rightarrow> string" where
  "result_error r =
     unwrap_or (cr_id r) ''unknown'' @ '': '' @
       (case cr_reason r of Some t \<Rightarrow> t | None \<Rightarrow> unwrap_or (cr_error r) ''unknown error'')"

fun restore_batches :: "'s couch \<Rightarrow> json list list \<Rightarrow> nat \<times> string list \<Rightarrow> 's \<Rightarrow> (nat \<times> string list) \<times> 's" where
  "restore_batches db [] acc s = (acc, s)"
| "restore_batches db (b # bs) (n, errors) s =
     (case db_bulk db b s of
        (Inr rs, s1) \<Rightarrow>
          restore_batches db bs
            (n + length (filter (\<lambda>r. cr_ok r = Some True) rs),
             errors @ map result_error (filter (\<lambda>r. cr_ok r \<noteq> Some True) rs)) s1
      | (Inl e, s1) \<Rightarrow>
          restore_batches db bs (n, errors @ [''Batch write failed: '' @ couch_error_text e]) s1)"

text \<open>A build that fails leaves the cache as it was.\<close>

definition rebuild_labels ::
  "'s couch \<Rightarrow> server_caches \<times> 's \<Rightarrow> couch_error option \<times> server_caches \<times> 's" where
  "rebuild_labels db cs =
     (case build_labels db (snd cs) of
        (Inr c, s1) \<Rightarrow> (None, (fst cs)\<lparr>sc_labels := c\<rparr>, s1)
      | (Inl e, s1) \<Rightarrow> (Some e, fst cs, s1))"

definition rebuild_accesses ::
  "libs \<Rightarrow> 's couch \<Rightarrow> server_caches \<times> 's \<Rightarrow> couch_error option \<times> server_caches \<times> 's" where
  "rebuild_accesses lb db cs =
     (case build_accesses lb db (snd cs) of
        (Inr c, s1) \<Rightarrow> (None, (fst cs)\<lparr>sc_accesses := c\<rparr>, s1)
      | (Inl e, s1) \<Rightarrow> (Some e, fst cs, s1))"

definition failed_step :: "string \<Rightarrow> couch_error option \<Rightarrow> string list" where
  "failed_step what e = (case e of Some x \<Rightarrow> [what @ '' failed: '' @ couch_error_text x] | None \<Rightarrow> [])"

definition restore_reply :: "nat \<Rightarrow> string list \<Rightarrow> reply" where
  "restore_reply n errors =
     Reply 200 (JObj [(''ok'', JBool (errors = [])), (''restored_count'', JNum (PosInt (of_nat n))),
       (''errors'', JArr (map JStr errors))])"

definition restore_docs ::
  "libs \<Rightarrow> 's couch \<Rightarrow> 's db_admin \<Rightarrow> json list \<Rightarrow> server_caches \<times> 's \<Rightarrow> reply \<times> server_caches \<times> 's" where
  "restore_docs lb db adm docs cs =
     (let prepared = map without_instance_fields docs;
          ((n, errors), s1) = restore_batches db (chunks BULK_BATCH_SIZE prepared) (0, []) (snd cs);
          (e1, cs1) = rebuild_labels db (fst cs, s1);
          (e2, cs2) = rebuild_accesses lb db cs1;
          (e3, s3) = da_create_indexes adm (snd cs2)
      in (restore_reply n (errors @ failed_step ''Label cache rebuild'' e1 @
            failed_step ''Access cache rebuild'' e2 @
            failed_step ''Index creation'' (case e3 of Inl e \<Rightarrow> Some e | Inr _ \<Rightarrow> None)),
          fst cs2, s3))"

definition restore ::
  "libs \<Rightarrow> 's couch \<Rightarrow> 's db_admin \<Rightarrow> json \<Rightarrow> server_caches \<times> 's \<Rightarrow> reply \<times> server_caches \<times> 's" where
  "restore lb db adm body cs =
     (case count_non_design_docs adm (snd cs) of
        (Inl e, s1) \<Rightarrow> (internal e, fst cs, s1)
      | (Inr n, s1) \<Rightarrow>
          (if 0 < n then
             (Reply 409 (error_json ''database_not_empty''
               ''Restore only permitted into an empty database. Use developer mode wipe or recreate the stack.''),
              fst cs, s1)
           else
             (case Option.bind (jget ''docs'' body) as_array of
                None \<Rightarrow>
                  (bad_request (''Body must have a '' @ [CHR 39] @ ''docs'' @ [CHR 39] @ '' array''), fst cs, s1)
              | Some docs \<Rightarrow>
                  (case check_types docs of
                     Some r \<Rightarrow> (r, fst cs, s1)
                   | None \<Rightarrow> restore_docs lb db adm docs (fst cs, s1)))))"

section \<open>Deletion of all data\<close>

definition delete_failed :: "string \<Rightarrow> couch_error \<Rightarrow> reply" where
  "delete_failed what e = Reply 500 (error_json ''internal'' (''Failed to '' @ what @ '': '' @ couch_error_text e))"

text \<open>The three requests in a row, each with the reply for its failure.\<close>

definition recreate_db :: "'s db_admin \<Rightarrow> 's \<Rightarrow> reply option \<times> 's" where
  "recreate_db adm s =
     (case da_delete_db adm s of
        (Inl e, s1) \<Rightarrow> (Some (delete_failed ''delete database'' e), s1)
      | (Inr _, s1) \<Rightarrow>
          (case da_ensure_db adm s1 of
             (Inl e, s2) \<Rightarrow> (Some (delete_failed ''recreate database'' e), s2)
           | (Inr _, s2) \<Rightarrow>
               (case da_create_indexes adm s2 of
                  (Inl e, s3) \<Rightarrow> (Some (delete_failed ''recreate indexes'' e), s3)
                | (Inr _, s3) \<Rightarrow> (None, s3))))"

definition delete_data ::
  "libs \<Rightarrow> bool \<Rightarrow> 's couch \<Rightarrow> 's db_admin \<Rightarrow> json \<Rightarrow> server_caches \<times> 's \<Rightarrow> reply \<times> server_caches \<times> 's" where
  "delete_data lb developer_mode db adm body cs =
     (if \<not> developer_mode then (Reply 403 (error_json ''forbidden'' ''Developer mode is not enabled''), cs)
      else if unwrap_or (jget_str ''confirm'' body) [] \<noteq> ''DELETE_ALL_DATA'' then
        (bad_request (''Body must contain {'' @ [CHR 34] @ ''confirm'' @ [CHR 34] @ '': '' @
           [CHR 34] @ ''DELETE_ALL_DATA'' @ [CHR 34] @ ''}''), cs)
      else
        (case recreate_db adm (snd cs) of
           (Some r, s1) \<Rightarrow> (r, fst cs, s1)
         | (None, s1) \<Rightarrow>
             (let (_, cs1) = rebuild_labels db (fst cs, s1); (_, cs2) = rebuild_accesses lb db cs1
              in (ok_reply, cs2))))"

section \<open>What is written\<close>

text \<open>The requests on the whole database over a state that also logs the bulk writes.\<close>

definition logged_admin :: "'s db_admin \<Rightarrow> ('s \<times> json list list) db_admin" where
  "logged_admin adm =
     \<lparr>da_all = (\<lambda>b. kept_log (da_all adm b)), da_info = kept_log (da_info adm),
      da_delete_db = kept_log (da_delete_db adm), da_ensure_db = kept_log (da_ensure_db adm),
      da_create_indexes = kept_log (da_create_indexes adm)\<rparr>"

lemma logged_admin_simps [simp]:
  "da_all (logged_admin adm) b = kept_log (da_all adm b)"
  "da_create_indexes (logged_admin adm) = kept_log (da_create_indexes adm)"
  by (simp_all add: logged_admin_def)

lemma chunks_concat: "0 < n \<Longrightarrow> concat (chunks n xs) = xs"
  by (induction n xs rule: chunks.induct) (subst chunks.simps, simp)

lemma chunks_bounded: "b \<in> set (chunks n xs) \<Longrightarrow> length b \<le> n"
proof (induction n xs rule: chunks.induct)
  case (1 n xs)
  then show ?case by (subst (asm) (2) chunks.simps) (auto split: if_splits)
qed

lemma restore_batches_log:
  "\<exists>acc' s'. restore_batches (logged db) bs acc (s, log) = (acc', s', log @ bs)"
proof (induction bs arbitrary: acc s log)
  case Nil
  then show ?case by simp
next
  case (Cons b bs)
  obtain n errors where acc: "acc = (n, errors)" by (cases acc)
  obtain r s1 where bulk: "db_bulk db b s = (r, s1)" by (cases "db_bulk db b s")
  show ?case
    using Cons.IH [of "(n, errors @ [''Batch write failed: '' @ couch_error_text e])" s1 "log @ [b]" for e]
      Cons.IH [of "(n + length (filter (\<lambda>r. cr_ok r = Some True) rs),
        errors @ map result_error (filter (\<lambda>r. cr_ok r \<noteq> Some True) rs))" s1 "log @ [b]" for rs]
    by (cases r) (simp_all add: acc bulk)
qed

lemma build_labels_log: "\<exists>r s'. build_labels (logged db) (s, log) = (r, s', log)"
  by (simp add: build_labels_def kept_log_def Let_def split: prod.split sum.split)

lemma build_accesses_log: "\<exists>r s'. build_accesses lb (logged db) (s, log) = (r, s', log)"
  by (simp add: build_accesses_def kept_log_def split: prod.split sum.split)

lemma rebuild_labels_log:
  obtains e c s' where "rebuild_labels (logged db) (c0, s, log) = (e, c, s', log)"
proof -
  obtain r s' where "build_labels (logged db) (s, log) = (r, s', log)"
    using build_labels_log [of db s log] by blast
  then show thesis using that by (cases r) (auto simp: rebuild_labels_def)
qed

lemma rebuild_accesses_log:
  obtains e c s' where "rebuild_accesses lb (logged db) (c0, s, log) = (e, c, s', log)"
proof -
  obtain r s' where "build_accesses lb (logged db) (s, log) = (r, s', log)"
    using build_accesses_log [of lb db s log] by blast
  then show thesis using that by (cases r) (auto simp: rebuild_accesses_def)
qed

lemma restore_docs_log:
  "\<exists>reply c' s'. restore_docs lb (logged db) (logged_admin adm) docs (c, s, []) =
      (reply, c', s', chunks BULK_BATCH_SIZE (map without_instance_fields docs)) \<and> reply_status reply = Some 200"
proof -
  let ?bs = "chunks BULK_BATCH_SIZE (map without_instance_fields docs)"
  obtain acc s1 where w: "restore_batches (logged db) ?bs (0, []) (s, []) = (acc, s1, ?bs)"
    using restore_batches_log [of db ?bs "(0, [])" s "[]"] by auto
  obtain n errors where acc: "acc = (n, errors)" by (cases acc)
  obtain e1 c1 s2 where l: "rebuild_labels (logged db) (c, s1, ?bs) = (e1, c1, s2, ?bs)"
    by (rule rebuild_labels_log)
  obtain e2 c2 s3 where a: "rebuild_accesses lb (logged db) (c1, s2, ?bs) = (e2, c2, s3, ?bs)"
    by (rule rebuild_accesses_log)
  obtain e3 s4 where i: "da_create_indexes adm s3 = (e3, s4)" by (cases "da_create_indexes adm s3")
  show ?thesis
    by (simp add: restore_docs_def w acc l a i kept_log_def restore_reply_def)
qed

section \<open>Backups\<close>

lemma jget_without: "jget k (without_instance_fields d) =
    (if k \<in> {''_rev'', ''_conflicts''} then None else jget k d)"
  by (simp add: without_instance_fields_def jget_jremove)

lemma type_without [simp]: "type_of_doc (without_instance_fields d) = type_of_doc d"
  by (simp add: type_of_doc_def jget_str_def jget_without)

lemma without_idem [simp]: "without_instance_fields (without_instance_fields d) = without_instance_fields d"
  by (cases d) (simp_all add: without_instance_fields_def delete_twist [of "''_rev''"] delete_idem)

lemma map_of_given: "map_of (given ks d) k = (if k \<in> set ks then jget k d else None)"
  by (induction ks) (auto simp: given_def map_filter_simps split: option.split)

lemma given_keys: "fst ` set (given ks d) \<subseteq> set ks"
  by (induction ks) (auto simp: given_def map_filter_simps split: option.split)

lemma delete_absent: "k \<notin> fst ` set al \<Longrightarrow> AList.delete k al = al"
  by (induction al) auto

lemma without_given: "''_rev'' \<notin> set ks \<Longrightarrow> ''_conflicts'' \<notin> set ks \<Longrightarrow>
    without_instance_fields (JObj (given ks d)) = JObj (given ks d)"
proof -
  assume a: "''_rev'' \<notin> set ks" "''_conflicts'' \<notin> set ks"
  have "''_rev'' \<notin> fst ` set (given ks d)" "''_conflicts'' \<notin> fst ` set (given ks d)"
    using given_keys [of ks d] a by auto
  then show ?thesis by (simp add: without_instance_fields_def delete_absent)
qed

lemma node_partial: "''_rev'' \<notin> set NODE_PARTIAL_FIELDS" "''_conflicts'' \<notin> set NODE_PARTIAL_FIELDS"
  by (simp_all add: NODE_PARTIAL_FIELDS_def)

lemma backup_doc_clean: "backup_doc m d = Some d' \<Longrightarrow> without_instance_fields d' = d'"
  by (auto simp: backup_doc_def without_given node_partial split: if_splits)

lemma backup_doc_type: "backup_doc m d = Some d' \<Longrightarrow> type_of_doc d' = type_of_doc d"
proof -
  assume a: "backup_doc m d = Some d'"
  have "''type'' \<in> set NODE_PARTIAL_FIELDS" by (simp add: NODE_PARTIAL_FIELDS_def)
  with a show ?thesis
    by (auto simp: backup_doc_def type_of_doc_def jget_str_def map_of_given jget_without split: if_splits)
qed

lemma check_types_None:
  "check_types docs = None \<longleftrightarrow> (\<forall>d \<in> set docs. type_of_doc d \<in> set RECOGNIZED_TYPES)"
proof (induction docs)
  case Nil
  then show ?case by simp
next
  case (Cons d ds)
  have "[] \<notin> set RECOGNIZED_TYPES" by (simp add: RECOGNIZED_TYPES_def)
  with Cons show ?case by (auto simp: Let_def)
qed

lemma minimal_recognized: "set MINIMAL_TYPES \<subseteq> set RECOGNIZED_TYPES"
  by (simp add: MINIMAL_TYPES_def RECOGNIZED_TYPES_def)

lemma minimal_backup_docs:
  assumes "d' \<in> set (List.map_filter (backup_doc True) ds)"
  shows "type_of_doc d' \<in> set RECOGNIZED_TYPES" "without_instance_fields d' = d'"
proof -
  obtain d where d: "backup_doc True d = Some d'" using assms by (auto simp: map_filter_set)
  then have "type_of_doc d \<in> set MINIMAL_TYPES" by (auto simp: backup_doc_def split: if_splits)
  with backup_doc_type [OF d] minimal_recognized show "type_of_doc d' \<in> set RECOGNIZED_TYPES" by auto
  show "without_instance_fields d' = d'" using backup_doc_clean [OF d] .
qed

section \<open>Properties\<close>

text \<open>What a document keeps in a minimal backup: the fields of a node that are configuration, everything but the instance's fields of the others.\<close>

definition backed_up :: "json \<Rightarrow> json \<Rightarrow> bool" where
  "backed_up d d' \<longleftrightarrow>
     (\<forall>k. jget k d' = (if type_of_doc d = ''node''
        then (if k \<in> set NODE_PARTIAL_FIELDS then jget k d else None)
        else (if k \<in> {''_rev'', ''_conflicts''} then None else jget k d)))"

lemma backup_doc_backed_up: "backup_doc True d = Some d' \<Longrightarrow> backed_up d d'"
proof -
  assume a: "backup_doc True d = Some d'"
  have keep: "k \<in> set NODE_PARTIAL_FIELDS \<Longrightarrow> jget k (without_instance_fields d) = jget k d" for k
    using node_partial by (auto simp: jget_without)
  show ?thesis
  proof (cases "type_of_doc d = ''node''")
    case True
    with a have "d' = JObj (given NODE_PARTIAL_FIELDS (without_instance_fields d))"
      by (auto simp: backup_doc_def split: if_splits)
    with True keep show ?thesis by (simp add: backed_up_def map_of_given)
  next
    case False
    with a have "d' = without_instance_fields d" by (auto simp: backup_doc_def split: if_splits)
    with False show ?thesis by (simp add: backed_up_def jget_without)
  qed
qed


text \<open>A full backup that holds a document of a type restore does not know, such as the
  filesystem documents every agent publishes, is refused by restore as a whole.
\<close>

lemma full_backup_refused:
  assumes "backup timestamp adm (Some ''full'') s = ((Reply 200 body, headers), s1)"
    and "da_all adm True s = (Inr rows, s2)"
    and "r \<in> set rows" "\<not> is_design r" "row_doc r = Some d" "type_of_doc d = ''filesystem''"
    and "da_all adm' False t = (Inr [], t1)"
  shows "\<exists>reply. restore lb db adm' body (c, t) = (reply, c, t1) \<and> reply_status reply = Some 400"
proof -
  let ?ds = "row_docs (filter (\<lambda>r. \<not> is_design r) rows)"
  let ?docs = "List.map_filter (backup_doc False) ?ds"
  have body: "body = JObj [(''docs'', JArr ?docs)]"
    using assms(1,2) by (simp add: backup_def)
  have "d \<in> set ?ds" using assms(3-5) by (auto simp: set_row_docs)
  moreover have "backup_doc False d = Some (without_instance_fields d)" by (simp add: backup_doc_def)
  ultimately have "without_instance_fields d \<in> set ?docs" by (auto simp: map_filter_set)
  moreover have "''filesystem'' \<notin> set RECOGNIZED_TYPES" by (simp add: RECOGNIZED_TYPES_def)
  ultimately have "\<not> (\<forall>x \<in> set ?docs. type_of_doc x \<in> set RECOGNIZED_TYPES)"
    using assms(6) by (metis type_without)
  then obtain reply where reply: "check_types ?docs = Some reply"
    unfolding check_types_None [symmetric] by blast
  have "check_types ds = Some r' \<Longrightarrow> reply_status r' = Some 400" for ds r'
    by (induction ds) (auto simp: Let_def bad_request_def split: if_splits)
  with reply have "reply_status reply = Some 400" by blast
  with reply show ?thesis by (simp add: restore_def body count_non_design_docs_def assms(7))
qed

text \<open>
  C23: data is deleted only in developer mode and with the confirmation; every other request is
  refused and reaches neither the database nor the caches. A restore writes nothing when the
  database already holds a document.
\<close>

theorem destructive_requests_guarded:
  "(\<not> (developer_mode \<and> jget_str ''confirm'' body = Some ''DELETE_ALL_DATA'') \<longrightarrow>
      (\<exists>r. delete_data lb developer_mode db adm body cs = (r, cs) \<and> reply_status r \<in> {Some 400, Some 403})) \<and>
   (\<forall>rows s1. da_all adm False s = (Inr rows, s1) \<and> (\<exists>r \<in> set rows. \<not> is_design r) \<longrightarrow>
      (\<exists>r. restore lb db adm body (c, s) = (r, c, s1) \<and> reply_status r = Some 409))"
proof (intro conjI allI impI)
  assume "\<not> (developer_mode \<and> jget_str ''confirm'' body = Some ''DELETE_ALL_DATA'')"
  then show "\<exists>r. delete_data lb developer_mode db adm body cs = (r, cs) \<and> reply_status r \<in> {Some 400, Some 403}"
    by (cases "jget_str ''confirm'' body") (auto simp: delete_data_def bad_request_def)
next
  fix rows s1
  assume a: "da_all adm False s = (Inr rows, s1) \<and> (\<exists>r \<in> set rows. \<not> is_design r)"
  then have "filter (\<lambda>r. \<not> is_design r) rows \<noteq> []" by (auto simp: filter_empty_conv)
  with a show "\<exists>r. restore lb db adm body (c, s) = (r, c, s1) \<and> reply_status r = Some 409"
    by (simp add: restore_def count_non_design_docs_def)
qed

section \<open>A concrete database\<close>

definition store_admin :: "store db_admin" where
  "store_admin =
     \<lparr>da_all = (\<lambda>include_docs s. (Inr (map doc_row s), s)), da_info = (\<lambda>s. (Inr (JObj []), s)),
      da_delete_db = (\<lambda>s. (Inr (), [])), da_ensure_db = (\<lambda>s. (Inr (), s)),
      da_create_indexes = (\<lambda>s. (Inr (), s))\<rparr>"

definition sample_backed :: store where
  "sample_backed =
     [(''_design/idx'', JObj []),
      (''dir::root'', JObj [(''_id'', JStr ''dir::root''), (''_rev'', JStr ''1-a''), (''type'', JStr ''virtual_directory'')]),
      (''fs::1'', JObj [(''_id'', JStr ''fs::1''), (''type'', JStr ''filesystem'')])]"

definition no_caches :: server_caches where
  "no_caches = \<lparr>sc_labels = [], sc_accesses = Map.empty\<rparr>"

lemma sample_backed_rows:
  "da_all store_admin b sample_backed = (Inr (map doc_row sample_backed), sample_backed)"
  "row_docs (filter (\<lambda>r. \<not> is_design r) (map doc_row sample_backed)) = map snd (tl sample_backed)"
  by (simp_all add: store_admin_def sample_backed_def is_design_def starts_with_def)


theorem destructive_requests_guarded_witness:
  "(\<exists>r. delete_data sample_libs False store_couch store_admin (JObj []) (no_caches, sample_backed) =
      (r, no_caches, sample_backed) \<and> reply_status r \<in> {Some 400, Some 403}) \<and>
   (\<exists>r. restore sample_libs store_couch store_admin (JObj []) (no_caches, sample_backed) =
      (r, no_caches, sample_backed) \<and> reply_status r = Some 409)"
proof -
  have "\<exists>r \<in> set (map doc_row sample_backed). \<not> is_design r"
    by (simp add: sample_backed_def is_design_def starts_with_def)
  with destructive_requests_guarded [of False "JObj []" sample_libs store_couch store_admin "(no_caches, sample_backed)"
      sample_backed no_caches] sample_backed_rows(1) [of False]
  show ?thesis by simp
qed

end
