(* ===== verification/Search_Api.thy ===== *)
theory Search_Api
  imports Api Glob Server_Caches
begin

text \<open>
  \<open>search\<close> of \<open>handlers/search.rs\<close>: the active files whose name matches the query and that
  carry the label asked for, according to the label cache.
\<close>

record search_query =
  sq_q :: "string option"
  sq_label :: "string option"
  sq_limit :: "u64 option"
  sq_offset :: "u64 option"

definition search_result :: "json \<Rightarrow> json" where
  "search_result doc =
     JObj [(''id'', json_opt (jget ''_id'' doc)), (''name'', JStr (unwrap_or (jget_str ''name'' doc) [])),
       (''source'', json_opt (jget ''source'' doc)), (''size'', json_opt (jget ''size'' doc)),
       (''mtime'', json_opt (jget ''mtime'' doc)), (''mime_type'', json_opt (jget ''mime_type'' doc))]"

definition found_file :: "(string \<Rightarrow> string) \<Rightarrow> string \<Rightarrow> string list option \<Rightarrow> json \<Rightarrow> json option" where
  "found_file lower search_term label_file_ids doc =
     (if jget_str ''type'' doc \<noteq> Some ''file'' then None
      else if jget_str ''status'' doc \<noteq> Some ''active'' then None
      else if search_term \<noteq> [] \<and> \<not> matches_query lower (unwrap_or (jget_str ''name'' doc) []) search_term then None
      else if (case label_file_ids of
                 Some ids \<Rightarrow> unwrap_or (jget_str ''_id'' doc) [] \<notin> set ids
               | None \<Rightarrow> False) then None
      else Some (search_result doc))"

definition search ::
  "(string \<Rightarrow> string) \<Rightarrow> 's couch \<Rightarrow> label_cache \<Rightarrow> search_query \<Rightarrow> 's \<Rightarrow> reply \<times> 's" where
  "search lower db labels q s =
     (let label_file_ids = map_option (files_with_label labels) (sq_label q) in
      on_ok (fetch_all db ''file::'' s) (\<lambda>docs s1.
        (Reply 200 (page (sq_offset q) (sq_limit q)
           (List.map_filter (found_file lower (unwrap_or (sq_q q) []) label_file_ids) docs)), s1)))"

section \<open>What is found\<close>

text \<open>The words of the query as the user means them.\<close>

definition name_fits :: "(string \<Rightarrow> string) \<Rightarrow> string \<Rightarrow> string \<Rightarrow> bool" where
  "name_fits lower term name \<longleftrightarrow> term = [] \<or>
     (if CHR ''*'' \<in> set term \<or> CHR ''?'' \<in> set term then glob_spec (lower term) (lower name)
      else (\<exists>u v. lower name = u @ lower term @ v))"

lemma name_fits_iff: "name_fits lower term name \<longleftrightarrow> term = [] \<or> matches_query lower name term"
  by (auto simp: name_fits_def glob_match_def matches_query_def glob_table_answer contains_str_iff)

lemma files_with_label_iff:
  assumes "distinct (map fst labels)"
  shows "f \<in> set (files_with_label labels l) \<longleftrightarrow> (\<exists>u. f = ''file::'' @ u \<and> cache_has_label labels u l)"
proof -
  have "f \<in> set (files_with_label labels l) \<longleftrightarrow> (\<exists>u ls. f = ''file::'' @ u \<and> (u, ls) \<in> set labels \<and> l \<in> set ls)"
    by (auto simp: files_with_label_def)
  also have "\<dots> \<longleftrightarrow> (\<exists>u ls. f = ''file::'' @ u \<and> map_of labels u = Some ls \<and> l \<in> set ls)"
    using assms by simp
  also have "\<dots> \<longleftrightarrow> (\<exists>u. f = ''file::'' @ u \<and> cache_has_label labels u l)"
    by (auto simp: cache_has_label_def unwrap_or_def split: option.splits)
  finally show ?thesis .
qed

text \<open>A search returns a page of exactly the active files whose name fits the query and that,
  when a label is asked for, the label cache gives that label.
\<close>

lemma search_exact:
  assumes "reads_law db docs" "distinct (map fst labels)"
  shows "\<exists>items. search lower db labels q s = (Reply 200 (page (sq_offset q) (sq_limit q) items), s) \<and>
    (\<forall>j. j \<in> set items \<longleftrightarrow> (\<exists>i d. starts_with i ''file::'' \<and> docs s i = Some d \<and> j = search_result d \<and>
       jget_str ''type'' d = Some ''file'' \<and> jget_str ''status'' d = Some ''active'' \<and>
       name_fits lower (unwrap_or (sq_q q) []) (unwrap_or (jget_str ''name'' d) []) \<and>
       (\<forall>l. sq_label q = Some l \<longrightarrow> (\<exists>u. unwrap_or (jget_str ''_id'' d) [] = ''file::'' @ u \<and> cache_has_label labels u l))))"
proof -
  obtain ds where ds: "fetch_all db ''file::'' s = (Inr ds, s)"
    "\<And>d. d \<in> set ds \<longleftrightarrow> (\<exists>i. starts_with i ''file::'' \<and> docs s i = Some d)"
    by (rule fetch_all_law [OF assms(1), of "''file::''" s]) (rule that)
  let ?ids = "map_option (files_with_label labels) (sq_label q)"
  have found: "found_file lower (unwrap_or (sq_q q) []) ?ids d = Some j \<longleftrightarrow> j = search_result d \<and>
       jget_str ''type'' d = Some ''file'' \<and> jget_str ''status'' d = Some ''active'' \<and>
       name_fits lower (unwrap_or (sq_q q) []) (unwrap_or (jget_str ''name'' d) []) \<and>
       (\<forall>l. sq_label q = Some l \<longrightarrow> (\<exists>u. unwrap_or (jget_str ''_id'' d) [] = ''file::'' @ u \<and> cache_has_label labels u l))"
    for d j
    unfolding found_file_def name_fits_iff
    by (cases "sq_label q") (auto simp: files_with_label_iff [OF assms(2)])
  show ?thesis
    by (rule exI [of _ "List.map_filter (found_file lower (unwrap_or (sq_q q) []) ?ids) ds"])
      (simp add: search_def ds(1) map_filter_set ds(2) found Bex_def, blast)
qed

definition sample_found :: store where
  "sample_found =
     [(''file::1'', JObj [(''_id'', JStr ''file::1''), (''type'', JStr ''file''), (''status'', JStr ''active''),
        (''name'', JStr ''a.pdf'')])]"

end
