(* ===== verification/Server_Start.thy ===== *)
theory Server_Start
  imports System_Api Access_Tracker Secrets Credentials Auth Notifications
begin

text \<open>
  \<open>start.rs\<close>: building the application, how it listens, the bootstrap command, and the three
  background tasks: the flush of access records, the watcher of the changes feed and the
  health checks. Each task is modelled by what one tick of its loop does. The notifications
  that the feed watcher spawns as tasks of their own run at once here.
\<close>

section \<open>Flushing access records\<close>

record 's app =
  ap_tracker :: access_tracker
  ap_labels :: label_cache
  ap_accesses :: access_cache
  ap_listings :: readdir_cache
  ap_db :: 's

definition access_doc_id :: "string \<Rightarrow> string" where
  "access_doc_id file_id = ''access::'' @ unwrap_or (strip_prefix ''file::'' file_id) file_id"

definition access_doc :: "libs \<Rightarrow> string \<times> time \<Rightarrow> json" where
  "access_doc lb p =
     JObj [(''_id'', JStr (access_doc_id (fst p))), (''type'', JStr ''access''), (''file_id'', JStr (fst p)),
       (''last_access'', JStr (rfc3339 lb (snd p)))]"

text \<open>What the bulk write answers is only logged.\<close>

definition flush_access_records :: "libs \<Rightarrow> 's couch \<Rightarrow> 's app \<Rightarrow> 's app" where
  "flush_access_records lb db a =
     (let (pending, tracker) = take_pending (ap_tracker a); a1 = a\<lparr>ap_tracker := tracker\<rparr> in
      if pending = [] then a1
      else a1\<lparr>ap_accesses := fold (\<lambda>(f, t). access_record f t) pending (ap_accesses a1),
              ap_db := snd (db_bulk db (map (access_doc lb) pending) (ap_db a1))\<rparr>)"

section \<open>The changes feed\<close>

definition conflicted :: "json \<Rightarrow> bool" where
  "conflicted doc \<longleftrightarrow> (case Option.bind (jget ''_conflicts'' doc) as_array of Some xs \<Rightarrow> xs \<noteq> [] | None \<Rightarrow> False)"

definition conflict_message :: "string \<Rightarrow> string" where
  "conflict_message i = ''Document '' @ [CHR 39] @ i @ [CHR 39] @ '' has unresolved conflicts.''"

definition feed_labels :: "'s couch \<Rightarrow> string \<Rightarrow> json \<Rightarrow> bool \<Rightarrow> 's app \<Rightarrow> 's app" where
  "feed_labels db i doc deleted a =
     (if starts_with i ''label_assignment::'' \<or> starts_with i ''label_rule::''
      then (let (c, s) = label_change db doc deleted (ap_labels a) (ap_db a) in a\<lparr>ap_labels := c, ap_db := s\<rparr>)
      else a)"

definition feed_accesses :: "libs \<Rightarrow> string \<Rightarrow> json \<Rightarrow> bool \<Rightarrow> 's app \<Rightarrow> 's app" where
  "feed_accesses lb i doc deleted a =
     (if starts_with i ''access::'' then a\<lparr>ap_accesses := access_change lb doc deleted (ap_accesses a)\<rparr> else a)"

definition feed_listings :: "string \<Rightarrow> json \<Rightarrow> 's app \<Rightarrow> 's app" where
  "feed_listings i doc a =
     (if starts_with i ''dir::'' then
        (case jget_str ''virtual_path'' doc of
           Some vpath \<Rightarrow> a\<lparr>ap_listings := readdir_invalidate vpath (ap_listings a)\<rparr>
         | None \<Rightarrow> a)
      else a)"

definition feed_conflicts :: "'s couch \<Rightarrow> string \<Rightarrow> string \<Rightarrow> json \<Rightarrow> 's app \<Rightarrow> 's app" where
  "feed_conflicts db now i doc a =
     (if conflicted doc then
        a\<lparr>ap_db := emit_control_plane_notification db ''couchdb'' ''persistent_couchdb_conflicts'' ''warning''
           ''CouchDB document conflicts detected'' (conflict_message i) now (ap_db a)\<rparr>
      else a)"

definition feed_change :: "libs \<Rightarrow> 's couch \<Rightarrow> string \<Rightarrow> change_row \<Rightarrow> 's app \<Rightarrow> 's app" where
  "feed_change lb db now ch a =
     (case ch_doc ch of
        None \<Rightarrow> a
      | Some doc \<Rightarrow>
          feed_conflicts db now (ch_id ch) doc
            (feed_listings (ch_id ch) doc
              (feed_accesses lb (ch_id ch) doc (ch_deleted ch)
                (feed_labels db (ch_id ch) doc (ch_deleted ch) a))))"

type_synonym 's change_source = "string \<Rightarrow> 's \<Rightarrow> (couch_error + changes_response) \<times> 's"

definition http_changes :: "'w transport \<Rightarrow> couch_client \<Rightarrow> 'w change_source" where
  "http_changes send c since = changes send c since True (Some 1000)"

text \<open>One tick: the changes that were handed out, the next position, the new state.\<close>

definition feed_poll ::
  "libs \<Rightarrow> 's change_source \<Rightarrow> 's couch \<Rightarrow> string \<Rightarrow> string \<times> 's app \<Rightarrow> change_row list \<times> string \<times> 's app" where
  "feed_poll lb source db now st =
     (case st of (since, a) \<Rightarrow>
        (case source since (ap_db a) of
           (Inl _, s1) \<Rightarrow> ([], since, a\<lparr>ap_db := s1\<rparr>)
         | (Inr resp, s1) \<Rightarrow>
             (results resp, last_seq_string lb resp,
              fold (feed_change lb db now) (results resp) (a\<lparr>ap_db := s1\<rparr>))))"

text \<open>The loop for as many ticks as times are given.\<close>

fun changes_feed_watcher ::
  "libs \<Rightarrow> 's change_source \<Rightarrow> 's couch \<Rightarrow> string list \<Rightarrow> string \<times> 's app \<Rightarrow> change_row list \<times> string \<times> 's app" where
  "changes_feed_watcher lb source db [] st = ([], st)"
| "changes_feed_watcher lb source db (now # nows) st =
     (let (seen, st1) = feed_poll lb source db now st;
          (later, st2) = changes_feed_watcher lb source db nows st1
      in (seen @ later, st2))"

section \<open>Health checks\<close>

text \<open>\<open>str::lines\<close>, up to carriage returns, which the caller trims.\<close>

definition text_lines :: "string \<Rightarrow> string list" where
  "text_lines t =
     (let parts = split_on (CHR 0x0A) t in if List.last parts = [] then butlast parts else parts)"

definition strip_suffix :: "char \<Rightarrow> string \<Rightarrow> string option" where
  "strip_suffix c t = (if t \<noteq> [] \<and> List.last t = c then Some (butlast t) else None)"

definition used_percent :: "string \<Rightarrow> nat option" where
  "used_percent stdout =
     (let ls = text_lines stdout in
      if length ls < 2 then None
      else Option.bind (strip_suffix (CHR ''%'') (trim (ls ! 1))) (\<lambda>t. parse_unsigned (2 ^ 32) (trim t)))"

definition disk_message :: "nat \<Rightarrow> string" where
  "disk_message pct = ''Root filesystem usage at '' @ nat_str pct @ ''%.''"

definition disk_check :: "'s couch \<Rightarrow> string \<Rightarrow> string option \<Rightarrow> 's \<Rightarrow> 's" where
  "disk_check db now df s =
     (case Option.bind df used_percent of
        None \<Rightarrow> s
      | Some pct \<Rightarrow>
          (if 90 \<le> pct then
             emit_control_plane_notification db ''system'' ''control_plane_disk_low'' ''warning''
               ''Control plane disk low'' (disk_message pct) now s
           else snd (resolve_control_plane_notification db ''control_plane_disk_low'' now s)))"

definition inactive_days :: "libs \<Rightarrow> time \<Rightarrow> json \<Rightarrow> nat option" where
  "inactive_days lb now_time cred =
     (let key_id = unwrap_or (jget_str ''access_key_id'' cred) [];
          enabled = unwrap_or (Option.bind (jget ''enabled'' cred) as_bool) False;
          last_used = unwrap_or (jget_str ''last_used'' cred) []
      in if \<not> enabled \<or> key_id = [] \<or> last_used = [] then None
         else (case parse_time lb last_used of
                 None \<Rightarrow> None
               | Some ts \<Rightarrow> if 90 < num_days (now_time - ts) then Some (nat (num_days (now_time - ts))) else None))"

definition inactive_message :: "string \<Rightarrow> nat \<Rightarrow> string" where
  "inactive_message key_id days =
     ''Credential '' @ [CHR 39] @ key_id @ [CHR 39] @ '' has not been used in '' @ nat_str days @ '' days.''"

definition credential_check :: "libs \<Rightarrow> 's couch \<Rightarrow> time \<Rightarrow> string \<Rightarrow> json \<Rightarrow> 's \<Rightarrow> 's" where
  "credential_check lb db now_time now cred s =
     (case inactive_days lb now_time cred of
        None \<Rightarrow> s
      | Some days \<Rightarrow>
          (let key_id = unwrap_or (jget_str ''access_key_id'' cred) [] in
           emit_control_plane_notification db ''auth'' (''credential_inactive:'' @ key_id) ''warning''
             ''Credential inactive'' (inactive_message key_id days) now s))"

definition control_plane_health_checks ::
  "libs \<Rightarrow> 's couch \<Rightarrow> time \<Rightarrow> string \<Rightarrow> string option \<Rightarrow> 's \<Rightarrow> 's" where
  "control_plane_health_checks lb db now_time now df s =
     (let s1 = disk_check db now df s in
      case list_credentials db s1 of
        (Inl _, s2) \<Rightarrow> s2
      | (Inr creds, s2) \<Rightarrow> fold (credential_check lb db now_time now) creds s2)"

section \<open>The feed hands out every change once\<close>

text \<open>
  What CouchDB documents for the changes feed, with the log of changes of a state and the
  token of a position in it: a poll answers with at most a thousand changes after the
  position and the token behind them, or fails. No request takes a change back.
\<close>

definition grows :: "('s \<Rightarrow> change_row list) \<Rightarrow> 's \<Rightarrow> 's \<Rightarrow> bool" where
  "grows chlog s s' \<longleftrightarrow> (\<exists>new. chlog s' = chlog s @ new)"

lemma grows_refl [simp]: "grows chlog s s"
  by (simp add: grows_def)

lemma grows_trans: "grows chlog s t \<Longrightarrow> grows chlog t u \<Longrightarrow> grows chlog s u"
  by (auto simp: grows_def)

lemma take_length_take: "take (length (take n xs)) xs = take n xs"
  by (simp add: min_def)

definition feed_law ::
  "libs \<Rightarrow> 's change_source \<Rightarrow> 's couch \<Rightarrow> ('s \<Rightarrow> change_row list) \<Rightarrow> (nat \<Rightarrow> string) \<Rightarrow> bool" where
  "feed_law lb source db chlog token \<longleftrightarrow>
     (\<forall>k s r s'. source (token k) s = (r, s') \<longrightarrow> grows chlog s s' \<and>
        (\<forall>resp. r = Inr resp \<longrightarrow> results resp = take 1000 (drop k (chlog s)) \<and>
           last_seq_string lb resp = token (k + length (results resp)))) \<and>
     (\<forall>i s. grows chlog s (snd (db_get db i s))) \<and>
     (\<forall>i d s. grows chlog s (snd (db_put db i d s))) \<and>
     (\<forall>p s. grows chlog s (snd (db_prefix db p s)))"

locale feed_rules =
  fixes lb :: libs and source :: "'s change_source" and db :: "'s couch"
    and chlog :: "'s \<Rightarrow> change_row list" and token :: "nat \<Rightarrow> string"
  assumes law: "feed_law lb source db chlog token"
begin

lemma reads_grow: "db_get db i s = (r, s') \<Longrightarrow> grows chlog s s'"
  using law by (metis feed_law_def snd_conv)

lemma puts_grow: "db_put db i d s = (r, s') \<Longrightarrow> grows chlog s s'"
  using law by (metis feed_law_def snd_conv)

lemma scans_grow: "db_prefix db p s = (r, s') \<Longrightarrow> grows chlog s s'"
  using law by (metis feed_law_def snd_conv)

lemma emission_grows: "grows chlog s (emit_control_plane_notification db part key sev title msg now s)"
proof -
  obtain r s1 where get: "db_get db (notification_id ''control_plane'' key) s = (r, s1)"
    by (cases "db_get db (notification_id ''control_plane'' key) s")
  obtain r2 s2 where put: "db_put db (notification_id ''control_plane'' key)
      (notification_doc ''control_plane'' part key sev title msg None now (ok r)) s1 = (r2, s2)"
    by (cases "db_put db (notification_id ''control_plane'' key)
      (notification_doc ''control_plane'' part key sev title msg None now (ok r)) s1")
  have "emit_control_plane_notification db part key sev title msg now s = s2"
    by (simp add: emit_control_plane_notification_def emit_notification_def get put)
  with grows_trans [OF reads_grow [OF get] puts_grow [OF put]] show ?thesis by simp
qed

lemma build_labels_grows: "build_labels db s = (r, s') \<Longrightarrow> grows chlog s s'"
  by (auto simp: build_labels_def Let_def split: prod.splits sum.splits if_splits
      dest!: scans_grow intro: grows_trans)

lemma label_change_grows: "label_change db doc deleted c s = (c', s') \<Longrightarrow> grows chlog s s'"
  by (auto simp: label_change_def split: option.splits prod.splits sum.splits if_splits
      dest!: build_labels_grows)

lemma feed_labels_grows: "grows chlog (ap_db a) (ap_db (feed_labels db i doc deleted a))"
  by (auto simp: feed_labels_def split: prod.split dest: label_change_grows)

lemma feed_change_grows: "grows chlog (ap_db a) (ap_db (feed_change lb db now ch a))"
proof (cases "ch_doc ch")
  case None
  then show ?thesis by (simp add: feed_change_def)
next
  case (Some doc)
  let ?a1 = "feed_labels db (ch_id ch) doc (ch_deleted ch) a"
  let ?a2 = "feed_listings (ch_id ch) doc (feed_accesses lb (ch_id ch) doc (ch_deleted ch) ?a1)"
  have "ap_db ?a2 = ap_db ?a1"
    by (simp add: feed_listings_def feed_accesses_def split: option.split)
  moreover have "grows chlog (ap_db ?a2) (ap_db (feed_conflicts db now (ch_id ch) doc ?a2))"
    by (simp add: feed_conflicts_def emission_grows)
  ultimately have "grows chlog (ap_db ?a1) (ap_db (feed_conflicts db now (ch_id ch) doc ?a2))" by simp
  from grows_trans [OF feed_labels_grows this] show ?thesis by (simp add: feed_change_def Some)
qed

lemma feed_changes_grow: "grows chlog (ap_db a) (ap_db (fold (feed_change lb db now) chs a))"
proof (induction chs arbitrary: a)
  case Nil
  then show ?case by simp
next
  case (Cons ch chs)
  from grows_trans [OF feed_change_grows Cons.IH] show ?case by simp
qed

lemma feed_poll_position:
  assumes "feed_poll lb source db now (token k, a) = (seen, since, a')" "k \<le> length (chlog (ap_db a))"
  shows "grows chlog (ap_db a) (ap_db a')" "since = token (k + length seen)"
    "seen = take (length seen) (drop k (chlog (ap_db a)))" "k + length seen \<le> length (chlog (ap_db a))"
proof -
  obtain r s1 where poll: "source (token k) (ap_db a) = (r, s1)" by (cases "source (token k) (ap_db a)")
  with law have g: "grows chlog (ap_db a) s1" unfolding feed_law_def by blast
  have "grows chlog (ap_db a) (ap_db a') \<and> since = token (k + length seen) \<and>
      seen = take (length seen) (drop k (chlog (ap_db a))) \<and> k + length seen \<le> length (chlog (ap_db a))"
  proof (cases r)
    case (Inl e)
    with assms poll g show ?thesis by (auto simp: feed_poll_def)
  next
    case (Inr resp)
    with law poll have resp: "results resp = take 1000 (drop k (chlog (ap_db a)))"
      "last_seq_string lb resp = token (k + length (results resp))"
      unfolding feed_law_def by blast+
    have poll': "seen = results resp" "since = last_seq_string lb resp"
      "a' = fold (feed_change lb db now) (results resp) (a\<lparr>ap_db := s1\<rparr>)"
      using assms(1) poll Inr by (auto simp: feed_poll_def)
    have "grows chlog s1 (ap_db a')"
      using feed_changes_grow [of "a\<lparr>ap_db := s1\<rparr>" now "results resp"] by (simp add: poll'(3))
    from grows_trans [OF g this] have "grows chlog (ap_db a) (ap_db a')" .
    moreover have "since = token (k + length seen)" using poll'(1,2) resp(2) by simp
    moreover have "seen = take (length seen) (drop k (chlog (ap_db a)))"
      unfolding poll'(1) resp(1) by (rule take_length_take [symmetric])
    moreover have "k + length seen \<le> length (chlog (ap_db a))" using poll'(1) resp(1) assms(2) by auto
    ultimately show ?thesis by blast
  qed
  then show "grows chlog (ap_db a) (ap_db a')" "since = token (k + length seen)"
    "seen = take (length seen) (drop k (chlog (ap_db a)))" "k + length seen \<le> length (chlog (ap_db a))" by auto
qed

lemma run_hands_out:
  assumes "changes_feed_watcher lb source db nows (token k, a) = (seen, since, a')"
    "k \<le> length (chlog (ap_db a))"
  shows "grows chlog (ap_db a) (ap_db a') \<and> since = token (k + length seen) \<and>
    seen = take (length seen) (drop k (chlog (ap_db a'))) \<and> k + length seen \<le> length (chlog (ap_db a'))"
  using assms
proof (induction nows arbitrary: k a seen)
  case Nil
  then show ?case by simp
next
  case (Cons now nows)
  obtain s1 since1 a1 where poll: "feed_poll lb source db now (token k, a) = (s1, since1, a1)"
    by (cases "feed_poll lb source db now (token k, a)")
  obtain s2 st2 where run: "changes_feed_watcher lb source db nows (since1, a1) = (s2, st2)"
    by (cases "changes_feed_watcher lb source db nows (since1, a1)")
  note p = feed_poll_position [OF poll Cons.prems(2)]
  have seen: "seen = s1 @ s2" "st2 = (since, a')" using Cons.prems(1) poll run by auto
  obtain new where new: "chlog (ap_db a1) = chlog (ap_db a) @ new" using p(1) by (auto simp: grows_def)
  have "k + length s1 \<le> length (chlog (ap_db a1))" using p(4) by (simp add: new)
  with Cons.IH [of "k + length s1" a1 s2] run p(2) seen(2) have ih: "grows chlog (ap_db a1) (ap_db a')"
    "since = token (k + length s1 + length s2)"
    "s2 = take (length s2) (drop (k + length s1) (chlog (ap_db a')))"
    "k + length s1 + length s2 \<le> length (chlog (ap_db a'))" by auto
  obtain new' where new': "chlog (ap_db a') = chlog (ap_db a) @ new'"
    using grows_trans [OF p(1) ih(1)] by (auto simp: grows_def)
  have "s1 = take (length s1) (drop k (chlog (ap_db a')))" using p(3,4) by (simp add: new')
  then have "seen = take (length s1 + length s2) (drop k (chlog (ap_db a')))"
    using ih(3) by (simp add: seen(1) take_add add.commute [of k])
  with ih grows_trans [OF p(1) ih(1)] show ?case by (simp add: seen(1) add.assoc)
qed

end

text \<open>
  A database with its log of changes: every write is a change, and a position is a string as
  long as the number of changes before it.
\<close>

type_synonym change_store = "store \<times> change_row list"

definition change_of_put :: "string \<Rightarrow> json \<Rightarrow> change_row" where
  "change_of_put i d = \<lparr>ch_seq = JNull, ch_id = i, ch_changes = [], ch_deleted = False, ch_doc = Some d\<rparr>"

definition change_couch :: "change_store couch" where
  "change_couch =
     \<lparr>db_get = (\<lambda>i. kept_log (db_get store_couch i)),
      db_put = (\<lambda>i d (s, log). (Inr (sample_response i), AList.update i d s, log @ [change_of_put i d])),
      db_delete = (\<lambda>i rv. kept_log (db_delete store_couch i rv)),
      db_bulk = (\<lambda>ds. kept_log (db_bulk store_couch ds)),
      db_prefix = (\<lambda>p. kept_log (db_prefix store_couch p)),
      db_find = (\<lambda>sel. kept_log (db_find store_couch sel))\<rparr>"

definition position_token :: "nat \<Rightarrow> string" where
  "position_token k = replicate k (CHR ''x'')"

definition change_feed :: "change_store change_source" where
  "change_feed since s =
     (let rows = take 1000 (drop (length since) (snd s)) in
      (Inr \<lparr>results = rows, last_seq = JStr (position_token (length since + length rows))\<rparr>, s))"

lemma change_couch_law: "feed_law lb change_feed change_couch snd position_token"
proof -
  have "grows snd s s'" if "kept_log f s = (r, s')" for f :: "store \<Rightarrow> 'r \<times> store" and r s s'
    using that by (auto simp: kept_log_def grows_def split: prod.splits)
  then have kept: "grows snd s (snd (kept_log f s))" for f :: "store \<Rightarrow> 'r \<times> store" and s
    by (metis prod.collapse)
  show ?thesis
    unfolding feed_law_def
    by (auto simp: change_feed_def change_couch_def Let_def last_seq_string_def position_token_def kept)
      (auto simp: grows_def)
qed

interpretation change_store_feed: feed_rules lb change_feed change_couch snd position_token for lb
  by unfold_locales (rule change_couch_law)


section \<open>Flushed accesses\<close>

text \<open>
  CouchDB refuses to replace a document without its revision: a bulk write leaves every
  document it addresses without a \<open>_rev\<close> as it was.
\<close>

definition revision_law :: "'s couch \<Rightarrow> ('s \<Rightarrow> string \<Rightarrow> json option) \<Rightarrow> bool" where
  "revision_law db docs \<longleftrightarrow>
     (\<forall>ds s r s' i. db_bulk db ds s = (r, s') \<longrightarrow> docs s i \<noteq> None \<longrightarrow>
        (\<forall>d \<in> set ds. jget_str ''_id'' d = Some i \<longrightarrow> jget ''_rev'' d = None) \<longrightarrow> docs s' i = docs s i)"

lemma fold_access_record:
  "distinct (map fst ps) \<Longrightarrow> fold (\<lambda>(f, t). access_record f t) ps c f =
     (case map_of ps f of Some t \<Rightarrow> Some t | None \<Rightarrow> c f)"
  unfolding access_record_def by (rule fold_written)

text \<open>A flush makes the in-memory access times of the pending files current, but writes the
  documents without a revision: once a file has an access document, no later flush changes it.
\<close>

lemma flush_keeps_old_document:
  assumes "revision_law db docs" "tracker_ok (ap_tracker a)"
    and "map_of (tk_pending (ap_tracker a)) f = Some t"
    and "docs (ap_db a) (access_doc_id f) = Some d"
  shows "cache_last_access (ap_accesses (flush_access_records lb db a)) f = Some t \<and>
    docs (ap_db (flush_access_records lb db a)) (access_doc_id f) = Some d"
proof -
  let ?ps = "tk_pending (ap_tracker a)"
  have ne: "?ps \<noteq> []" using assms(3) by auto
  obtain r s1 where bulk: "db_bulk db (map (access_doc lb) ?ps) (ap_db a) = (r, s1)"
    by (cases "db_bulk db (map (access_doc lb) ?ps) (ap_db a)")
  have dist: "distinct (map fst ?ps)" using assms(2) by (simp add: tracker_ok_def)
  have accesses: "ap_accesses (flush_access_records lb db a) = fold (\<lambda>(f, t). access_record f t) ?ps (ap_accesses a)"
    and state: "ap_db (flush_access_records lb db a) = s1"
    using ne by (simp_all add: flush_access_records_def take_pending_def bulk)
  have "\<forall>x \<in> set (map (access_doc lb) ?ps). jget ''_rev'' x = None"
    by (auto simp: access_doc_def)
  then have "docs s1 (access_doc_id f) = docs (ap_db a) (access_doc_id f)"
    using assms(1,4) bulk unfolding revision_law_def by blast
  with assms(3,4) show ?thesis
    by (simp add: accesses state cache_last_access_def fold_access_record [OF dist] del: map_of_eq_Some_iff)
qed

section \<open>The disk check\<close>

text \<open>What \<open>df --output=pcent /\<close> prints.\<close>

definition df_output :: "nat \<Rightarrow> string" where
  "df_output pct = ''Use%'' @ [CHR 0x0A] @ '' '' @ nat_str pct @ ''%'' @ [CHR 0x0A]"

lemma split_on_none: "c \<notin> set w \<Longrightarrow> split_on c (w @ c # t) = w # split_on c t"
  by (induction w) auto

lemma used_percent_df:
  assumes "pct < 2 ^ 32"
  shows "used_percent (df_output pct) = Some pct"
proof -
  obtain c ds where cs: "nat_str pct = c # ds" using nat_str_digits [of pct] by (cases "nat_str pct") auto
  have c: "is_digit 10 c" using nat_str_digits [of pct] by (simp add: cs)
  have "CHR 0x0A \<notin> set (nat_str pct)" by (rule nat_str_no) (simp add: is_digit_def digit_value_def)
  then have line: "CHR 0x0A \<notin> set (CHR '' '' # nat_str pct @ ''%'')" by simp
  have "split_on (CHR 0x0A) (df_output pct) = [''Use%'', CHR '' '' # nat_str pct @ ''%'', []]"
    using split_on_none [OF line, of "[]"] by (simp add: df_output_def)
  then have "text_lines (df_output pct) = [''Use%'', CHR '' '' # nat_str pct @ ''%'']"
    by (simp add: text_lines_def)
  moreover have "trim (CHR '' '' # nat_str pct @ ''%'') = nat_str pct @ ''%''"
    using trim_number(1) [OF c, of ds] by (simp add: cs)
  moreover have "trim (nat_str pct) = nat_str pct" using nat_str_digits [of pct] by (simp add: trim_digits)
  ultimately show ?thesis using assms by (simp add: used_percent_def strip_suffix_def)
qed

text \<open>When the root file system is at least 90 percent full the tick leaves an active warning
  with the figure in the database; below, it leaves none active.
\<close>

lemma disk_warning_follows_usage:
  assumes "reads_law db docs" "writes_law db docs" "accepts_writes db" "pct < 2 ^ 32"
    and "\<forall>d. docs s (notification_id ''control_plane'' ''control_plane_disk_low'') = Some d \<longrightarrow> is_object d"
  shows "\<exists>d. (let s' = disk_check db now (Some (df_output pct)) s in
      if 90 \<le> pct then
        docs s' (notification_id ''control_plane'' ''control_plane_disk_low'') = Some d \<and>
        jget_str ''status'' d = Some ''active'' \<and> jget_str ''message'' d = Some (disk_message pct)
      else
        (case docs s' (notification_id ''control_plane'' ''control_plane_disk_low'') of
           None \<Rightarrow> True | Some d' \<Rightarrow> jget_str ''status'' d' = Some ''resolved''))"
proof -
  let ?key = "notification_id ''control_plane'' ''control_plane_disk_low''"
  have pct: "Option.bind (Some (df_output pct)) used_percent = Some pct"
    using used_percent_df [OF assms(4)] by simp
  show ?thesis
  proof (cases "90 \<le> pct")
    case True
    let ?doc = "notification_doc ''control_plane'' ''system'' ''control_plane_disk_low'' ''warning''
      ''Control plane disk low'' (disk_message pct) None now (docs s ?key)"
    have get: "db_get db ?key s = (case docs s ?key of Some d \<Rightarrow> Inr d | None \<Rightarrow> Inl (NotFound ?key), s)"
      by (rule reads_law_get [OF assms(1)])
    obtain r s' where put: "db_put db ?key ?doc s = (Inr r, s')" using accepts_put [OF assms(3)] by blast
    from writes_law_put [OF assms(2) put] obtain d where d: "same_fields d ?doc" "docs s' = (docs s)(?key \<mapsto> d)"
      by blast
    have ok: "ok (case docs s ?key of Some d \<Rightarrow> Inr d | None \<Rightarrow> Inl (NotFound ?key)) = docs s ?key"
      by (cases "docs s ?key") auto
    have "disk_check db now (Some (df_output pct)) s = s'"
      using True pct by (simp add: disk_check_def emit_control_plane_notification_def emit_notification_def get ok put)
    moreover have "jget_str ''status'' ?doc = Some ''active''" by (rule notification_doc_fields(1))
    moreover have "jget_str ''message'' ?doc = Some (disk_message pct)"
      by (simp add: notification_doc_def jget_str_def Let_def split: option.split)
    ultimately show ?thesis using True d by (intro exI [of _ d]) (simp add: same_fields_def jget_str_def)
  next
    case False
    let ?s = "snd (resolve_control_plane_notification db ''control_plane_disk_low'' now s)"
    have "case docs ?s ?key of None \<Rightarrow> True | Some d' \<Rightarrow> jget_str ''status'' d' = Some ''resolved''"
    proof (cases "docs s ?key")
      case None
      then show ?thesis
        by (simp add: resolve_control_plane_notification_def resolve_notification_def reads_law_get [OF assms(1)])
    next
      case (Some d)
      show ?thesis
      proof (cases "unwrap_or (jget_str ''status'' d) [] = ''resolved''")
        case True
        then have "jget_str ''status'' d = Some ''resolved''" by (cases "jget_str ''status'' d") auto
        with True Some show ?thesis
          by (simp add: resolve_control_plane_notification_def resolve_notification_def reads_law_get [OF assms(1)])
      next
        case unresolved: False
        from assms(5) Some have "is_object d" by blast
        then obtain d1 where d1: "jset ''status'' (JStr ''resolved'') d = Some d1" "is_object d1"
          using jset_object by blast
        then obtain d2 where d2: "jset ''resolved_at'' (JStr now) d1 = Some d2" using jset_object by blast
        obtain r s' where put: "db_put db ?key d2 s = (Inr r, s')" using accepts_put [OF assms(3)] by blast
        from writes_law_put [OF assms(2) put] obtain d' where d': "same_fields d' d2" "docs s' = (docs s)(?key \<mapsto> d')"
          by blast
        have "?s = s'"
          using unresolved Some d1(1) d2 put
          by (simp add: resolve_control_plane_notification_def resolve_notification_def reads_law_get [OF assms(1)])
        moreover have "jget_str ''status'' d2 = Some ''resolved''"
          using jget_str_jset [OF d2] jget_str_jset [OF d1(1)] by simp
        ultimately show ?thesis using d' by (simp add: same_fields_def jget_str_def)
      qed
    qed
    with False pct show ?thesis by (simp add: disk_check_def)
  qed
qed


section \<open>A concrete server\<close>

definition sample_app :: "'s \<Rightarrow> 's app" where
  "sample_app s =
     \<lparr>ap_tracker = \<lparr>tk_pending = [(''file::1'', 7)], tk_last_written = Map.empty\<rparr>, ap_labels = [],
      ap_accesses = Map.empty, ap_listings = new_readdir_cache, ap_db = s\<rparr>"


text \<open>A bulk write that honours revisions.\<close>

definition put_new :: "json \<Rightarrow> store \<Rightarrow> store" where
  "put_new d s =
     (case jget_str ''_id'' d of
        None \<Rightarrow> s
      | Some i \<Rightarrow> if map_of s i = None \<or> jget ''_rev'' d \<noteq> None then AList.update i d s else s)"

definition revision_couch :: "store couch" where
  "revision_couch = store_couch\<lparr>db_bulk := (\<lambda>ds s. (Inr [], fold put_new ds s))\<rparr>"

lemma revision_couch_law: "revision_law revision_couch map_of"
proof -
  have "map_of (fold put_new ds s) i = map_of s i"
    if "map_of s i \<noteq> None" "\<forall>d \<in> set ds. jget_str ''_id'' d = Some i \<longrightarrow> jget ''_rev'' d = None"
    for ds and s :: store and i
    using that
  proof (induction ds arbitrary: s)
    case Nil
    then show ?case by simp
  next
    case (Cons d ds)
    have "map_of (put_new d s) i = map_of s i"
      using Cons.prems by (auto simp: put_new_def update_conv' split: option.split)
    with Cons show ?case by simp
  qed
  then show ?thesis unfolding revision_law_def revision_couch_def by (auto simp del: map_of_eq_Some_iff)
qed

end
