(* ===== verification/Server_Boot.thy ===== *)
theory Server_Boot
  imports Server_Start
begin

text \<open>
  The start of the server in \<open>start.rs\<close>: \<open>build_app_router\<close> up to the router, the choice of
  the transport in \<open>start_web_ui\<close>, and the \<open>bootstrap\<close> command. The files of the data
  directory are a map; which of them can be read or written, the random strings and the
  clock are the record \<open>boot_env\<close>; \<open>connect\<close> gives the database behind a client.
\<close>

datatype boot_error =
  NoWebSection
| IoFailed
| SecretFailed secret_error
| DatabaseFailed couch_error
| CredentialFailed cred_error

record boot_env =
  be_mkdir :: "string \<Rightarrow> bool"
  be_readable :: "string \<Rightarrow> bool"
  be_writable :: "string \<Rightarrow> bool"
  be_jwt_random :: string
  be_token :: string
  be_now :: string

text \<open>A step of the start: its error ends it (the \<open>?\<close> operator).\<close>

definition and_boot :: "('e \<Rightarrow> boot_error) \<Rightarrow> ('e + 'a) \<times> 's \<Rightarrow> ('a \<Rightarrow> 's \<Rightarrow> (boot_error + 'b) \<times> 's) \<Rightarrow> (boot_error + 'b) \<times> 's" where
  "and_boot err r f = (case r of (Inl e, s) \<Rightarrow> (Inl (err e), s) | (Inr a, s) \<Rightarrow> f a s)"

lemma and_boot_simps [simp]: "and_boot err (Inl e, s) f = (Inl (err e), s)" "and_boot err (Inr a, s) f = f a s"
  by (simp_all add: and_boot_def)

lemma and_boot_Inr:
  "and_boot err r f = (Inr b, s') \<longleftrightarrow> (\<exists>a s. r = (Inr a, s) \<and> f a s = (Inr b, s'))"
  by (auto simp: and_boot_def split: prod.splits sum.splits)

section \<open>Connecting\<close>

definition DB_NAME :: string where "DB_NAME = ''mosaicfs''"

definition DEFAULT_DATA_DIR :: string where "DEFAULT_DATA_DIR = ''/var/lib/mosaicfs/server''"

definition client_of :: "(string \<Rightarrow> secret_error + string) \<Rightarrow> secret_error + couch_client" where
  "client_of secret =
     and_then (secret COUCHDB_URL) (\<lambda>url. and_then (secret COUCHDB_USER) (\<lambda>user.
       and_then (secret COUCHDB_PASSWORD) (\<lambda>password. Inr (new_client url DB_NAME user password))))"

type_synonym 's connector = "couch_client \<Rightarrow> 's couch \<times> 's db_admin"

definition http_connect :: "libs \<Rightarrow> 'w transport \<Rightarrow> 'w connector" where
  "http_connect lb send c = (http_couch lb send c, http_admin send c)"

text \<open>The database and its indexes exist afterwards.\<close>

definition prepare_db :: "'s db_admin \<Rightarrow> 's \<Rightarrow> (boot_error + unit) \<times> 's" where
  "prepare_db adm s =
     and_boot DatabaseFailed (da_ensure_db adm s) (\<lambda>_ s1.
     and_boot DatabaseFailed (da_create_indexes adm s1) (\<lambda>_ s2. (Inr (), s2)))"

section \<open>The application\<close>

record app_state =
  as_client :: couch_client
  as_jwt_secret :: string
  as_data_dir :: string
  as_labels :: label_cache
  as_accesses :: access_cache
  as_tracker :: access_tracker
  as_listings :: readdir_cache
  as_developer_mode :: bool
  as_node_id :: "string option"

definition server_node_id :: "(string \<rightharpoonup> string) \<Rightarrow> mosaicfs_config \<Rightarrow> string option" where
  "server_node_id fs cfg =
     (case mc_node_id cfg of
        Some n \<Rightarrow> Some n
      | None \<Rightarrow>
          (case Option.bind (mc_agent cfg) ac_state_dir of
             None \<Rightarrow> None
           | Some d \<Rightarrow>
               (case fs (path_join d ''node_id'') of
                  None \<Rightarrow> None
                | Some t \<Rightarrow> if trim t = [] then None else Some (trim t))))"

text \<open>The bootstrap token is written when no credential exists yet.\<close>

definition write_bootstrap_token ::
  "boot_env \<Rightarrow> string \<Rightarrow> json list \<Rightarrow> (string \<rightharpoonup> string) \<Rightarrow> boot_error + (string \<rightharpoonup> string)" where
  "write_bootstrap_token env data_dir creds fs =
     (let path = path_join data_dir ''bootstrap_token'' in
      if creds \<noteq> [] then Inr fs
      else if be_writable env path then Inr (fs(path \<mapsto> be_token env))
      else Inl IoFailed)"

definition load_caches :: "libs \<Rightarrow> 's couch \<Rightarrow> 's \<Rightarrow> (boot_error + label_cache \<times> access_cache) \<times> 's" where
  "load_caches lb db s =
     and_boot DatabaseFailed (build_labels db s) (\<lambda>labels s1.
     and_boot DatabaseFailed (build_accesses lb db s1) (\<lambda>accesses s2. (Inr (labels, accesses), s2)))"

text \<open>The steps after the credentials are known; the files come first in the state.\<close>

definition finish_app ::
  "libs \<Rightarrow> boot_env \<Rightarrow> 's couch \<Rightarrow> couch_client \<Rightarrow> mosaicfs_config \<Rightarrow> web_ui_config \<Rightarrow> string \<Rightarrow> string \<Rightarrow>
     json list \<Rightarrow> (string \<rightharpoonup> string) \<times> 's \<Rightarrow> (boot_error + app_state) \<times> (string \<rightharpoonup> string) \<times> 's" where
  "finish_app lb env db c cfg web data_dir jwt creds st =
     (let (fs, s) = st in
      case write_bootstrap_token env data_dir creds fs of
        Inl e \<Rightarrow> (Inl e, fs, s)
      | Inr fs2 \<Rightarrow>
          and_boot id (with_cache fs2 (load_caches lb db s)) (\<lambda>(labels, accesses) (fs2, s3).
          and_boot DatabaseFailed (with_cache fs2 (ensure_root_directory (be_now env) db s3)) (\<lambda>_ st4.
            (Inr \<lparr>as_client = c, as_jwt_secret = jwt, as_data_dir = data_dir, as_labels = labels,
               as_accesses = accesses, as_tracker = new_tracker, as_listings = new_readdir_cache,
               as_developer_mode = wu_developer_mode web, as_node_id = server_node_id fs2 cfg\<rparr>, st4))))"

definition build_app ::
  "libs \<Rightarrow> boot_env \<Rightarrow> 's couch \<Rightarrow> 's db_admin \<Rightarrow> couch_client \<Rightarrow> mosaicfs_config \<Rightarrow> web_ui_config \<Rightarrow> string \<Rightarrow>
     (string \<rightharpoonup> string) \<times> 's \<Rightarrow> (boot_error + app_state) \<times> (string \<rightharpoonup> string) \<times> 's" where
  "build_app lb env db adm c cfg web data_dir st =
     (let (fs, s) = st in
      and_boot id (with_cache fs (prepare_db adm s)) (\<lambda>_ (fs, s1).
      case ensure_jwt_secret (be_readable env) (be_writable env) data_dir (be_jwt_random env) fs of
        (None, fs1) \<Rightarrow> (Inl IoFailed, fs1, s1)
      | (Some jwt, fs1) \<Rightarrow>
          and_boot CredentialFailed (with_cache fs1 (list_credentials db s1)) (\<lambda>creds st2.
            finish_app lb env db c cfg web data_dir jwt creds st2)))"

definition build_app_router ::
  "libs \<Rightarrow> boot_env \<Rightarrow> 's connector \<Rightarrow> mosaicfs_config \<Rightarrow> (string \<Rightarrow> secret_error + string) \<Rightarrow>
     (string \<rightharpoonup> string) \<times> 's \<Rightarrow> (boot_error + app_state) \<times> (string \<rightharpoonup> string) \<times> 's" where
  "build_app_router lb env connect cfg secret st =
     (case mc_web_ui cfg of
        None \<Rightarrow> (Inl NoWebSection, st)
      | Some web \<Rightarrow>
          (let data_dir = unwrap_or (wu_data_dir web) DEFAULT_DATA_DIR in
           if \<not> be_mkdir env data_dir then (Inl IoFailed, st)
           else
             (case client_of secret of
                Inl e \<Rightarrow> (Inl (SecretFailed e), st)
              | Inr c \<Rightarrow>
                  (case connect c of (db, adm) \<Rightarrow> build_app lb env db adm c cfg web data_dir st))))"

section \<open>The transport\<close>

datatype listen_plan =
  UnixSocket string
| PlainHttp string nat
| TlsAt string

text \<open>The port of an address that \<open>is_socket_addr\<close> accepts.\<close>

definition port_of :: "string \<Rightarrow> nat" where
  "port_of listen =
     (case rsplit_once (CHR '':'') listen of
        Some (_, p) \<Rightarrow> unwrap_or (parse_unsigned 65536 p) 0
      | None \<Rightarrow> 0)"

definition loopback :: string where "loopback = ''127.0.0.1''"

text \<open>
  \<open>start_web_ui\<close> up to the call of the server; the second component says whether TLS
  certificates are made ready first. \<open>None\<close> is an invalid address or a missing section.
\<close>

definition start_web_ui :: "mosaicfs_config \<Rightarrow> (listen_plan \<times> bool) option" where
  "start_web_ui cfg =
     (case mc_web_ui cfg of
        None \<Rightarrow> None
      | Some web \<Rightarrow>
          (if \<not> is_socket_addr (wu_listen web) then None
           else
             Some (case wu_socket_path web of
                     Some p \<Rightarrow> UnixSocket p
                   | None \<Rightarrow>
                       if wu_insecure_http web then PlainHttp loopback (port_of (wu_listen web))
                       else TlsAt (wu_listen web),
                   \<not> wu_insecure_http web)))"

section \<open>The bootstrap command\<close>

datatype bootstrap_result = Created string string | AlreadyExist | BootFailed boot_error

definition run_bootstrap ::
  "libs \<Rightarrow> cred_libs \<Rightarrow> 's connector \<Rightarrow> (string \<Rightarrow> secret_error + string) \<Rightarrow> u8 list \<Rightarrow> u8 list \<Rightarrow> string \<Rightarrow>
     's \<Rightarrow> bootstrap_result \<times> 's" where
  "run_bootstrap lb cl connect secret random16 random32 now s =
     (case client_of secret of
        Inl e \<Rightarrow> (BootFailed (SecretFailed e), s)
      | Inr c \<Rightarrow>
          (let (db, adm) = connect c in
           case prepare_db adm s of
             (Inl e, s1) \<Rightarrow> (BootFailed e, s1)
           | (Inr _, s1) \<Rightarrow>
               (case list_credentials db s1 of
                  (Inl e, s2) \<Rightarrow> (BootFailed (CredentialFailed e), s2)
                | (Inr existing, s2) \<Rightarrow>
                    (if existing \<noteq> [] then (AlreadyExist, s2)
                     else
                       (case create_credential lb cl db random16 random32 ''admin'' now s2 of
                          (Inl e, s3) \<Rightarrow> (BootFailed (CredentialFailed e), s3)
                        | (Inr (access_key, secret_key), s3) \<Rightarrow> (Created access_key secret_key, s3))))))"

section \<open>What the start leaves\<close>

text \<open>
  What is relied on of the requests on the whole database: listing reads exactly the
  identifiers of the documents, creating the database or its indexes keeps the documents.
\<close>

definition admin_law :: "'s db_admin \<Rightarrow> ('s \<Rightarrow> string \<Rightarrow> json option) \<Rightarrow> bool" where
  "admin_law adm docs \<longleftrightarrow>
     (\<forall>b s. \<exists>rows. da_all adm b s = (Inr rows, s) \<and> (\<forall>i. i \<in> row_id ` set rows \<longleftrightarrow> docs s i \<noteq> None)) \<and>
     (\<forall>s. docs (snd (da_ensure_db adm s)) = docs s) \<and> (\<forall>s. docs (snd (da_create_indexes adm s)) = docs s)"

lemma prepare_db_docs:
  assumes "admin_law adm docs" "prepare_db adm s = (r, s')"
  shows "docs s' = docs s"
proof -
  obtain r1 s1 where e: "da_ensure_db adm s = (r1, s1)" by (cases "da_ensure_db adm s")
  obtain r2 s2 where i: "da_create_indexes adm s1 = (r2, s2)" by (cases "da_create_indexes adm s1")
  have "docs s1 = docs s" "docs s2 = docs s1"
    using assms(1) e i unfolding admin_law_def by (metis snd_conv)+
  then show ?thesis using assms(2) e i
    by (cases r1; cases r2) (auto simp: prepare_db_def)
qed

lemma ensure_root_present:
  assumes "reads_law db docs" "writes_law db docs" "ensure_root_directory now db s = (Inr u, s')"
  shows "docs s' ''dir::root'' \<noteq> None"
proof (cases "docs s ''dir::root''")
  case None
  with assms obtain r where "db_put db ''dir::root'' (root_directory_doc now) s = (Inr r, s')"
    by (auto simp: ensure_root_directory_def reads_law_get [OF assms(1)] split: prod.splits sum.splits)
  from writes_law_put [OF assms(2) this] show ?thesis by auto
next
  case (Some d)
  with assms show ?thesis by (auto simp: ensure_root_directory_def reads_law_get [OF assms(1)])
qed

lemma with_cache_eq: "with_cache c r = (x, c', s') \<longleftrightarrow> c' = c \<and> r = (x, s')"
  by (auto simp: with_cache_def)

lemma finish_app_root:
  assumes "reads_law db docs" "writes_law db docs"
    and "finish_app lb env db c cfg web data_dir jwt creds st = (Inr app, fs', s')"
  shows "docs s' ''dir::root'' \<noteq> None"
proof -
  obtain fs s where "st = (fs, s)" by (cases st)
  with assms(3) obtain s3 u where "ensure_root_directory (be_now env) db s3 = (Inr u, s')"
    by (cases "write_bootstrap_token env data_dir creds fs")
      (auto simp: finish_app_def and_boot_Inr with_cache_eq split: prod.splits)
  then show ?thesis by (rule ensure_root_present [OF assms(1,2)])
qed

lemma build_app_root:
  assumes "reads_law db docs" "writes_law db docs"
    and "build_app lb env db adm c cfg web data_dir st = (Inr app, fs', s')"
  shows "docs s' ''dir::root'' \<noteq> None"
proof -
  obtain fs s where st: "st = (fs, s)" by (cases st)
  obtain jwt fs1 where jwt: "ensure_jwt_secret (be_readable env) (be_writable env) data_dir (be_jwt_random env) fs = (jwt, fs1)"
    by (cases "ensure_jwt_secret (be_readable env) (be_writable env) data_dir (be_jwt_random env) fs")
  obtain j creds st2 where "finish_app lb env db c cfg web data_dir j creds st2 = (Inr app, fs', s')"
    using assms(3) by (cases jwt) (auto simp: build_app_def st and_boot_Inr with_cache_eq jwt)
  then show ?thesis by (rule finish_app_root [OF assms(1,2)])
qed


text \<open>Without TLS the server listens on the loopback address or on a Unix socket only.
\<close>

lemma plain_http_is_local:
  "start_web_ui cfg = Some (plan, certificates) \<Longrightarrow>
     (\<exists>n. plan = PlainHttp ''127.0.0.1'' n \<and> n < 65536) \<or>
     (\<exists>q. plan = UnixSocket q) \<or> (\<exists>a. plan = TlsAt a \<and> certificates \<and> is_socket_addr a)"
proof -
  have "port_of t < 65536" for t
    by (auto simp: port_of_def parse_unsigned_def Let_def unwrap_or_def split: option.split if_splits)
  then show "start_web_ui cfg = Some (plan, certificates) \<Longrightarrow> ?thesis"
    by (auto simp: start_web_ui_def loopback_def split: option.splits if_splits)
qed

section \<open>Bootstrapping once\<close>

lemma list_credentials_law:
  assumes "reads_law db docs"
  obtains creds where "list_credentials db s = (Inr creds, s)"
    "creds = [] \<longleftrightarrow> (\<forall>i. starts_with i ''credential::'' \<longrightarrow> docs s i = None)"
proof -
  obtain rows where rows: "db_prefix db ''credential::'' s = (Inr rows, s)"
    "\<And>i d. (\<exists>r \<in> set rows. row_id r = i \<and> row_doc r = Some d) \<longleftrightarrow> starts_with i ''credential::'' \<and> docs s i = Some d"
    by (rule reads_law_prefix [OF assms, of "''credential::''" s]) (rule that)
  show thesis
  proof (rule that [of "map redact (row_docs rows)"])
    show "list_credentials db s = (Inr (map redact (row_docs rows)), s)"
      by (simp add: list_credentials_def rows(1))
    have "row_docs rows = [] \<longleftrightarrow> (\<forall>d. d \<notin> set (row_docs rows))" by auto
    also have "\<dots> \<longleftrightarrow> (\<forall>i. starts_with i ''credential::'' \<longrightarrow> docs s i = None)"
      unfolding set_row_docs using rows(2) by (metis not_Some_eq)
    finally show "map redact (row_docs rows) = [] \<longleftrightarrow> (\<forall>i. starts_with i ''credential::'' \<longrightarrow> docs s i = None)"
      by simp
  qed
qed


section \<open>A concrete start\<close>

lemma store_admin_law: "admin_law store_admin map_of"
proof -
  have "(i \<in> row_id ` set (map doc_row s)) = (map_of s i \<noteq> None)" for i and s :: store
    by (induction s) auto
  then show ?thesis by (simp add: admin_law_def store_admin_def del: map_of_eq_None_iff)
qed

definition sample_web :: mosaicfs_config where
  "sample_web =
     \<lparr>mc_node_id = None, mc_features = \<lparr>ft_agent = False, ft_vfs = False, ft_web_ui = True\<rparr>,
      mc_couchdb = \<lparr>cd_url = ''u'', cd_user = ''v'', cd_password = ''w''\<rparr>, mc_agent = None, mc_vfs = None,
      mc_web_ui = Some \<lparr>wu_listen = ''127.0.0.1:80'', wu_data_dir = None, wu_insecure_http = False,
        wu_developer_mode = False, wu_socket_path = Some ''/s''\<rparr>,
      mc_credentials = None, mc_secrets_manager = ''inline''\<rparr>"

definition sample_boot :: boot_env where
  "sample_boot = \<lparr>be_mkdir = (\<lambda>p. True), be_readable = (\<lambda>p. True), be_writable = (\<lambda>p. True),
     be_jwt_random = ''j'', be_token = ''t'', be_now = ''n''\<rparr>"

definition sample_client :: couch_client where
  "sample_client = new_client ''x'' DB_NAME ''x'' ''x''"

lemma sample_client_of: "client_of (\<lambda>k. Inr ''x'') = Inr sample_client"
  by (simp add: client_of_def sample_client_def)

lemma sample_build: "\<exists>app fs s. build_app_router sample_libs sample_boot (\<lambda>c. (store_couch, store_admin)) sample_web
    (\<lambda>k. Inr ''x'') (Map.empty, []) = (Inr app, fs, s)"
  by (simp add: build_app_router_def sample_web_def sample_boot_def sample_client_of build_app_def finish_app_def
      prepare_db_def store_admin_def ensure_jwt_secret_def list_credentials_def write_bootstrap_token_def
      load_caches_def build_labels_def build_accesses_def enabled_rules_def ensure_root_directory_def starts_with_def)



end
