(* ===== verification/Login_Api.thy ===== *)
theory Login_Api
  imports Api Auth
begin

text \<open>
  The handlers of \<open>routes.rs\<close>: login with its rate limit, the bootstrap endpoints, the
  session of a token, the credential endpoints, and the middleware that sets cache headers.
  Argon2's parser of hash strings, its verification and the text of its errors are
  parameters, as are the random draws and the clocks. The monotonic clock is read once in a
  handler. Files are a map from paths to contents.
\<close>

section \<open>The rate limit\<close>

definition LOGIN_RATE_LIMIT :: nat where "LOGIN_RATE_LIMIT = 5"

definition LOGIN_RATE_WINDOW_SECS :: nat where "LOGIN_RATE_WINDOW_SECS = 60"

text \<open>Per access key: the attempts counted and the start of the window, in nanoseconds.\<close>

type_synonym attempts = "string \<rightharpoonup> nat \<times> nat"

definition elapsed_secs :: "nat \<Rightarrow> nat \<Rightarrow> nat" where
  "elapsed_secs now start = (now - start) div 1000000000"

text \<open>\<open>True\<close>: the attempt may go on to the check of the credential.\<close>

definition count_attempt :: "nat \<Rightarrow> string \<Rightarrow> attempts \<Rightarrow> bool \<times> attempts" where
  "count_attempt now key m =
     (let e = unwrap_or (m key) (0, now);
          (n, start) = (if elapsed_secs now (snd e) > LOGIN_RATE_WINDOW_SECS then (0, now) else e)
      in if n \<ge> LOGIN_RATE_LIMIT then (False, m(key \<mapsto> (n, start)))
         else (True, m(key \<mapsto> (n + 1, start))))"

section \<open>Login\<close>

record 'h hash_libs =
  parse_hash :: "string \<Rightarrow> 'h option"
  verify_password :: "string \<Rightarrow> 'h \<Rightarrow> bool"

definition verify_secret :: "'h hash_libs \<Rightarrow> string \<Rightarrow> string \<Rightarrow> bool" where
  "verify_secret hl secret hash =
     (case parse_hash hl hash of None \<Rightarrow> False | Some h \<Rightarrow> verify_password hl secret h)"

record login_env =
  li_instant :: nat
  li_now :: time
  li_uuid :: string

definition invalid_credentials :: reply where
  "invalid_credentials = Reply 401 (error_json ''unauthorized'' ''Invalid credentials'')"

text \<open>The test of a stored credential that both login pages make.\<close>

definition secret_accepted :: "'h hash_libs \<Rightarrow> string \<Rightarrow> json \<Rightarrow> bool" where
  "secret_accepted hl secret doc \<longleftrightarrow>
     Option.bind (jget ''enabled'' doc) as_bool = Some True \<and>
     verify_secret hl secret (unwrap_or (jget_str ''secret_key_hash'' doc) [])"

text \<open>After the rate limit; a success forgets the attempts of the key.\<close>

definition check_login ::
  "'h hash_libs \<Rightarrow> jwt_libs \<Rightarrow> login_env \<Rightarrow> string \<Rightarrow> 's couch \<Rightarrow> string \<Rightarrow> string \<Rightarrow>
     attempts \<times> 's \<Rightarrow> reply \<times> attempts \<times> 's" where
  "check_login hl jl env jwt_secret db key secret st =
     (let (m, s) = st in
      case db_get db (credential_id key) s of
        (Inl (NotFound _), s1) \<Rightarrow> (invalid_credentials, m, s1)
      | (Inl _, s1) \<Rightarrow> (Reply 500 (error_json ''internal'' ''Internal error''), m, s1)
      | (Inr doc, s1) \<Rightarrow>
          if \<not> secret_accepted hl secret doc then (invalid_credentials, m, s1)
          else
            (case issue_token jl (li_now env) (li_uuid env) jwt_secret key of
               None \<Rightarrow> (Reply 500 (error_json ''internal'' ''Failed to issue token''), m, s1)
             | Some (token, expires_at) \<Rightarrow>
                 (Reply 200 (JObj [(''token'', JStr token), (''expires_at'', num_of_int expires_at)]),
                  m(key := None), s1)))"

definition login ::
  "'h hash_libs \<Rightarrow> jwt_libs \<Rightarrow> login_env \<Rightarrow> string \<Rightarrow> 's couch \<Rightarrow> string \<Rightarrow> string \<Rightarrow>
     attempts \<times> 's \<Rightarrow> reply \<times> attempts \<times> 's" where
  "login hl jl env jwt_secret db key secret st =
     (case count_attempt (li_instant env) key (fst st) of
        (False, m) \<Rightarrow> (Reply 429 (error_json ''rate_limited'' ''Too many login attempts''), m, snd st)
      | (True, m) \<Rightarrow> check_login hl jl env jwt_secret db key secret (m, snd st))"

section \<open>Bootstrap\<close>

definition bootstrap_path :: "string \<Rightarrow> string" where
  "bootstrap_path data_dir = path_join data_dir ''bootstrap_token''"

definition bootstrap_status :: "string \<Rightarrow> (string \<rightharpoonup> string) \<Rightarrow> reply" where
  "bootstrap_status data_dir fs =
     Reply 200 (JObj [(''needs_bootstrap'', JBool (fs (bootstrap_path data_dir) \<noteq> None))])"

text \<open>The text of the argon2 error is the first argument.\<close>

fun cred_error_text :: "string \<Rightarrow> cred_error \<Rightarrow> string" where
  "cred_error_text hash_text (CouchFailed e) = couch_error_text e"
| "cred_error_text hash_text HashFailed = hash_text"
| "cred_error_text hash_text MissingRev = ''Missing _rev''"

definition cred_failed :: "string \<Rightarrow> cred_error \<Rightarrow> reply" where
  "cred_failed hash_text e = Reply 500 (error_json ''internal'' (cred_error_text hash_text e))"

definition key_reply :: "string \<Rightarrow> string \<Rightarrow> (string \<times> json) list" where
  "key_reply access_key_id secret_key =
     [(''access_key_id'', JStr access_key_id), (''secret_key'', JStr secret_key)]"

text \<open>The random draws and the time a new credential is made with.\<close>

record cred_draws =
  cd_random16 :: "u8 list"
  cd_random32 :: "u8 list"
  cd_now :: string

definition new_credential ::
  "libs \<Rightarrow> cred_libs \<Rightarrow> cred_draws \<Rightarrow> 's couch \<Rightarrow> string \<Rightarrow> 's \<Rightarrow> (cred_error + string \<times> string) \<times> 's" where
  "new_credential lb cl draws db name s =
     create_credential lb cl db (cd_random16 draws) (cd_random32 draws) name (cd_now draws) s"

text \<open>What is readable and removable among the files; a failed removal is ignored.\<close>

record file_access =
  fa_readable :: "string \<Rightarrow> bool"
  fa_removable :: "string \<Rightarrow> bool"

definition read_file :: "file_access \<Rightarrow> (string \<rightharpoonup> string) \<Rightarrow> string \<Rightarrow> string option" where
  "read_file fa fs p = (if fa_readable fa p then fs p else None)"

definition remove_file :: "file_access \<Rightarrow> string \<Rightarrow> (string \<rightharpoonup> string) \<Rightarrow> (string \<rightharpoonup> string)" where
  "remove_file fa p fs = (if fa_removable fa p then fs(p := None) else fs)"

definition bootstrap ::
  "libs \<Rightarrow> cred_libs \<Rightarrow> cred_draws \<Rightarrow> string \<Rightarrow> file_access \<Rightarrow> 's couch \<Rightarrow> string \<Rightarrow> string \<Rightarrow>
     (string \<rightharpoonup> string) \<times> 's \<Rightarrow> reply \<times> (string \<rightharpoonup> string) \<times> 's" where
  "bootstrap lb cl draws hash_text fa db data_dir token st =
     (let (fs, s) = st; path = bootstrap_path data_dir in
      case read_file fa fs path of
        None \<Rightarrow> (Reply 409 (error_json ''not_required'' ''Bootstrap is not required''), fs, s)
      | Some t \<Rightarrow>
          if token \<noteq> trim t then (Reply 401 (error_json ''invalid_token'' ''Invalid bootstrap token''), fs, s)
          else
            (case new_credential lb cl draws db ''admin'' s of
               (Inl e, s1) \<Rightarrow> (cred_failed hash_text e, fs, s1)
             | (Inr (key, secret), s1) \<Rightarrow> (Reply 200 (JObj (key_reply key secret)), remove_file fa path fs, s1)))"

section \<open>The session of a token\<close>

definition whoami :: "claims \<Rightarrow> reply" where
  "whoami c =
     Reply 200 (JObj [(''access_key_id'', JStr (cl_sub c)), (''token_id'', JStr (cl_jti c)),
       (''issued_at'', num_of_int (cl_iat c)), (''expires_at'', num_of_int (cl_exp c))])"

definition logout :: "claims \<Rightarrow> string list \<Rightarrow> reply \<times> string list" where
  "logout c revoked = (ok_reply, revoked @ [cl_jti c])"

section \<open>Credential endpoints\<close>

definition list_credentials_handler :: "string \<Rightarrow> 's couch \<Rightarrow> 's \<Rightarrow> reply \<times> 's" where
  "list_credentials_handler hash_text db s =
     (case list_credentials db s of
        (Inr creds, s1) \<Rightarrow> (Reply 200 (listing_json creds), s1)
      | (Inl e, s1) \<Rightarrow> (cred_failed hash_text e, s1))"

definition create_credential_handler ::
  "libs \<Rightarrow> cred_libs \<Rightarrow> cred_draws \<Rightarrow> string \<Rightarrow> 's couch \<Rightarrow> string \<Rightarrow> 's \<Rightarrow> reply \<times> 's" where
  "create_credential_handler lb cl draws hash_text db name s =
     (case new_credential lb cl draws db name s of
        (Inr (key, secret), s1) \<Rightarrow> (Reply 201 (JObj (key_reply key secret @ [(''name'', JStr name)])), s1)
      | (Inl e, s1) \<Rightarrow> (cred_failed hash_text e, s1))"

definition get_credential_handler :: "'s couch \<Rightarrow> string \<Rightarrow> 's \<Rightarrow> reply \<times> 's" where
  "get_credential_handler db key s =
     (case get_credential db key s of
        (Inr doc, s1) \<Rightarrow> (Reply 200 doc, s1)
      | (Inl (NotFound _), s1) \<Rightarrow> (not_found ''Credential not found'', s1)
      | (Inl e, s1) \<Rightarrow> (internal e, s1))"

definition update_credential_handler :: "string \<Rightarrow> 's couch \<Rightarrow> string \<Rightarrow> json \<Rightarrow> 's \<Rightarrow> reply \<times> 's" where
  "update_credential_handler hash_text db key body s =
     (case update_credential db key body s of
        (None, s1) \<Rightarrow> (Panicked, s1)
      | (Some (Inr _), s1) \<Rightarrow> (ok_reply, s1)
      | (Some (Inl e), s1) \<Rightarrow> (cred_failed hash_text e, s1))"

definition delete_credential_handler :: "string \<Rightarrow> 's couch \<Rightarrow> string \<Rightarrow> 's \<Rightarrow> reply \<times> 's" where
  "delete_credential_handler hash_text db key s =
     (case delete_credential db key s of
        (Inr _, s1) \<Rightarrow> (ok_reply, s1)
      | (Inl e, s1) \<Rightarrow> (cred_failed hash_text e, s1))"

section \<open>Cache headers\<close>

type_synonym headers = "string \<rightharpoonup> string"

definition asset_cache_headers :: "string \<Rightarrow> headers \<Rightarrow> headers" where
  "asset_cache_headers path h =
     (if starts_with path ''/assets/''
      then h(''cache-control'' \<mapsto> ''public, max-age=31536000, immutable'')
      else if (case h ''content-type'' of Some v \<Rightarrow> starts_with v ''text/html'' | None \<Rightarrow> False)
      then h(''cache-control'' \<mapsto> ''no-cache'') else h)"

definition origin_allowed :: "string \<Rightarrow> bool" where
  "origin_allowed origin = starts_with origin ''http://localhost:''"


section \<open>The rate limit counts\<close>

text \<open>Logins one after the other, with the access keys they were for.\<close>

fun logins ::
  "'h hash_libs \<Rightarrow> jwt_libs \<Rightarrow> string \<Rightarrow> 's couch \<Rightarrow> (login_env \<times> string \<times> string) list \<Rightarrow>
     attempts \<times> 's \<Rightarrow> (string \<times> reply) list \<times> attempts \<times> 's" where
  "logins hl jl jwt_secret db [] st = ([], st)"
| "logins hl jl jwt_secret db ((env, key, secret) # reqs) st =
     (let (r, st1) = login hl jl env jwt_secret db key secret st;
          (out, st2) = logins hl jl jwt_secret db reqs st1
      in ((key, r) # out, st2))"

text \<open>The logins for a key that were checked against its credential.\<close>

definition checked :: "string \<Rightarrow> (string \<times> reply) list \<Rightarrow> nat" where
  "checked key out = length (filter (\<lambda>(k, r). k = key \<and> reply_status r \<noteq> Some 429) out)"

text \<open>The window of a key started at or after \<open>t\<close> and has counted \<open>n\<close> attempts.\<close>

definition counted :: "nat \<Rightarrow> nat \<Rightarrow> (nat \<times> nat) option \<Rightarrow> bool" where
  "counted t n e \<longleftrightarrow> (case e of None \<Rightarrow> n = 0 | Some (i, start) \<Rightarrow> i = n \<and> t \<le> start)"

lemma check_login_attempts:
  assumes "check_login hl jl env jwt_secret db key secret (m, s) = (r, m', s')"
  shows "reply_status r \<noteq> Some 429" "key' \<noteq> key \<Longrightarrow> m' key' = m key'" "reply_status r \<noteq> Some 200 \<Longrightarrow> m' = m"
  using assms
  by (auto simp: check_login_def invalid_credentials_def split: prod.splits sum.splits couch_error.splits
      if_splits option.splits)

lemma login_attempts:
  assumes "login hl jl env jwt_secret db key secret (m, s) = (r, m', s')"
    and "key' = key \<Longrightarrow> t \<le> li_instant env \<and> li_instant env < t + 61000000000 \<and> reply_status r \<noteq> Some 200"
    and "counted t n (m key')" "n \<le> 5"
  shows "\<exists>n'. counted t n' (m' key') \<and> n' \<le> 5 \<and> n + checked key' [(key, r)] \<le> n'"
proof (cases "key' = key")
  case True
  have env: "t \<le> li_instant env" "li_instant env < t + 61000000000" "reply_status r \<noteq> Some 200"
    using assms(2) [OF True] by auto
  obtain ok m1 where c: "count_attempt (li_instant env) key m = (ok, m1)"
    by (cases "count_attempt (li_instant env) key m")
  obtain start where e: "unwrap_or (m key) (0, li_instant env) = (n, start)" "t \<le> start"
    using assms(3) env(1) True by (cases "m key") (auto simp: counted_def unwrap_or_def)
  have "\<not> elapsed_secs (li_instant env) start > 60"
    using env(2) e(2) by (auto simp: elapsed_secs_def)
  with c e have ok: "ok = (n < 5)" "m1 = m(key \<mapsto> (if n < 5 then n + 1 else n, start))"
    by (auto simp: count_attempt_def Let_def LOGIN_RATE_LIMIT_def LOGIN_RATE_WINDOW_SECS_def split: if_splits)
  show ?thesis
  proof (cases "n < 5")
    case False
    with assms(1) c ok have "m' = m1" "reply_status r = Some 429" by (auto simp: login_def)
    with False ok e(2) True assms(4) show ?thesis by (auto simp: checked_def counted_def)
  next
    case less: True
    with assms(1) c ok have chk: "check_login hl jl env jwt_secret db key secret (m1, s) = (r, m', s')"
      by (auto simp: login_def)
    from check_login_attempts(3) [OF chk env(3)] less ok e(2) True show ?thesis
      by (auto simp: checked_def counted_def)
  qed
next
  case False
  have "m' key' = m key'"
  proof (cases "fst (count_attempt (li_instant env) key m)")
    case True
    then obtain m1 where c: "count_attempt (li_instant env) key m = (True, m1)"
      by (cases "count_attempt (li_instant env) key m") auto
    with False have "m1 key' = m key'" by (auto simp: count_attempt_def Let_def split: prod.splits if_splits)
    moreover have "check_login hl jl env jwt_secret db key secret (m1, s) = (r, m', s')"
      using assms(1) c by (simp add: login_def)
    ultimately show ?thesis using check_login_attempts(2) False by metis
  next
    case no: False
    then obtain m1 where c: "count_attempt (li_instant env) key m = (False, m1)"
      by (cases "count_attempt (li_instant env) key m") auto
    with False have "m1 key' = m key'" by (auto simp: count_attempt_def Let_def split: prod.splits if_splits)
    then show ?thesis using assms(1) c by (simp add: login_def)
  qed
  with False assms(3,4) show ?thesis by (auto simp: checked_def)
qed

lemma checked_Cons: "checked key (x # out) = checked key [x] + checked key out"
  by (auto simp: checked_def)

lemma logins_counted:
  assumes "\<And>env secret. (env, key, secret) \<in> set reqs \<Longrightarrow> t \<le> li_instant env \<and> li_instant env < t + 61000000000"
    and "\<And>r. (key, r) \<in> set (fst (logins hl jl jwt_secret db reqs (m, s))) \<Longrightarrow> reply_status r \<noteq> Some 200"
    and "counted t n (m key)" "n \<le> 5"
  shows "n + checked key (fst (logins hl jl jwt_secret db reqs (m, s))) \<le> 5"
  using assms
proof (induction reqs arbitrary: m s n)
  case Nil
  then show ?case by (simp add: checked_def)
next
  case (Cons q reqs)
  obtain env k x where q: "q = (env, k, x)" by (cases q) auto
  obtain r m1 s1 where l: "login hl jl env jwt_secret db k x (m, s) = (r, m1, s1)"
    by (cases "login hl jl env jwt_secret db k x (m, s)") auto
  obtain out st2 where rest: "logins hl jl jwt_secret db reqs (m1, s1) = (out, st2)"
    by (cases "logins hl jl jwt_secret db reqs (m1, s1)")
  have out: "fst (logins hl jl jwt_secret db (q # reqs) (m, s)) = (k, r) # out" by (simp add: q l rest)
  obtain n' where n': "counted t n' (m1 key)" "n' \<le> 5" "n + checked key [(k, r)] \<le> n'"
    using login_attempts [OF l _ Cons.prems(3,4)] Cons.prems(1) [of env x] Cons.prems(2) [of r] q
    by (auto simp: out rest l)
  have "n' + checked key out \<le> 5"
    using Cons.IH [of m1 s1 n'] Cons.prems(1,2) n'(1,2) by (auto simp: out rest q l)
  moreover have "checked key ((k, r) # out) = checked key [(k, r)] + checked key out" by (rule checked_Cons)
  ultimately show ?case using n'(3) by (simp only: out)
qed

section \<open>Properties\<close>


definition sample_hash :: "string hash_libs" where
  "sample_hash = \<lparr>parse_hash = Some, verify_password = (\<lambda>x h. h = CHR ''h'' # x)\<rparr>"

definition login_at :: "nat \<Rightarrow> login_env" where
  "login_at n = \<lparr>li_instant = n, li_now = 0, li_uuid = ''u''\<rparr>"


text \<open>The documented behaviour of Argon2: a hash verifies the secret it was made of.\<close>

definition hash_law :: "cred_libs \<Rightarrow> 'h hash_libs \<Rightarrow> bool" where
  "hash_law cl hl \<longleftrightarrow> (\<forall>secret h. argon2_hash cl secret = Some h \<longrightarrow> verify_secret hl secret h)"

lemma created_accepted:
  assumes "writes_law db docs" "hash_law cl hl"
    and "new_credential lb cl draws db name s = (Inr (key, sec), s1)"
  obtains d where "docs s1 = (docs s)(credential_id key \<mapsto> d)" "secret_accepted hl sec d"
proof -
  obtain h d where d: "argon2_hash cl sec = Some h" "docs s1 = (docs s)(credential_id key \<mapsto> d)"
    "same_fields d (credential_doc key h (generate_hmac_key lb sec) name (cd_now draws))"
    using create_credential_stored [OF assms(1) assms(3) [unfolded new_credential_def]] by blast
  have "jget ''enabled'' d = Some (JBool True)" "jget ''secret_key_hash'' d = Some (JStr h)"
    using d(3) by (simp_all add: same_fields_def credential_doc_def)
  with d assms(2) show thesis
    by (intro that [of d]) (auto simp: secret_accepted_def jget_str_def hash_law_def unwrap_or_def)
qed

text \<open>
  C27: the secret of a new credential logs its holder in: the token that is issued carries the key,
  passes the middleware until it expires, and is refused once it has been logged out.
\<close>

theorem new_credential_logs_in:
  assumes "reads_law db docs" "writes_law db docs" "hash_law cl hl" "jwt_law jl"
    and "new_credential lb cl draws db name s = (Inr (key, sec), s1)"
    and "count_attempt (li_instant env) key m = (True, m1)"
    and "issue_token jl (li_now env) (li_uuid env) jwt_secret key = Some (token, ex)"
    and "timestamp_secs now \<le> timestamp_secs (li_now env) + 24 * 3600" "li_uuid env \<notin> set revoked"
  shows "login hl jl env jwt_secret db key sec (m, s1) =
      (Reply 200 (JObj [(''token'', JStr token), (''expires_at'', num_of_int ex)]), m1(key := None), s1) \<and>
    (\<exists>c. jwt_middleware jl now jwt_secret revoked (bearer token) = Pass c \<and> cl_sub c = key \<and>
      whoami c = Reply 200 (JObj [(''access_key_id'', JStr key), (''token_id'', JStr (li_uuid env)),
        (''issued_at'', num_of_int (timestamp_secs (li_now env))), (''expires_at'', num_of_int ex)]) \<and>
      jwt_middleware jl now jwt_secret (snd (logout c revoked)) (bearer token) = Deny 401 ''Token has been revoked'')"
proof -
  obtain d where d: "docs s1 = (docs s)(credential_id key \<mapsto> d)" "secret_accepted hl sec d"
    by (rule created_accepted [OF assms(2,3,5)])
  have get: "db_get db (credential_id key) s1 = (Inr d, s1)" by (simp add: reads_law_get [OF assms(1)] d(1))
  have login: "login hl jl env jwt_secret db key sec (m, s1) =
      (Reply 200 (JObj [(''token'', JStr token), (''expires_at'', num_of_int ex)]), m1(key := None), s1)"
    by (simp add: login_def assms(6,7) check_login_def get d(2))
  let ?c = "\<lparr>cl_sub = key, cl_exp = ex, cl_iat = timestamp_secs (li_now env), cl_jti = li_uuid env\<rparr>"
  note mw = token_lifecycle [OF assms(4,7), THEN conjunct2, of _ _ "''GET''" "''/''" None, folded bearer_def]
  have "jwt_middleware jl now jwt_secret revoked (bearer token) = Pass ?c"
    "jwt_middleware jl now jwt_secret (revoked @ [li_uuid env]) (bearer token) = Deny 401 ''Token has been revoked''"
    using assms(8,9) unfolding mw by simp_all
  with login show ?thesis by (intro conjI exI [of _ ?c]) (simp_all add: whoami_def logout_def)
qed

definition sample_cred :: cred_libs where
  "sample_cred = \<lparr>base64_url = (\<lambda>_. ''x''), argon2_hash = (\<lambda>t. Some (CHR ''h'' # t))\<rparr>"

lemma sample_hash_law: "hash_law sample_cred sample_hash"
  by (simp add: hash_law_def sample_cred_def verify_secret_def sample_hash_def)

definition sample_draws :: cred_draws where
  "sample_draws = \<lparr>cd_random16 = replicate 16 7, cd_random32 = [], cd_now = ''now''\<rparr>"

lemma sample_new_credential:
  "new_credential lb sample_cred sample_draws store_couch name s =
     (Inr (generate_access_key_id (replicate 16 7), ''mosaicfs_x''),
      snd (new_credential lb sample_cred sample_draws store_couch name s))"
  by (simp add: new_credential_def create_credential_def Let_def sample_cred_def sample_draws_def generate_secret_key_def)

theorem new_credential_logs_in_witness:
  "\<exists>token m s1 c jl. fst (login sample_hash jl (login_at 9) ''s'' store_couch
      (generate_access_key_id (replicate 16 7)) ''mosaicfs_x'' (m, s1)) = Reply 200 token \<and>
    jwt_middleware jl 5 ''s'' [] (bearer ''tok'') = Pass c \<and>
    jwt_middleware jl 5 ''s'' [''u''] (bearer ''tok'') = Deny 401 ''Token has been revoked''"
proof -
  let ?k = "generate_access_key_id (replicate 16 7)"
  let ?c = "\<lparr>cl_sub = ?k, cl_exp = 86400, cl_iat = 0, cl_jti = ''u''\<rparr>"
  have "timestamp_secs (JWT_EXPIRY_HOURS * 3600 * 1000000000) = 86400" "timestamp_secs 0 = 0"
    by (simp_all add: timestamp_secs_def JWT_EXPIRY_HOURS_def)
  then have issued: "issue_token (one_token ?c) (li_now (login_at 9)) (li_uuid (login_at 9)) ''s'' ?k = Some (''tok'', 86400)"
    by (simp add: issue_token_def login_at_def one_token_def)
  have count: "count_attempt (li_instant (login_at 9)) ?k Map.empty = (True, [?k \<mapsto> (1, 9)])"
    by (simp add: count_attempt_def unwrap_or_def elapsed_secs_def login_at_def LOGIN_RATE_LIMIT_def
        LOGIN_RATE_WINDOW_SECS_def)
  note life = new_credential_logs_in [OF store_couch_reads store_couch_writes sample_hash_law one_token_law
      sample_new_credential [of sample_libs "''me''" "[]"] count issued, of 5 "[]"]
  have "timestamp_secs 5 \<le> timestamp_secs (li_now (login_at 9)) + 24 * 3600"
    by (simp add: timestamp_secs_def login_at_def)
  note runs = life [OF this, simplified]
  from runs obtain c where c: "jwt_middleware (one_token ?c) 5 ''s'' [] (bearer ''tok'') = Pass c"
    "whoami c = Reply 200 (JObj [(''access_key_id'', JStr ?k), (''token_id'', JStr ''u''),
       (''issued_at'', num_of_int (timestamp_secs (li_now (login_at 9)))), (''expires_at'', num_of_int 86400)])"
    "jwt_middleware (one_token ?c) 5 ''s'' (snd (logout c [])) (bearer ''tok'') = Deny 401 ''Token has been revoked''"
    by (elim conjE exE) (simp add: login_at_def)
  from runs have "fst (login sample_hash (one_token ?c) (login_at 9) ''s'' store_couch ?k ''mosaicfs_x''
      (Map.empty, snd (new_credential sample_libs sample_cred sample_draws store_couch ''me'' []))) =
      Reply 200 (JObj [(''token'', JStr ''tok''), (''expires_at'', num_of_int 86400)])"
    by (simp add: login_at_def)
  moreover have "snd (logout c []) = [''u'']" using c(2) by (simp add: whoami_def logout_def)
  ultimately show ?thesis using c(1,3) by (intro exI conjI) (assumption, assumption, simp)
qed

end
