(* ===== verification/Web.thy ===== *)
theory Web
  imports Login_Api Server_Boot
begin

text \<open>
  The frame of the web interface, \<open>ui/mod.rs\<close>, and the bootstrap pages of \<open>ui/actions.rs\<close>:
  the session, the sign-in, the guard of the protected pages, the flash message. A page is
  its status, its template and the context the template is given; the template engine is not
  modelled. The session store is modelled by its documented operations on one session; it may
  be broken, and then every operation on it fails.
\<close>

type_synonym page_context = "string \<rightharpoonup> json"

datatype web_reply =
  Redirect string
| Page nat string page_context
| PlainText nat string
| JsonReply nat json
| Asset string string
| WebPanicked
| WebPending

section \<open>Sessions\<close>

record session =
  ss_data :: "string \<rightharpoonup> json"
  ss_broken :: bool

definition session_get :: "session \<Rightarrow> string \<Rightarrow> json option" where
  "session_get ss k = (if ss_broken ss then None else ss_data ss k)"

text \<open>The flag says whether the value was stored.\<close>

definition session_insert :: "string \<Rightarrow> json \<Rightarrow> session \<Rightarrow> bool \<times> session" where
  "session_insert k v ss = (if ss_broken ss then (False, ss) else (True, ss\<lparr>ss_data := (ss_data ss)(k \<mapsto> v)\<rparr>))"

definition session_remove :: "string \<Rightarrow> session \<Rightarrow> json option \<times> session" where
  "session_remove k ss =
     (if ss_broken ss then (None, ss) else (ss_data ss k, ss\<lparr>ss_data := (ss_data ss)(k := None)\<rparr>))"

definition session_flush :: "session \<Rightarrow> session" where
  "session_flush ss = (if ss_broken ss then ss else ss\<lparr>ss_data := Map.empty\<rparr>)"

definition SESSION_USER_KEY :: string where "SESSION_USER_KEY = ''access_key_id''"

definition FLASH_KEY :: string where "FLASH_KEY = ''_flash''"

definition NEW_SECRET_KEY :: string where "NEW_SECRET_KEY = ''_new_secret''"

definition set_flash :: "string \<Rightarrow> session \<Rightarrow> session" where
  "set_flash msg ss = snd (session_insert FLASH_KEY (JStr msg) ss)"

definition take_flash :: "session \<Rightarrow> string option \<times> session" where
  "take_flash ss = (let (v, ss1) = session_remove FLASH_KEY ss in (Option.bind v as_str, ss1))"

definition secret_pair :: "string \<times> string \<Rightarrow> json" where
  "secret_pair p = JArr [JStr (fst p), JStr (snd p)]"

fun as_secret_pair :: "json \<Rightarrow> (string \<times> string) option" where
  "as_secret_pair (JArr [JStr a, JStr b]) = Some (a, b)"
| "as_secret_pair j = None"

definition take_new_secret :: "session \<Rightarrow> (string \<times> string) option \<times> session" where
  "take_new_secret ss = (let (v, ss1) = session_remove NEW_SECRET_KEY ss in (Option.bind v as_secret_pair, ss1))"

definition put_new_secret :: "string \<times> string \<Rightarrow> session \<Rightarrow> session" where
  "put_new_secret p ss = snd (session_insert NEW_SECRET_KEY (secret_pair p) ss)"

section \<open>The frame of the pages\<close>

definition insecure_http :: "environment \<Rightarrow> bool" where
  "insecure_http env =
     (case env ''MOSAICFS_INSECURE_HTTP'' of
        Some v \<Rightarrow> v = ''1'' \<or> eq_ignore_ascii_case v ''true''
      | None \<Rightarrow> False)"

definition session_user :: "session \<Rightarrow> string option" where
  "session_user ss = Option.bind (session_get ss SESSION_USER_KEY) as_str"

definition current_user :: "environment \<Rightarrow> session \<Rightarrow> string option" where
  "current_user env ss = (if insecure_http env then Some ''insecure-http'' else session_user ss)"

definition base_ctx :: "string option \<Rightarrow> page_context" where
  "base_ctx user =
     (case user of
        None \<Rightarrow> [''authed'' \<mapsto> JBool False]
      | Some u \<Rightarrow> [''authed'' \<mapsto> JBool True, ''user'' \<mapsto> JStr u])"

definition page_ctx :: "environment \<Rightarrow> session \<Rightarrow> page_context \<times> session" where
  "page_ctx env ss =
     (let (flash, ss1) = take_flash ss; ctx = base_ctx (current_user env ss) in
      (case flash of Some msg \<Rightarrow> ctx(''flash'' \<mapsto> JStr msg) | None \<Rightarrow> ctx, ss1))"

text \<open>The dash between a page's name and the product's, in UTF-8.\<close>

definition titled :: "string \<Rightarrow> string \<Rightarrow> json" where
  "titled name product = JStr (name @ '' '' @ [CHR 0xE2, CHR 0x80, CHR 0x94] @ '' '' @ product)"

definition ends_with :: "string \<Rightarrow> string \<Rightarrow> bool" where
  "ends_with s t \<longleftrightarrow> starts_with (rev s) (rev t)"

text \<open>\<open>None\<close>: the request goes on to the page.\<close>

definition require_auth :: "environment \<Rightarrow> session \<Rightarrow> string \<Rightarrow> web_reply option" where
  "require_auth env ss path =
     (if insecure_http env \<or> session_user ss \<noteq> None then None
      else if starts_with path ''/ui/'' \<and> ends_with path ''/panel'' then Some (PlainText 401 ''Session expired. Reload.'')
      else Some (Redirect ''/ui/login''))"

section \<open>Signing in and out\<close>

definition login_form :: "environment \<Rightarrow> string \<Rightarrow> (string \<rightharpoonup> string) \<Rightarrow> session \<Rightarrow> web_reply" where
  "login_form env data_dir fs ss =
     (if current_user env ss \<noteq> None then Redirect ''/ui/status''
      else if fs (bootstrap_path data_dir) \<noteq> None then Redirect ''/ui/bootstrap''
      else Page 200 ''login.html'' (base_ctx None))"

definition login_error :: "string \<Rightarrow> web_reply" where
  "login_error msg = Page 401 ''login.html'' ((base_ctx None)(''error'' \<mapsto> JStr msg))"

definition login_submit ::
  "'h hash_libs \<Rightarrow> 's couch \<Rightarrow> string \<Rightarrow> string \<Rightarrow> session \<Rightarrow> 's \<Rightarrow> web_reply \<times> session \<times> 's" where
  "login_submit hl db key secret ss s =
     (case db_get db (credential_id key) s of
        (Inl (NotFound _), s1) \<Rightarrow> (login_error ''Invalid credentials'', ss, s1)
      | (Inl _, s1) \<Rightarrow> (login_error ''Internal error'', ss, s1)
      | (Inr doc, s1) \<Rightarrow>
          if \<not> secret_accepted hl secret doc then (login_error ''Invalid credentials'', ss, s1)
          else
            (case session_insert SESSION_USER_KEY (JStr key) ss of
               (True, ss1) \<Rightarrow> (Redirect ''/ui/status'', ss1, s1)
             | (False, ss1) \<Rightarrow> (login_error ''Session error'', ss1, s1)))"

definition web_logout :: "session \<Rightarrow> web_reply \<times> session" where
  "web_logout ss = (Redirect ''/ui/login'', session_flush ss)"

section \<open>Assets\<close>

text \<open>The bytes of the three files are embedded by the compiler; the reply names the file.\<close>

definition asset_types :: "(string \<times> string) list" where
  "asset_types =
     [(''pico.min.css'', ''text/css; charset=utf-8''),
      (''htmx.min.js'', ''application/javascript; charset=utf-8''),
      (''browse_open.js'', ''application/javascript; charset=utf-8'')]"

definition serve_asset :: "string \<Rightarrow> web_reply" where
  "serve_asset path =
     (let name = strip_any [''/ui/assets/''] path in
      case map_of asset_types name of Some t \<Rightarrow> Asset name t | None \<Rightarrow> PlainText 404 ''not found'')"

section \<open>Bootstrap pages\<close>

definition bootstrap_page ::
  "string \<Rightarrow> (string \<rightharpoonup> string) \<Rightarrow> session \<Rightarrow> web_reply \<times> session" where
  "bootstrap_page data_dir fs ss =
     (if fs (bootstrap_path data_dir) = None then (Redirect ''/ui/login'', ss)
      else
        (let (new_secret, ss1) = take_new_secret ss;
             ctx = (base_ctx None)(''title'' \<mapsto> titled ''Bootstrap'' ''MosaicFS'')
         in (Page 200 ''bootstrap.html''
               (case new_secret of
                  Some (ak, sk) \<Rightarrow> ctx(''created_access_key'' \<mapsto> JStr ak, ''created_secret_key'' \<mapsto> JStr sk)
                | None \<Rightarrow> ctx), ss1)))"

definition bootstrap_error :: "string \<Rightarrow> session \<Rightarrow> web_reply \<times> session" where
  "bootstrap_error msg ss = (Redirect ''/ui/bootstrap'', set_flash msg ss)"

definition bootstrap_submit ::
  "libs \<Rightarrow> cred_libs \<Rightarrow> cred_draws \<Rightarrow> file_access \<Rightarrow> 's couch \<Rightarrow> string \<Rightarrow> string \<Rightarrow> session \<Rightarrow>
     (string \<rightharpoonup> string) \<times> 's \<Rightarrow> (web_reply \<times> session) \<times> (string \<rightharpoonup> string) \<times> 's" where
  "bootstrap_submit lb cl draws fa db data_dir token ss st =
     (let (fs, s) = st; path = bootstrap_path data_dir in
      case read_file fa fs path of
        None \<Rightarrow> (bootstrap_error ''Bootstrap is not required.'' ss, fs, s)
      | Some t \<Rightarrow>
          if trim token \<noteq> trim t then (bootstrap_error ''Invalid bootstrap token.'' ss, fs, s)
          else
            (case new_credential lb cl draws db ''admin'' s of
               (Inr p, s1) \<Rightarrow> ((Redirect ''/ui/bootstrap'', put_new_secret p ss), remove_file fa path fs, s1)
             | (Inl _, s1) \<Rightarrow> (bootstrap_error ''Failed to create credential.'' ss, fs, s1)))"

section \<open>What the start leaves in the environment\<close>

definition web_env :: "mosaicfs_config \<Rightarrow> environment \<Rightarrow> environment" where
  "web_env cfg env =
     (case mc_web_ui cfg of
        None \<Rightarrow> env
      | Some web \<Rightarrow>
          if wu_insecure_http web \<or> wu_socket_path web \<noteq> None
          then env(''MOSAICFS_INSECURE_HTTP'' \<mapsto> ''1'') else env)"


section \<open>Lemmas\<close>

lemma session_user_simps [simp]:
  "session_user (set_flash msg ss) = session_user ss"
  "session_user (put_new_secret p ss) = session_user ss"
  "session_user (session_flush ss) = (if ss_broken ss then session_user ss else None)"
  by (simp_all add: session_user_def session_get_def set_flash_def put_new_secret_def session_insert_def
      session_flush_def SESSION_USER_KEY_def FLASH_KEY_def NEW_SECRET_KEY_def)

lemma session_user_taken:
  "take_flash ss = (f, ss1) \<Longrightarrow> session_user ss1 = session_user ss"
  "take_new_secret ss = (p, ss1) \<Longrightarrow> session_user ss1 = session_user ss"
  by (auto simp: take_flash_def take_new_secret_def session_remove_def session_user_def session_get_def
      SESSION_USER_KEY_def FLASH_KEY_def NEW_SECRET_KEY_def split: if_splits)

lemma set_then_take_flash: "\<not> ss_broken ss \<Longrightarrow> fst (take_flash (set_flash msg ss)) = Some msg"
  by (simp add: take_flash_def set_flash_def session_insert_def session_remove_def)

lemma put_then_take_secret: "\<not> ss_broken ss \<Longrightarrow> fst (take_new_secret (put_new_secret p ss)) = Some p"
  by (simp add: take_new_secret_def put_new_secret_def session_insert_def session_remove_def secret_pair_def)

lemma taken_once:
  "take_flash ss = (f, ss1) \<Longrightarrow> fst (take_flash ss1) = None"
  "take_new_secret ss = (p, ss1) \<Longrightarrow> fst (take_new_secret ss1) = None"
  by (auto simp: take_flash_def take_new_secret_def session_remove_def split: if_splits)

lemma login_submit_cases:
  assumes "login_submit hl db key secret ss s = (r, ss', s')"
  shows "(session_user ss' = session_user ss \<and> ss' = ss) \<or>
    (session_user ss' = Some key \<and> r = Redirect ''/ui/status'' \<and>
      (\<exists>doc. db_get db (credential_id key) s = (Inr doc, s') \<and> secret_accepted hl secret doc))"
  using assms
  by (auto simp: login_submit_def session_insert_def session_user_def session_get_def SESSION_USER_KEY_def
      split: prod.splits sum.splits couch_error.splits if_splits)

section \<open>The session as a state machine\<close>

text \<open>
  A request that is served, with the change it makes to the session, or a change of the database
  by another client. The set holds the keys for which a secret has
  been accepted by the test of the stored credential; a new session starts with nothing.
\<close>

inductive web_step ::
  "environment \<Rightarrow> 'h hash_libs \<Rightarrow> 's couch \<Rightarrow> string set \<times> session \<times> 's \<Rightarrow> string set \<times> session \<times> 's \<Rightarrow> bool"
  for env hl db where
  submitted: "login_submit hl db key secret ss s = (r, ss', s') \<Longrightarrow>
     A' = (case db_get db (credential_id key) s of
             (Inr doc, _) \<Rightarrow> if secret_accepted hl secret doc then insert key A else A
           | _ \<Rightarrow> A) \<Longrightarrow>
     web_step env hl db (A, ss, s) (A', ss', s')"
| left: "web_step env hl db (A, ss, s) (A, snd (web_logout ss), s)"
| bootstrap_shown: "web_step env hl db (A, ss, s) (A, snd (bootstrap_page data_dir fs ss), s)"
| bootstrapped: "bootstrap_submit lb cl draws fa db data_dir token ss (fs, s) = ((r, ss'), fs', s') \<Longrightarrow>
     web_step env hl db (A, ss, s) (A, ss', s')"
| elsewhere: "web_step env hl db (A, ss, s) (A, ss, s')"
| page_shown: "require_auth env ss path = None \<Longrightarrow> web_step env hl db (A, ss, s) (A, snd (page_ctx env ss), s')"
| flashed: "require_auth env ss path = None \<Longrightarrow> web_step env hl db (A, ss, s) (A, set_flash msg ss, s')"
| keyed: "require_auth env ss path = None \<Longrightarrow> web_step env hl db (A, ss, s) (A, put_new_secret p ss, s')"

inductive_cases web_stepE: "web_step env hl db st st'"

definition user_accepted :: "string set \<times> session \<times> 's \<Rightarrow> bool" where
  "user_accepted st \<longleftrightarrow> (\<forall>k. session_user (fst (snd st)) = Some k \<longrightarrow> k \<in> fst st)"

lemma bootstrap_page_user: "session_user (snd (bootstrap_page data_dir fs ss)) = session_user ss"
  by (auto simp: bootstrap_page_def session_user_taken Let_def split: prod.split)

lemma bootstrap_submit_user:
  assumes "bootstrap_submit lb cl draws fa db data_dir token ss (fs, s) = ((r, ss'), fs', s')"
  shows "session_user ss' = session_user ss"
  using assms
  by (auto simp: bootstrap_submit_def bootstrap_error_def Let_def split: option.splits prod.splits sum.splits if_splits)

lemma page_ctx_user: "session_user (snd (page_ctx env ss)) = session_user ss"
  by (auto simp: page_ctx_def session_user_taken Let_def split: prod.split)

lemma web_step_accepted:
  assumes "web_step env hl db st st'" "user_accepted st"
  shows "user_accepted st'"
  using assms
proof (cases rule: web_step.cases)
  case (submitted key secret ss s r ss' s' A' A)
  from login_submit_cases [OF submitted(3)] show ?thesis
    using assms(2) submitted(1,2,4)
    by (auto simp: user_accepted_def split: prod.splits sum.splits if_splits)
next
  case (left A ss s)
  with assms(2) show ?thesis by (auto simp: user_accepted_def web_logout_def)
next
  case (bootstrap_shown A ss s data_dir fs)
  with assms(2) show ?thesis by (auto simp: user_accepted_def bootstrap_page_user)
next
  case (bootstrapped lb cl draws fa data_dir token ss fs s r ss' fs' s' A)
  with assms(2) show ?thesis by (auto simp: user_accepted_def bootstrap_submit_user [OF bootstrapped(3)])
next
  case (elsewhere A ss s s')
  with assms(2) show ?thesis by (auto simp: user_accepted_def)
next
  case (page_shown ss path A s s')
  with assms(2) show ?thesis by (auto simp: user_accepted_def page_ctx_user)
next
  case (flashed ss path A s msg s')
  with assms(2) show ?thesis by (auto simp: user_accepted_def)
next
  case (keyed ss path A s p s')
  with assms(2) show ?thesis by (auto simp: user_accepted_def)
qed

text \<open>The pages of a session that begins empty.\<close>

inductive reached ::
  "environment \<Rightarrow> 'h hash_libs \<Rightarrow> 's couch \<Rightarrow> string set \<times> session \<times> 's \<Rightarrow> bool" for env hl db where
  new: "reached env hl db ({}, \<lparr>ss_data = Map.empty, ss_broken = b\<rparr>, s)"
| again: "reached env hl db st \<Longrightarrow> web_step env hl db st st' \<Longrightarrow> reached env hl db st'"

lemma reached_accepted: "reached env hl db st \<Longrightarrow> user_accepted st"
proof (induction rule: reached.induct)
  case (new b s)
  then show ?case by (simp add: user_accepted_def session_user_def session_get_def)
next
  case (again st st')
  then show ?case using web_step_accepted by blast
qed

section \<open>Properties\<close>


definition new_session :: session where
  "new_session = \<lparr>ss_data = Map.empty, ss_broken = False\<rparr>"

definition sample_login_doc :: json where
  "sample_login_doc = JObj [(''enabled'', JBool True), (''secret_key_hash'', JStr ''hx'')]"

lemma sample_login_accepted: "secret_accepted sample_hash ''x'' sample_login_doc"
  by (simp add: secret_accepted_def sample_login_doc_def verify_secret_def sample_hash_def unwrap_or_def jget_str_def)

lemma sample_login_submit:
  "login_submit sample_hash store_couch ''k'' ''x'' new_session [(''credential::k'', sample_login_doc)] =
     (Redirect ''/ui/status'', \<lparr>ss_data = [''access_key_id'' \<mapsto> JStr ''k''], ss_broken = False\<rparr>,
      [(''credential::k'', sample_login_doc)])"
  by (simp add: login_submit_def credential_id_def sample_login_accepted session_insert_def new_session_def
      SESSION_USER_KEY_def)


text \<open>The bootstrap page never shows the credential it has created: after a successful submission
  the redirect leads to the sign-in page, because the token is gone, and the secret stays in the
  session, behind the sign-in that needs it.
\<close>

lemma web_bootstrap_hides_secret:
  assumes "read_file fa fs (bootstrap_path data_dir) = Some t" "trim token = trim t"
    and "new_credential lb cl draws db ''admin'' s = (Inr (key, sec), s1)"
    and "fa_removable fa (bootstrap_path data_dir)" "\<not> ss_broken ss" "session_user ss = None" "\<not> insecure_http env"
  shows "\<exists>ss1 fs1.
    bootstrap_submit lb cl draws fa db data_dir token ss (fs, s) = ((Redirect ''/ui/bootstrap'', ss1), fs1, s1) \<and>
    bootstrap_page data_dir fs1 ss1 = (Redirect ''/ui/login'', ss1) \<and>
    login_form env data_dir fs1 ss1 = Page 200 ''login.html'' (base_ctx None) \<and>
    require_auth env ss1 ''/ui/settings/credentials'' = Some (Redirect ''/ui/login'') \<and>
    fst (take_new_secret ss1) = Some (key, sec)"
proof -
  let ?ss = "put_new_secret (key, sec) ss" and ?fs = "fs(bootstrap_path data_dir := None)"
  have "bootstrap_submit lb cl draws fa db data_dir token ss (fs, s) = ((Redirect ''/ui/bootstrap'', ?ss), ?fs, s1)"
    by (simp add: bootstrap_submit_def Let_def assms(1-4) remove_file_def)
  moreover have "session_user ?ss = None" by (simp add: assms(6))
  moreover have "require_auth env ?ss ''/ui/settings/credentials'' = Some (Redirect ''/ui/login'')"
    by (simp add: require_auth_def assms(6,7) ends_with_def starts_with_def)
  moreover have "bootstrap_page data_dir ?fs ?ss = (Redirect ''/ui/login'', ?ss)" by (simp add: bootstrap_page_def)
  moreover have "login_form env data_dir ?fs ?ss = Page 200 ''login.html'' (base_ctx None)"
    by (simp add: login_form_def current_user_def assms(6,7))
  ultimately show ?thesis using put_then_take_secret [OF assms(5), of "(key, sec)"] by blast
qed

text \<open>
  the sign-in of the web interface has no rate limit: with the attempts of a key used up, the API
  answers 429 without looking at the secret, and the web form still accepts it.
\<close>

theorem web_login_not_limited:
  assumes "count_attempt (li_instant env) key m = (False, m1)"
    and "db_get db (credential_id key) s = (Inr doc, s1)" "secret_accepted hl secret doc" "\<not> ss_broken ss"
  shows "\<exists>body ss1. login hl jl env jwt_secret db key secret (m, s) = (Reply 429 body, m1, s) \<and>
    login_submit hl db key secret ss s = (Redirect ''/ui/status'', ss1, s1) \<and> session_user ss1 = Some key"
  using assms
  by (simp add: login_def login_submit_def session_insert_def session_user_def session_get_def)

theorem web_login_not_limited_witness:
  "\<exists>body ss1. login sample_hash (one_token sample_claims) (login_at 9) ''s'' store_couch ''k'' ''x''
      ([''k'' \<mapsto> (5, 9)], [(''credential::k'', sample_login_doc)]) =
      (Reply 429 body, [''k'' \<mapsto> (5, 9)], [(''credential::k'', sample_login_doc)]) \<and>
    login_submit sample_hash store_couch ''k'' ''x'' new_session [(''credential::k'', sample_login_doc)] =
      (Redirect ''/ui/status'', ss1, [(''credential::k'', sample_login_doc)]) \<and> session_user ss1 = Some ''k''"
proof -
  have used: "count_attempt (li_instant (login_at 9)) ''k'' [''k'' \<mapsto> (5, 9)] = (False, [''k'' \<mapsto> (5, 9)])"
    by (simp add: count_attempt_def unwrap_or_def elapsed_secs_def login_at_def LOGIN_RATE_LIMIT_def
        LOGIN_RATE_WINDOW_SECS_def)
  have get: "db_get store_couch (credential_id ''k'') [(''credential::k'', sample_login_doc)] =
      (Inr sample_login_doc, [(''credential::k'', sample_login_doc)])" by (simp add: credential_id_def)
  have "\<not> ss_broken new_session" by (simp add: new_session_def)
  from web_login_not_limited [OF used get sample_login_accepted this, of "one_token sample_claims" "''s''"]
  show ?thesis .
qed

text \<open>
  C29: the web interface drops its sign-in only where the server listens on the loopback address
  without TLS or on a Unix socket; a server that listens with TLS keeps it.
\<close>

theorem sign_in_off_only_locally:
  assumes "cfg = apply_env_overrides env cfg0" "start_web_ui cfg = Some (plan, certificates)"
    and "require_auth (web_env cfg env) ss path = None" "session_user ss = None"
  shows "(\<exists>n. plan = PlainHttp ''127.0.0.1'' n) \<or> (\<exists>q. plan = UnixSocket q)"
proof -
  obtain web0 where web0: "mc_web_ui cfg0 = Some web0" "mc_web_ui cfg = Some (override_web env web0)"
    using assms(1,2) by (cases "mc_web_ui cfg0") (auto simp: start_web_ui_def apply_env_overrides_def)
  let ?w = "override_web env web0"
  have off: "insecure_http (web_env cfg env)" using assms(3,4) by (auto simp: require_auth_def split: if_splits)
  have "wu_insecure_http ?w \<or> wu_socket_path ?w \<noteq> None"
  proof (rule ccontr)
    assume no: "\<not> (wu_insecure_http ?w \<or> wu_socket_path ?w \<noteq> None)"
    then have "insecure_http env" using off web0(2) by (auto simp: web_env_def)
    then have "wu_insecure_http ?w" by (auto simp: insecure_http_def override_web_def split: option.splits)
    with no show False by simp
  qed
  then show ?thesis using assms(2) web0(2)
    by (auto simp: start_web_ui_def loopback_def split: option.splits if_splits)
qed

theorem sign_in_off_only_locally_witness:
  "require_auth (web_env (apply_env_overrides Map.empty sample_web) Map.empty) new_session ''/ui/nodes'' = None \<and>
   (\<exists>plan c. start_web_ui (apply_env_overrides Map.empty sample_web) = Some (plan, c) \<and>
     ((\<exists>n. plan = PlainHttp ''127.0.0.1'' n) \<or> (\<exists>q. plan = UnixSocket q)))"
proof -
  have "is_socket_addr ''127.0.0.1:80''"
    by (simp add: is_socket_addr_def read_socket_v4_def read_ipv4_def read_separator_def read_number_def
        span_digits_def is_digit_def digit_value_def digits_value_def read_given_char_def read_port_def)
  then have run: "start_web_ui (apply_env_overrides Map.empty sample_web) = Some (UnixSocket ''/s'', True)"
    by (simp add: start_web_ui_def sample_web_def apply_env_overrides_def override_web_def)
  have off: "require_auth (web_env (apply_env_overrides Map.empty sample_web) Map.empty) new_session ''/ui/nodes'' = None"
    by (simp add: require_auth_def web_env_def sample_web_def apply_env_overrides_def override_web_def insecure_http_def)
  have "session_user new_session = None" by (simp add: new_session_def session_user_def session_get_def)
  from sign_in_off_only_locally [OF refl run off this] run off show ?thesis by blast
qed

text \<open>A flash message is shown by the next page of the session, and by that one only.\<close>

lemma flash_shown_once:
  assumes "\<not> ss_broken ss" "page_ctx env (set_flash msg ss) = (ctx, ss1)"
  shows "ctx ''flash'' = Some (JStr msg) \<and> fst (page_ctx env ss1) ''flash'' = None"
proof -
  obtain f ss2 where t: "take_flash (set_flash msg ss) = (f, ss2)" by (cases "take_flash (set_flash msg ss)")
  with set_then_take_flash [OF assms(1), of msg] have f: "f = Some msg" by simp
  with assms(2) t have "ctx ''flash'' = Some (JStr msg)" "ss1 = ss2" by (auto simp: page_ctx_def Let_def)
  moreover obtain g ss3 where t2: "take_flash ss1 = (g, ss3)" by (cases "take_flash ss1")
  moreover from taken_once(1) [OF t] \<open>ss1 = ss2\<close> t2 have "g = None" by simp
  ultimately show ?thesis by (simp add: page_ctx_def base_ctx_def split: option.split)
qed

end
