(* ===== verification/Web_Actions.thy ===== *)
theory Web_Actions
  imports Web Nodes Notification_Api Vfs_Api Numbers
begin

text \<open>
  The write actions of the web interface, \<open>ui/actions.rs\<close>: notifications, credentials, nodes and
  their mounts, virtual directories, their mounts and the steps of a mount. Each reads a form,
  writes a document, leaves a flash message in the session and redirects. Form fields are the
  decoded strings of the request, draws of random values and times come from \<open>api_env\<close>.
\<close>

section \<open>Messages and redirects\<close>

definition flash_to :: "string \<Rightarrow> string \<Rightarrow> session \<Rightarrow> 's \<Rightarrow> web_reply \<times> session \<times> 's" where
  "flash_to url msg ss s = (Redirect url, set_flash msg ss, s)"

text \<open>The write of a document with a message for each outcome; the second is followed by the error.\<close>

definition put_flash ::
  "'s couch \<Rightarrow> string \<Rightarrow> json \<Rightarrow> string \<Rightarrow> string \<Rightarrow> string \<Rightarrow> session \<Rightarrow> 's \<Rightarrow> web_reply \<times> session \<times> 's" where
  "put_flash db doc_id doc url good bad ss s =
     (case db_put db doc_id doc s of
        (Inr _, s1) \<Rightarrow> flash_to url good ss s1
      | (Inl e, s1) \<Rightarrow> flash_to url (bad @ couch_error_text e) ss s1)"

text \<open>The document that an action edits; every error of the read counts as not found.\<close>

definition edit_doc ::
  "'s couch \<Rightarrow> string \<Rightarrow> string \<Rightarrow> string \<Rightarrow> session \<Rightarrow> (json \<Rightarrow> 's \<Rightarrow> web_reply \<times> session \<times> 's) \<Rightarrow> 's \<Rightarrow>
     web_reply \<times> session \<times> 's" where
  "edit_doc db doc_id url missing ss f s =
     (case db_get db doc_id s of
        (Inl _, s1) \<Rightarrow> flash_to url missing ss s1
      | (Inr doc, s1) \<Rightarrow> f doc s1)"

text \<open>An assignment into a document that is not an object panics.\<close>

definition or_web_panic ::
  "'a option \<Rightarrow> session \<Rightarrow> 's \<Rightarrow> ('a \<Rightarrow> web_reply \<times> session \<times> 's) \<Rightarrow> web_reply \<times> session \<times> 's" where
  "or_web_panic x ss s f = (case x of None \<Rightarrow> (WebPanicked, ss, s) | Some a \<Rightarrow> f a)"

definition quoted :: "string \<Rightarrow> string" where
  "quoted t = [CHR 39] @ t @ [CHR 39]"

text \<open>\<open>get_mut(key).and_then(as_array_mut)\<close>: an array in an object is edited in its place.\<close>

fun edit_array :: "string \<Rightarrow> (json list \<Rightarrow> json list) \<Rightarrow> json \<Rightarrow> json" where
  "edit_array k f (JObj kvs) =
     (case map_of kvs k of
        Some (JArr xs) \<Rightarrow> JObj (AList.update k (JArr (f xs)) kvs)
      | _ \<Rightarrow> JObj kvs)"
| "edit_array k f j = j"

section \<open>Notifications\<close>

definition ack_notification :: "string \<Rightarrow> 's couch \<Rightarrow> string \<Rightarrow> session \<Rightarrow> 's \<Rightarrow> web_reply \<times> session \<times> 's" where
  "ack_notification now db i ss s =
     (let url = ''/ui/notifications''; doc_id = notification_key i in
      case db_get db doc_id s of
        (Inl (NotFound _), s1) \<Rightarrow> flash_to url ''Notification not found.'' ss s1
      | (Inl e, s1) \<Rightarrow> flash_to url (''Error: '' @ couch_error_text e) ss s1
      | (Inr doc, s1) \<Rightarrow>
          or_web_panic (acknowledged now doc) ss s1 (\<lambda>d.
            put_flash db doc_id d url ''Notification acknowledged.'' ''Write failed: '' ss s1))"

definition web_active :: "json \<Rightarrow> bool" where
  "web_active doc \<longleftrightarrow>
     jget_str ''type'' doc = Some ''notification'' \<and> unwrap_or (jget_str ''status'' doc) ''active'' = ''active''"

definition ack_all_notifications :: "string \<Rightarrow> 's couch \<Rightarrow> session \<Rightarrow> 's \<Rightarrow> web_reply \<times> session \<times> 's" where
  "ack_all_notifications now db ss s =
     (let url = ''/ui/notifications'' in
      case db_prefix db ''notification::'' s of
        (Inl e, s1) \<Rightarrow> flash_to url (''Read failed: '' @ couch_error_text e) ss s1
      | (Inr rows, s1) \<Rightarrow>
          or_web_panic (those (map (acknowledged now) (filter web_active (row_docs rows)))) ss s1 (\<lambda>batch.
            let done = ''Acknowledged '' @ nat_str (length batch) @ '' notification(s).'' in
            if batch = [] then flash_to url done ss s1
            else (case db_bulk db batch s1 of
                    (Inl e, s2) \<Rightarrow> flash_to url (''Write failed: '' @ couch_error_text e) ss s2
                  | (Inr _, s2) \<Rightarrow> flash_to url done ss s2)))"

section \<open>Credentials\<close>

definition credentials_url :: string where "credentials_url = ''/ui/settings/credentials''"

definition key_copied :: string where
  "key_copied = ''Credential created. Copy the secret key '' @ [CHR 0xE2, CHR 0x80, CHR 0x94] @ '' it is shown only once.''"

definition create_credential_action ::
  "libs \<Rightarrow> cred_libs \<Rightarrow> cred_draws \<Rightarrow> string \<Rightarrow> 's couch \<Rightarrow> string \<Rightarrow> session \<Rightarrow> 's \<Rightarrow> web_reply \<times> session \<times> 's" where
  "create_credential_action lb cl draws hash_text db form_name ss s =
     (let name = trim form_name in
      if name = [] then flash_to credentials_url ''Credential name is required.'' ss s
      else
        (case new_credential lb cl draws db name s of
           (Inr p, s1) \<Rightarrow> flash_to credentials_url key_copied (put_new_secret p ss) s1
         | (Inl e, s1) \<Rightarrow> flash_to credentials_url (''Create failed: '' @ cred_error_text hash_text e) ss s1))"

definition delete_credential_action :: "string \<Rightarrow> 's couch \<Rightarrow> string \<Rightarrow> session \<Rightarrow> 's \<Rightarrow> web_reply \<times> session \<times> 's" where
  "delete_credential_action hash_text db key ss s =
     (case delete_credential db key s of
        (Inr _, s1) \<Rightarrow> flash_to credentials_url (''Credential '' @ key @ '' deleted.'') ss s1
      | (Inl e, s1) \<Rightarrow> flash_to credentials_url (''Delete failed: '' @ cred_error_text hash_text e) ss s1)"

definition toggle_credential_action ::
  "string \<Rightarrow> 's couch \<Rightarrow> string \<Rightarrow> string option \<Rightarrow> session \<Rightarrow> 's \<Rightarrow> web_reply \<times> session \<times> 's" where
  "toggle_credential_action hash_text db key form_enabled ss s =
     (let enabled = (form_enabled = Some ''1'') in
      case update_credential db key (JObj [(''enabled'', JBool enabled)]) s of
        (None, s1) \<Rightarrow> (WebPanicked, ss, s1)
      | (Some (Inr _), s1) \<Rightarrow>
          flash_to credentials_url (''Credential '' @ key @ '' '' @ (if enabled then ''enabled'' else ''disabled'') @ ''.'') ss s1
      | (Some (Inl e), s1) \<Rightarrow> flash_to credentials_url (''Update failed: '' @ cred_error_text hash_text e) ss s1)"

section \<open>Nodes\<close>

definition node_url :: "string \<Rightarrow> string" where
  "node_url node_id = ''/ui/nodes/'' @ node_id"

definition edit_node ::
  "'s couch \<Rightarrow> string \<Rightarrow> session \<Rightarrow> (json \<Rightarrow> 's \<Rightarrow> web_reply \<times> session \<times> 's) \<Rightarrow> 's \<Rightarrow> web_reply \<times> session \<times> 's" where
  "edit_node db node_id ss f s = edit_doc db (node_key node_id) ''/ui/nodes'' ''Node not found.'' ss f s"

definition patch_node_action :: "'s couch \<Rightarrow> string \<Rightarrow> string \<Rightarrow> session \<Rightarrow> 's \<Rightarrow> web_reply \<times> session \<times> 's" where
  "patch_node_action db node_id friendly_name ss s =
     edit_node db node_id ss (\<lambda>doc s1.
       or_web_panic (jset ''friendly_name'' (JStr (trim friendly_name)) doc) ss s1 (\<lambda>d.
         put_flash db (node_key node_id) d (node_url node_id) ''Node updated.'' ''Update failed: '' ss s1)) s"

definition delete_flash ::
  "'s couch \<Rightarrow> string \<Rightarrow> json \<Rightarrow> string \<Rightarrow> string \<Rightarrow> session \<Rightarrow> 's \<Rightarrow> web_reply \<times> session \<times> 's" where
  "delete_flash db doc_id doc url good ss s =
     (case db_delete db doc_id (unwrap_or (jget_str ''_rev'' doc) []) s of
        (Inr _, s1) \<Rightarrow> flash_to url good ss s1
      | (Inl e, s1) \<Rightarrow> flash_to url (''Delete failed: '' @ couch_error_text e) ss s1)"

definition delete_node_action :: "'s couch \<Rightarrow> string \<Rightarrow> session \<Rightarrow> 's \<Rightarrow> web_reply \<times> session \<times> 's" where
  "delete_node_action db node_id ss s =
     edit_node db node_id ss (\<lambda>doc s1.
       delete_flash db (node_key node_id) doc ''/ui/nodes'' (''Node '' @ node_id @ '' deleted.'') ss s1) s"

record mount_form =
  mf_remote_node_id :: string
  mf_remote_base_export_path :: string
  mf_local_mount_path :: string
  mf_mount_type :: string
  mf_priority :: "string option"

definition form_mount :: "string \<Rightarrow> mount_form \<Rightarrow> json" where
  "form_mount mount_id f =
     JObj [(''mount_id'', JStr mount_id), (''remote_node_id'', JStr (trim (mf_remote_node_id f))),
       (''remote_base_export_path'', JStr (trim (mf_remote_base_export_path f))),
       (''local_mount_path'', JStr (trim (mf_local_mount_path f))),
       (''mount_type'', JStr (trim (mf_mount_type f))),
       (''priority'', num_of_int (unwrap_or (Option.bind (mf_priority f) parse_i32) 0))]"

text \<open>A missing array is created; a value that is not an array is left alone.\<close>

fun push_node_mount :: "json \<Rightarrow> json \<Rightarrow> json" where
  "push_node_mount m (JObj kvs) =
     (case map_of kvs ''network_mounts'' of
        None \<Rightarrow> JObj (kvs @ [(''network_mounts'', JArr [m])])
      | Some _ \<Rightarrow> edit_array ''network_mounts'' (\<lambda>ms. ms @ [m]) (JObj kvs))"
| "push_node_mount m j = j"

definition add_mount_action ::
  "api_env \<Rightarrow> 's couch \<Rightarrow> string \<Rightarrow> mount_form \<Rightarrow> session \<Rightarrow> 's \<Rightarrow> web_reply \<times> session \<times> 's" where
  "add_mount_action env db node_id form ss s =
     edit_node db node_id ss (\<lambda>doc s1.
       put_flash db (node_key node_id) (push_node_mount (form_mount (take 8 (ae_uuid env)) form) doc)
         (node_url node_id) ''Mount added.'' ''Write failed: '' ss s1) s"

definition delete_mount_action :: "'s couch \<Rightarrow> string \<Rightarrow> string \<Rightarrow> session \<Rightarrow> 's \<Rightarrow> web_reply \<times> session \<times> 's" where
  "delete_mount_action db node_id mount_id ss s =
     edit_node db node_id ss (\<lambda>doc s1.
       put_flash db (node_key node_id)
         (edit_array ''network_mounts'' (filter (\<lambda>m. \<not> has_mount_id mount_id m)) doc)
         (node_url node_id) ''Mount removed.'' ''Write failed: '' ss s1) s"

section \<open>Backup\<close>

definition backup_download ::
  "string \<Rightarrow> 's db_admin \<Rightarrow> string option \<Rightarrow> 's \<Rightarrow> (reply \<times> (string \<times> string) list) \<times> 's" where
  "backup_download timestamp adm query s = backup timestamp adm query s"

section \<open>Properties\<close>

lemma update_credential_stored:
  assumes "reads_law db docs" "writes_law db docs"
    and "update_credential db key (JObj [(''enabled'', JBool b)]) s = (Some (Inr u), s1)"
  shows "\<exists>d. docs s1 = (docs s)(credential_id key \<mapsto> d) \<and> jget ''enabled'' d = Some (JBool b)"
proof -
  have up: "update_credential db key (JObj [(''enabled'', JBool b)]) s =
      (case docs s (credential_id key) of
         None \<Rightarrow> (Some (Inl (CouchFailed (NotFound (credential_id key)))), s)
       | Some doc \<Rightarrow>
           (case jset ''enabled'' (JBool b) doc of
              None \<Rightarrow> (None, s)
            | Some d \<Rightarrow>
                (case db_put db (credential_id key) d s of
                   (Inl e, s2) \<Rightarrow> (Some (Inl (CouchFailed e)), s2)
                 | (Inr _, s2) \<Rightarrow> (Some (Inr ()), s2))))"
    by (simp add: update_credential_def reads_law_get [OF assms(1)] set_if_def jget_str_def split: option.split)
  obtain doc where doc: "docs s (credential_id key) = Some doc"
    using assms(3) by (cases "docs s (credential_id key)") (simp_all add: up)
  obtain d where dd: "jset ''enabled'' (JBool b) doc = Some d"
    using assms(3) by (cases "jset ''enabled'' (JBool b) doc") (simp_all add: up doc)
  obtain r where "db_put db (credential_id key) d s = (Inr r, s1)"
  proof (cases "db_put db (credential_id key) d s")
    case (Pair x s2)
    with assms(3) that show ?thesis by (cases x) (simp_all add: up doc dd)
  qed
  with dd have d: "jset ''enabled'' (JBool b) doc = Some d" "db_put db (credential_id key) d s = (Inr r, s1)" by simp_all
  from writes_law_put [OF assms(2) d(2)] obtain d' where d': "same_fields d' d" "docs s1 = (docs s)(credential_id key \<mapsto> d')" by blast
  have "jget ''enabled'' d' = jget ''enabled'' d" using d'(1) by (simp add: same_fields_def)
  also have "\<dots> = Some (JBool b)" using jget_jset [OF d(1), of "''enabled''"] by simp
  finally show ?thesis using d'(2) by blast
qed

text \<open>Switching a credential off stops every new sign-in with it, on both doors, and leaves the web
  sessions that are open: they reach the protected pages until they expire.
\<close>

lemma disabled_credential_keeps_sessions:
  assumes "reads_law db docs" "writes_law db docs"
    and "update_credential db key (JObj [(''enabled'', JBool False)]) s = (Some (Inr u), s1)"
    and "session_user other = Some key"
  shows "toggle_credential_action hash_text db key None ss s =
      (Redirect ''/ui/settings/credentials'', set_flash (''Credential '' @ key @ '' disabled.'') ss, s1) \<and>
    login_submit hl db key secret fresh s1 = (login_error ''Invalid credentials'', fresh, s1) \<and>
    reply_status (fst (login hl jl le jwt_secret db key secret (m, s1))) \<in> {Some 401, Some 429} \<and>
    require_auth env other path = None"
proof -
  obtain d where d: "docs s1 = (docs s)(credential_id key \<mapsto> d)" "jget ''enabled'' d = Some (JBool False)"
    using update_credential_stored [OF assms(1-3)] by blast
  have refused: "\<not> secret_accepted hl secret d" by (simp add: secret_accepted_def d(2))
  have get: "db_get db (credential_id key) s1 = (Inr d, s1)" by (simp add: reads_law_get [OF assms(1)] d(1))
  have "reply_status (fst (login hl jl le jwt_secret db key secret (m, s1))) \<in> {Some 401, Some 429}"
    by (simp add: login_def check_login_def get refused invalid_credentials_def split: prod.split bool.split)
  then show ?thesis
    by (simp add: toggle_credential_action_def assms(3,4) flash_to_def credentials_url_def login_submit_def get refused
        require_auth_def)
qed

text \<open>
  the two ways to delete a node differ: the API keeps the document and marks it disabled, the
  web interface removes it.
\<close>

theorem node_deletion_differs:
  assumes "reads_law db docs" "writes_law db docs" "accepts_writes db"
    and "docs s (node_key node_id) = Some doc" "is_object doc"
    and "db_delete db (node_key node_id) (unwrap_or (jget_str ''_rev'' doc) []) s = (Inr x, s2)"
  shows "(\<exists>s1 d. delete_node db node_id s = (ok_reply, s1) \<and> docs s1 (node_key node_id) = Some d \<and>
      jget ''status'' d = Some (JStr ''disabled'')) \<and>
    (\<exists>ss1. delete_node_action db node_id ss s = (Redirect ''/ui/nodes'', ss1, s2) \<and> docs s2 (node_key node_id) = None)"
proof -
  obtain d where d: "jset ''status'' (JStr ''disabled'') doc = Some d" using jset_object [OF assms(5)] by blast
  obtain s1 d' where put: "Api.store_doc db (node_key node_id) d ok_reply s = (ok_reply, s1)" "same_fields d' d"
    "docs s1 = (docs s)(node_key node_id \<mapsto> d')"
    by (rule store_doc_accepted [OF assms(2,3)])
  have st: "jget ''status'' d' = Some (JStr ''disabled'')"
    using put(2) jget_jset [OF d, of "''status''"] by (simp add: same_fields_def)
  have api: "delete_node db node_id s = (ok_reply, s1)"
    by (simp add: delete_node_def fetch_law [OF assms(1)] assms(4) d put(1))
  have web: "delete_node_action db node_id ss s =
      (Redirect ''/ui/nodes'', set_flash (''Node '' @ node_id @ '' deleted.'') ss, s2)"
    by (simp add: delete_node_action_def edit_node_def edit_doc_def reads_law_get [OF assms(1)] assms(4,6)
        delete_flash_def flash_to_def)
  have "docs s2 (node_key node_id) = None" using writes_law_delete [OF assms(2,6)] by simp
  with api web put(3) st show ?thesis by auto
qed

theorem node_deletion_differs_witness:
  "(\<exists>s1 d. delete_node store_couch ''a'' [(''node::a'', JObj [])] = (ok_reply, s1) \<and> map_of s1 ''node::a'' = Some d \<and>
      jget ''status'' d = Some (JStr ''disabled'')) \<and>
   (\<exists>ss1. delete_node_action store_couch ''a'' new_session [(''node::a'', JObj [])] = (Redirect ''/ui/nodes'', ss1, []))"
proof -
  have del: "db_delete store_couch (node_key ''a'') (unwrap_or (jget_str ''_rev'' (JObj [])) []) [(''node::a'', JObj [])] =
      (Inr (sample_response (node_key ''a'')), [])" by (simp add: node_key_def)
  have doc: "map_of [(''node::a'', JObj [])] (node_key ''a'') = Some (JObj [])" "is_object (JObj [])"
    by (simp_all add: node_key_def)
  show ?thesis
    using node_deletion_differs [OF store_couch_reads store_couch_writes store_couch_accepts doc del, of new_session]
    by (auto simp: node_key_def)
qed

end
