(* ===== verification/Web_Vfs.thy ===== *)
theory Web_Vfs
  imports Web_Actions
begin

text \<open>
  The actions of \<open>ui/actions.rs\<close> on virtual directories: creation with an initial mount, deletion,
  settings, mounts, and the steps of a mount: adding, deleting and moving them.
\<close>

section \<open>Directories\<close>

definition vfs_dir_url :: "libs \<Rightarrow> string \<Rightarrow> string" where
  "vfs_dir_url lb path = ''/ui/vfs/dir?path='' @ urlencode lb path"

record dir_form =
  df_path :: string
  df_source_type :: string
  df_node_id :: "string option"
  df_export_path :: "string option"
  df_label :: "string option"
  df_federated_import_id :: "string option"
  df_strategy :: "string option"
  df_default_result :: "string option"
  df_conflict_policy :: "string option"

text \<open>A leading slash is added, trailing ones are removed; the maximum turns the empty path into the root.\<close>

definition form_dir_path :: "string \<Rightarrow> string" where
  "form_dir_path raw =
     (if starts_with raw ''/''
      then (let t = trim_end (CHR ''/'') raw in if t = [] then ''/'' else t)
      else ''/'' @ trim_end (CHR ''/'') raw)"

definition nonblank :: "string option \<Rightarrow> string option" where
  "nonblank v = Option.bind (map_option trim v) (\<lambda>t. if t = [] then None else Some t)"

definition node_source :: "string \<Rightarrow> string \<Rightarrow> json" where
  "node_source node_id export_path = JObj [(''node_id'', JStr node_id), (''export_path'', JStr export_path)]"

definition initial_source :: "dir_form \<Rightarrow> json option" where
  "initial_source f =
     (if df_source_type f = ''node'' then
        map_option (\<lambda>nid. node_source nid (unwrap_or (nonblank (df_export_path f)) ''/'')) (nonblank (df_node_id f))
      else if df_source_type f = ''label'' then
        map_option (\<lambda>l. JObj [(''label'', JStr l)]) (nonblank (df_label f))
      else if df_source_type f = ''federated'' then
        map_option (\<lambda>i. JObj [(''federated_import_id'', JStr i)]) (nonblank (df_federated_import_id f))
      else None)"

definition saved_mount :: "string \<Rightarrow> json \<Rightarrow> string \<Rightarrow> json \<Rightarrow> string \<Rightarrow> string \<Rightarrow> json" where
  "saved_mount mount_id source strategy source_prefix default_result conflict_policy =
     JObj [(''mount_id'', JStr mount_id), (''source'', source), (''strategy'', JStr strategy),
       (''source_prefix'', source_prefix), (''steps'', JArr []), (''default_result'', JStr default_result),
       (''conflict_policy'', JStr conflict_policy)]"

definition build_initial_mount :: "string \<Rightarrow> dir_form \<Rightarrow> json option" where
  "build_initial_mount uuid f =
     map_option (\<lambda>source. saved_mount (take 8 uuid) source (unwrap_or (df_strategy f) ''flatten'') JNull
       (unwrap_or (df_default_result f) ''include'') (unwrap_or (df_conflict_policy f) ''last_write_wins''))
       (initial_source f)"

definition form_dir_doc :: "libs \<Rightarrow> api_env \<Rightarrow> dir_form \<Rightarrow> string \<Rightarrow> u64 \<Rightarrow> json" where
  "form_dir_doc lb env f path inode =
     JObj [(''_id'', JStr (vfs_dir_id lb path)), (''type'', JStr ''virtual_directory''),
       (''inode'', JNum (PosInt inode)), (''virtual_path'', JStr path), (''name'', JStr (derived_name path)),
       (''parent_path'', json_str_opt (derived_parent path)), (''created_at'', JStr (ae_now env)),
       (''enforce_steps_on_children'', JBool False),
       (''mounts'', JArr (case build_initial_mount (ae_uuid env) f of Some m \<Rightarrow> [m] | None \<Rightarrow> []))]"

text \<open>\<open>WebPending\<close>: the random numbers given are used up before one is large enough.\<close>

definition create_vfs_dir_action ::
  "libs \<Rightarrow> api_env \<Rightarrow> 's couch \<Rightarrow> dir_form \<Rightarrow> session \<Rightarrow> 's \<Rightarrow> web_reply \<times> session \<times> 's" where
  "create_vfs_dir_action lb env db f ss s =
     (let path = form_dir_path (trim (df_path f)); doc_id = vfs_dir_id lb path in
      if starts_with path ''/federation/'' \<or> contains_str ''//'' path
      then flash_to ''/ui/vfs/new'' ''Invalid virtual path.'' ss s
      else
        (case db_get db doc_id s of
           (Inr _, s1) \<Rightarrow> flash_to ''/ui/vfs/new'' (''Directory '' @ quoted path @ '' already exists.'') ss s1
         | (Inl _, s1) \<Rightarrow>
             (case fresh_inode (ae_draws env) of
                None \<Rightarrow> (WebPending, ss, s1)
              | Some inode \<Rightarrow>
                  (case db_put db doc_id (form_dir_doc lb env f path inode) s1 of
                     (Inr _, s2) \<Rightarrow> flash_to ''/ui/vfs'' (''Directory '' @ quoted path @ '' created.'') ss s2
                   | (Inl e, s2) \<Rightarrow> flash_to ''/ui/vfs/new'' (''Create failed: '' @ couch_error_text e) ss s2))))"

definition delete_vfs_dir_action :: "libs \<Rightarrow> 's couch \<Rightarrow> string \<Rightarrow> session \<Rightarrow> 's \<Rightarrow> web_reply \<times> session \<times> 's" where
  "delete_vfs_dir_action lb db form_path ss s =
     (let path = trim form_path; doc_id = vfs_dir_id lb path in
      edit_doc db doc_id ''/ui/vfs'' ''Directory not found.'' ss (\<lambda>doc s1.
        if Option.bind (jget ''system'' doc) as_bool = Some True
        then flash_to ''/ui/vfs'' ''Cannot delete system directory.'' ss s1
        else delete_flash db doc_id doc ''/ui/vfs'' (''Directory '' @ quoted path @ '' deleted.'') ss s1) s)"

definition patch_vfs_dir_action ::
  "libs \<Rightarrow> 's couch \<Rightarrow> string \<Rightarrow> string option \<Rightarrow> string option \<Rightarrow> session \<Rightarrow> 's \<Rightarrow> web_reply \<times> session \<times> 's" where
  "patch_vfs_dir_action lb db form_path name enforce ss s =
     (let path = trim form_path; doc_id = vfs_dir_id lb path in
      edit_doc db doc_id ''/ui/vfs'' ''Directory not found.'' ss (\<lambda>doc s1.
        or_web_panic (jset_all
            ((case name of Some n \<Rightarrow> [(''name'', JStr (trim n))] | None \<Rightarrow> []) @
             [(''enforce_steps_on_children'', JBool (enforce = Some ''1''))]) doc) ss s1 (\<lambda>d.
          put_flash db doc_id d (vfs_dir_url lb path) ''Settings saved.'' ''Save failed: '' ss s1)) s)"

section \<open>Mounts\<close>

record vfs_mount_form =
  vm_virtual_path :: string
  vm_source_type :: string
  vm_node_id :: "string option"
  vm_export_path :: "string option"
  vm_label :: "string option"
  vm_federated_import_id :: "string option"
  vm_strategy :: string
  vm_source_prefix :: "string option"
  vm_conflict_policy :: string
  vm_default_result :: string

text \<open>The source of the form, or the message that refuses it.\<close>

definition form_source :: "vfs_mount_form \<Rightarrow> string + json" where
  "form_source f =
     (let field = (\<lambda>v d. trim (unwrap_or v d)) in
      if vm_source_type f = ''node'' then
        (let nid = field (vm_node_id f) []; ep = field (vm_export_path f) ''/'' in
         if nid = [] then Inl ''Node ID is required for node source.'' else Inr (node_source nid ep))
      else if vm_source_type f = ''label'' then
        (let lbl = field (vm_label f) [] in
         if lbl = [] then Inl ''Label is required for label source.'' else Inr (JObj [(''label'', JStr lbl)]))
      else if vm_source_type f = ''federated'' then
        (let fid = field (vm_federated_import_id f) [] in
         if fid = [] then Inl ''Federated import ID is required.''
         else Inr (JObj [(''federated_import_id'', JStr fid)]))
      else Inl ''Invalid source type.'')"

definition form_vfs_mount :: "string \<Rightarrow> vfs_mount_form \<Rightarrow> json \<Rightarrow> json" where
  "form_vfs_mount uuid f source =
     saved_mount (take 8 uuid) source (vm_strategy f) (json_str_opt (nonblank (vm_source_prefix f)))
       (vm_default_result f) (vm_conflict_policy f)"

definition push_vfs_mount :: "json \<Rightarrow> json \<Rightarrow> json option" where
  "push_vfs_mount m doc =
     (case Option.bind (jget ''mounts'' doc) as_array of
        Some _ \<Rightarrow> Some (edit_array ''mounts'' (\<lambda>ms. ms @ [m]) doc)
      | None \<Rightarrow> jset ''mounts'' (JArr [m]) doc)"

definition add_vfs_mount_action ::
  "libs \<Rightarrow> api_env \<Rightarrow> 's couch \<Rightarrow> vfs_mount_form \<Rightarrow> session \<Rightarrow> 's \<Rightarrow> web_reply \<times> session \<times> 's" where
  "add_vfs_mount_action lb env db f ss s =
     (let path = trim (vm_virtual_path f); doc_id = vfs_dir_id lb path; url = vfs_dir_url lb path in
      edit_doc db doc_id ''/ui/vfs'' ''Directory not found.'' ss (\<lambda>doc s1.
        case form_source f of
          Inl msg \<Rightarrow> flash_to url msg ss s1
        | Inr source \<Rightarrow>
            or_web_panic (push_vfs_mount (form_vfs_mount (ae_uuid env) f source) doc) ss s1 (\<lambda>d.
              put_flash db doc_id d url ''Mount added.'' ''Write failed: '' ss s1)) s)"

definition delete_vfs_mount_action ::
  "libs \<Rightarrow> 's couch \<Rightarrow> string \<Rightarrow> string \<Rightarrow> session \<Rightarrow> 's \<Rightarrow> web_reply \<times> session \<times> 's" where
  "delete_vfs_mount_action lb db form_path mount_id ss s =
     (let path = trim form_path; doc_id = vfs_dir_id lb path in
      edit_doc db doc_id ''/ui/vfs'' ''Directory not found.'' ss (\<lambda>doc s1.
        put_flash db doc_id (edit_array ''mounts'' (filter (\<lambda>m. \<not> has_mount_id mount_id m)) doc)
          (vfs_dir_url lb path) ''Mount deleted.'' ''Write failed: '' ss s1) s)"

section \<open>Steps\<close>

record step_form =
  sf_virtual_path :: string
  sf_mount_id :: string
  sf_op :: string
  sf_invert :: "string option"
  sf_on_match :: "string option"
  sf_pattern :: "string option"
  sf_days :: "string option"
  sf_comparison :: "string option"
  sf_bytes :: "string option"
  sf_step_node_id :: "string option"
  sf_step_label :: "string option"
  sf_missing :: "string option"
  sf_target :: "string option"
  sf_status :: "string option"
  sf_plugin_name :: "string option"

definition filled :: "string \<Rightarrow> string option \<Rightarrow> (string \<times> json) list" where
  "filled k v = (case v of Some t \<Rightarrow> if t = [] then [] else [(k, JStr t)] | None \<Rightarrow> [])"

definition parsed :: "string \<Rightarrow> string option \<Rightarrow> (string \<times> json) list" where
  "parsed k v = (case Option.bind v parse_i64 of Some n \<Rightarrow> [(k, num_of_int n)] | None \<Rightarrow> [])"

definition defaulted :: "string \<Rightarrow> string option \<Rightarrow> string \<Rightarrow> (string \<times> json) list" where
  "defaulted k v d = [(k, JStr (unwrap_or v d))]"

definition op_fields :: "step_form \<Rightarrow> (string \<times> json) list" where
  "op_fields f =
     (let op = sf_op f in
      if op \<in> {''glob'', ''regex'', ''mime''} then filled ''pattern'' (sf_pattern f)
      else if op = ''age'' then parsed ''days'' (sf_days f) @ defaulted ''comparison'' (sf_comparison f) ''lt''
      else if op = ''size'' then parsed ''bytes'' (sf_bytes f) @ defaulted ''comparison'' (sf_comparison f) ''lt''
      else if op = ''node'' then filled ''node_id'' (sf_step_node_id f)
      else if op = ''label'' then filled ''label'' (sf_step_label f)
      else if op = ''access_age'' then
        parsed ''days'' (sf_days f) @ defaulted ''comparison'' (sf_comparison f) ''lt'' @
        defaulted ''missing'' (sf_missing f) ''include''
      else if op = ''replicated'' then filled ''target'' (sf_target f) @ filled ''status'' (sf_status f)
      else if op = ''annotation'' then filled ''plugin_name'' (sf_plugin_name f)
      else [])"

definition build_step_json :: "step_form \<Rightarrow> json" where
  "build_step_json f =
     JObj ([(''op'', JStr (sf_op f)), (''invert'', JBool (sf_invert f = Some ''1''))] @
       filled ''on_match'' (sf_on_match f) @ op_fields f)"

text \<open>An array in an object is edited in its place by an operation that may panic.\<close>

fun try_array :: "string \<Rightarrow> (json list \<Rightarrow> json list option) \<Rightarrow> json \<Rightarrow> json option" where
  "try_array k f (JObj kvs) =
     (case map_of kvs k of
        Some (JArr xs) \<Rightarrow> map_option (\<lambda>ys. JObj (AList.update k (JArr ys) kvs)) (f xs)
      | _ \<Rightarrow> Some (JObj kvs))"
| "try_array k f j = Some j"

text \<open>
  The first mount with the identifier, edited in its place; the outer \<open>None\<close> is that there is none,
  the inner one a panic.
\<close>

definition edit_mount :: "string \<Rightarrow> (json \<Rightarrow> json option) \<Rightarrow> json \<Rightarrow> json option option" where
  "edit_mount mount_id f doc =
     Option.bind (Option.bind (jget ''mounts'' doc) as_array) (\<lambda>ms.
       map_option (map_option (\<lambda>ms'. edit_array ''mounts'' (\<lambda>_. ms') doc))
         (patch_first (has_mount_id mount_id) f ms))"

text \<open>The array of steps is created where it is missing.\<close>

definition with_steps :: "json \<Rightarrow> json" where
  "with_steps m =
     (case jget ''steps'' m of
        Some _ \<Rightarrow> m
      | None \<Rightarrow> (case jset ''steps'' (JArr []) m of Some m' \<Rightarrow> m' | None \<Rightarrow> m))"

text \<open>
  The frame of the three step actions: the directory, the mount, the write. A missing mount ends it
  without a write; the move reports nothing when it has succeeded.
\<close>

definition edit_steps ::
  "libs \<Rightarrow> 's couch \<Rightarrow> string \<Rightarrow> string \<Rightarrow> (json \<Rightarrow> json option) \<Rightarrow> string option \<Rightarrow> session \<Rightarrow> 's \<Rightarrow>
     web_reply \<times> session \<times> 's" where
  "edit_steps lb db path mount_id f done ss s =
     (let doc_id = vfs_dir_id lb path; url = vfs_dir_url lb path in
      edit_doc db doc_id url ''Directory not found.'' ss (\<lambda>doc s1.
        case edit_mount mount_id f doc of
          None \<Rightarrow> flash_to url (''Mount '' @ quoted mount_id @ '' not found.'') ss s1
        | Some edited \<Rightarrow> or_web_panic edited ss s1 (\<lambda>d.
            case db_put db doc_id d s1 of
              (Inr _, s2) \<Rightarrow> (case done of Some msg \<Rightarrow> flash_to url msg ss s2 | None \<Rightarrow> (Redirect url, ss, s2))
            | (Inl e, s2) \<Rightarrow> flash_to url (''Write failed: '' @ couch_error_text e) ss s2)) s)"

definition add_vfs_step_action :: "libs \<Rightarrow> 's couch \<Rightarrow> step_form \<Rightarrow> session \<Rightarrow> 's \<Rightarrow> web_reply \<times> session \<times> 's" where
  "add_vfs_step_action lb db f ss s =
     edit_steps lb db (trim (sf_virtual_path f)) (sf_mount_id f)
       (\<lambda>m. try_array ''steps'' (\<lambda>xs. Some (xs @ [build_step_json f])) (with_steps m)) (Some ''Step added.'') ss s"

definition remove_at :: "nat \<Rightarrow> 'a list \<Rightarrow> 'a list" where
  "remove_at i xs = (if i < length xs then take i xs @ drop (Suc i) xs else xs)"

definition parse_usize :: "string \<Rightarrow> nat option" where
  "parse_usize t = parse_unsigned (2 ^ 64) t"

definition delete_vfs_step_action ::
  "libs \<Rightarrow> 's couch \<Rightarrow> string \<Rightarrow> string \<Rightarrow> string \<Rightarrow> session \<Rightarrow> 's \<Rightarrow> web_reply \<times> session \<times> 's" where
  "delete_vfs_step_action lb db form_path mount_id step_idx ss s =
     (let path = trim form_path in
      case parse_usize step_idx of
        None \<Rightarrow> flash_to (vfs_dir_url lb path) ''Invalid step index.'' ss s
      | Some i \<Rightarrow> edit_steps lb db path mount_id (try_array ''steps'' (\<lambda>xs. Some (remove_at i xs))) (Some ''Step deleted.'') ss s)"

text \<open>The sum wraps, as in a build without overflow checks.\<close>

definition swap_with :: "string \<Rightarrow> nat \<Rightarrow> nat \<Rightarrow> nat option" where
  "swap_with direction i n =
     (if direction = ''up'' \<and> 0 < i then Some (i - 1)
      else if direction = ''down'' \<and> (i + 1) mod 2 ^ 64 < n then Some ((i + 1) mod 2 ^ 64)
      else None)"

text \<open>\<open>slice::swap\<close> panics on an index out of range.\<close>

definition move_step :: "string \<Rightarrow> nat \<Rightarrow> 'a list \<Rightarrow> 'a list option" where
  "move_step direction i xs =
     (case swap_with direction i (length xs) of
        None \<Rightarrow> Some xs
      | Some j \<Rightarrow> if i < length xs \<and> j < length xs then Some (xs[i := xs ! j, j := xs ! i]) else None)"

definition move_vfs_step_action ::
  "libs \<Rightarrow> 's couch \<Rightarrow> string \<Rightarrow> string \<Rightarrow> string \<Rightarrow> string \<Rightarrow> session \<Rightarrow> 's \<Rightarrow> web_reply \<times> session \<times> 's" where
  "move_vfs_step_action lb db form_path mount_id step_idx direction ss s =
     (let path = trim form_path in
      case parse_usize step_idx of
        None \<Rightarrow> flash_to (vfs_dir_url lb path) ''Invalid step index.'' ss s
      | Some i \<Rightarrow> edit_steps lb db path mount_id (try_array ''steps'' (move_step direction i)) None ss s)"

end
