(* ===== verification/Web_Vfs_Props.thy ===== *)
theory Web_Vfs_Props
  imports Web_Vfs
begin

text \<open>
  What the actions of the web interface keep and change: the sequences of directory actions as
  one machine, the root directory as its invariant, the documents that decode with the schema,
  and where the interface differs from the API.
\<close>

section \<open>Directory actions as one machine\<close>

datatype dir_action =
  CreateDir dir_form
| DeleteDir string
| PatchDir string "string option" "string option"
| AddMount vfs_mount_form
| DeleteMount string string
| AddStep step_form
| DeleteStep string string string
| MoveStep string string string string

fun dir_step ::
  "libs \<Rightarrow> api_env \<Rightarrow> 's couch \<Rightarrow> dir_action \<Rightarrow> session \<Rightarrow> 's \<Rightarrow> web_reply \<times> session \<times> 's" where
  "dir_step lb env db (CreateDir f) ss s = create_vfs_dir_action lb env db f ss s"
| "dir_step lb env db (DeleteDir p) ss s = delete_vfs_dir_action lb db p ss s"
| "dir_step lb env db (PatchDir p n e) ss s = patch_vfs_dir_action lb db p n e ss s"
| "dir_step lb env db (AddMount f) ss s = add_vfs_mount_action lb env db f ss s"
| "dir_step lb env db (DeleteMount p m) ss s = delete_vfs_mount_action lb db p m ss s"
| "dir_step lb env db (AddStep f) ss s = add_vfs_step_action lb db f ss s"
| "dir_step lb env db (DeleteStep p m i) ss s = delete_vfs_step_action lb db p m i ss s"
| "dir_step lb env db (MoveStep p m i d) ss s = move_vfs_step_action lb db p m i d ss s"

text \<open>The path the action names, as the action reads it.\<close>

fun action_path :: "dir_action \<Rightarrow> string" where
  "action_path (CreateDir f) = form_dir_path (trim (df_path f))"
| "action_path (DeleteDir p) = trim p"
| "action_path (PatchDir p n e) = trim p"
| "action_path (AddMount f) = trim (vm_virtual_path f)"
| "action_path (DeleteMount p m) = trim p"
| "action_path (AddStep f) = trim (sf_virtual_path f)"
| "action_path (DeleteStep p m i) = trim p"
| "action_path (MoveStep p m i d) = trim p"

fun dir_run ::
  "libs \<Rightarrow> 's couch \<Rightarrow> (api_env \<times> dir_action) list \<Rightarrow> session \<times> 's \<Rightarrow> session \<times> 's" where
  "dir_run lb db [] st = st"
| "dir_run lb db ((env, a) # as) st = dir_run lb db as (snd (dir_step lb env db a (fst st) (snd st)))"

section \<open>What an action does to the database\<close>

text \<open>
  The document at \<open>i\<close> is left, removed when the test allows it, created where there was none, or
  replaced by one that differs in the named fields only; the other documents are left.
\<close>

definition touches ::
  "string set \<Rightarrow> string \<Rightarrow> (json \<Rightarrow> bool) \<Rightarrow> (string \<Rightarrow> json option) \<Rightarrow> (string \<Rightarrow> json option) \<Rightarrow> bool" where
  "touches keys i removable D D' \<longleftrightarrow>
     D' = D \<or>
     (\<exists>d. D i = Some d \<and> removable d \<and> D' = D(i := None)) \<or>
     (\<exists>d'. D i = None \<and> D' = D(i \<mapsto> d')) \<or>
     (\<exists>d d'. D i = Some d \<and> D' = D(i \<mapsto> d') \<and>
        (\<forall>k. k \<notin> keys \<and> k \<noteq> ''_rev'' \<and> k \<noteq> ''_id'' \<longrightarrow> jget k d' = jget k d))"

lemma touches_refl [simp, intro]: "touches keys i rm D D"
  by (simp add: touches_def)

definition edit_fields :: "string set" where
  "edit_fields = {''name'', ''enforce_steps_on_children'', ''mounts''}"

definition not_system :: "json \<Rightarrow> bool" where
  "not_system doc \<longleftrightarrow> Option.bind (jget ''system'' doc) as_bool \<noteq> Some True"

lemma flash_to_state [simp]: "snd (snd (flash_to url msg ss s)) = s"
  by (simp add: flash_to_def)

lemma put_flash_state [simp]: "snd (snd (put_flash db i doc url good bad ss s)) = snd (db_put db i doc s)"
  by (simp add: put_flash_def split: prod.split sum.split)

lemma delete_flash_state [simp]:
  "snd (snd (delete_flash db i doc url good ss s)) = snd (db_delete db i (unwrap_or (jget_str ''_rev'' doc) []) s)"
  by (simp add: delete_flash_def split: prod.split sum.split)

lemma put_touches:
  assumes "writes_law db docs" "docs s i = Some d"
    and "\<And>k. k \<notin> keys \<Longrightarrow> k \<noteq> ''_rev'' \<Longrightarrow> k \<noteq> ''_id'' \<Longrightarrow> jget k doc = jget k d"
  shows "touches keys i rm (docs s) (docs (snd (db_put db i doc s)))"
proof (cases "db_put db i doc s")
  case (Pair r s1)
  show ?thesis
  proof (cases r)
    case (Inl e)
    with writes_law_put_failed [OF assms(1)] Pair show ?thesis by simp
  next
    case (Inr x)
    with writes_law_put [OF assms(1)] Pair obtain d' where d': "same_fields d' doc" "docs s1 = (docs s)(i \<mapsto> d')" by blast
    have "\<forall>k. k \<notin> keys \<and> k \<noteq> ''_rev'' \<and> k \<noteq> ''_id'' \<longrightarrow> jget k d' = jget k d"
      using d'(1) assms(3) by (simp add: same_fields_def)
    with d'(2) assms(2) Pair show ?thesis
      unfolding touches_def by (intro disjI2 exI [of _ d] exI [of _ d'] conjI) simp_all
  qed
qed

lemma delete_touches:
  assumes "writes_law db docs" "docs s i = Some d" "rm d"
  shows "touches keys i rm (docs s) (docs (snd (db_delete db i rv s)))"
proof (cases "db_delete db i rv s")
  case (Pair r s1)
  then show ?thesis
    using writes_law_delete [OF assms(1)] writes_law_delete_failed [OF assms(1)] assms(2,3)
    by (cases r) (auto simp: touches_def)
qed

lemma create_touches:
  assumes "writes_law db docs" "docs s i = None"
  shows "touches keys i rm (docs s) (docs (snd (db_put db i doc s)))"
proof (cases "db_put db i doc s")
  case (Pair r s1)
  show ?thesis
  proof (cases r)
    case (Inl e)
    with writes_law_put_failed [OF assms(1)] Pair show ?thesis by simp
  next
    case (Inr x)
    with writes_law_put [OF assms(1)] Pair obtain d' where "docs s1 = (docs s)(i \<mapsto> d')" by blast
    with assms(2) Pair show ?thesis unfolding touches_def by (intro disjI2 disjI1 exI [of _ d']) simp
  qed
qed

lemma edit_doc_touches:
  assumes "reads_law db docs"
    and "\<And>doc. docs s i = Some doc \<Longrightarrow> touches keys i rm (docs s) (docs (snd (snd (f doc s))))"
  shows "touches keys i rm (docs s) (docs (snd (snd (edit_doc db i url m ss f s))))"
  using assms(2) by (cases "docs s i") (simp_all add: edit_doc_def reads_law_get [OF assms(1)])

lemma jget_edit_array: "k \<noteq> k' \<Longrightarrow> jget k (edit_array k' f doc) = jget k doc"
  by (cases doc) (auto simp: update_conv' split: option.split json.split)

lemma jget_push_vfs_mount: "push_vfs_mount m doc = Some d \<Longrightarrow> k \<noteq> ''mounts'' \<Longrightarrow> jget k d = jget k doc"
  by (auto simp: push_vfs_mount_def jget_edit_array jget_jset split: option.splits)

lemma edit_mount_fields: "edit_mount mount_id f doc = Some (Some d) \<Longrightarrow> k \<noteq> ''mounts'' \<Longrightarrow> jget k d = jget k doc"
  by (auto simp: edit_mount_def bind_eq_Some_conv jget_edit_array)

text \<open>Without an edited document there is no write, with one there is this write.\<close>

lemma edit_steps_state:
  "db_get db (vfs_dir_id lb path) s = (Inr doc, s) \<Longrightarrow>
     snd (snd (edit_steps lb db path mount_id f done ss s)) =
       (case edit_mount mount_id f doc of
          Some (Some d) \<Rightarrow> snd (db_put db (vfs_dir_id lb path) d s)
        | _ \<Rightarrow> s)"
  by (simp add: edit_steps_def edit_doc_def or_web_panic_def Let_def split: option.split prod.split sum.split)

lemma edit_steps_touches:
  assumes "reads_law db docs" "writes_law db docs"
  shows "touches edit_fields (vfs_dir_id lb path) not_system (docs s)
    (docs (snd (snd (edit_steps lb db path mount_id f done ss s))))"
proof (cases "docs s (vfs_dir_id lb path)")
  case None
  then show ?thesis by (simp add: edit_steps_def edit_doc_def reads_law_get [OF assms(1)] Let_def)
next
  case (Some doc)
  then have get: "db_get db (vfs_dir_id lb path) s = (Inr doc, s)" by (simp add: reads_law_get [OF assms(1)])
  show ?thesis
  proof (cases "edit_mount mount_id f doc")
    case None
    then show ?thesis by (simp add: edit_steps_state [OF get])
  next
    case e: (Some edited)
    show ?thesis
    proof (cases edited)
      case None
      with e show ?thesis by (simp add: edit_steps_state [OF get])
    next
      case (Some d)
      have "jget k d = jget k doc" if "k \<notin> edit_fields" for k
        using edit_mount_fields [of mount_id f doc d k] e Some that by (auto simp: edit_fields_def)
      with put_touches [where docs = docs, OF assms(2) \<open>docs s _ = Some doc\<close>] e Some show ?thesis
        by (simp add: edit_steps_state [OF get])
    qed
  qed
qed

lemma or_web_panic_state:
  "snd (snd (or_web_panic x ss s f)) = (case x of Some a \<Rightarrow> snd (snd (f a)) | None \<Rightarrow> s)"
  by (simp add: or_web_panic_def split: option.split)

text \<open>Every action touches the document of its directory only.\<close>

lemma dir_step_touches:
  assumes "reads_law db docs" "writes_law db docs"
  shows "touches edit_fields (vfs_dir_id lb (action_path a)) not_system (docs s)
    (docs (snd (snd (dir_step lb env db a ss s))))"
proof (cases a)
  case (CreateDir f)
  let ?p = "form_dir_path (trim (df_path f))"
  show ?thesis
  proof (cases "docs s (vfs_dir_id lb ?p)")
    case None
    then show ?thesis using create_touches [where docs = docs, OF assms(2) None]
      by (auto simp: CreateDir create_vfs_dir_action_def Let_def reads_law_get [OF assms(1)]
          split: option.split prod.split sum.split)
        (metis snd_conv)+
  next
    case (Some d)
    then show ?thesis
      by (simp add: CreateDir create_vfs_dir_action_def Let_def reads_law_get [OF assms(1)])
  qed
next
  case (DeleteDir p)
  show ?thesis unfolding DeleteDir dir_step.simps action_path.simps delete_vfs_dir_action_def Let_def
    by (rule edit_doc_touches [OF assms(1)]) (simp add: delete_touches [where docs = docs, OF assms(2)] not_system_def)
next
  case (PatchDir p n e)
  show ?thesis unfolding PatchDir dir_step.simps action_path.simps patch_vfs_dir_action_def Let_def
  proof (rule edit_doc_touches [OF assms(1)])
    fix doc assume doc: "docs s (vfs_dir_id lb (trim p)) = Some doc"
    let ?kvs = "(case n of None \<Rightarrow> [] | Some n \<Rightarrow> [(''name'', JStr (trim n))]) @
        [(''enforce_steps_on_children'', JBool (e = Some ''1''))]"
    have "jget k d = jget k doc" if "jset_all ?kvs doc = Some d" "k \<notin> edit_fields" for k d
      using jset_all_jget [OF that(1), of k] that(2) by (auto simp: edit_fields_def split: option.splits)
    then show "touches edit_fields (vfs_dir_id lb (trim p)) not_system (docs s) (docs (snd (snd
        (or_web_panic (jset_all ?kvs doc) ss s (\<lambda>d. put_flash db (vfs_dir_id lb (trim p)) d
          (vfs_dir_url lb (trim p)) ''Settings saved.'' ''Save failed: '' ss s)))))"
      using put_touches [where docs = docs, OF assms(2) doc]
      by (auto simp: or_web_panic_state split: option.split)
  qed
next
  case (AddMount f)
  show ?thesis unfolding AddMount dir_step.simps action_path.simps add_vfs_mount_action_def Let_def
  proof (rule edit_doc_touches [OF assms(1)])
    fix doc assume doc: "docs s (vfs_dir_id lb (trim (vm_virtual_path f))) = Some doc"
    have "jget k d = jget k doc" if "push_vfs_mount m doc = Some d" "k \<notin> edit_fields" for k d m
      using jget_push_vfs_mount [OF that(1), of k] that(2) by (auto simp: edit_fields_def)
    then show "touches edit_fields (vfs_dir_id lb (trim (vm_virtual_path f))) not_system (docs s) (docs (snd (snd
        (case form_source f of
           Inl msg \<Rightarrow> flash_to (vfs_dir_url lb (trim (vm_virtual_path f))) msg ss s
         | Inr source \<Rightarrow> or_web_panic (push_vfs_mount (form_vfs_mount (ae_uuid env) f source) doc) ss s
             (\<lambda>d. put_flash db (vfs_dir_id lb (trim (vm_virtual_path f))) d
               (vfs_dir_url lb (trim (vm_virtual_path f))) ''Mount added.'' ''Write failed: '' ss s)))))"
      using put_touches [where docs = docs, OF assms(2) doc]
      by (auto simp: or_web_panic_state split: option.split sum.split)
  qed
next
  case (DeleteMount p m)
  show ?thesis unfolding DeleteMount dir_step.simps action_path.simps delete_vfs_mount_action_def Let_def
    by (rule edit_doc_touches [OF assms(1)], simp only: put_flash_state,
        erule put_touches [where docs = docs, OF assms(2)], simp add: jget_edit_array edit_fields_def)
next
  case (AddStep f)
  show ?thesis by (simp add: AddStep add_vfs_step_action_def edit_steps_touches [OF assms])
next
  case (DeleteStep p m i)
  show ?thesis
    by (cases "parse_usize i") (simp_all add: DeleteStep delete_vfs_step_action_def Let_def edit_steps_touches [OF assms])
next
  case (MoveStep p m i d)
  show ?thesis
    by (cases "parse_usize i") (simp_all add: MoveStep move_vfs_step_action_def Let_def edit_steps_touches [OF assms])
qed

lemma update_same: "map_of kvs k = Some v \<Longrightarrow> AList.update k v kvs = kvs"
  by (induction kvs) auto

section \<open>Properties\<close>

definition is_system :: "json \<Rightarrow> bool" where
  "is_system doc \<longleftrightarrow> jget ''system'' doc = Some (JBool True)"

lemma touches_elsewhere: "touches keys i rm D D' \<Longrightarrow> j \<noteq> i \<Longrightarrow> D' j = D j"
  by (auto simp: touches_def)

lemma touches_system:
  assumes "touches edit_fields i not_system D D'" "D j = Some d" "is_system d"
  shows "\<exists>d'. D' j = Some d' \<and> is_system d'"
proof (cases "j = i")
  case False
  with touches_elsewhere [OF assms(1)] assms(2,3) show ?thesis by simp
next
  case True
  have "\<not> not_system d" using assms(3) by (simp add: is_system_def not_system_def)
  moreover have "''system'' \<notin> edit_fields" by (simp add: edit_fields_def)
  ultimately show ?thesis using assms True by (auto simp: touches_def is_system_def)
qed

text \<open>
  C30: no sequence of directory actions of the web interface, whatever their forms, removes a system
  directory or takes its mark away: the root directory that the start creates stays.
\<close>

theorem web_keeps_system_directories:
  assumes "reads_law db docs" "writes_law db docs" "docs s i = Some d" "jget ''system'' d = Some (JBool True)"
  shows "\<exists>d'. docs (snd (dir_run lb db actions (ss, s))) i = Some d' \<and> jget ''system'' d' = Some (JBool True)"
  using assms(3,4)
proof (induction actions arbitrary: ss s d)
  case Nil
  then show ?case by simp
next
  case (Cons ea actions)
  obtain env a where ea: "ea = (env, a)" by (cases ea)
  obtain r ss1 s1 where run: "dir_step lb env db a ss s = (r, ss1, s1)" by (cases "dir_step lb env db a ss s") auto
  from touches_system [OF dir_step_touches [OF assms(1,2), of lb a s env ss] Cons.prems(1)] Cons.prems(2)
  obtain d1 where "docs s1 i = Some d1" "jget ''system'' d1 = Some (JBool True)"
    by (auto simp: run is_system_def)
  from Cons.IH [OF this, of ss1] show ?case by (simp add: ea run)
qed

definition sample_root :: store where
  "sample_root = [(''dir::root'', JObj [(''type'', JStr ''virtual_directory''), (''system'', JBool True)])]"

theorem web_keeps_system_directories_witness:
  "\<exists>d. map_of (snd (dir_run sample_libs store_couch
      [(\<lparr>ae_now = ''n'', ae_uuid = ''u'', ae_draws = []\<rparr>, DeleteDir ''/''),
       (\<lparr>ae_now = ''n'', ae_uuid = ''u'', ae_draws = []\<rparr>, PatchDir ''/'' (Some ''x'') None)]
      (new_session, sample_root))) ''dir::root'' = Some d \<and> jget ''system'' d = Some (JBool True)"
  by (rule web_keeps_system_directories [OF store_couch_reads store_couch_writes,
        of _ _ "JObj [(''type'', JStr ''virtual_directory''), (''system'', JBool True)]"])
    (simp_all add: sample_root_def)

text \<open>An action of the web interface on one directory leaves every other document of the database as
  it is; a deletion in particular leaves the directories below, with a parent that is gone.
\<close>

lemma web_delete_leaves_children:
  assumes "reads_law db docs" "writes_law db docs"
    and "docs s (vfs_dir_id lb (trim path)) = Some dir" "Option.bind (jget ''system'' dir) as_bool \<noteq> Some True"
    and "docs s i = Some child" "jget_str ''parent_path'' child = Some (trim path)" "i \<noteq> vfs_dir_id lb (trim path)"
    and "delete_vfs_dir_action lb db path ss s = (r, ss1, s1)"
  shows "docs s1 i = Some child \<and>
    (docs s1 (vfs_dir_id lb (trim path)) = None \<or> docs s1 = docs s)"
proof -
  have t: "touches edit_fields (vfs_dir_id lb (trim path)) not_system (docs s) (docs s1)"
    using dir_step_touches [OF assms(1,2), of lb "DeleteDir path" s env ss for env] assms(8) by simp
  obtain rd s2 where del: "db_delete db (vfs_dir_id lb (trim path)) (unwrap_or (jget_str ''_rev'' dir) []) s = (rd, s2)"
    by (cases "db_delete db (vfs_dir_id lb (trim path)) (unwrap_or (jget_str ''_rev'' dir) []) s")
  have "s1 = s2" using assms(3,4,8) del
    by (cases rd) (auto simp: delete_vfs_dir_action_def edit_doc_def reads_law_get [OF assms(1)] delete_flash_def
        flash_to_def Let_def)
  then show ?thesis using touches_elsewhere [OF t assms(7)] assms(5) del
      writes_law_delete [OF assms(2)] writes_law_delete_failed [OF assms(2)] by (cases rd) auto
qed

definition sample_family :: store where
  "sample_family =
     [(''dir::/a'', JObj [(''parent_path'', JStr ''/'')]), (''dir::/a/b'', JObj [(''parent_path'', JStr ''/a'')])]"

text \<open>Moving a step up at a position past the end of the list, as a stale page does after a
  deletion, panics instead of being ignored; moving it down there is ignored.
\<close>

lemma move_past_the_end_panics:
  assumes "db_get db (vfs_dir_id lb (trim path)) s = (Inr (JObj kvs), s1)"
    and "map_of kvs ''mounts'' = Some (JArr (JObj m # ms))" "map_of m ''mount_id'' = Some (JStr mount_id)"
    and "map_of m ''steps'' = Some (JArr steps)"
    and "parse_usize step_idx = Some i" "length steps \<le> i" "0 < i" "i < 2 ^ 64 - 1"
  shows "move_vfs_step_action lb db path mount_id step_idx ''up'' ss s = (WebPanicked, ss, s1) \<and>
    (\<forall>r s2. db_put db (vfs_dir_id lb (trim path)) (JObj kvs) s1 = (Inr r, s2) \<longrightarrow>
      move_vfs_step_action lb db path mount_id step_idx ''down'' ss s = (Redirect (vfs_dir_url lb (trim path)), ss, s2))"
proof -
  have id: "has_mount_id mount_id (JObj m)" using assms(3) by (simp add: has_mount_id_def jget_str_def)
  have up: "move_step ''up'' i steps = None" using assms(6,7) by (simp add: move_step_def swap_with_def)
  have down: "move_step ''down'' i steps = Some steps" using assms(6,8) by (simp add: move_step_def swap_with_def)
  have same: "JObj (AList.update ''steps'' (JArr steps) m) = JObj m" "JObj (AList.update ''mounts'' (JArr (JObj m # ms)) kvs) = JObj kvs"
    using assms(2,4) by (simp_all add: update_same)
  have e: "edit_mount mount_id (try_array ''steps'' (move_step ''up'' i)) (JObj kvs) = Some None"
    "edit_mount mount_id (try_array ''steps'' (move_step ''down'' i)) (JObj kvs) = Some (Some (JObj kvs))"
    using assms(2,4) id up down same by (simp_all add: edit_mount_def)
  show ?thesis
    by (simp add: move_vfs_step_action_def assms(1,5) edit_steps_def edit_doc_def e or_web_panic_def Let_def)
qed


definition sample_mounted :: store where
  "sample_mounted = [(''dir::/a'', JObj [(''mounts'', JArr [JObj [(''mount_id'', JStr ''m''), (''steps'', JArr [])]])])]"

section \<open>What is written has the schema\<close>

lemma dec_mount_strategy_text: "s \<in> {''flatten'', ''prefix_replace''} \<Longrightarrow> \<exists>x. dec_mount_strategy (JStr s) = Some x"
  by (auto simp: dec_mount_strategy_def)

lemma dec_step_result_text: "s \<in> {''include'', ''exclude'', ''continue''} \<Longrightarrow> \<exists>x. dec_step_result (JStr s) = Some x \<and> enc_step_result x = JStr s"
  by (auto simp: dec_step_result_def)

lemma dec_conflict_policy_text: "s \<in> {''last_write_wins'', ''suffix_node_id''} \<Longrightarrow> \<exists>x. dec_conflict_policy (JStr s) = Some x"
  by (auto simp: dec_conflict_policy_def)

text \<open>The mount source that a form without mistakes describes.\<close>

fun source_of_form :: "dir_form \<Rightarrow> mount_source option" where
  "source_of_form f =
     (if df_source_type f = ''node'' then
        map_option (\<lambda>nid. SourceNode nid (unwrap_or (nonblank (df_export_path f)) ''/'')) (nonblank (df_node_id f))
      else if df_source_type f = ''label'' then map_option SourceLabel (nonblank (df_label f))
      else if df_source_type f = ''federated'' then map_option SourceFederated (nonblank (df_federated_import_id f))
      else None)"

lemma initial_source_decodes: "initial_source f = map_option mount_source_to_json (source_of_form f)"
  by (auto simp: initial_source_def node_source_def option.map_comp o_def intro!: map_option_cong)

lemma saved_mount_decodes:
  assumes "strategy \<in> {''flatten'', ''prefix_replace''}" "result \<in> {''include'', ''exclude'', ''continue''}"
    and "policy \<in> {''last_write_wins'', ''suffix_node_id''}"
  shows "\<exists>me. mount_entry_of_json (saved_mount i (mount_source_to_json src) strategy (json_str_opt pre) result policy) = Some me \<and>
    me_mount_id me = i \<and> me_source me = src \<and> me_source_prefix me = pre \<and> me_steps me = []"
proof -
  obtain a b c where "dec_mount_strategy (JStr strategy) = Some a" "dec_step_result (JStr result) = Some b"
    "dec_conflict_policy (JStr policy) = Some c"
    using dec_mount_strategy_text [OF assms(1)] dec_step_result_text [OF assms(2)] dec_conflict_policy_text [OF assms(3)] by auto
  then show ?thesis
    by (simp add: mount_entry_of_json_def saved_mount_def req_field_def opt_field_def default_field_def opt_read_def
        mount_source_codec json_str_opt_def split: option.split)
qed

lemma form_mounts_decode:
  assumes "unwrap_or (df_strategy f) ''flatten'' \<in> {''flatten'', ''prefix_replace''}"
    and "unwrap_or (df_default_result f) ''include'' \<in> {''include'', ''exclude'', ''continue''}"
    and "unwrap_or (df_conflict_policy f) ''last_write_wins'' \<in> {''last_write_wins'', ''suffix_node_id''}"
  shows "\<exists>ms. list_of mount_entry_of_json (JArr (case build_initial_mount uuid f of Some m \<Rightarrow> [m] | None \<Rightarrow> [])) = Some ms \<and>
    map me_source ms = (case source_of_form f of Some src \<Rightarrow> [src] | None \<Rightarrow> [])"
proof (cases "source_of_form f")
  case None
  then show ?thesis by (simp add: build_initial_mount_def initial_source_decodes del: source_of_form.simps)
next
  case (Some src)
  obtain me where me: "mount_entry_of_json (saved_mount (take 8 uuid) (mount_source_to_json src)
      (unwrap_or (df_strategy f) ''flatten'') (json_str_opt None) (unwrap_or (df_default_result f) ''include'')
      (unwrap_or (df_conflict_policy f) ''last_write_wins'')) = Some me" "me_source me = src"
    using saved_mount_decodes [OF assms, of "take 8 uuid" src None] by blast
  then have "mount_entry_of_json (saved_mount (take 8 uuid) (mount_source_to_json src)
      (unwrap_or (df_strategy f) ''flatten'') JNull (unwrap_or (df_default_result f) ''include'')
      (unwrap_or (df_conflict_policy f) ''last_write_wins'')) = Some me" by (simp add: json_str_opt_def)
  with me(2) Some show ?thesis
    by (simp add: build_initial_mount_def initial_source_decodes del: source_of_form.simps)
qed

text \<open>
  C31: the directory that a well-filled form creates decodes with the document schema, with the path,
  the parent and the mount of the form; so does the step that a form adds to a mount.
\<close>

theorem form_documents_decode:
  assumes "parse_time lb (ae_now env) = Some t"
    and "unwrap_or (df_strategy f) ''flatten'' \<in> {''flatten'', ''prefix_replace''}"
    and "unwrap_or (df_default_result f) ''include'' \<in> {''include'', ''exclude'', ''continue''}"
    and "unwrap_or (df_conflict_policy f) ''last_write_wins'' \<in> {''last_write_wins'', ''suffix_node_id''}"
    and "sf_on_match g = Some om" "om \<in> {''include'', ''exclude'', ''continue''}"
  shows "(\<exists>vd. virtual_directory_of_json lb (form_dir_doc lb env f path inode) = Some vd \<and>
      vd_virtual_path vd = path \<and> vd_parent_path vd = derived_parent path \<and> vd_inode vd = inode \<and>
      map me_source (vd_mounts vd) = (case source_of_form f of Some src \<Rightarrow> [src] | None \<Rightarrow> [])) \<and>
    (\<exists>st. step_of_json (build_step_json g) = Some st \<and> st_op st = sf_op g \<and>
      st_invert st = (sf_invert g = Some ''1'') \<and> st_params st = op_fields g)"
proof -
  obtain ms where ms: "list_of mount_entry_of_json (JArr (case build_initial_mount (ae_uuid env) f of Some m \<Rightarrow> [m] | None \<Rightarrow> [])) = Some ms"
    "map me_source ms = (case source_of_form f of Some src \<Rightarrow> [src] | None \<Rightarrow> [])"
    using form_mounts_decode [OF assms(2-4)] by blast
  have dir: "\<exists>vd. virtual_directory_of_json lb (form_dir_doc lb env f path inode) = Some vd \<and>
      vd_virtual_path vd = path \<and> vd_parent_path vd = derived_parent path \<and> vd_inode vd = inode \<and> vd_mounts vd = ms"
    using ms(1) assms(1)
    by (simp add: virtual_directory_of_json_def form_dir_doc_def req_field_def opt_field_def default_field_def opt_read_def
        as_time_def jget_str_def json_str_opt_def split: option.split)
  obtain r where r: "dec_step_result (JStr om) = Some r" "enc_step_result r = JStr om"
    using dec_step_result_text [OF assms(6)] by blast
  let ?st = "\<lparr>st_op = sf_op g, st_invert = (sf_invert g = Some ''1''), st_on_match = Some r, st_params = op_fields g\<rparr>"
  have "om \<noteq> []" using assms(6) by auto
  then have "build_step_json g = step_to_json ?st"
    by (simp add: build_step_json_def step_to_json_def filled_def assms(5) r(2))
  moreover have "step_wf ?st"
    by (auto simp: step_wf_def op_fields_def filled_def parsed_def defaulted_def step_keys_def Let_def
        split: if_splits option.splits)
  ultimately have "step_of_json (build_step_json g) = Some ?st" by (simp add: step_codec)
  with dir ms(2) show ?thesis by auto
qed

definition sample_dir_form :: dir_form where
  "sample_dir_form = \<lparr>df_path = ''/a'', df_source_type = ''label'', df_node_id = None, df_export_path = None,
     df_label = Some ''l'', df_federated_import_id = None, df_strategy = None, df_default_result = None,
     df_conflict_policy = None\<rparr>"

definition sample_step_form :: step_form where
  "sample_step_form = \<lparr>sf_virtual_path = ''/a'', sf_mount_id = ''m'', sf_op = ''glob'', sf_invert = Some ''1'',
     sf_on_match = Some ''exclude'', sf_pattern = Some ''p'', sf_days = None, sf_comparison = None, sf_bytes = None,
     sf_step_node_id = None, sf_step_label = None, sf_missing = None, sf_target = None, sf_status = None,
     sf_plugin_name = None\<rparr>"

theorem form_documents_decode_witness:
  "\<exists>vd st. virtual_directory_of_json sample_libs (form_dir_doc sample_libs \<lparr>ae_now = ''ttt'', ae_uuid = ''u'', ae_draws = []\<rparr>
      sample_dir_form ''/a'' 1000) = Some vd \<and> map me_source (vd_mounts vd) = [SourceLabel ''l''] \<and>
    step_of_json (build_step_json sample_step_form) = Some st \<and> st_params st = [(''pattern'', JStr ''p'')]"
proof -
  have trim: "trim ''l'' = ''l''"
    by (simp add: trim_def strip_any.simps ws_chars_def starts_with_def char_of_def)
  have src: "source_of_form sample_dir_form = Some (SourceLabel ''l'')"
    by (simp add: sample_dir_form_def nonblank_def trim)
  have now: "parse_time sample_libs (ae_now \<lparr>ae_now = ''ttt'', ae_uuid = ''u'', ae_draws = []\<rparr>) = Some 3"
    by (simp add: sample_parse_time_def starts_with_def)
  have form: "unwrap_or (df_strategy sample_dir_form) ''flatten'' \<in> {''flatten'', ''prefix_replace''}"
    "unwrap_or (df_default_result sample_dir_form) ''include'' \<in> {''include'', ''exclude'', ''continue''}"
    "unwrap_or (df_conflict_policy sample_dir_form) ''last_write_wins'' \<in> {''last_write_wins'', ''suffix_node_id''}"
    by (simp_all add: sample_dir_form_def)
  have om: "sf_on_match sample_step_form = Some ''exclude''" "''exclude'' \<in> {''include'', ''exclude'', ''continue''}"
    by (simp_all add: sample_step_form_def)
  have op: "op_fields sample_step_form = [(''pattern'', JStr ''p'')]"
    by (simp add: op_fields_def sample_step_form_def filled_def)
  from form_documents_decode [OF now form om, of "''/a''" 1000] src op show ?thesis by auto
qed

end
