(* ===== verification/Web_Views.thy ===== *)
theory Web_Views
  imports Web_Actions Open_File
begin

text \<open>
  The read-only pages of the web interface, \<open>ui/views.rs\<close>: status, nodes, notifications,
  credentials, backup and virtual directories. A page is modelled by the context its template is
  given. The current time as text, the uptime and the version are arguments.
\<close>

section \<open>Formatting\<close>

definition unit_text :: "nat \<Rightarrow> char \<Rightarrow> string" where
  "unit_text n c = nat_str n @ [c]"

definition fmt_duration :: "nat \<Rightarrow> string" where
  "fmt_duration secs =
     (let d = secs div 86400; h = secs mod 86400 div 3600; m = secs mod 3600 div 60; s = secs mod 60;
          D = unit_text d (CHR ''d''); H = unit_text h (CHR ''h''); M = unit_text m (CHR ''m''); S = unit_text s (CHR ''s'')
      in if 0 < d then D @ '' '' @ H @ '' '' @ M
         else if 0 < h then H @ '' '' @ M @ '' '' @ S
         else if 0 < m then M @ '' '' @ S
         else S)"

text \<open>The field as text, or the default.\<close>

definition text_field :: "string \<Rightarrow> string \<Rightarrow> json \<Rightarrow> string" where
  "text_field k d doc = unwrap_or (jget_str k doc) d"

definition id_without :: "string \<Rightarrow> json \<Rightarrow> string" where
  "id_without pre doc = strip_any [pre] (text_field ''_id'' [] doc)"

definition typed_docs :: "string \<Rightarrow> all_docs_row list \<Rightarrow> json list" where
  "typed_docs t rows = filter (\<lambda>d. jget_str ''type'' d = Some t) (row_docs rows)"

text \<open>The documents of a range; a failed read counts as none.\<close>

definition docs_or_none :: "'s couch \<Rightarrow> string \<Rightarrow> 's \<Rightarrow> all_docs_row list \<times> 's" where
  "docs_or_none db pre s = map_prod (\<lambda>r. case r of Inr rows \<Rightarrow> rows | Inl _ \<Rightarrow> []) id (db_prefix db pre s)"

definition count_u64 :: "'a list \<Rightarrow> json" where
  "count_u64 xs = enc_u64 (of_nat (length xs))"

definition plain_page :: "environment \<Rightarrow> string \<Rightarrow> string \<Rightarrow> session \<Rightarrow> web_reply \<times> session" where
  "plain_page env name template ss =
     (let (ctx, ss1) = page_ctx env ss in (Page 200 template (ctx(''title'' \<mapsto> titled name ''MosaicFS'')), ss1))"

section \<open>Status\<close>

definition status_page :: "environment \<Rightarrow> session \<Rightarrow> web_reply \<times> session" where
  "status_page env ss = plain_page env ''Status'' ''status.html'' ss"

definition recent_heartbeat :: "libs \<Rightarrow> time \<Rightarrow> json \<Rightarrow> bool" where
  "recent_heartbeat lb now doc \<longleftrightarrow>
     (case Option.bind (jget_str ''last_heartbeat'' doc) (parse_time lb) of
        Some ts \<Rightarrow> num_seconds (now - ts) \<le> 60
      | None \<Rightarrow> False)"

definition status_panel ::
  "libs \<Rightarrow> string \<Rightarrow> nat \<Rightarrow> time \<Rightarrow> string \<Rightarrow> string \<Rightarrow> (string \<rightharpoonup> string) \<Rightarrow> 's couch \<Rightarrow> 's db_admin \<Rightarrow> 's \<Rightarrow>
     web_reply \<times> 's" where
  "status_panel lb version uptime_secs now now_str data_dir fs db adm s =
     (let (info, s1) = da_info adm s;
          (node_rows, s2) = docs_or_none db ''node::'' s1;
          (notice_rows, s3) = docs_or_none db ''notification::'' s2;
          nodes = typed_docs ''node'' node_rows;
          reachable = (case info of Inr _ \<Rightarrow> True | Inl _ \<Rightarrow> False)
      in (Page 200 ''status_panel.html''
            [''version'' \<mapsto> JStr version, ''uptime'' \<mapsto> JStr (fmt_duration uptime_secs),
             ''couch_status'' \<mapsto> JStr (if reachable then ''reachable'' else ''unreachable''),
             ''couch_class'' \<mapsto> JStr (if reachable then ''ok'' else ''err''),
             ''needs_bootstrap'' \<mapsto> JStr (if fs (bootstrap_path data_dir) \<noteq> None then ''yes'' else ''no''),
             ''node_count'' \<mapsto> count_u64 nodes,
             ''heartbeat_recent'' \<mapsto> count_u64 (filter (recent_heartbeat lb now) nodes),
             ''notification_count'' \<mapsto> count_u64 (filter web_active (row_docs notice_rows)),
             ''now'' \<mapsto> JStr now_str], s3))"

section \<open>Nodes\<close>

definition nodes_page :: "environment \<Rightarrow> session \<Rightarrow> web_reply \<times> session" where
  "nodes_page env ss = plain_page env ''Nodes'' ''nodes.html'' ss"

text \<open>Age, status and class of a heartbeat.\<close>

definition heartbeat_status :: "libs \<Rightarrow> time \<Rightarrow> string \<Rightarrow> string \<times> string \<times> string" where
  "heartbeat_status lb now hb =
     (case parse_time lb hb of
        Some ts \<Rightarrow>
          (let secs = nat (num_seconds (now - ts)) in
           (fmt_duration secs,
            if secs \<le> 60 then (''online'', ''ok'') else if secs \<le> 600 then (''stale'', ''warn'') else (''offline'', ''err'')))
      | None \<Rightarrow> (''unknown'', ''unknown'', ''muted''))"

definition node_row :: "libs \<Rightarrow> time \<Rightarrow> json \<Rightarrow> json" where
  "node_row lb now d =
     (let hb = text_field ''last_heartbeat'' [] d; (age, status, class) = heartbeat_status lb now hb in
      JObj [(''node_id'', JStr (id_without ''node::'' d)), (''hostname'', JStr (text_field ''friendly_name'' [] d)),
        (''last_heartbeat'', JStr hb), (''age'', JStr age), (''status'', JStr status), (''status_class'', JStr class)])"

definition nodes_panel :: "libs \<Rightarrow> time \<Rightarrow> string \<Rightarrow> 's couch \<Rightarrow> 's \<Rightarrow> web_reply \<times> 's" where
  "nodes_panel lb now now_str db s =
     (let (rows, s1) = docs_or_none db ''node::'' s in
      (Page 200 ''nodes_panel.html''
         [''nodes'' \<mapsto> JArr (map (node_row lb now) (typed_docs ''node'' rows)), ''now'' \<mapsto> JStr now_str], s1))"

definition node_detail_page ::
  "environment \<Rightarrow> 's couch \<Rightarrow> string \<Rightarrow> session \<Rightarrow> 's \<Rightarrow> web_reply \<times> session \<times> 's" where
  "node_detail_page env db node_id ss s =
     (let (ctx0, ss1) = page_ctx env ss;
          ctx = ctx0(''title'' \<mapsto> titled (''Node '' @ node_id) ''MosaicFS'', ''node_id'' \<mapsto> JStr node_id);
          (r, s1) = db_get db (node_key node_id) s
      in (Page 200 ''node_detail.html''
            (case r of
               Inr doc \<Rightarrow>
                 ctx(''friendly_name'' \<mapsto> JStr (text_field ''friendly_name'' [] doc),
                     ''last_heartbeat'' \<mapsto> JStr (text_field ''last_heartbeat'' [] doc),
                     ''mounts'' \<mapsto> JArr (doc_array ''network_mounts'' doc), ''exists'' \<mapsto> JBool True)
             | Inl _ \<Rightarrow> ctx(''exists'' \<mapsto> JBool False)), ss1, s1))"

section \<open>Notifications\<close>

definition notifications_page :: "environment \<Rightarrow> session \<Rightarrow> web_reply \<times> session" where
  "notifications_page env ss = plain_page env ''Notifications'' ''notifications.html'' ss"

definition severity_class :: "string \<Rightarrow> string" where
  "severity_class s = (if s \<in> {''critical'', ''error''} then ''err'' else if s = ''warning'' then ''warn'' else ''muted'')"

definition notice_row :: "json \<Rightarrow> json" where
  "notice_row d =
     (let severity = text_field ''severity'' ''info'' d in
      JObj [(''id'', JStr (id_without ''notification::'' d)), (''severity'', JStr severity),
        (''severity_class'', JStr (severity_class severity)), (''category'', JStr (text_field ''category'' [] d)),
        (''title'', JStr (text_field ''title'' [] d)), (''message'', JStr (text_field ''message'' [] d)),
        (''created_at'', JStr (text_field ''created_at'' [] d))])"

definition notifications_panel :: "string \<Rightarrow> 's couch \<Rightarrow> 's \<Rightarrow> web_reply \<times> 's" where
  "notifications_panel now_str db s =
     (let (rows, s1) = docs_or_none db ''notification::'' s in
      (Page 200 ''notifications_panel.html''
         [''items'' \<mapsto> JArr (map notice_row (filter web_active (row_docs rows))), ''now'' \<mapsto> JStr now_str], s1))"

section \<open>Settings\<close>

definition credential_row :: "json \<Rightarrow> json" where
  "credential_row c =
     JObj [(''access_key_id'', JStr (text_field ''access_key_id'' [] c)), (''name'', JStr (text_field ''name'' [] c)),
       (''enabled'', JBool (unwrap_or (Option.bind (jget ''enabled'' c) as_bool) False)),
       (''created_at'', JStr (text_field ''created_at'' [] c)), (''last_used'', JStr (text_field ''last_used'' [] c))]"

definition settings_credentials_page ::
  "environment \<Rightarrow> 's couch \<Rightarrow> session \<Rightarrow> 's \<Rightarrow> web_reply \<times> session \<times> 's" where
  "settings_credentials_page env db ss s =
     (let (ctx0, ss1) = page_ctx env ss;
          (secret, ss2) = take_new_secret ss1;
          ctx1 = ctx0(''title'' \<mapsto> titled ''Credentials'' ''MosaicFS'');
          ctx2 = (case secret of
             Some (ak, sk) \<Rightarrow> ctx1(''created_access_key'' \<mapsto> JStr ak, ''created_secret_key'' \<mapsto> JStr sk)
           | None \<Rightarrow> ctx1);
          (r, s1) = list_credentials db s;
          creds = (case r of Inr cs \<Rightarrow> map credential_row cs | Inl _ \<Rightarrow> [])
      in (Page 200 ''settings_credentials.html'' (ctx2(''credentials'' \<mapsto> JArr creds)), ss2, s1))"

definition settings_backup_page :: "environment \<Rightarrow> session \<Rightarrow> web_reply \<times> session" where
  "settings_backup_page env ss = plain_page env ''Backup'' ''settings_backup.html'' ss"

section \<open>Virtual directories\<close>

text \<open>The watched paths of a node, sorted, each once.\<close>

definition watched_paths :: "json \<Rightarrow> string list" where
  "watched_paths doc =
     remdups_adj (sort (List.map_filter as_str (concat (map (doc_array ''watch_paths_on_fs'') (doc_array ''storage'' doc)))))"

definition node_choice :: "json \<Rightarrow> json" where
  "node_choice doc =
     (let node_id = id_without ''node::'' doc; name = text_field ''friendly_name'' [] doc in
      JObj [(''node_id'', JStr node_id), (''friendly_name'', JStr (if name = [] then node_id else name))])"

text \<open>The two texts embedded in the templates; the order of the object's entries is that of a hash map.\<close>

definition load_node_data :: "libs \<Rightarrow> 's couch \<Rightarrow> 's \<Rightarrow> (string \<times> string) \<times> 's" where
  "load_node_data lb db s =
     (let (rows, s1) = docs_or_none db ''node::'' s;
          nodes = typed_docs ''node'' rows;
          exports = fold (\<lambda>d. AList.update (id_without ''node::'' d) (JArr (map JStr (watched_paths d)))) nodes []
      in ((json_text lb (JArr (map node_choice nodes)), json_text lb (JObj exports)), s1))"

definition dir_row :: "json \<Rightarrow> json" where
  "dir_row d =
     JObj [(''virtual_path'', JStr (text_field ''virtual_path'' [] d)), (''name'', JStr (text_field ''name'' [] d)),
       (''mount_count'', count_u64 (doc_array ''mounts'' d)),
       (''is_system'', JBool (unwrap_or (Option.bind (jget ''system'' d) as_bool) False))]"

definition vfs_page :: "environment \<Rightarrow> 's couch \<Rightarrow> session \<Rightarrow> 's \<Rightarrow> web_reply \<times> session \<times> 's" where
  "vfs_page env db ss s =
     (let (ctx, ss1) = page_ctx env ss;
          (rows, s1) = docs_or_none db ''dir::'' s;
          dirs = sort_by (\<lambda>a b. cmp_of (text_field ''virtual_path'' [] a) (text_field ''virtual_path'' [] b))
            (map dir_row (typed_docs ''virtual_directory'' rows))
      in (Page 200 ''vfs.html'' (ctx(''title'' \<mapsto> titled ''Virtual Filesystem'' ''MosaicFS'', ''dirs'' \<mapsto> JArr dirs)), ss1, s1))"

definition with_node_data :: "string \<times> string \<Rightarrow> page_context \<Rightarrow> page_context" where
  "with_node_data d ctx = ctx(''nodes_json'' \<mapsto> JStr (fst d), ''node_exports_json'' \<mapsto> JStr (snd d))"

definition vfs_new_page ::
  "libs \<Rightarrow> environment \<Rightarrow> 's couch \<Rightarrow> string option \<Rightarrow> session \<Rightarrow> 's \<Rightarrow> web_reply \<times> session \<times> 's" where
  "vfs_new_page lb env db parent ss s =
     (let (ctx, ss1) = page_ctx env ss; (d, s1) = load_node_data lb db s in
      (Page 200 ''vfs_new.html''
         (with_node_data d (ctx(''title'' \<mapsto> titled ''Create Directory'' ''MosaicFS VFS'',
            ''parent_path'' \<mapsto> JStr (unwrap_or parent [])))), ss1, s1))"

definition step_params_summary :: "json \<Rightarrow> string" where
  "step_params_summary s =
     (let op = text_field ''op'' [] s;
          number = (\<lambda>k. unwrap_or (Option.bind (jget k s) as_i64) 0);
          text = (\<lambda>label k. case jget_str k s of Some v \<Rightarrow> label @ ''='' @ v | None \<Rightarrow> []);
          compared = (\<lambda>k. k @ '' '' @ text_field ''comparison'' ''lt'' s @ '' '' @ int_str (number k))
      in if op \<in> {''glob'', ''regex'', ''mime''} then text ''pattern'' ''pattern''
         else if op = ''age'' then compared ''days''
         else if op = ''size'' then compared ''bytes''
         else if op = ''node'' then text ''node_id'' ''node_id''
         else if op = ''label'' then text ''label'' ''label''
         else if op = ''access_age'' then compared ''days'' @ '' missing='' @ text_field ''missing'' ''include'' s
         else if op = ''replicated'' then ''target='' @ text_field ''target'' ''*'' s @ '' status='' @ text_field ''status'' ''*'' s
         else if op = ''annotation'' then text ''plugin'' ''plugin_name''
         else [])"

definition step_row :: "json \<Rightarrow> json" where
  "step_row s =
     JObj [(''op'', JStr (text_field ''op'' [] s)),
       (''invert'', JBool (unwrap_or (Option.bind (jget ''invert'' s) as_bool) False)),
       (''on_match'', JStr (text_field ''on_match'' [] s)), (''params_summary'', JStr (step_params_summary s))]"

definition source_summary :: "json \<Rightarrow> string \<times> string" where
  "source_summary m =
     (let at = (\<lambda>nid j. (''node'', nid @ '' @ '' @ text_field ''export_path'' ''/'' j));
          unknown = (''unknown'', ''unknown source'')
      in case jget ''source'' m of
           Some src \<Rightarrow>
             (case jget_str ''node_id'' src of
                Some nid \<Rightarrow> at nid src
              | None \<Rightarrow>
                  (case jget_str ''label'' src of
                     Some l \<Rightarrow> (''label'', l)
                   | None \<Rightarrow>
                       (case jget_str ''federated_import_id'' src of
                          Some f \<Rightarrow> (''federated'', f)
                        | None \<Rightarrow> unknown)))
         | None \<Rightarrow> (case jget_str ''node_id'' m of Some nid \<Rightarrow> at nid m | None \<Rightarrow> unknown))"

definition build_mount_ctx :: "json \<Rightarrow> json" where
  "build_mount_ctx m =
     (let (source_type, source_display) = source_summary m in
      JObj [(''mount_id'', JStr (text_field ''mount_id'' [] m)), (''source_type'', JStr source_type),
        (''source_display'', JStr source_display), (''strategy'', JStr (text_field ''strategy'' ''flatten'' m)),
        (''source_prefix'', JStr (text_field ''source_prefix'' [] m)),
        (''conflict_policy'', JStr (text_field ''conflict_policy'' ''last_write_wins'' m)),
        (''default_result'', JStr (text_field ''default_result'' ''include'' m)),
        (''steps'', JArr (map step_row (doc_array ''steps'' m)))])"

definition dir_header :: "string \<Rightarrow> json \<Rightarrow> json" where
  "dir_header path doc =
     JObj [(''virtual_path'', JStr (text_field ''virtual_path'' path doc)), (''name'', JStr (text_field ''name'' [] doc)),
       (''enforce_steps_on_children'',
          JBool (unwrap_or (Option.bind (jget ''enforce_steps_on_children'' doc) as_bool) False)),
       (''is_system'', JBool (unwrap_or (Option.bind (jget ''system'' doc) as_bool) False))]"

definition vfs_dir_page ::
  "libs \<Rightarrow> environment \<Rightarrow> 's couch \<Rightarrow> string option \<Rightarrow> session \<Rightarrow> 's \<Rightarrow> web_reply \<times> session \<times> 's" where
  "vfs_dir_page lb env db query ss s =
     (let path = unwrap_or query ''/'';
          (ctx0, ss1) = page_ctx env ss;
          (d, s1) = load_node_data lb db s;
          ctx = with_node_data d (ctx0(''title'' \<mapsto> titled path ''MosaicFS VFS''));
          (r, s2) = db_get db (vfs_dir_id lb path) s1
      in (Page 200 ''vfs_dir.html''
            (case r of
               Inr doc \<Rightarrow>
                 ctx(''dir'' \<mapsto> dir_header path doc, ''mounts'' \<mapsto> JArr (map build_mount_ctx (doc_array ''mounts'' doc)),
                     ''exists'' \<mapsto> JBool True)
             | Inl _ \<Rightarrow> ctx(''exists'' \<mapsto> JBool False)), ss1, s2))"

section \<open>Lemmas\<close>

lemma map_of_filter_key: "P k \<Longrightarrow> map_of (filter (\<lambda>(k, _). P k) kvs) k = map_of kvs k"
  by (induction kvs) auto

lemma step_of_json_fields:
  assumes "step_of_json doc = Some st"
  shows "jget_str ''op'' doc = Some (st_op st)"
    "k \<notin> set step_keys \<Longrightarrow> map_of (st_params st) k = jget k doc"
  using assms
  by (cases doc; auto simp: req_field_def bind_eq_Some_conv jget_str_def map_of_filter_key)+

section \<open>Properties\<close>

text \<open>
  a step without a comparison is shown with another one than it is evaluated with: the page of the
  directory says that it takes the files younger than the days, the listing takes the older ones.
\<close>

theorem summary_default_differs:
  assumes "step_of_json doc = Some st" "jget_str ''op'' doc = Some ''age''"
    and "jget ''comparison'' doc = None" "Option.bind (jget ''days'' doc) as_i64 = Some n"
  shows "step_params_summary doc = ''days lt '' @ int_str n \<and>
    (evaluate_op lb st file fid u now ctx \<longleftrightarrow> n < num_days (now - fd_mtime file))"
proof -
  have "st_op st = ''age''" using step_of_json_fields(1) [OF assms(1)] assms(2) by simp
  moreover have "map_of (st_params st) ''days'' = jget ''days'' doc" "map_of (st_params st) ''comparison'' = jget ''comparison'' doc"
    by (rule step_of_json_fields(2) [OF assms(1)], simp add: step_keys_def)+
  ultimately show ?thesis
    using assms(2-4)
    by (simp add: step_params_summary_def text_field_def Let_def evaluate_op_def i64_param_def str_param_def
        compare_i64_def jget_str_def unwrap_or_def)
qed

theorem summary_default_differs_witness:
  "step_params_summary (JObj [(''op'', JStr ''age''), (''days'', JNum (PosInt 3))]) = ''days lt 3'' \<and>
   (\<forall>fd ctx. evaluate_op sample_libs
     \<lparr>st_op = ''age'', st_invert = False, st_on_match = None, st_params = [(''days'', JNum (PosInt 3))]\<rparr>
     fd ''f'' ''f'' (fd_mtime fd + 5 * 86400 * 1000000000) ctx)"
proof -
  let ?doc = "JObj [(''op'', JStr ''age''), (''days'', JNum (PosInt 3))]"
  let ?st = "\<lparr>st_op = ''age'', st_invert = False, st_on_match = None, st_params = [(''days'', JNum (PosInt 3))]\<rparr>"
  have doc: "step_of_json ?doc = Some ?st"
    by (simp add: req_field_def default_field_def opt_field_def opt_read_def step_keys_def)
  have op: "jget_str ''op'' ?doc = Some ''age''" "jget ''comparison'' ?doc = None" by (simp_all add: jget_str_def)
  have days: "Option.bind (jget ''days'' ?doc) as_i64 = Some 3" by simp
  have five: "num_days (fd_mtime fd + 5 * 86400 * 1000000000 - fd_mtime fd) = 5" for fd :: file_document
    by (simp add: num_days_def trunc_div_def)
  have three: "int_str 3 = ''3''" by (simp add: int_str_def nat_str.simps digit_char_def char_of_def bit_0)
  have all: "step_params_summary ?doc = ''days lt '' @ int_str 3 \<and>
      evaluate_op sample_libs ?st fd ''f'' ''f'' (fd_mtime fd + 5 * 86400 * 1000000000) ctx" for fd ctx
    using summary_default_differs [OF doc op days, of sample_libs fd "''f''" "''f''"
        "fd_mtime fd + 5 * 86400 * 1000000000" ctx] by (simp only: five) simp
  show ?thesis using all by (intro conjI allI) (simp_all only: three append.simps)
qed

text \<open>The count of recent heartbeats on the status page is the number of nodes that the page of the
  nodes shows as online, for the same documents at the same time.
\<close>

lemma panels_agree:
  assumes "parse_time lb [] = None" "db_prefix db ''node::'' s = (Inr rows, s)" "da_info adm s = (info, s)"
    and "status_panel lb version uptime now now_str data_dir fs db adm s = (Page 200 t1 ctx1, s1)"
    and "nodes_panel lb now now_str db s = (Page 200 t2 ctx2, s2)"
  shows "\<exists>shown. ctx2 ''nodes'' = Some (JArr shown) \<and>
    ctx1 ''node_count'' = Some (enc_u64 (of_nat (length shown))) \<and>
    ctx1 ''heartbeat_recent'' = Some (enc_u64 (of_nat (length (filter (\<lambda>r. jget_str ''status'' r = Some ''online'') shown))))"
proof -
  let ?nodes = "typed_docs ''node'' rows"
  have online: "(jget_str ''status'' (node_row lb now d) = Some ''online'') = recent_heartbeat lb now d" for d
    using assms(1)
    by (cases "jget_str ''last_heartbeat'' d"; cases "Option.bind (jget_str ''last_heartbeat'' d) (parse_time lb)")
      (simp_all add: node_row_def recent_heartbeat_def heartbeat_status_def text_field_def Let_def
        jget_str_def [of "''status''"] nat_le_iff)
  have shown: "ctx2 ''nodes'' = Some (JArr (map (node_row lb now) ?nodes))"
    using assms(2,5) by (auto simp: nodes_panel_def docs_or_none_def)
  have counts: "ctx1 ''node_count'' = Some (enc_u64 (of_nat (length ?nodes)))"
    "ctx1 ''heartbeat_recent'' = Some (enc_u64 (of_nat (length (filter (recent_heartbeat lb now) ?nodes))))"
    using assms(2,3,4) by (auto simp: status_panel_def docs_or_none_def count_u64_def Let_def split: prod.splits)
  have "length (filter (\<lambda>r. jget_str ''status'' r = Some ''online'') (map (node_row lb now) ?nodes)) =
      length (filter (recent_heartbeat lb now) ?nodes)"
    by (simp add: filter_map o_def online)
  with shown counts show ?thesis by (intro exI [of _ "map (node_row lb now) ?nodes"]) simp
qed


definition sample_heartbeats :: store where
  "sample_heartbeats =
     [(''node::a'', JObj [(''type'', JStr ''node''), (''last_heartbeat'', JStr ''ttt'')]),
      (''node::b'', JObj [(''type'', JStr ''node'')])]"

end
