(* ===== verification/Web_Browse.thy ===== *)
theory Web_Browse
  imports Web_Views "HOL-Library.Log_Nat"
begin

text \<open>
  The file browser, \<open>ui/browse.rs\<close>: the rows of a directory with search, order and pages, the
  navigation, the opening of a file by its virtual path, and the display of sizes. The Unicode
  lower-casing and the local date of a time are parameters.
\<close>

definition PAGE_SIZE :: nat where "PAGE_SIZE = 50"

record browse_libs =
  bl_lower :: "string \<Rightarrow> string"
  bl_local_date :: "time \<Rightarrow> string"

definition browse_page :: "environment \<Rightarrow> session \<Rightarrow> web_reply \<times> session" where
  "browse_page env ss =
     (let (ctx, ss1) = page_ctx env ss in
      (Page 200 ''browse_app.html''
         (ctx(''title'' \<mapsto> titled ''Browse'' ''MosaicFS'', ''initial_path'' \<mapsto> JStr ''/'')), ss1))"

section \<open>Sizes\<close>

text \<open>
  The conversion of a 64-bit integer to a double: 53 significant bits, rounded to the nearest,
  to the even one of two. Divisions by 1024 are exact afterwards.
\<close>

definition f64_of_u64 :: "nat \<Rightarrow> nat" where
  "f64_of_u64 n =
     (let e = floorlog 2 n - 53; q = n div 2 ^ e; r = n mod 2 ^ e in
      (if 2 ^ e < 2 * r \<or> 2 * r = 2 ^ e \<and> odd q then q + 1 else q) * 2 ^ e)"

definition ceil_div :: "nat \<Rightarrow> nat \<Rightarrow> nat" where
  "ceil_div n d = (n + d - 1) div d"

fun fmt_loop :: "nat \<Rightarrow> nat \<Rightarrow> char list \<Rightarrow> string" where
  "fmt_loop v d [] = []"
| "fmt_loop v d [u] = unit_text (ceil_div v d) u"
| "fmt_loop v d (u # w # us) =
     (if ceil_div v d \<le> 999 then unit_text (ceil_div v d) u else fmt_loop v (d * 1024) (w # us))"

definition fmt_size :: "nat \<Rightarrow> string" where
  "fmt_size bytes =
     (if bytes = 0 then ''0'' else if bytes < 1024 then ''1K''
      else fmt_loop (f64_of_u64 bytes) 1024 ''KMG'')"

text \<open>The template filter; a negative number is read as the unsigned one with the same bits.\<close>

definition tera_fmt_size :: "json \<Rightarrow> string option" where
  "tera_fmt_size v =
     (case as_u64 v of
        Some n \<Rightarrow> Some (fmt_size (unat n))
      | None \<Rightarrow> map_option (\<lambda>i. fmt_size (unat (of_int i :: u64))) (as_i64 v))"

text \<open>
  Below 2 to the 53 the conversion is exact, and the displayed number is the size in the unit,
  rounded up: the first unit of the three in which it has at most three digits, or the last one.
\<close>

lemma f64_exact: "n < 2 ^ 53 \<Longrightarrow> f64_of_u64 n = n"
proof -
  assume "n < 2 ^ 53"
  then have "floorlog 2 n \<le> 53" by (simp add: floorlog_le_iff)
  then show ?thesis by (simp add: f64_of_u64_def)
qed

lemma fmt_size_rounds_up:
  assumes "1024 \<le> n" "n < 2 ^ 53"
  shows "\<exists>u < 3. fmt_size n = unit_text (ceil_div n (1024 ^ Suc u)) (''KMG'' ! u) \<and>
    (u = 2 \<or> ceil_div n (1024 ^ Suc u) \<le> 999) \<and> (\<forall>w < u. 999 < ceil_div n (1024 ^ Suc w))"
proof -
  have eq: "fmt_size n = fmt_loop n 1024 ''KMG''"
    using assms by (simp add: fmt_size_def f64_exact)
  consider "ceil_div n 1024 \<le> 999" | "999 < ceil_div n 1024" "ceil_div n (1024 ^ 2) \<le> 999"
    | "999 < ceil_div n 1024" "999 < ceil_div n (1024 ^ 2)" by linarith
  then show ?thesis
  proof cases
    case 1
    then show ?thesis by (intro exI [of _ 0]) (simp add: eq)
  next
    case 2
    then show ?thesis
      by (intro exI [of _ 1]) (simp add: eq numeral_2_eq_2 less_Suc_eq)
  next
    case 3
    then show ?thesis
      by (intro exI [of _ 2]) (simp add: eq numeral_2_eq_2 less_Suc_eq)
  qed
qed

lemma ceil_div_bounds:
  assumes "0 < d"
  shows "n \<le> ceil_div n d * d" "ceil_div n d * d < n + d"
proof -
  have "(n + d - 1) div d * d + (n + d - 1) mod d = n + d - 1" by (rule div_mult_mod_eq)
  moreover have "(n + d - 1) mod d < d" using assms by simp
  ultimately show "n \<le> ceil_div n d * d" "ceil_div n d * d < n + d"
    using assms unfolding ceil_div_def by linarith+
qed

section \<open>Rows\<close>

definition dash_text :: string where
  "dash_text = [CHR 0xE2, CHR 0x80, CHR 0x94]"

definition is_subdir :: "string \<Rightarrow> json \<Rightarrow> bool" where
  "is_subdir path d \<longleftrightarrow>
     jget_str ''type'' d = Some ''virtual_directory'' \<and> jget_str ''parent_path'' d = Some path"

definition fetch_subdirs :: "'s couch \<Rightarrow> string \<Rightarrow> 's \<Rightarrow> json list \<times> 's" where
  "fetch_subdirs db path s =
     (let (rows, s1) = docs_or_none db ''dir::'' s in
      (map (\<lambda>d. JObj [(''virtual_path'', JStr (text_field ''virtual_path'' [] d)), (''name'', JStr (text_field ''name'' [] d))])
         (filter (is_subdir path) (row_docs rows)), s1))"

definition listed_entry :: "libs \<Rightarrow> readdir_entry \<Rightarrow> json" where
  "listed_entry lb e =
     JObj [(''file_id'', JStr (re_file_id e)), (''name'', JStr (re_name e)), (''size'', enc_u64 (re_size e)),
       (''mtime'', JStr (rfc3339 lb (re_mtime e))), (''source_node_id'', JStr (re_source_node_id e)),
       (''source_export_path'', JStr (re_source_export_path e))]"

text \<open>Errors of the reads after the first count as nothing found.\<close>

definition fetch_files ::
  "libs \<Rightarrow> time \<Rightarrow> 's couch \<Rightarrow> server_caches \<Rightarrow> string \<Rightarrow> 's \<Rightarrow> json list \<times> 's" where
  "fetch_files lb now db caches path s =
     (case db_get db (vfs_dir_id lb path) s of
        (Inl _, s1) \<Rightarrow> ([], s1)
      | (Inr dir_doc, s1) \<Rightarrow>
          (let (rows, s2) = docs_or_none db ''dir::'' s1;
               subdirs = List.map_filter (jget_str ''name'') (filter (is_subdir path) (row_docs rows));
               mounts = parse_step_based_mounts (unwrap_or (jget ''mounts'' dir_doc) (JArr []));
               (inherited, s3) = collect_inherited_steps lb db path s2;
               steps = (case inherited of Inr ss \<Rightarrow> ss | Inl _ \<Rightarrow> []) @ directory_steps dir_doc;
               (r, s4) = server_readdir lb now db (sc_labels caches) (sc_accesses caches) mounts steps subdirs s3
           in (case r of Inr entries \<Rightarrow> map (listed_entry lb) entries | Inl _ \<Rightarrow> [], s4)))"

definition dir_item :: "json \<Rightarrow> json" where
  "dir_item d =
     JObj [(''type'', JStr ''dir''), (''name'', JStr (text_field ''name'' [] d)),
       (''virtual_path'', JStr (text_field ''virtual_path'' [] d)), (''size'', enc_u64 0),
       (''size_display'', JStr dash_text), (''mtime'', JStr []), (''date_display'', JStr [])]"

definition size_of_row :: "json \<Rightarrow> u64" where
  "size_of_row d = unwrap_or (Option.bind (jget ''size'' d) as_u64) 0"

definition file_virtual_path :: "string \<Rightarrow> json \<Rightarrow> string" where
  "file_virtual_path path f = trim_end (CHR ''/'') path @ ''/'' @ text_field ''name'' [] f"

definition file_item :: "libs \<Rightarrow> browse_libs \<Rightarrow> string \<Rightarrow> json \<Rightarrow> json" where
  "file_item lb bl path f =
     JObj [(''type'', JStr ''file''), (''name'', JStr (text_field ''name'' [] f)),
       (''file_id'', JStr (text_field ''file_id'' [] f)), (''virtual_path'', JStr (file_virtual_path path f)),
       (''size'', enc_u64 (size_of_row f)), (''size_display'', JStr (fmt_size (unat (size_of_row f)))),
       (''mtime'', JStr (text_field ''mtime'' [] f)),
       (''date_display'', JStr (case parse_time lb (text_field ''mtime'' [] f) of
           Some t \<Rightarrow> bl_local_date bl t | None \<Rightarrow> []))]"

definition name_contains :: "browse_libs \<Rightarrow> string \<Rightarrow> json \<Rightarrow> bool" where
  "name_contains bl q d \<longleftrightarrow> q = [] \<or> contains_str (bl_lower bl q) (bl_lower bl (text_field ''name'' [] d))"

definition is_dir_item :: "json \<Rightarrow> bool" where
  "is_dir_item r \<longleftrightarrow> jget_str ''type'' r = Some ''dir''"

fun reverse_ordering :: "ordering \<Rightarrow> ordering" where
  "reverse_ordering Less = Greater"
| "reverse_ordering Equal = Equal"
| "reverse_ordering Greater = Less"

definition compare_items :: "browse_libs \<Rightarrow> string \<Rightarrow> json \<Rightarrow> json \<Rightarrow> ordering" where
  "compare_items bl criterion a b =
     (if criterion = ''size'' then cmp_of (unat (size_of_row a)) (unat (size_of_row b))
      else if criterion = ''mtime'' then cmp_of (text_field ''mtime'' [] a) (text_field ''mtime'' [] b)
      else cmp_of (bl_lower bl (text_field ''name'' [] a)) (bl_lower bl (text_field ''name'' [] b)))"

definition compare_rows :: "browse_libs \<Rightarrow> string \<Rightarrow> string \<Rightarrow> json \<Rightarrow> json \<Rightarrow> ordering" where
  "compare_rows bl criterion direction a b =
     (if is_dir_item a \<and> \<not> is_dir_item b then Less
      else if \<not> is_dir_item a \<and> is_dir_item b then Greater
      else let c = compare_items bl criterion a b in if direction = ''desc'' then reverse_ordering c else c)"

definition sort_rows :: "browse_libs \<Rightarrow> string \<Rightarrow> string \<Rightarrow> json list \<Rightarrow> json list" where
  "sort_rows bl criterion direction rows = sort_by (compare_rows bl criterion direction) rows"

text \<open>The rows of a directory before they are cut into pages, and the number of its directories.\<close>

definition browse_rows ::
  "libs \<Rightarrow> browse_libs \<Rightarrow> time \<Rightarrow> 's couch \<Rightarrow> server_caches \<Rightarrow> string \<Rightarrow> string \<Rightarrow> string \<Rightarrow> string \<Rightarrow> 's \<Rightarrow>
     (json list \<times> nat) \<times> 's" where
  "browse_rows lb bl now db caches path q criterion direction s =
     (let (subdirs, s1) = fetch_subdirs db path s;
          (files, s2) = fetch_files lb now db caches path s1
      in ((sort_rows bl criterion direction
             (map dir_item (filter (name_contains bl q) subdirs) @
              map (file_item lb bl path) (filter (name_contains bl q) files)), length subdirs), s2))"

record list_query =
  lq_path :: "string option"
  lq_q :: "string option"
  lq_sort :: "string option"
  lq_order :: "string option"
  lq_offset :: "nat option"

definition count_usize :: "nat \<Rightarrow> json" where
  "count_usize n = enc_u64 (of_nat n)"

text \<open>The sum with the offset wraps, as in a build without overflow checks.\<close>

definition browse_list ::
  "libs \<Rightarrow> browse_libs \<Rightarrow> time \<Rightarrow> 's couch \<Rightarrow> server_caches \<Rightarrow> list_query \<Rightarrow> 's \<Rightarrow> web_reply \<times> 's" where
  "browse_list lb bl now db caches query s =
     (let path = unwrap_or (lq_path query) ''/''; q = unwrap_or (lq_q query) [];
          criterion = unwrap_or (lq_sort query) ''name''; direction = unwrap_or (lq_order query) ''asc'';
          offset = unwrap_or (lq_offset query) 0; next_offset = (offset + PAGE_SIZE) mod 2 ^ 64;
          ((rows, dir_count), s1) = browse_rows lb bl now db caches path q criterion direction s
      in (Page 200 ''browse_list.html''
            [''path'' \<mapsto> JStr path, ''rows'' \<mapsto> JArr (take PAGE_SIZE (drop offset rows)),
             ''dir_count'' \<mapsto> count_usize dir_count, ''offset'' \<mapsto> count_usize offset,
             ''next_offset'' \<mapsto> count_usize next_offset, ''has_more'' \<mapsto> JBool (next_offset < length rows),
             ''sort'' \<mapsto> JStr criterion, ''order'' \<mapsto> JStr direction, ''q'' \<mapsto> JStr q,
             ''total_after_filter'' \<mapsto> count_usize (length rows)], s1))"

definition navigate ::
  "libs \<Rightarrow> browse_libs \<Rightarrow> time \<Rightarrow> 's couch \<Rightarrow> server_caches \<Rightarrow> string option \<Rightarrow> 's \<Rightarrow> web_reply \<times> 's" where
  "navigate lb bl now db caches query s =
     (let path = unwrap_or query ''/'';
          ((rows, dir_count), s1) = browse_rows lb bl now db caches path [] ''name'' ''asc'' s
      in (Page 200 ''browse_list.html''
            [''path'' \<mapsto> JStr path, ''rows'' \<mapsto> JArr rows, ''dir_count'' \<mapsto> count_usize dir_count,
             ''offset'' \<mapsto> count_usize 0, ''next_offset'' \<mapsto> count_usize PAGE_SIZE, ''has_more'' \<mapsto> JBool False,
             ''sort'' \<mapsto> JStr ''name'', ''order'' \<mapsto> JStr ''asc'', ''q'' \<mapsto> JStr [],
             ''total_after_filter'' \<mapsto> count_usize (length rows)], s1))"

section \<open>Opening a file\<close>

text \<open>
  The file name and the parent of a virtual path. The outer \<open>None\<close> is the panic of a slice that ends
  before the start of the path, the inner one that there is no such file.
\<close>

definition split_virtual_path :: "string \<Rightarrow> (string \<times> string) option option" where
  "split_virtual_path virtual_path =
     (let path = trim_end (CHR ''/'') virtual_path in
      if path = [] then Some None
      else
        (let filename = (case rsplit_once (CHR ''/'') path of Some (_, b) \<Rightarrow> b | None \<Rightarrow> path) in
         if path = ''/'' @ filename then Some (Some (''/'', filename))
         else if length path < length filename + 1 then None
         else
           (let parent = take (length path - length filename - 1) path in
            Some (if parent = [] then None else Some (parent, filename)))))"

definition entry_of_file :: "libs \<Rightarrow> time \<Rightarrow> string \<Rightarrow> string \<Rightarrow> json \<Rightarrow> readdir_entry option" where
  "entry_of_file lb now filename file_id file_doc =
     (case (Option.bind (jget ''source'' file_doc) (jget_str ''node_id''),
            Option.bind (jget ''source'' file_doc) (jget_str ''export_path'')) of
        (Some node_id, Some export_path) \<Rightarrow>
          Some \<lparr>re_name = filename, re_file_id = file_id,
            re_inode = unwrap_or (Option.bind (jget ''inode'' file_doc) as_u64) 0,
            re_size = size_of_row file_doc,
            re_mtime = unwrap_or (parse_time lb (text_field ''mtime'' [] file_doc)) now,
            re_mime_type = jget_str ''mime_type'' file_doc, re_source_node_id = node_id,
            re_source_export_path = export_path, re_mount_id = []\<rparr>
      | _ \<Rightarrow> None)"

definition lookup_entry_by_virtual_path ::
  "libs \<Rightarrow> time \<Rightarrow> 's couch \<Rightarrow> server_caches \<Rightarrow> string \<Rightarrow> 's \<Rightarrow> readdir_entry option option \<times> 's" where
  "lookup_entry_by_virtual_path lb now db caches virtual_path s =
     (case split_virtual_path virtual_path of
        None \<Rightarrow> (None, s)
      | Some None \<Rightarrow> (Some None, s)
      | Some (Some (parent, filename)) \<Rightarrow>
          (let (files, s1) = fetch_files lb now db caches parent s in
           case Option.bind (List.find (\<lambda>f. jget_str ''name'' f = Some filename) files) (jget_str ''file_id'') of
             None \<Rightarrow> (Some None, s1)
           | Some file_id \<Rightarrow>
               (case db_get db file_id s1 of
                  (Inl _, s2) \<Rightarrow> (Some None, s2)
                | (Inr file_doc, s2) \<Rightarrow> (Some (entry_of_file lb now filename file_id file_doc), s2))))"

fun open_error_text :: "open_error \<Rightarrow> string" where
  "open_error_text (FileNotFound i) = ''File '' @ quoted i @ '' not found.''"
| "open_error_text NoNodeId = ''Cannot open remote file: this server'' @ [CHR 39] @ ''s node ID is not configured.''"
| "open_error_text NodeNotRegistered = ''Cannot open remote file: this node is not registered in the database.''"
| "open_error_text (NoHostMount n) = ''No local mount found for node '' @ quoted n @ ''.''"

definition coded :: "string \<Rightarrow> string \<Rightarrow> (string \<times> json) list \<Rightarrow> json" where
  "coded code message rest = JObj ([(''code'', JStr code), (''message'', JStr message)] @ rest)"

definition open_error_response :: "open_error \<Rightarrow> web_reply" where
  "open_error_response e =
     (case e of
        FileNotFound i \<Rightarrow> JsonReply 404 (coded ''not_found'' (open_error_text e) [(''file_id'', JStr i)])
      | NoNodeId \<Rightarrow> JsonReply 500 (coded ''no_node_id'' (open_error_text e) [])
      | NodeNotRegistered \<Rightarrow> JsonReply 500 (coded ''node_not_registered'' (open_error_text e) [])
      | NoHostMount n \<Rightarrow> JsonReply 409 (coded ''no_host_mount'' (open_error_text e) [(''node_id'', JStr n)]))"

definition target_json :: "open_target \<Rightarrow> json" where
  "target_json t =
     JObj [(''node_id'', JStr (ot_node_id t)), (''local_mount_path'', JStr (ot_local_mount_path t)),
       (''relative_path'', JStr (ot_relative_path t))]"

definition browse_open ::
  "libs \<Rightarrow> time \<Rightarrow> 's couch \<Rightarrow> server_caches \<Rightarrow> string option \<Rightarrow> string \<Rightarrow> 's \<Rightarrow> web_reply \<times> 's" where
  "browse_open lb now db caches this_node_id path s =
     (case lookup_entry_by_virtual_path lb now db caches path s of
        (None, s1) \<Rightarrow> (WebPanicked, s1)
      | (Some None, s1) \<Rightarrow> (JsonReply 404 (coded ''not_found'' ''virtual path does not exist'' []), s1)
      | (Some (Some e), s1) \<Rightarrow>
          (case open_file_by_id db this_node_id (re_file_id e) s1 of
             (Inr target, s2) \<Rightarrow> (JsonReply 200 (target_json target), s2)
           | (Inl err, s2) \<Rightarrow> (open_error_response err, s2)))"

section \<open>Pages\<close>

text \<open>The order of the rows is a total preorder, so that the sort by it is one.\<close>

lemma reverse_Greater: "reverse_ordering c = Greater \<longleftrightarrow> c = Less"
  by (cases c) simp_all

lemma orders_cmp_of: "orders (\<lambda>a b. cmp_of (f a) (f b))"
  unfolding orders_def cmp_of_iff by auto

lemma orders_reversed: "orders (\<lambda>a b. reverse_ordering (cmp_of (f a) (f b)))"
  unfolding orders_def reverse_Greater cmp_of_iff by auto

lemma orders_compare_items:
  "orders (\<lambda>a b. if direction = ''desc'' then reverse_ordering (compare_items bl criterion a b)
                 else compare_items bl criterion a b)"
  unfolding compare_items_def
  by (cases "direction = ''desc''"; cases "criterion = ''size''"; cases "criterion = ''mtime''";
      simp only: if_True if_False refl; rule orders_cmp_of orders_reversed)

lemma orders_first:
  assumes "orders c"
  shows "orders (\<lambda>a b. if P a \<and> \<not> P b then Less else if \<not> P a \<and> P b then Greater else c a b)"
proof -
  let ?c = "\<lambda>a b. if P a \<and> \<not> P b then Less else if \<not> P a \<and> P b then Greater else c a b"
  have asym: "c y x \<noteq> Greater" if "c x y = Greater" for x y
    using assms that unfolding orders_def by blast
  have trans: "c x z \<noteq> Greater" if "c x y \<noteq> Greater" "c y z \<noteq> Greater" for x y z
    using assms that unfolding orders_def by blast
  have 1: "?c y x \<noteq> Greater" if "?c x y = Greater" for x y
    using that asym [of x y] by (cases "P x"; cases "P y"; simp)
  have 2: "?c x z \<noteq> Greater" if "?c x y \<noteq> Greater" "?c y z \<noteq> Greater" for x y z
    using that trans [of x y z] by (cases "P x"; cases "P y"; cases "P z"; simp)
  show ?thesis
    unfolding orders_def by (intro conjI allI impI) (erule 1, erule (1) 2)
qed

lemma orders_compare_rows: "orders (compare_rows bl criterion direction)"
  using orders_first [OF orders_compare_items, of is_dir_item direction bl criterion]
  unfolding compare_rows_def [abs_def] Let_def .

lemma sort_rows_sorted:
  "sorted_wrt (\<lambda>a b. compare_rows bl criterion direction a b \<noteq> Greater) (sort_rows bl criterion direction rows)"
  unfolding sort_rows_def by (rule sorted_sort_by [OF orders_compare_rows])

lemma dirs_first:
  "sorted_wrt (\<lambda>a b. is_dir_item b \<longrightarrow> is_dir_item a) (sort_rows bl criterion direction rows)"
  by (rule sorted_wrt_mono_rel [OF _ sort_rows_sorted]) (fastforce simp: compare_rows_def split: if_splits)

text \<open>Equal rows keep the order in which the listing had them.\<close>

lemma sort_rows_stable:
  "filter (\<lambda>r. is_dir_item r = d \<and> bl_lower bl (text_field ''name'' [] r) = n)
     (sort_rows bl ''name'' direction rows) =
   filter (\<lambda>r. is_dir_item r = d \<and> bl_lower bl (text_field ''name'' [] r) = n) rows"
  unfolding sort_rows_def
  by (rule filter_sort_by) (auto simp: compare_rows_def compare_items_def cmp_of_def)

text \<open>What a page shows.\<close>

fun page_rows :: "web_reply \<Rightarrow> json list" where
  "page_rows (Page _ _ ctx) = (case ctx ''rows'' of Some (JArr rs) \<Rightarrow> rs | _ \<Rightarrow> [])"
| "page_rows _ = []"

fun more_pages :: "web_reply \<Rightarrow> bool" where
  "more_pages (Page _ _ ctx) = (ctx ''has_more'' = Some (JBool True))"
| "more_pages _ = False"

definition page_query :: "string \<Rightarrow> string \<Rightarrow> string \<Rightarrow> string \<Rightarrow> nat \<Rightarrow> list_query" where
  "page_query path q criterion direction i =
     \<lparr>lq_path = Some path, lq_q = Some q, lq_sort = Some criterion, lq_order = Some direction,
      lq_offset = Some (i * PAGE_SIZE)\<rparr>"

lemma concat_pages: "concat (map (\<lambda>i. take n (drop (i * n) xs)) [0..<k]) = take (k * n) xs"
proof (induction k)
  case (Suc k)
  have "take (k * n) xs @ take n (drop (k * n) xs) = take (k * n + n) xs"
    by (simp add: take_add)
  with Suc show ?case by (simp add: add.commute)
qed simp

lemma page_of_rows:
  assumes "browse_rows lb bl now db caches path q criterion direction s = ((rows, dirs), s1)"
  shows "page_rows (fst (browse_list lb bl now db caches (page_query path q criterion direction i) s)) =
           take PAGE_SIZE (drop (i * PAGE_SIZE) rows)"
    and "(i + 1) * PAGE_SIZE < 2 ^ 64 \<Longrightarrow>
         more_pages (fst (browse_list lb bl now db caches (page_query path q criterion direction i) s)) \<longleftrightarrow>
           (i + 1) * PAGE_SIZE < length rows"
proof -
  show "page_rows (fst (browse_list lb bl now db caches (page_query path q criterion direction i) s)) =
           take PAGE_SIZE (drop (i * PAGE_SIZE) rows)"
    by (simp add: browse_list_def page_query_def assms Let_def)
  assume "(i + 1) * PAGE_SIZE < 2 ^ 64"
  then have "(i * PAGE_SIZE + PAGE_SIZE) mod 2 ^ 64 = (i + 1) * PAGE_SIZE"
    by (metis Suc_eq_plus1 add.commute mod_less mult_Suc)
  then show "more_pages (fst (browse_list lb bl now db caches (page_query path q criterion direction i) s)) \<longleftrightarrow>
           (i + 1) * PAGE_SIZE < length rows"
    by (simp add: browse_list_def page_query_def assms Let_def)
qed

lemma browse_rows_content:
  assumes "browse_rows lb bl now db caches path q criterion direction s = ((rows, dirs), s1)"
  shows "\<exists>unsorted. rows = sort_rows bl criterion direction unsorted \<and>
    unsorted = map dir_item (filter (name_contains bl q) (fst (fetch_subdirs db path s))) @
      map (file_item lb bl path)
        (filter (name_contains bl q) (fst (fetch_files lb now db caches path (snd (fetch_subdirs db path s)))))"
  using assms by (auto simp: browse_rows_def split: prod.splits)

text \<open>A root directory with one mount, a directory and a file, for the examples.\<close>

definition sample_shown :: store where
  "sample_shown =
     [(''dir::root'', JObj [(''_id'', JStr ''dir::root''), (''type'', JStr ''virtual_directory''),
         (''mounts'', JArr [JObj [(''node'', JStr ''n''), (''path'', JStr ''/d'')]])]),
      (''dir::b'', JObj [(''_id'', JStr ''dir::b''), (''type'', JStr ''virtual_directory''),
         (''name'', JStr ''b''), (''virtual_path'', JStr ''/b''), (''parent_path'', JStr ''/'')]),
      (''file::a'', JObj [(''_id'', JStr ''file::a''), (''type'', JStr ''file''), (''inode'', enc_u64 7),
         (''name'', JStr ''a''), (''source'', JObj [(''node_id'', JStr ''n''), (''export_path'', JStr ''/d/a''),
           (''export_parent'', JStr ''/d'')]), (''size'', enc_u64 4), (''mtime'', JStr ''ppp''),
         (''status'', JStr ''active'')])]"

definition sample_browse :: browse_libs where
  "sample_browse = \<lparr>bl_lower = id, bl_local_date = sample_print_time\<rparr>"

definition sample_row :: json where
  "sample_row = JObj [(''file_id'', JStr ''file::a''), (''name'', JStr ''a''), (''size'', enc_u64 4),
     (''mtime'', JStr ''ppp''), (''source_node_id'', JStr ''n''), (''source_export_path'', JStr ''/d/a'')]"

lemma sample_fetched:
  "fetch_files sample_libs 5 sample_couch no_caches ''/'' sample_shown = ([sample_row], sample_shown)"
  by code_simp

lemma sample_rows:
  "fst (fst (browse_rows sample_libs sample_browse 5 sample_couch no_caches ''/'' [] ''size'' ''desc'' sample_shown)) =
     [dir_item (JObj [(''virtual_path'', JStr ''/b''), (''name'', JStr ''b'')]),
      file_item sample_libs sample_browse ''/'' sample_row]"
  by code_simp

text \<open>
  C32: Following the pages of a listing shows every matching row exactly once and in order: the pages
  at the offsets 0, 50, and so on, put together, are a prefix of one list of rows, which is the
  matching directories and files of the path (none lost or shown twice), sorted by the chosen column and
  direction with the directories first; a page announces more exactly when a row is left after it,
  so that the pages up to the first that announces none are the whole list. The offsets stay
  below the word size.
\<close>
theorem browse_pages:
  assumes fits: "k * PAGE_SIZE < 2 ^ 64"
    and rows: "browse_rows lb bl now db caches path q criterion direction s = ((rows, dirs), s1)"
    and pages: "pages = (\<lambda>i. fst (browse_list lb bl now db caches (page_query path q criterion direction i) s))"
  shows "concat (map (\<lambda>i. page_rows (pages i)) [0..<k]) = take (k * PAGE_SIZE) rows \<and>
    (\<forall>i < k. more_pages (pages i) \<longleftrightarrow> (i + 1) * PAGE_SIZE < length rows) \<and>
    (0 < k \<and> \<not> more_pages (pages (k - 1)) \<longrightarrow> concat (map (\<lambda>i. page_rows (pages i)) [0..<k]) = rows) \<and>
    mset rows =
      mset (map dir_item (filter (name_contains bl q) (fst (fetch_subdirs db path s)))) +
      mset (map (file_item lb bl path)
        (filter (name_contains bl q) (fst (fetch_files lb now db caches path (snd (fetch_subdirs db path s)))))) \<and>
    sorted_wrt (\<lambda>a b. compare_rows bl criterion direction a b \<noteq> Greater) rows \<and>
    sorted_wrt (\<lambda>a b. is_dir_item b \<longrightarrow> is_dir_item a) rows"
proof (intro conjI)
  show all: "concat (map (\<lambda>i. page_rows (pages i)) [0..<k]) = take (k * PAGE_SIZE) rows"
    unfolding pages page_of_rows(1) [OF rows] by (rule concat_pages)
  have more: "more_pages (pages i) \<longleftrightarrow> (i + 1) * PAGE_SIZE < length rows" if "i < k" for i
  proof -
    have "(i + 1) * PAGE_SIZE \<le> k * PAGE_SIZE" using that by (intro mult_right_mono) simp_all
    then show ?thesis
      unfolding pages using fits by (intro page_of_rows(2) [OF rows]) linarith
  qed
  then show "\<forall>i < k. more_pages (pages i) \<longleftrightarrow> (i + 1) * PAGE_SIZE < length rows" by blast
  show "0 < k \<and> \<not> more_pages (pages (k - 1)) \<longrightarrow> concat (map (\<lambda>i. page_rows (pages i)) [0..<k]) = rows"
    unfolding all using more [of "k - 1"] by (cases k) simp_all
  obtain unsorted where un: "rows = sort_rows bl criterion direction unsorted"
    "unsorted = map dir_item (filter (name_contains bl q) (fst (fetch_subdirs db path s))) @
      map (file_item lb bl path)
        (filter (name_contains bl q) (fst (fetch_files lb now db caches path (snd (fetch_subdirs db path s)))))"
    using browse_rows_content [OF rows] by blast
  show "mset rows =
      mset (map dir_item (filter (name_contains bl q) (fst (fetch_subdirs db path s)))) +
      mset (map (file_item lb bl path)
        (filter (name_contains bl q) (fst (fetch_files lb now db caches path (snd (fetch_subdirs db path s))))))"
    unfolding un(1) un(2) sort_rows_def by simp
  show "sorted_wrt (\<lambda>a b. compare_rows bl criterion direction a b \<noteq> Greater) rows"
    unfolding un(1) by (rule sort_rows_sorted)
  show "sorted_wrt (\<lambda>a b. is_dir_item b \<longrightarrow> is_dir_item a) rows"
    unfolding un(1) by (rule dirs_first)
qed

theorem browse_pages_witness:
  "concat (map (\<lambda>i. page_rows (fst (browse_list sample_libs sample_browse 5 sample_couch no_caches
       (page_query ''/'' [] ''size'' ''desc'' i) sample_shown))) [0..<1]) =
     [dir_item (JObj [(''virtual_path'', JStr ''/b''), (''name'', JStr ''b'')]),
      file_item sample_libs sample_browse ''/'' sample_row]"
proof -
  obtain dirs s1 where "browse_rows sample_libs sample_browse 5 sample_couch no_caches ''/'' [] ''size'' ''desc'' sample_shown =
      ((fst (fst (browse_rows sample_libs sample_browse 5 sample_couch no_caches ''/'' [] ''size'' ''desc'' sample_shown)),
        dirs), s1)"
    by (metis surj_pair fst_conv)
  from browse_pages [OF _ this refl, of 1]
  have "concat (map (\<lambda>i. page_rows (fst (browse_list sample_libs sample_browse 5 sample_couch no_caches
       (page_query ''/'' [] ''size'' ''desc'' i) sample_shown))) [0..<1]) =
     take (1 * PAGE_SIZE) (fst (fst (browse_rows sample_libs sample_browse 5 sample_couch no_caches ''/'' []
       ''size'' ''desc'' sample_shown)))"
    by (simp add: PAGE_SIZE_def)
  then show ?thesis unfolding sample_rows by (simp add: PAGE_SIZE_def)
qed

section \<open>Opening what the listing shows\<close>

lemma trim_end_keeps: "s = [] \<or> last s \<noteq> c \<Longrightarrow> trim_end c s = s"
  by (cases s rule: rev_cases) (auto simp: trim_end_def)

lemma split_file_virtual_path:
  assumes path: "path = ''/'' \<or> path \<noteq> [] \<and> last path \<noteq> CHR ''/''"
    and name: "name \<noteq> []" "CHR ''/'' \<notin> set name" "text_field ''name'' [] f = name"
  shows "split_virtual_path (file_virtual_path path f) = Some (Some (path, name))"
proof -
  have slash: "last name \<noteq> CHR ''/''" using name by (metis last_in_set)
  then have trimmed: "trim_end (CHR ''/'') (pre @ ''/'' @ name) = pre @ ''/'' @ name" for pre
    using name by (intro trim_end_keeps) simp
  have parts: "rsplit_once (CHR ''/'') (pre @ ''/'' @ name) = Some (pre, name)" for pre
    using name by (simp add: rsplit_once_Some)
  show ?thesis
  proof (cases "path = ''/''")
    case True
    then have "file_virtual_path path f = [] @ ''/'' @ name"
      by (simp add: file_virtual_path_def name trim_end_def)
    then show ?thesis
      unfolding split_virtual_path_def Let_def using trimmed [of "[]"] parts [of "[]"] True by simp
  next
    case False
    with path have p: "path \<noteq> []" "last path \<noteq> CHR ''/''" by simp_all
    then have eq: "file_virtual_path path f = path @ ''/'' @ name"
      by (simp add: file_virtual_path_def name trim_end_keeps)
    show ?thesis
      unfolding split_virtual_path_def Let_def eq trimmed parts using p by simp
  qed
qed

lemma fetched_entries:
  assumes "fetch_files lb now db caches path s = (files, s1)" "f \<in> set files"
  shows "\<exists>e. f = listed_entry lb e"
  using assms by (auto simp: fetch_files_def Let_def split: sum.splits prod.splits)

lemma listed_entry_fields [simp]:
  "jget_str ''file_id'' (listed_entry lb e) = Some (re_file_id e)"
  "jget_str ''name'' (listed_entry lb e) = Some (re_name e)"
  by (simp_all add: listed_entry_def jget_str_def)

lemma file_item_fields:
  "text_field ''virtual_path'' [] (file_item lb bl path f) = file_virtual_path path f"
  "text_field ''file_id'' [] (file_item lb bl path f) = text_field ''file_id'' [] f"
  by (simp_all add: file_item_def text_field_def jget_str_def)

text \<open>
  A posted path without a slash ends before its start: the slice underflows and the request
  panics. A path that starts with a slash never does.
\<close>

lemma open_without_slash_panics:
  assumes "virtual_path \<noteq> []" "CHR ''/'' \<notin> set virtual_path"
  shows "browse_open lb now db caches this_node_id virtual_path s = (WebPanicked, s)"
proof -
  have "trim_end (CHR ''/'') virtual_path = virtual_path"
    using assms by (intro trim_end_keeps) (metis last_in_set)
  moreover have "rsplit_once (CHR ''/'') virtual_path = None"
    using assms by (simp add: rsplit_once_None)
  moreover have "virtual_path \<noteq> ''/'' @ virtual_path" by (metis append_self_conv2 list.distinct(1))
  ultimately have "split_virtual_path virtual_path = None"
    using assms by (simp add: split_virtual_path_def)
  then show ?thesis by (simp add: browse_open_def lookup_entry_by_virtual_path_def)
qed

lemma split_with_slash:
  assumes "virtual_path = ''/'' @ rest"
  shows "split_virtual_path virtual_path \<noteq> None"
proof (cases "trim_end (CHR ''/'') virtual_path = []")
  case True
  then show ?thesis by (simp add: split_virtual_path_def)
next
  case False
  obtain a b where ab: "trim_end (CHR ''/'') virtual_path = a @ CHR ''/'' # b" "CHR ''/'' \<notin> set b"
  proof -
    have "CHR ''/'' \<in> set (trim_end (CHR ''/'') virtual_path)"
    proof -
      have "virtual_path = trim_end (CHR ''/'') virtual_path @ rev (takeWhile (\<lambda>x. x = CHR ''/'') (rev virtual_path))"
        unfolding trim_end_def by (metis rev_append rev_rev_ident takeWhile_dropWhile_id)
      then have "hd (trim_end (CHR ''/'') virtual_path) = CHR ''/''"
        using False assms by (metis append_Cons hd_append2 list.sel(1))
      then show ?thesis using False by (metis list.set_sel(1))
    qed
    then show ?thesis using that split_list_last [of "CHR ''/''"] by metis
  qed
  then have "rsplit_once (CHR ''/'') (trim_end (CHR ''/'') virtual_path) = Some (a, b)"
    by (simp add: rsplit_once_Some)
  then show ?thesis using ab by (simp add: split_virtual_path_def Let_def)
qed

text \<open>
  C33: A row opens the file it stands for: posting the virtual path of a file's row back to the server
  finds the file with the identifier the row carries, and the reply is that of opening this file: its
  node, mount and relative path, or the error. The directory is the root or a path that does not end
  in a slash, the name has no slash and no earlier row of the listing has it, and the file's document
  is in the database with its source.
\<close>
theorem listed_file_opens:
  assumes path: "path = ''/'' \<or> path \<noteq> [] \<and> last path \<noteq> CHR ''/''"
    and files: "fetch_files lb now db caches path s = (files, s1)"
    and first: "List.find (\<lambda>g. jget_str ''name'' g = Some name) files = Some f"
    and name: "name \<noteq> []" "CHR ''/'' \<notin> set name"
    and doc: "db_get db (text_field ''file_id'' [] f) s1 = (Inr file_doc, s2)"
    and source: "Option.bind (jget ''source'' file_doc) (jget_str ''node_id'') \<noteq> None"
      "Option.bind (jget ''source'' file_doc) (jget_str ''export_path'') \<noteq> None"
  shows "browse_open lb now db caches this_node_id
      (text_field ''virtual_path'' [] (file_item lb bl path f)) s =
    (case open_file_by_id db this_node_id (text_field ''file_id'' [] (file_item lb bl path f)) s2 of
       (Inr target, s3) \<Rightarrow> (JsonReply 200 (target_json target), s3)
     | (Inl err, s3) \<Rightarrow> (open_error_response err, s3))"
proof -
  have f: "f \<in> set files" "jget_str ''name'' f = Some name"
    using first by (auto simp: find_Some_iff in_set_conv_nth)
  then have fields: "text_field ''name'' [] f = name" by (simp add: text_field_def)
  obtain e where "f = listed_entry lb e" using fetched_entries [OF files f(1)] by blast
  then have id: "jget_str ''file_id'' f = Some (re_file_id e)" "text_field ''file_id'' [] f = re_file_id e"
    by (simp_all add: text_field_def)
  have "lookup_entry_by_virtual_path lb now db caches (file_virtual_path path f) s =
      (Some (entry_of_file lb now name (re_file_id e) file_doc), s2)"
    unfolding lookup_entry_by_virtual_path_def split_file_virtual_path [OF path name fields]
    using files first id doc by simp
  moreover obtain r where "entry_of_file lb now name (re_file_id e) file_doc = Some r" "re_file_id r = re_file_id e"
    using source by (auto simp: entry_of_file_def)
  ultimately show ?thesis
    unfolding browse_open_def file_item_fields by (simp add: id)
qed

theorem listed_file_opens_witness:
  "fst (browse_open sample_libs 5 sample_couch no_caches None ''/a'' sample_shown) =
     open_error_response NoNodeId"
proof -
  have item: "text_field ''virtual_path'' [] (file_item sample_libs sample_browse ''/'' sample_row) = ''/a''"
    "file_virtual_path ''/'' sample_row = ''/a''" "text_field ''file_id'' [] sample_row = ''file::a''"
    by code_simp+
  define d where "d = the (map_of sample_shown ''file::a'')"
  have d: "map_of sample_shown ''file::a'' = Some d"
    by (simp add: d_def sample_shown_def)
  have first: "List.find (\<lambda>g. jget_str ''name'' g = Some ''a'') [sample_row] = Some sample_row"
    by code_simp
  have source: "Option.bind (jget ''source'' d) (jget_str ''node_id'') \<noteq> None"
    "Option.bind (jget ''source'' d) (jget_str ''export_path'') \<noteq> None"
    by (simp_all add: d_def sample_shown_def jget_str_def)
  have "browse_open sample_libs 5 sample_couch no_caches None
      (text_field ''virtual_path'' [] (file_item sample_libs sample_browse ''/'' sample_row)) sample_shown =
    (case open_file_by_id sample_couch None (text_field ''file_id'' [] (file_item sample_libs sample_browse ''/'' sample_row))
       sample_shown of
       (Inr target, s3) \<Rightarrow> (JsonReply 200 (target_json target), s3)
     | (Inl err, s3) \<Rightarrow> (open_error_response err, s3))"
    by (rule listed_file_opens [OF _ sample_fetched first _ _ _ source]) (simp_all add: item d)
  moreover have "fst (open_file_by_id sample_couch None ''file::a'' sample_shown) = Inl NoNodeId"
    by code_simp
  ultimately show ?thesis
    unfolding item file_item_fields by (simp split: prod.splits sum.splits)
qed

end
