(* ===== verification/Routes.thy ===== *)
theory Routes
  imports Login_Api Web
begin

text \<open>
  The routing tables of \<open>build_router\<close> in \<open>routes.rs\<close> and of \<open>router\<close> in \<open>ui/mod.rs\<close>, with the guard
  each group is wrapped in, and the dispatch of a request: the pattern the path matches, the guard of
  its group, the handler of the method. A handler is its name; the redirects of \<open>/\<close> and \<open>/ui\<close>
  are \<open>to_ui\<close> and \<open>to_browse\<close>, and the \<open>logout\<close> of the web interface is \<open>web_logout\<close>. How the router picks among the
  patterns that fit is a parameter, with the law that it picks one that fits when there is one.
\<close>

section \<open>Patterns\<close>

datatype segment = Seg string | Param string | Wild string

text \<open>\<open>{x}\<close> stands for one part of the path, \<open>{*x}\<close> for all the parts left.\<close>

definition segment_of :: "string \<Rightarrow> segment" where
  "segment_of t =
     (if starts_with t ''{*'' then Wild (butlast (drop 2 t))
      else if starts_with t ''{'' then Param (butlast (drop 1 t)) else Seg t)"

definition route_pattern :: "string \<Rightarrow> segment list" where
  "route_pattern path = map segment_of (split_on (CHR ''/'') path)"

fun fits :: "segment list \<Rightarrow> string list \<Rightarrow> bool" where
  "fits [] xs \<longleftrightarrow> xs = []"
| "fits (Seg t # ps) xs \<longleftrightarrow> (case xs of x # xs' \<Rightarrow> x = t \<and> fits ps xs' | [] \<Rightarrow> False)"
| "fits (Param n # ps) xs \<longleftrightarrow> (case xs of x # xs' \<Rightarrow> x \<noteq> [] \<and> fits ps xs' | [] \<Rightarrow> False)"
| "fits (Wild n # ps) xs \<longleftrightarrow> ps = [] \<and> xs \<noteq> [] \<and> xs \<noteq> [[]]"

definition matcher_law :: "(segment list list \<Rightarrow> string \<Rightarrow> segment list option) \<Rightarrow> bool" where
  "matcher_law pick \<longleftrightarrow>
     (\<forall>ps path. (case pick ps path of
        Some p \<Rightarrow> p \<in> set ps \<and> fits p (split_on (CHR ''/'') path)
      | None \<Rightarrow> (\<forall>p \<in> set ps. \<not> fits p (split_on (CHR ''/'') path))))"

section \<open>The tables\<close>

datatype verb = AnyVerb | Verb string

text \<open>The handler of GET answers HEAD too.\<close>

fun answers :: "verb \<Rightarrow> string \<Rightarrow> bool" where
  "answers AnyVerb m = True"
| "answers (Verb v) m \<longleftrightarrow> m = v \<or> v = ''GET'' \<and> m = ''HEAD''"

datatype guard = NoGuard | TokenGuard | SignatureGuard | SessionGuard

record route =
  rt_pattern :: "segment list"
  rt_verb :: verb
  rt_handler :: string
  rt_guard :: guard

definition public_table :: "(string \<times> verb \<times> string) list" where
  "public_table =
     [(''/'', Verb ''GET'', ''to_ui''),
      (''/api/auth/login'', Verb ''POST'', ''login''),
      (''/api/system/bootstrap-status'', Verb ''GET'', ''bootstrap_status''),
      (''/api/system/bootstrap'', Verb ''POST'', ''bootstrap''),
      (''/api/system/restore'', Verb ''POST'', ''system::restore'')]"

definition jwt_table :: "(string \<times> verb \<times> string) list" where
  "jwt_table =
     [(''/db/{*path}'', AnyVerb, ''agent::db_proxy''),
      (''/api/auth/whoami'', Verb ''GET'', ''whoami''),
      (''/api/auth/logout'', Verb ''POST'', ''logout''),
      (''/api/credentials'', Verb ''GET'', ''list_credentials''),
      (''/api/credentials'', Verb ''POST'', ''create_credential''),
      (''/api/credentials/{key_id}'', Verb ''GET'', ''get_credential''),
      (''/api/credentials/{key_id}'', Verb ''PATCH'', ''update_credential''),
      (''/api/credentials/{key_id}'', Verb ''DELETE'', ''delete_credential''),
      (''/api/nodes'', Verb ''GET'', ''nodes::list_nodes''),
      (''/api/nodes'', Verb ''POST'', ''nodes::register_node''),
      (''/api/nodes/{node_id}'', Verb ''GET'', ''nodes::get_node''),
      (''/api/nodes/{node_id}'', Verb ''PATCH'', ''nodes::patch_node''),
      (''/api/nodes/{node_id}'', Verb ''DELETE'', ''nodes::delete_node''),
      (''/api/nodes/{node_id}/status'', Verb ''GET'', ''nodes::get_node_status''),
      (''/api/nodes/{node_id}/files'', Verb ''GET'', ''stub_501''),
      (''/api/nodes/{node_id}/storage'', Verb ''GET'', ''stub_501''),
      (''/api/nodes/{node_id}/utilization'', Verb ''GET'', ''stub_501''),
      (''/api/nodes/{node_id}/mounts'', Verb ''GET'', ''nodes::list_mounts''),
      (''/api/nodes/{node_id}/mounts'', Verb ''POST'', ''nodes::add_mount''),
      (''/api/nodes/{node_id}/mounts/{mount_id}'', Verb ''PATCH'', ''nodes::patch_mount''),
      (''/api/nodes/{node_id}/mounts/{mount_id}'', Verb ''DELETE'', ''nodes::delete_mount''),
      (''/api/files'', Verb ''GET'', ''files::list_files''),
      (''/api/files/by-path'', Verb ''GET'', ''files::get_file_by_path''),
      (''/api/files/{file_id}'', Verb ''GET'', ''files::get_file''),
      (''/api/files/{file_id}/content'', Verb ''GET'', ''files::get_file_content''),
      (''/api/files/{file_id}/access'', Verb ''GET'', ''files::get_file_access''),
      (''/api/vfs'', Verb ''GET'', ''vfs::list_vfs''),
      (''/api/vfs/tree'', Verb ''GET'', ''vfs::get_tree''),
      (''/api/vfs/directories'', Verb ''POST'', ''vfs::create_directory''),
      (''/api/vfs/directories/{*path}'', Verb ''GET'', ''vfs::get_directory''),
      (''/api/vfs/directories/{*path}'', Verb ''PATCH'', ''vfs::patch_directory''),
      (''/api/vfs/directories/{*path}'', Verb ''DELETE'', ''vfs::delete_directory''),
      (''/api/vfs/preview/{*path}'', Verb ''POST'', ''vfs::preview_directory''),
      (''/api/search'', Verb ''GET'', ''search::search''),
      (''/api/labels'', Verb ''GET'', ''labels::list_labels''),
      (''/api/labels/assignments'', Verb ''GET'', ''labels::list_assignments''),
      (''/api/labels/assignments'', Verb ''PUT'', ''labels::upsert_assignment''),
      (''/api/labels/assignments'', Verb ''DELETE'', ''labels::delete_assignment''),
      (''/api/labels/rules'', Verb ''GET'', ''labels::list_rules''),
      (''/api/labels/rules'', Verb ''POST'', ''labels::create_rule''),
      (''/api/labels/rules/{rule_id}'', Verb ''PATCH'', ''labels::patch_rule''),
      (''/api/labels/rules/{rule_id}'', Verb ''DELETE'', ''labels::delete_rule''),
      (''/api/labels/effective'', Verb ''GET'', ''labels::effective_labels''),
      (''/api/notifications'', Verb ''GET'', ''notifications::list_notifications''),
      (''/api/notifications/{id}/acknowledge'', Verb ''POST'', ''notifications::acknowledge_notification''),
      (''/api/notifications/acknowledge-all'', Verb ''POST'', ''notifications::acknowledge_all''),
      (''/api/notifications/history'', Verb ''GET'', ''notifications::notification_history''),
      (''/api/query'', Verb ''POST'', ''stub_501''),
      (''/api/health'', Verb ''GET'', ''system::health''),
      (''/api/system/info'', Verb ''GET'', ''system::system_info''),
      (''/api/system/backup'', Verb ''GET'', ''system::backup''),
      (''/api/system/backup/status'', Verb ''GET'', ''system::backup_status''),
      (''/api/system/data'', Verb ''DELETE'', ''system::delete_data''),
      (''/api/storage'', Verb ''GET'', ''stub_501'')]"

definition hmac_table :: "(string \<times> verb \<times> string) list" where
  "hmac_table =
     [(''/api/agent/heartbeat'', Verb ''POST'', ''agent::heartbeat''),
      (''/api/agent/files/bulk'', Verb ''POST'', ''agent::bulk_files''),
      (''/api/agent/status'', Verb ''POST'', ''agent::agent_status''),
      (''/api/agent/utilization'', Verb ''POST'', ''agent::agent_utilization''),
      (''/api/agent/credentials'', Verb ''GET'', ''agent::agent_credentials''),
      (''/api/agent/transfer/{file_id}'', Verb ''GET'', ''agent::agent_transfer''),
      (''/api/agent/query'', Verb ''POST'', ''stub_501''),
      (''/api/agent/replicate/{*path}'', AnyVerb, ''agent::replicate_proxy'')]"

definition web_public_table :: "(string \<times> verb \<times> string) list" where
  "web_public_table =
     [(''/ui/login'', Verb ''GET'', ''login_form''),
      (''/ui/login'', Verb ''POST'', ''login_submit''),
      (''/ui/logout'', Verb ''POST'', ''web_logout''),
      (''/ui/bootstrap'', Verb ''GET'', ''actions::bootstrap_page''),
      (''/ui/bootstrap'', Verb ''POST'', ''actions::bootstrap_submit''),
      (''/ui/assets/{*path}'', Verb ''GET'', ''serve_asset'')]"

definition web_protected_table :: "(string \<times> verb \<times> string) list" where
  "web_protected_table =
     [(''/ui'', Verb ''GET'', ''to_browse''),
      (''/ui/browse'', Verb ''GET'', ''browse::page''),
      (''/ui/browse/list'', Verb ''GET'', ''browse::list''),
      (''/ui/browse/navigate'', Verb ''GET'', ''browse::navigate''),
      (''/ui/browse/open'', Verb ''POST'', ''browse::open''),
      (''/ui/status'', Verb ''GET'', ''views::status_page''),
      (''/ui/status/panel'', Verb ''GET'', ''views::status_panel''),
      (''/ui/nodes'', Verb ''GET'', ''views::nodes_page''),
      (''/ui/nodes/panel'', Verb ''GET'', ''views::nodes_panel''),
      (''/ui/nodes/{node_id}'', Verb ''GET'', ''views::node_detail_page''),
      (''/ui/nodes/{node_id}/edit'', Verb ''POST'', ''actions::patch_node_action''),
      (''/ui/nodes/{node_id}/delete'', Verb ''POST'', ''actions::delete_node_action''),
      (''/ui/nodes/{node_id}/mounts'', Verb ''POST'', ''actions::add_mount_action''),
      (''/ui/nodes/{node_id}/mounts/{mount_id}/delete'', Verb ''POST'', ''actions::delete_mount_action''),
      (''/ui/notifications'', Verb ''GET'', ''views::notifications_page''),
      (''/ui/notifications/panel'', Verb ''GET'', ''views::notifications_panel''),
      (''/ui/notifications/ack-all'', Verb ''POST'', ''actions::ack_all_notifications''),
      (''/ui/notifications/{id}/ack'', Verb ''POST'', ''actions::ack_notification''),
      (''/ui/settings/credentials'', Verb ''GET'', ''views::settings_credentials_page''),
      (''/ui/settings/credentials/create'', Verb ''POST'', ''actions::create_credential_action''),
      (''/ui/settings/credentials/{key_id}/delete'', Verb ''POST'', ''actions::delete_credential_action''),
      (''/ui/settings/credentials/{key_id}/toggle'', Verb ''POST'', ''actions::toggle_credential_action''),
      (''/ui/settings/backup'', Verb ''GET'', ''views::settings_backup_page''),
      (''/ui/settings/backup/download'', Verb ''GET'', ''actions::backup_download''),
      (''/ui/vfs'', Verb ''GET'', ''views::vfs_page''),
      (''/ui/vfs/new'', Verb ''GET'', ''views::vfs_new_page''),
      (''/ui/vfs/dir'', Verb ''GET'', ''views::vfs_dir_page''),
      (''/ui/vfs/dir/create'', Verb ''POST'', ''actions::create_vfs_dir_action''),
      (''/ui/vfs/dir/delete'', Verb ''POST'', ''actions::delete_vfs_dir_action''),
      (''/ui/vfs/dir/settings'', Verb ''POST'', ''actions::patch_vfs_dir_action''),
      (''/ui/vfs/dir/mounts/add'', Verb ''POST'', ''actions::add_vfs_mount_action''),
      (''/ui/vfs/dir/mounts/delete'', Verb ''POST'', ''actions::delete_vfs_mount_action''),
      (''/ui/vfs/dir/mounts/steps/add'', Verb ''POST'', ''actions::add_vfs_step_action''),
      (''/ui/vfs/dir/mounts/steps/delete'', Verb ''POST'', ''actions::delete_vfs_step_action''),
      (''/ui/vfs/dir/mounts/steps/move'', Verb ''POST'', ''actions::move_vfs_step_action'')]"

text \<open>The four groups with their layers; the tables of the web interface are merged in.\<close>

definition group_of :: "guard \<Rightarrow> (string \<times> verb \<times> string) list \<Rightarrow> route list" where
  "group_of g rows =
     map (\<lambda>(path, v, h). \<lparr>rt_pattern = route_pattern path, rt_verb = v, rt_handler = h, rt_guard = g\<rparr>) rows"

definition web_router :: "route list" where
  "web_router = group_of NoGuard web_public_table @ group_of SessionGuard web_protected_table"

definition build_router :: "route list" where
  "build_router = group_of NoGuard public_table @ group_of TokenGuard jwt_table @
     group_of SignatureGuard hmac_table @ web_router"

section \<open>Dispatch\<close>

datatype caller = Anyone | TokenOf claims | AgentKey string | SignedIn

datatype refusal = Denied nat string | Sent web_reply

datatype served = Unrouted | MethodNotAllowed | Refused refusal | Handled string caller

record 's guards =
  gd_libs :: libs
  gd_parse_utc :: "string \<Rightarrow> time option"
  gd_jwt :: jwt_libs
  gd_db :: "'s couch"
  gd_secret :: string
  gd_revoked :: "string list"
  gd_env :: environment
  gd_now :: time

fun admit :: "'s guards \<Rightarrow> guard \<Rightarrow> http_incoming \<Rightarrow> session \<Rightarrow> 's \<Rightarrow> (refusal + caller) \<times> 's" where
  "admit gd NoGuard req ss s = (Inr Anyone, s)"
| "admit gd TokenGuard req ss s =
     (case jwt_middleware (gd_jwt gd) (gd_now gd) (gd_secret gd) (gd_revoked gd) req of
        Pass c \<Rightarrow> (Inr (TokenOf c), s) | Deny n m \<Rightarrow> (Inl (Denied n m), s))"
| "admit gd SignatureGuard req ss s =
     (case hmac_middleware (gd_libs gd) (gd_parse_utc gd) (gd_db gd) (gd_now gd) req s of
        (Pass k, s') \<Rightarrow> (Inr (AgentKey k), s') | (Deny n m, s') \<Rightarrow> (Inl (Denied n m), s'))"
| "admit gd SessionGuard req ss s =
     (case require_auth (gd_env gd) ss (in_path req) of
        None \<Rightarrow> (Inr SignedIn, s) | Some r \<Rightarrow> (Inl (Sent r), s))"

text \<open>The guard of a group runs before the method is looked at.\<close>

definition serve ::
  "(segment list list \<Rightarrow> string \<Rightarrow> segment list option) \<Rightarrow> 's guards \<Rightarrow> http_incoming \<Rightarrow> session \<Rightarrow> 's \<Rightarrow>
     served \<times> 's" where
  "serve pick gd req ss s =
     (case pick (remdups (map rt_pattern build_router)) (in_path req) of
        None \<Rightarrow> (Unrouted, s)
      | Some p \<Rightarrow>
          (let rs = filter (\<lambda>r. rt_pattern r = p) build_router in
           case admit gd (rt_guard (hd rs)) req ss s of
             (Inl e, s') \<Rightarrow> (Refused e, s')
           | (Inr caller, s') \<Rightarrow>
               (case List.find (\<lambda>r. answers (rt_verb r) (in_method req)) rs of
                  None \<Rightarrow> (MethodNotAllowed, s')
                | Some r \<Rightarrow> (Handled (rt_handler r) caller, s'))))"

section \<open>The policy\<close>

text \<open>Which check a path stands behind, by its first parts; the open endpoints are listed.\<close>

definition open_paths :: "string list list" where
  "open_paths =
     [[[], []], [[], ''api'', ''auth'', ''login''], [[], ''api'', ''system'', ''bootstrap-status''],
      [[], ''api'', ''system'', ''bootstrap''], [[], ''api'', ''system'', ''restore'']]"

definition policy :: "string list \<Rightarrow> guard" where
  "policy xs =
     (if xs \<in> set open_paths then NoGuard
      else if take 3 xs = [[], ''api'', ''agent''] then SignatureGuard
      else if take 2 xs = [[], ''ui''] then
        (if take 3 xs \<in> set [[[], ''ui'', ''login''], [[], ''ui'', ''logout''], [[], ''ui'', ''bootstrap''], [[], ''ui'', ''assets'']]
         then NoGuard else SessionGuard)
      else TokenGuard)"

text \<open>
  A pattern is decided by the literal parts it starts with: a literal pattern fits one path only, and
  another one fits paths that continue these parts, which the policy tells apart early.
\<close>

fun literals :: "segment list \<Rightarrow> string list" where
  "literals (Seg t # ps) = t # literals ps"
| "literals _ = []"

definition sure :: "guard \<Rightarrow> segment list \<Rightarrow> bool" where
  "sure g p \<longleftrightarrow> policy (literals p) = g \<and>
     (length (literals p) = length p \<or>
      (3 \<le> length (literals p) \<or> length (literals p) = 2 \<and> literals p \<noteq> [[], ''api''] \<and> literals p \<noteq> [[], ''ui'']) \<and>
      (\<forall>q \<in> set open_paths. take (length (literals p)) q \<noteq> literals p))"

lemma fits_literals: "fits p xs \<Longrightarrow> \<exists>ys. xs = literals p @ ys \<and> (length (literals p) = length p \<longrightarrow> ys = [])"
  by (induction p xs rule: fits.induct) (auto split: list.splits)

lemma policy_extends:
  assumes "3 \<le> length ls \<or> length ls = 2 \<and> ls \<noteq> [[], ''api''] \<and> ls \<noteq> [[], ''ui'']"
    and "\<forall>q \<in> set open_paths. take (length ls) q \<noteq> ls"
  shows "policy (ls @ ys) = policy ls"
proof -
  have "ls @ ys \<notin> set open_paths" "ls \<notin> set open_paths"
    using assms(2) by (force simp: append_eq_conv_conj)+
  moreover have "take 2 (ls @ ys) = take 2 ls" using assms(1) by auto
  moreover have "take 3 (ls @ ys) = take 3 ls \<or> length ls = 2 \<and> take 2 ls = ls" using assms(1) by auto
  ultimately show ?thesis
    using assms(1) unfolding policy_def
    by (elim disjE) (auto simp: numeral_3_eq_3 numeral_2_eq_2 length_Suc_conv take_Suc)
qed

lemma sure_policy:
  assumes "sure g p" "fits p xs"
  shows "policy xs = g"
proof -
  obtain ys where ys: "xs = literals p @ ys" "length (literals p) = length p \<longrightarrow> ys = []"
    using fits_literals [OF assms(2)] by blast
  show ?thesis
  proof (cases "length (literals p) = length p")
    case True
    with ys assms(1) show ?thesis by (simp add: sure_def)
  next
    case False
    with assms(1) show ?thesis unfolding sure_def ys(1) by (metis policy_extends)
  qed
qed

lemma router_sure: "list_all (\<lambda>r. sure (rt_guard r) (rt_pattern r)) build_router"
  by code_simp

section \<open>Properties\<close>

text \<open>
  The table is one the router accepts when the server starts: a
  parameter in the same place after the same parts has the same name.
\<close>

fun parameters_agree :: "segment list \<Rightarrow> segment list \<Rightarrow> bool" where
  "parameters_agree (Param n # ps) (Param m # qs) \<longleftrightarrow> n = m \<and> parameters_agree ps qs"
| "parameters_agree (Seg a # ps) (Seg b # qs) \<longleftrightarrow> (a = b \<longrightarrow> parameters_agree ps qs)"
| "parameters_agree _ _ = True"

lemma parameters_named:
  "(let ps = remdups (filter (\<lambda>p. length (literals p) < length p) (map rt_pattern build_router))
    in list_all (\<lambda>p. list_all (parameters_agree p) ps) ps)"
  by code_simp

lemma route_policy: "r \<in> set build_router \<Longrightarrow> fits (rt_pattern r) xs \<Longrightarrow> policy xs = rt_guard r"
  using router_sure by (auto simp: list_all_iff intro: sure_policy)

definition open_handlers :: "string list" where
  "open_handlers =
     [''to_ui'', ''login'', ''bootstrap_status'', ''bootstrap'', ''system::restore'', ''login_form'', ''login_submit'',
      ''web_logout'', ''actions::bootstrap_page'', ''actions::bootstrap_submit'', ''serve_asset'']"

lemma unguarded_handlers:
  "list_all (\<lambda>r. rt_guard r = NoGuard \<longrightarrow> rt_handler r \<in> set open_handlers) build_router"
  by code_simp

lemma admit_without_credentials:
  assumes "in_authorization req = None" "session_user ss = None" "\<not> insecure_http (gd_env gd)"
    and "admit gd g req ss s = (Inr c, s')"
  shows "g = NoGuard"
  using assms by (cases g) (auto simp: jwt_middleware_def hmac_middleware_def require_auth_def split: if_splits)

lemma serve_Handled:
  assumes law: "matcher_law pick" and served: "serve pick gd req ss s = (Handled h c, s')"
  shows "\<exists>r \<in> set build_router. rt_handler r = h \<and> answers (rt_verb r) (in_method req) \<and>
    fits (rt_pattern r) (split_on (CHR ''/'') (in_path req)) \<and>
    admit gd (policy (split_on (CHR ''/'') (in_path req))) req ss s = (Inr c, s') \<and>
    rt_guard r = policy (split_on (CHR ''/'') (in_path req))"
proof -
  let ?xs = "split_on (CHR ''/'') (in_path req)"
  obtain p where p: "pick (remdups (map rt_pattern build_router)) (in_path req) = Some p"
    using served by (auto simp: serve_def split: option.splits)
  then have fit: "p \<in> rt_pattern ` set build_router" "fits p ?xs"
    using law [unfolded matcher_law_def, rule_format, of "remdups (map rt_pattern build_router)" "in_path req"] by auto
  define rs where "rs = filter (\<lambda>r. rt_pattern r = p) build_router"
  have mem: "rt_guard r = policy ?xs" "rt_pattern r = p" "r \<in> set build_router" if "r \<in> set rs" for r
    using that route_policy [of r ?xs] fit(2) by (auto simp: rs_def)
  have "rs \<noteq> []" using fit(1) by (auto simp: rs_def filter_empty_conv)
  then have g: "rt_guard (hd rs) = policy ?xs" using mem(1) by simp
  obtain caller s1 where adm: "admit gd (policy ?xs) req ss s = (Inr caller, s1)"
    and found: "(case List.find (\<lambda>r. answers (rt_verb r) (in_method req)) rs of
                  None \<Rightarrow> (MethodNotAllowed, s1) | Some r \<Rightarrow> (Handled (rt_handler r) caller, s1)) = (Handled h c, s')"
    using served g by (auto simp: serve_def p Let_def rs_def [symmetric] split: prod.splits sum.splits)
  then obtain r where r: "List.find (\<lambda>r. answers (rt_verb r) (in_method req)) rs = Some r"
    "rt_handler r = h" "caller = c" "s1 = s'"
    by (auto split: option.splits)
  then have "r \<in> set rs" "answers (rt_verb r) (in_method req)"
    by (auto simp: find_Some_iff in_set_conv_nth)
  then show ?thesis using r mem fit(2) adm by blast
qed

text \<open>
  C8: No handler runs before the check its path stands behind has passed, whatever way the router picks among the
  patterns: the REST interface and the database proxy behind a valid token that is not revoked, the paths
  of the agents behind a valid signature, the pages behind a signed-in session (or the switch that turns sign-in
  off), each by the first parts of the path and none by another's credentials. A request with no
  credentials at all reaches only the eleven open handlers.
\<close>
theorem handlers_behind_guards:
  assumes law: "matcher_law pick" and served: "serve pick gd req ss s = (Handled h c, s')"
  shows "(\<exists>r \<in> set build_router. rt_handler r = h \<and> answers (rt_verb r) (in_method req) \<and>
      fits (rt_pattern r) (split_on (CHR ''/'') (in_path req))) \<and>
    (case policy (split_on (CHR ''/'') (in_path req)) of
       NoGuard \<Rightarrow> c = Anyone
     | TokenGuard \<Rightarrow> (\<exists>cl. c = TokenOf cl \<and>
         jwt_middleware (gd_jwt gd) (gd_now gd) (gd_secret gd) (gd_revoked gd) req = Pass cl)
     | SignatureGuard \<Rightarrow> (\<exists>k. c = AgentKey k \<and>
         hmac_middleware (gd_libs gd) (gd_parse_utc gd) (gd_db gd) (gd_now gd) req s = (Pass k, s'))
     | SessionGuard \<Rightarrow> c = SignedIn \<and> (insecure_http (gd_env gd) \<or> session_user ss \<noteq> None)) \<and>
    (in_authorization req = None \<and> session_user ss = None \<and> \<not> insecure_http (gd_env gd) \<longrightarrow>
       h \<in> set open_handlers)"
proof -
  obtain r where r: "r \<in> set build_router" "rt_handler r = h" "answers (rt_verb r) (in_method req)"
    "fits (rt_pattern r) (split_on (CHR ''/'') (in_path req))"
    and adm: "admit gd (rt_guard r) req ss s = (Inr c, s')"
    and g: "rt_guard r = policy (split_on (CHR ''/'') (in_path req))"
    using serve_Handled [OF assms] by metis
  have "case rt_guard r of
       NoGuard \<Rightarrow> c = Anyone
     | TokenGuard \<Rightarrow> (\<exists>cl. c = TokenOf cl \<and>
         jwt_middleware (gd_jwt gd) (gd_now gd) (gd_secret gd) (gd_revoked gd) req = Pass cl)
     | SignatureGuard \<Rightarrow> (\<exists>k. c = AgentKey k \<and>
         hmac_middleware (gd_libs gd) (gd_parse_utc gd) (gd_db gd) (gd_now gd) req s = (Pass k, s'))
     | SessionGuard \<Rightarrow> c = SignedIn \<and> (insecure_http (gd_env gd) \<or> session_user ss \<noteq> None)"
    using adm by (cases "rt_guard r") (auto simp: require_auth_def split: verdict.splits prod.splits option.splits if_splits)
  moreover have "h \<in> set open_handlers"
    if "in_authorization req = None" "session_user ss = None" "\<not> insecure_http (gd_env gd)"
    using unguarded_handlers r(1,2) admit_without_credentials [OF that adm] unfolding list_all_iff by blast
  ultimately show ?thesis
    unfolding g [symmetric] using r(1-4) by blast
qed

definition first_fit :: "segment list list \<Rightarrow> string \<Rightarrow> segment list option" where
  "first_fit ps path = List.find (\<lambda>p. fits p (split_on (CHR ''/'') path)) ps"

lemma first_fit_law: "matcher_law first_fit"
  unfolding matcher_law_def first_fit_def
  by (auto split: option.split simp: find_None_iff find_Some_iff)

definition sample_guards :: "store guards" where
  "sample_guards =
     \<lparr>gd_libs = sample_libs, gd_parse_utc = sample_parse_time, gd_jwt = \<lparr>jwt_encode = (\<lambda>_ _. None), jwt_decode = (\<lambda>_ _ _. None)\<rparr>,
      gd_db = sample_couch, gd_secret = [], gd_revoked = [], gd_env = Map.empty, gd_now = 0\<rparr>"

definition sample_incoming :: "string \<Rightarrow> string \<Rightarrow> http_incoming" where
  "sample_incoming m path = \<lparr>in_authorization = None, in_method = m, in_path = path, in_body = Some []\<rparr>"

fun handled :: "served \<Rightarrow> (string \<times> caller) option" where
  "handled (Handled h c) = Some (h, c)"
| "handled _ = None"

lemma handled_Some: "handled r = Some (h, c) \<longleftrightarrow> r = Handled h c"
  by (cases r) auto

theorem handlers_behind_guards_witness:
  "handled (fst (serve first_fit sample_guards (sample_incoming ''GET'' ''/ui/login'') new_session [])) =
     Some (''login_form'', Anyone) \<and> ''login_form'' \<in> set open_handlers"
proof -
  have handled: "handled (fst (serve first_fit sample_guards (sample_incoming ''GET'' ''/ui/login'') new_session [])) =
      Some (''login_form'', Anyone)"
    by code_simp
  then have "serve first_fit sample_guards (sample_incoming ''GET'' ''/ui/login'') new_session [] =
      (Handled ''login_form'' Anyone,
       snd (serve first_fit sample_guards (sample_incoming ''GET'' ''/ui/login'') new_session []))"
    by (simp add: handled_Some prod_eq_iff)
  from conjunct2 [OF conjunct2 [OF handlers_behind_guards [OF first_fit_law this]]]
  have "''login_form'' \<in> set open_handlers"
    by (simp add: sample_incoming_def sample_guards_def new_session_def session_user_def session_get_def insecure_http_def)
  with handled show ?thesis ..
qed

end
