(* ===== verification/Desktop.thy ===== *)
theory Desktop
  imports Agent_Api Server_Boot Open_File
begin

text \<open>
  The desktop application: the settings (\<open>settings.rs\<close>), the store of the security-scoped bookmarks
  (\<open>bookmarks.rs\<close>), the commands of the windows (\<open>commands.rs\<close>), the watch paths behind bookmarks
  (\<open>watch_paths.rs\<close>), the connection form (\<open>connection.rs\<close>, \<open>lib.rs\<close>) and the configurations given to
  the embedded server and agent (\<open>server.rs\<close>, \<open>agent.rs\<close>). The macOS calls, the JSON text, base64,
  the URL parser and the outcome of each file operation are parameters; the files are a map. Paths are
  their text.
\<close>

section \<open>Files and the operating system\<close>

datatype canon_error = Missing | CanonFailed string

text \<open>The outcome of a file operation is \<open>None\<close> or the message of its error.\<close>

record desk_env =
  dk_codec :: text_codec
  dk_b64 :: "string \<Rightarrow> string"
  dk_unb64 :: "string \<Rightarrow> string option"
  dk_readable :: "string \<Rightarrow> bool"
  dk_mkdir :: "string \<Rightarrow> string option"
  dk_write :: "string \<Rightarrow> string option"
  dk_rename :: "string \<Rightarrow> string \<Rightarrow> string option"
  dk_canonical :: "string \<Rightarrow> canon_error + string"
  dk_seconds :: nat

type_synonym disk = "string \<rightharpoonup> string"

definition read_text :: "desk_env \<Rightarrow> disk \<Rightarrow> string \<Rightarrow> string option" where
  "read_text env d p = (if dk_readable env p then d p else None)"

definition with_extension :: "string \<Rightarrow> string \<Rightarrow> string" where
  "with_extension p e =
     (let (dir, name) = (case rsplit_once (CHR ''/'') p of Some (a, b) \<Rightarrow> (a @ ''/'', b) | None \<Rightarrow> ([], p));
          stem = (case rsplit_once (CHR ''.'') name of Some (a, b) \<Rightarrow> if a = [] then name else a | None \<Rightarrow> name)
      in dir @ stem @ ''.'' @ e)"

section \<open>Settings\<close>

record settings =
  se_couchdb_url :: string
  se_couchdb_user :: string
  se_couchdb_password :: string
  se_watch_paths :: "string list"
  se_excluded_paths :: "string list"

definition default_settings :: settings where
  "default_settings =
     \<lparr>se_couchdb_url = [], se_couchdb_user = [], se_couchdb_password = [], se_watch_paths = [], se_excluded_paths = []\<rparr>"

definition is_configured :: "settings \<Rightarrow> bool" where
  "is_configured s \<longleftrightarrow> se_couchdb_url s \<noteq> []"

definition settings_path :: "string \<Rightarrow> string" where
  "settings_path app_data_dir = path_join app_data_dir ''settings.json''"

text \<open>A missing field has its default; one of another type fails the whole file.\<close>

definition default_str :: "string \<Rightarrow> json \<Rightarrow> string option" where
  "default_str k j = (case jget k j of None \<Rightarrow> Some [] | Some v \<Rightarrow> as_str v)"

definition str_array :: "json \<Rightarrow> string list option" where
  "str_array v = Option.bind (as_array v) (\<lambda>xs. those (map as_str xs))"

definition default_strs :: "string \<Rightarrow> json \<Rightarrow> string list option" where
  "default_strs k j = (case jget k j of None \<Rightarrow> Some [] | Some v \<Rightarrow> str_array v)"

definition settings_of_json :: "json \<Rightarrow> settings option" where
  "settings_of_json j =
     (if \<not> is_object j then None
      else (case (default_str ''couchdb_url'' j, default_str ''couchdb_user'' j, default_str ''couchdb_password'' j,
                  default_strs ''watch_paths'' j, default_strs ''excluded_paths'' j) of
              (Some url, Some user, Some pw, Some ws, Some es) \<Rightarrow>
                Some \<lparr>se_couchdb_url = url, se_couchdb_user = user, se_couchdb_password = pw,
                  se_watch_paths = ws, se_excluded_paths = es\<rparr>
            | _ \<Rightarrow> None))"

definition settings_to_json :: "settings \<Rightarrow> json" where
  "settings_to_json s =
     JObj [(''couchdb_url'', JStr (se_couchdb_url s)), (''couchdb_user'', JStr (se_couchdb_user s)),
       (''couchdb_password'', JStr (se_couchdb_password s)), (''watch_paths'', JArr (map JStr (se_watch_paths s))),
       (''excluded_paths'', JArr (map JStr (se_excluded_paths s)))]"

definition load_settings :: "desk_env \<Rightarrow> string \<Rightarrow> disk \<Rightarrow> settings" where
  "load_settings env dir d =
     unwrap_or (Option.bind (Option.bind (read_text env d (settings_path dir)) (tc_parse (dk_codec env))) settings_of_json)
       default_settings"

definition save_settings_file :: "desk_env \<Rightarrow> string \<Rightarrow> settings \<Rightarrow> disk \<Rightarrow> string option \<times> disk" where
  "save_settings_file env dir s d =
     (case dk_mkdir env dir of
        Some e \<Rightarrow> (Some e, d)
      | None \<Rightarrow>
          (case dk_write env (settings_path dir) of
             Some e \<Rightarrow> (Some e, d)
           | None \<Rightarrow> (None, d(settings_path dir \<mapsto> tc_print (dk_codec env) (settings_to_json s)))))"

section \<open>Bookmarks\<close>

record bookmark_store =
  bs_path :: string
  bs_map :: "(string \<times> string) list"

text \<open>The pairs of a string map; a later duplicate wins.\<close>

definition string_map :: "json \<Rightarrow> (string \<times> string) list option" where
  "string_map j =
     (case j of JObj fs \<Rightarrow> map_option (\<lambda>vs. zip (map fst fs) vs) (those (map (as_str \<circ> snd) fs)) | _ \<Rightarrow> None)"

definition bookmark_file_of_json :: "json \<Rightarrow> (u64 \<times> (string \<times> string) list) option" where
  "bookmark_file_of_json j =
     (case (Option.bind (jget ''version'' j) as_u64, Option.bind (jget ''bookmarks'' j) string_map) of
        (Some v, Some m) \<Rightarrow> if unat v < 2 ^ 32 then Some (v, m) else None
      | _ \<Rightarrow> None)"

fun decode_bookmarks :: "(string \<Rightarrow> string option) \<Rightarrow> (string \<times> string) list \<Rightarrow> (string \<times> string) list option" where
  "decode_bookmarks un [] = Some []"
| "decode_bookmarks un ((k, v) # kvs) =
     (case un v of None \<Rightarrow> None | Some b \<Rightarrow> map_option ((#) (k, b)) (decode_bookmarks un kvs))"

text \<open>The error tells whether the file is corrupt, so that it is renamed.\<close>

definition try_load :: "desk_env \<Rightarrow> string \<Rightarrow> disk \<Rightarrow> bool + (string \<times> string) list" where
  "try_load env p d =
     (case read_text env d p of
        None \<Rightarrow> Inl False
      | Some data \<Rightarrow>
          (case Option.bind (tc_parse (dk_codec env) data) bookmark_file_of_json of
             None \<Rightarrow> Inl True
           | Some (version, m) \<Rightarrow>
               if version \<noteq> 1 then Inl False
               else (case decode_bookmarks (dk_unb64 env) m of
                       None \<Rightarrow> Inl True
                     | Some kvs \<Rightarrow> Inr (fold (\<lambda>(k, b). AList.update k b) kvs []))))"

definition load_bookmarks :: "desk_env \<Rightarrow> string \<Rightarrow> disk \<Rightarrow> bookmark_store \<times> disk" where
  "load_bookmarks env p d =
     (case try_load env p d of
        Inr m \<Rightarrow> (\<lparr>bs_path = p, bs_map = m\<rparr>, d)
      | Inl corrupt \<Rightarrow>
          (\<lparr>bs_path = p, bs_map = []\<rparr>,
           if corrupt \<and> dk_rename env p (with_extension p (''json.corrupt.'' @ nat_str (dk_seconds env))) = None
           then d(with_extension p (''json.corrupt.'' @ nat_str (dk_seconds env)) := d p, p := None) else d))"

definition bookmark_get :: "bookmark_store \<Rightarrow> string \<Rightarrow> string option" where
  "bookmark_get st mount = map_of (bs_map st) mount"

definition bookmarks_json :: "desk_env \<Rightarrow> (string \<times> string) list \<Rightarrow> json" where
  "bookmarks_json env m =
     JObj [(''version'', enc_u64 1), (''bookmarks'', JObj (map (\<lambda>(k, v). (k, JStr (dk_b64 env v))) m))]"

text \<open>The file is written beside and renamed over the old one.\<close>

definition save_bookmarks :: "desk_env \<Rightarrow> bookmark_store \<Rightarrow> disk \<Rightarrow> string option \<times> disk" where
  "save_bookmarks env st d =
     (let temp = with_extension (bs_path st) ''json.tmp'' in
      case dk_write env temp of
        Some e \<Rightarrow> (Some e, d)
      | None \<Rightarrow>
          (let d1 = d(temp \<mapsto> tc_print (dk_codec env) (bookmarks_json env (bs_map st))) in
           case dk_rename env temp (bs_path st) of
             Some e \<Rightarrow> (Some e, d1)
           | None \<Rightarrow> (None, d1(bs_path st := d1 temp, temp := None))))"

definition bookmark_insert ::
  "desk_env \<Rightarrow> string \<Rightarrow> string \<Rightarrow> bookmark_store \<times> disk \<Rightarrow> string option \<times> bookmark_store \<times> disk" where
  "bookmark_insert env mount data sd =
     (let st = (fst sd)\<lparr>bs_map := AList.update mount data (bs_map (fst sd))\<rparr>; (r, d) = save_bookmarks env st (snd sd)
      in (r, st, d))"

definition bookmark_remove ::
  "desk_env \<Rightarrow> string \<Rightarrow> bookmark_store \<times> disk \<Rightarrow> string option \<times> bookmark_store \<times> disk" where
  "bookmark_remove env mount sd =
     (let st = (fst sd)\<lparr>bs_map := AList.delete mount (bs_map (fst sd))\<rparr>; (r, d) = save_bookmarks env st (snd sd)
      in (r, st, d))"

section \<open>The commands\<close>

datatype resolve_error = Stale | ResolveFailed string

record mac_api =
  ma_create :: "string \<Rightarrow> string + string"
  ma_resolve :: "string \<Rightarrow> resolve_error + string"
  ma_open :: "string \<Rightarrow> bool"

datatype desk_open_error =
  BookmarkNotAuthorized string string
| PathNotAccessible string string
| PathTraversal string string string
| OpenFailed string

datatype authorize_error =
  AuthorizeCancelled
| MismatchedSelection string string
| BookmarkCreationFailed string

datatype watch_error =
  WatchCancelled
| CanonicalizeFailed string
| BookmarkFailed string
| SettingsFailed string
| WatchMismatch string string

text \<open>The store, the files, and the paths handed to the system to open, the latest first.\<close>

record desk_state =
  ds_store :: bookmark_store
  ds_disk :: disk
  ds_opened :: "string list"

definition put_bookmark :: "desk_env \<Rightarrow> string \<Rightarrow> string \<Rightarrow> desk_state \<Rightarrow> string option \<times> desk_state" where
  "put_bookmark env mount data st =
     (let (r, s, d) = bookmark_insert env mount data (ds_store st, ds_disk st)
      in (r, st\<lparr>ds_store := s, ds_disk := d\<rparr>))"

definition drop_bookmark :: "desk_env \<Rightarrow> string \<Rightarrow> desk_state \<Rightarrow> string option \<times> desk_state" where
  "drop_bookmark env mount st =
     (let (r, s, d) = bookmark_remove env mount (ds_store st, ds_disk st)
      in (r, st\<lparr>ds_store := s, ds_disk := d\<rparr>))"

definition open_file_inner ::
  "desk_env \<Rightarrow> mac_api \<Rightarrow> open_target \<Rightarrow> desk_state \<Rightarrow> (desk_open_error + unit) \<times> desk_state" where
  "open_file_inner env api target st =
     (let mount = ot_local_mount_path target; rel = ot_relative_path target;
          not_authorized = BookmarkNotAuthorized mount (ot_node_id target) in
      case bookmark_get (ds_store st) mount of
        None \<Rightarrow> (Inl not_authorized, st)
      | Some data \<Rightarrow>
          (case dk_canonical env mount of
             Inl _ \<Rightarrow> (Inl (PathNotAccessible mount rel), st)
           | Inr canonical_mount \<Rightarrow>
               (case ma_resolve api data of
                  Inl Stale \<Rightarrow> (Inl not_authorized, snd (drop_bookmark env mount st))
                | Inl (ResolveFailed m) \<Rightarrow> (Inl (OpenFailed m), st)
                | Inr _ \<Rightarrow>
                    (let requested = path_join canonical_mount rel in
                     case dk_canonical env requested of
                       Inl Missing \<Rightarrow> (Inl (PathNotAccessible mount rel), st)
                     | Inl (CanonFailed m) \<Rightarrow> (Inl (OpenFailed m), st)
                     | Inr resolved \<Rightarrow>
                         if \<not> path_starts_with resolved canonical_mount
                         then (Inl (PathTraversal requested resolved canonical_mount), st)
                         else
                           (let st' = st\<lparr>ds_opened := resolved # ds_opened st\<rparr> in
                            if ma_open api resolved then (Inr (), st')
                            else (Inl (OpenFailed ''LaunchServices refused to open the file''), st'))))))"

text \<open>Paths are compared by their components.\<close>

definition same_path :: "string \<Rightarrow> string \<Rightarrow> bool" where
  "same_path p q \<longleftrightarrow> path_components p = path_components q"

definition canonical_or :: "desk_env \<Rightarrow> string \<Rightarrow> string" where
  "canonical_or env p = (case dk_canonical env p of Inr q \<Rightarrow> q | Inl _ \<Rightarrow> p)"

definition authorize_mount_inner ::
  "desk_env \<Rightarrow> mac_api \<Rightarrow> string \<Rightarrow> string \<Rightarrow> desk_state \<Rightarrow> (authorize_error + unit) \<times> desk_state" where
  "authorize_mount_inner env api canonical_requested selection st =
     (let canonical_selection = canonical_or env selection in
      if \<not> same_path canonical_selection canonical_requested
      then (Inl (MismatchedSelection canonical_requested canonical_selection), st)
      else
        (case ma_create api canonical_selection of
           Inl m \<Rightarrow> (Inl (BookmarkCreationFailed m), st)
         | Inr data \<Rightarrow>
             (case put_bookmark env canonical_selection data st of
                (Some e, st') \<Rightarrow> (Inl (BookmarkCreationFailed e), st')
              | (None, st') \<Rightarrow> (Inr (), st'))))"

text \<open>The panel shows a path and gives the selected one, or fails to be shown.\<close>

definition authorize_mount ::
  "desk_env \<Rightarrow> mac_api \<Rightarrow> (string \<Rightarrow> string + string option) \<Rightarrow> string \<Rightarrow> desk_state \<Rightarrow>
     (authorize_error + unit) \<times> desk_state" where
  "authorize_mount env api panel local_mount_path st =
     (let preselect = canonical_or env local_mount_path in
      case panel preselect of
        Inl m \<Rightarrow> (Inl (BookmarkCreationFailed m), st)
      | Inr None \<Rightarrow> (Inl AuthorizeCancelled, st)
      | Inr (Some selection) \<Rightarrow> authorize_mount_inner env api preselect selection st)"

section \<open>Watch paths\<close>

record watch_path_entry =
  wp_path :: string
  wp_authorized :: bool

definition list_watch_paths_inner :: "desk_env \<Rightarrow> string \<Rightarrow> desk_state \<Rightarrow> watch_path_entry list" where
  "list_watch_paths_inner env dir st =
     map (\<lambda>p. \<lparr>wp_path = p, wp_authorized = (bookmark_get (ds_store st) p \<noteq> None)\<rparr>)
       (se_watch_paths (load_settings env dir (ds_disk st)))"

definition add_watch_path_inner ::
  "desk_env \<Rightarrow> mac_api \<Rightarrow> string \<Rightarrow> string \<Rightarrow> desk_state \<Rightarrow> (watch_error + unit) \<times> desk_state" where
  "add_watch_path_inner env api dir selection st =
     (case dk_canonical env selection of
        Inl Missing \<Rightarrow> (Inl (CanonicalizeFailed ''No such file or directory (os error 2)''), st)
      | Inl (CanonFailed m) \<Rightarrow> (Inl (CanonicalizeFailed m), st)
      | Inr key \<Rightarrow>
          (case ma_create api key of
             Inl m \<Rightarrow> (Inl (BookmarkFailed m), st)
           | Inr data \<Rightarrow>
               (case put_bookmark env key data st of
                  (Some e, st1) \<Rightarrow> (Inl (BookmarkFailed e), st1)
                | (None, st1) \<Rightarrow>
                    (let s = load_settings env dir (ds_disk st1);
                         s' = (if key \<in> set (se_watch_paths s) then s
                               else s\<lparr>se_watch_paths := se_watch_paths s @ [key]\<rparr>);
                         (r, d) = save_settings_file env dir s' (ds_disk st1); st2 = st1\<lparr>ds_disk := d\<rparr> in
                     case r of
                       None \<Rightarrow> (Inr (), st2)
                     | Some e \<Rightarrow> (Inl (SettingsFailed e), snd (drop_bookmark env key st2))))))"

definition authorize_watch_path_inner ::
  "desk_env \<Rightarrow> mac_api \<Rightarrow> string \<Rightarrow> string \<Rightarrow> desk_state \<Rightarrow> (watch_error + unit) \<times> desk_state" where
  "authorize_watch_path_inner env api canonical_path selection st =
     (let canonical_selection = canonical_or env selection in
      if canonical_selection \<noteq> canonical_path then (Inl (WatchMismatch canonical_path canonical_selection), st)
      else
        (case ma_create api canonical_selection of
           Inl m \<Rightarrow> (Inl (BookmarkFailed m), st)
         | Inr data \<Rightarrow>
             (case put_bookmark env canonical_path data st of
                (Some e, st') \<Rightarrow> (Inl (BookmarkFailed e), st')
              | (None, st') \<Rightarrow> (Inr (), st'))))"

definition remove_watch_path_inner ::
  "desk_env \<Rightarrow> string \<Rightarrow> string \<Rightarrow> desk_state \<Rightarrow> (watch_error + unit) \<times> desk_state" where
  "remove_watch_path_inner env dir path st =
     (let s = load_settings env dir (ds_disk st);
          (r, d) = save_settings_file env dir (s\<lparr>se_watch_paths := filter (\<lambda>p. p \<noteq> path) (se_watch_paths s)\<rparr>)
                     (ds_disk st)
      in case r of
           Some e \<Rightarrow> (Inl (SettingsFailed e), st\<lparr>ds_disk := d\<rparr>)
         | None \<Rightarrow> (Inr (), snd (drop_bookmark env path (st\<lparr>ds_disk := d\<rparr>))))"

definition chosen ::
  "(string \<Rightarrow> string + string option) \<Rightarrow> string \<Rightarrow> (string \<Rightarrow> desk_state \<Rightarrow> (watch_error + unit) \<times> desk_state) \<Rightarrow>
     desk_state \<Rightarrow> (watch_error + unit) \<times> desk_state" where
  "chosen panel preselect f st =
     (case panel preselect of
        Inl m \<Rightarrow> (Inl (BookmarkFailed m), st)
      | Inr None \<Rightarrow> (Inl WatchCancelled, st)
      | Inr (Some selection) \<Rightarrow> f selection st)"

definition add_watch_path ::
  "desk_env \<Rightarrow> mac_api \<Rightarrow> (string \<Rightarrow> string + string option) \<Rightarrow> environment \<Rightarrow> string \<Rightarrow> desk_state \<Rightarrow>
     (watch_error + unit) \<times> desk_state" where
  "add_watch_path env api panel vars dir st =
     chosen panel (unwrap_or (vars ''HOME'') ''/'') (add_watch_path_inner env api dir) st"

definition authorize_watch_path ::
  "desk_env \<Rightarrow> mac_api \<Rightarrow> (string \<Rightarrow> string + string option) \<Rightarrow> string \<Rightarrow> desk_state \<Rightarrow>
     (watch_error + unit) \<times> desk_state" where
  "authorize_watch_path env api panel path st =
     chosen panel path (authorize_watch_path_inner env api path) st"

text \<open>
  What the agent crawls: the watch paths whose bookmark resolves, at the place it resolves to. A stale bookmark
  is removed.
\<close>

fun open_paths_loop ::
  "desk_env \<Rightarrow> mac_api \<Rightarrow> string list \<Rightarrow> desk_state \<Rightarrow> string list \<times> desk_state" where
  "open_paths_loop env api [] st = ([], st)"
| "open_paths_loop env api (p # ps) st =
     (case bookmark_get (ds_store st) p of
        None \<Rightarrow> open_paths_loop env api ps st
      | Some data \<Rightarrow>
          (case ma_resolve api data of
             Inr resolved \<Rightarrow> (let (rs, st') = open_paths_loop env api ps st in (resolved # rs, st'))
           | Inl Stale \<Rightarrow> open_paths_loop env api ps (snd (drop_bookmark env p st))
           | Inl (ResolveFailed m) \<Rightarrow> open_paths_loop env api ps st))"

definition open_watch_paths :: "desk_env \<Rightarrow> mac_api \<Rightarrow> string \<Rightarrow> desk_state \<Rightarrow> string list \<times> desk_state" where
  "open_watch_paths env api dir st =
     open_paths_loop env api (se_watch_paths (load_settings env dir (ds_disk st))) st"

section \<open>The connection\<close>

text \<open>What the url crate gives for a text: the port is absent when it is the default one of the scheme.\<close>

record url_parts =
  ur_scheme :: string
  ur_host :: "string option"
  ur_port :: "nat option"
  ur_path :: string
  ur_query :: "string option"
  ur_fragment :: "string option"

record url_lib =
  ul_parse :: "string \<Rightarrow> string + url_parts"
  ul_set_port :: "url_parts \<Rightarrow> nat \<Rightarrow> url_parts option"
  ul_print :: "url_parts \<Rightarrow> string"

definition normalize_couchdb_url :: "url_lib \<Rightarrow> string \<Rightarrow> string + string" where
  "normalize_couchdb_url ul input =
     (let trimmed = trim input in
      if trimmed = [] then Inl ''CouchDB URL is required''
      else
        (case ul_parse ul (if contains_str ''://'' trimmed then trimmed else ''http://'' @ trimmed) of
           Inl e \<Rightarrow> Inl (''invalid URL: '' @ e)
         | Inr u \<Rightarrow>
             if ur_scheme u \<noteq> ''http'' \<and> ur_scheme u \<noteq> ''https''
             then Inl (''URL scheme must be http or https, not '' @ ur_scheme u)
             else if ur_host u = None then Inl ''URL must include a host''
             else
               (case (if ur_port u = None then ul_set_port ul u 5984 else Some u) of
                  None \<Rightarrow> Inl ''could not set default port on URL''
                | Some u' \<Rightarrow>
                    Inr (trim_end (CHR ''/'') (ul_print ul (u'\<lparr>ur_path := [], ur_query := None, ur_fragment := None\<rparr>))))))"

text \<open>The answer to the probe of a URL: an error of the client, of the connection, or a status.\<close>

datatype probe_answer = NoClient string | Unreachable string | Answered nat string

definition test_connection ::
  "url_lib \<Rightarrow> (string \<Rightarrow> string \<Rightarrow> string \<Rightarrow> probe_answer) \<Rightarrow> string \<Rightarrow> string \<Rightarrow> string \<Rightarrow> string + string" where
  "test_connection ul probe couchdb_url user password =
     (case normalize_couchdb_url ul couchdb_url of
        Inl e \<Rightarrow> Inl e
      | Inr normalized \<Rightarrow>
          (case probe (normalized @ ''/_all_dbs'') user password of
             NoClient e \<Rightarrow> Inl (''HTTP client error: '' @ e)
           | Unreachable e \<Rightarrow> Inl (''could not reach '' @ normalized @ '': '' @ e)
           | Answered status text \<Rightarrow>
               if status = 401 then Inl ''CouchDB rejected the username/password.''
               else if \<not> is_success status then Inl (''CouchDB returned HTTP '' @ text)
               else Inr normalized))"

section \<open>The embedded server and agent\<close>

definition config_from_settings :: "settings \<Rightarrow> string \<Rightarrow> mosaicfs_config" where
  "config_from_settings s app_data_dir =
     \<lparr>mc_node_id = None, mc_features = \<lparr>ft_agent = False, ft_vfs = False, ft_web_ui = True\<rparr>,
      mc_couchdb = \<lparr>cd_url = se_couchdb_url s, cd_user = se_couchdb_user s, cd_password = se_couchdb_password s\<rparr>,
      mc_agent = None, mc_vfs = None,
      mc_web_ui = Some \<lparr>wu_listen = ''127.0.0.1:0'', wu_data_dir = Some (path_join app_data_dir ''server-data''),
        wu_insecure_http = True, wu_developer_mode = False, wu_socket_path = None\<rparr>,
      mc_credentials = None, mc_secrets_manager = ''inline''\<rparr>"

definition agent_config_from_settings :: "settings \<Rightarrow> string \<Rightarrow> string option \<Rightarrow> mosaicfs_config" where
  "agent_config_from_settings s app_data_dir node_id =
     \<lparr>mc_node_id = node_id, mc_features = \<lparr>ft_agent = True, ft_vfs = False, ft_web_ui = False\<rparr>,
      mc_couchdb = \<lparr>cd_url = se_couchdb_url s, cd_user = se_couchdb_user s, cd_password = se_couchdb_password s\<rparr>,
      mc_agent = Some \<lparr>ac_watch_paths = se_watch_paths s, ac_excluded_paths = se_excluded_paths s,
        ac_state_dir = Some (path_join app_data_dir ''agent-state'')\<rparr>,
      mc_vfs = None, mc_web_ui = None, mc_credentials = None, mc_secrets_manager = ''inline''\<rparr>"

text \<open>The node of this machine: by the environment, else the only node document with its machine identifier.\<close>

definition find_node_by_machine_id :: "'s couch \<Rightarrow> string \<Rightarrow> 's \<Rightarrow> (couch_error + string option) \<times> 's" where
  "find_node_by_machine_id db machine_id s =
     (case db_find db (JObj [(''type'', JStr ''node''), (''machine_id'', JStr machine_id)]) s of
        (Inl e, s1) \<Rightarrow> (Inl e, s1)
      | (Inr docs, s1) \<Rightarrow>
          (Inr (case docs of
                  [d] \<Rightarrow> (let raw = unwrap_or (jget_str ''_id'' d) [] in Some (unwrap_or (strip_prefix ''node::'' raw) raw))
                | _ \<Rightarrow> None), s1))"

definition resolve_machine_node :: "environment \<Rightarrow> (settings \<Rightarrow> 's couch) \<Rightarrow> string \<Rightarrow> settings \<Rightarrow> 's \<Rightarrow> string option \<times> 's" where
  "resolve_machine_node vars connect machine_id st s =
     (case vars ''MOSAICFS_NODE_ID'' of
        Some i \<Rightarrow> if i \<noteq> [] then (Some i, s)
          else map_prod (\<lambda>r. case r of Inr n \<Rightarrow> n | Inl _ \<Rightarrow> None) id (find_node_by_machine_id (connect st) machine_id s)
      | None \<Rightarrow> map_prod (\<lambda>r. case r of Inr n \<Rightarrow> n | Inl _ \<Rightarrow> None) id (find_node_by_machine_id (connect st) machine_id s))"

text \<open>Saving the form: the test comes first; the settings are on the disk before the router is built.\<close>

definition save_settings ::
  "desk_env \<Rightarrow> url_lib \<Rightarrow> (string \<Rightarrow> string \<Rightarrow> string \<Rightarrow> probe_answer) \<Rightarrow> (settings \<Rightarrow> string + 'r) \<Rightarrow> string \<Rightarrow>
     string \<Rightarrow> string \<Rightarrow> string \<Rightarrow> 'r option \<times> disk \<Rightarrow> (string + unit) \<times> 'r option \<times> disk" where
  "save_settings env ul probe build dir couchdb_url user password st =
     (case test_connection ul probe couchdb_url user password of
        Inl e \<Rightarrow> (Inl e, st)
      | Inr normalized \<Rightarrow>
          (let s = (load_settings env dir (snd st))\<lparr>se_couchdb_url := normalized, se_couchdb_user := user,
                 se_couchdb_password := password\<rparr>;
               (r, d) = save_settings_file env dir s (snd st) in
           case r of
             Some e \<Rightarrow> (Inl e, fst st, d)
           | None \<Rightarrow>
               (case build s of
                  Inl e \<Rightarrow> (Inl e, fst st, d)
                | Inr router \<Rightarrow> (Inr (), Some router, d))))"

section \<open>Properties of the store\<close>

text \<open>The temporary file is never the file itself.\<close>

lemma with_extension_tmp: "with_extension p ''json.tmp'' \<noteq> p"
proof
  assume same: "with_extension p ''json.tmp'' = p"
  define dn where "dn = (case rsplit_once (CHR ''/'') p of Some (a, b) \<Rightarrow> (a @ ''/'', b) | None \<Rightarrow> ([], p))"
  have p: "p = fst dn @ snd dn"
    by (auto simp: dn_def rsplit_once_Some split: option.splits)
  define stem where "stem = (case rsplit_once (CHR ''.'') (snd dn) of
    Some (a, b) \<Rightarrow> if a = [] then snd dn else a | None \<Rightarrow> snd dn)"
  have "with_extension p ''json.tmp'' = fst dn @ stem @ ''.json.tmp''"
    unfolding with_extension_def dn_def [symmetric] stem_def by (simp add: Let_def split_beta)
  with same p have name: "snd dn = stem @ ''.json.tmp''" by simp
  then have "rsplit_once (CHR ''.'') (snd dn) = Some (stem @ ''.json'', ''tmp'')"
    by (simp add: rsplit_once_Some)
  then have "stem = (if stem @ ''.json'' = [] then snd dn else stem @ ''.json'')"
    by (subst stem_def) simp
  then show False by simp
qed

lemma save_bookmarks_done:
  assumes "save_bookmarks env st d = (None, d')"
  shows "d' (bs_path st) = Some (tc_print (dk_codec env) (bookmarks_json env (bs_map st)))"
  using assms with_extension_tmp [of "bs_path st"]
  by (auto simp: save_bookmarks_def Let_def split: option.splits)

lemma decode_encoded:
  assumes "\<forall>b. dk_unb64 env (dk_b64 env b) = Some b"
  shows "decode_bookmarks (dk_unb64 env) (map (\<lambda>(k, v). (k, dk_b64 env v)) m) = Some m"
  using assms by (induction m) auto

lemma those_Some: "those (map Some xs) = Some xs"
  by (induction xs) auto

lemma string_map_encoded:
  "string_map (JObj (map (\<lambda>(k, v). (k, JStr (f v))) m)) = Some (map (\<lambda>(k, v). (k, f v)) m)"
proof -
  have "map (as_str \<circ> snd) (map (\<lambda>(k, v). (k, JStr (f v))) m) = map Some (map (\<lambda>(k, v). f v) m)"
    by (induction m) auto
  then have "those (map (as_str \<circ> snd) (map (\<lambda>(k, v). (k, JStr (f v))) m)) = Some (map (\<lambda>(k, v). f v) m)"
    by (simp only: those_Some)
  moreover have "zip (map fst (map (\<lambda>(k, v). (k, JStr (f v))) m)) (map (\<lambda>(k, v). f v) m) = map (\<lambda>(k, v). (k, f v)) m"
    by (induction m) auto
  ultimately show ?thesis by (simp add: string_map_def)
qed

lemma fold_update_map_of:
  "map_of (fold (\<lambda>(k, b). AList.update k b) kvs al) = map_of al ++ map_of (rev kvs)"
  by (induction kvs arbitrary: al) (auto simp: update_conv' map_add_def fun_eq_iff split: option.splits)

lemma fold_update_distinct:
  "distinct (map fst al) \<Longrightarrow> distinct (map fst (fold (\<lambda>(k, b). AList.update k b) kvs al))"
  by (induction kvs arbitrary: al) (auto simp: distinct_update)

definition distinct_keys :: "bookmark_store \<Rightarrow> bool" where
  "distinct_keys st \<longleftrightarrow> distinct (map fst (bs_map st))"

lemma loaded_distinct: "distinct_keys (fst (load_bookmarks env p d))"
  by (auto simp: load_bookmarks_def try_load_def distinct_keys_def fold_update_distinct split: option.splits sum.splits)

lemma load_after_save:
  assumes codec: "text_law (dk_codec env)" "\<forall>b. dk_unb64 env (dk_b64 env b) = Some b"
    and saved: "save_bookmarks env st d = (None, d')" and keys: "distinct_keys st"
    and readable: "dk_readable env (bs_path st)"
  shows "map_of (bs_map (fst (load_bookmarks env (bs_path st) d'))) = map_of (bs_map st)"
    and "snd (load_bookmarks env (bs_path st) d') = d'"
proof -
  have parsed: "bookmark_file_of_json (bookmarks_json env (bs_map st)) =
      Some (1, map (\<lambda>(k, v). (k, dk_b64 env v)) (bs_map st))"
    by (simp add: bookmark_file_of_json_def bookmarks_json_def string_map_encoded scalar_codec)
  have "try_load env (bs_path st) d' = Inr (fold (\<lambda>(k, b). AList.update k b) (bs_map st) [])"
    using codec(1) readable save_bookmarks_done [OF saved]
    by (simp add: try_load_def read_text_def text_law_def parsed decode_encoded [OF codec(2)])
  moreover have "map_of (rev (bs_map st)) = map_of (bs_map st)"
    using keys by (intro map_of_inject_set [THEN iffD2]) (auto simp: distinct_keys_def rev_map [symmetric])
  ultimately show "map_of (bs_map (fst (load_bookmarks env (bs_path st) d'))) = map_of (bs_map st)"
    "snd (load_bookmarks env (bs_path st) d') = d'"
    by (simp_all add: load_bookmarks_def fold_update_map_of)
qed

datatype store_op = PutBookmark string string | DropBookmark string

fun store_apply :: "desk_env \<Rightarrow> store_op \<Rightarrow> bookmark_store \<times> disk \<Rightarrow> string option \<times> bookmark_store \<times> disk" where
  "store_apply env (PutBookmark k v) sd = bookmark_insert env k v sd"
| "store_apply env (DropBookmark k) sd = bookmark_remove env k sd"

fun store_run :: "desk_env \<Rightarrow> store_op list \<Rightarrow> bookmark_store \<times> disk \<Rightarrow> bookmark_store \<times> disk" where
  "store_run env [] sd = sd"
| "store_run env (x # xs) sd = store_run env xs (snd (store_apply env x sd))"

fun op_effect :: "store_op \<Rightarrow> (string \<rightharpoonup> string) \<Rightarrow> (string \<rightharpoonup> string)" where
  "op_effect (PutBookmark k v) m = m(k \<mapsto> v)"
| "op_effect (DropBookmark k) m = m(k := None)"

lemma store_apply_effect:
  assumes "store_apply env x (st, d) = (r, st', d')"
  shows "map_of (bs_map st') = op_effect x (map_of (bs_map st))" "bs_path st' = bs_path st"
    "distinct_keys st \<Longrightarrow> distinct_keys st'" "save_bookmarks env st' d = (r, d')"
  using assms
  by (cases x; auto simp: bookmark_insert_def bookmark_remove_def Let_def distinct_keys_def update_conv' delete_conv'
      distinct_update distinct_delete split: prod.splits)+

lemma store_run_effect:
  "store_run env xs (st, d) = (st', d') \<Longrightarrow>
     map_of (bs_map st') = fold op_effect xs (map_of (bs_map st)) \<and> bs_path st' = bs_path st \<and>
     (distinct_keys st \<longrightarrow> distinct_keys st')"
proof (induction xs arbitrary: st d)
  case (Cons x xs)
  obtain r st1 d1 where x: "store_apply env x (st, d) = (r, st1, d1)" by (metis surj_pair)
  with Cons.prems have "store_run env xs (st1, d1) = (st', d')" by simp
  note rest = Cons.IH [OF this]
  note here = store_apply_effect(1-3) [OF x]
  have "distinct_keys st \<longrightarrow> distinct_keys st'" using rest here(3) by blast
  then show ?case
    using rest unfolding here(1,2) fold_simps by blast
qed simp


text \<open>Files that can be written, texts in unary and paths that are canonical, for the examples.\<close>

definition sample_desk :: desk_env where
  "sample_desk =
     \<lparr>dk_codec = unary_codec, dk_b64 = id, dk_unb64 = Some, dk_readable = (\<lambda>_. True), dk_mkdir = (\<lambda>_. None),
      dk_write = (\<lambda>_. None), dk_rename = (\<lambda>_ _. None), dk_canonical = Inr, dk_seconds = 0\<rparr>"


text \<open>
  A file of another version is left in place when it is loaded; the next insertion replaces it by a file with the
  new bookmark only.
\<close>

lemma newer_bookmarks_lost:
  assumes content: "read_text env d p = Some data"
    and version: "Option.bind (tc_parse (dk_codec env) data) bookmark_file_of_json = Some (v, m)" "v \<noteq> 1"
    and put: "bookmark_insert env k b (load_bookmarks env p d) = (None, st', d')"
  shows "snd (load_bookmarks env p d) = d"
    and "d' p = Some (tc_print (dk_codec env) (bookmarks_json env [(k, b)]))"
proof -
  have load: "load_bookmarks env p d = (\<lparr>bs_path = p, bs_map = []\<rparr>, d)"
    using content version by (simp add: load_bookmarks_def try_load_def)
  then show "snd (load_bookmarks env p d) = d" by simp
  have "save_bookmarks env \<lparr>bs_path = p, bs_map = [(k, b)]\<rparr> d = (None, d')"
    using put by (auto simp: load bookmark_insert_def Let_def split: prod.splits)
  from save_bookmarks_done [OF this] show "d' p = Some (tc_print (dk_codec env) (bookmarks_json env [(k, b)]))"
    by simp
qed

section \<open>Properties of the commands\<close>

text \<open>
  C36: A file is handed to the system only when a bookmark of its mount is stored and resolves, and
  only at a canonical path inside the canonical mount: whatever the relative path says, links and dots included, an open
  either hands over one such path or none, with an error; the bookmarks change in one
  case only, a stale bookmark, which is removed.
\<close>
theorem opened_inside_mount:
  assumes "open_file_inner env api target st = (r, st')"
  shows "ds_opened st' = ds_opened st \<and> r \<noteq> Inr () \<and>
      (ds_store st' = ds_store st \<or>
       (\<exists>data. bookmark_get (ds_store st) (ot_local_mount_path target) = Some data \<and> ma_resolve api data = Inl Stale \<and>
          bookmark_get (ds_store st') (ot_local_mount_path target) = None \<and>
          (\<forall>m. m \<noteq> ot_local_mount_path target \<longrightarrow> bookmark_get (ds_store st') m = bookmark_get (ds_store st) m))) \<or>
    (\<exists>data place mount p. bookmark_get (ds_store st) (ot_local_mount_path target) = Some data \<and>
       ma_resolve api data = Inr place \<and> dk_canonical env (ot_local_mount_path target) = Inr mount \<and>
       dk_canonical env (path_join mount (ot_relative_path target)) = Inr p \<and> path_starts_with p mount \<and>
       ds_opened st' = p # ds_opened st \<and> (r = Inr () \<longleftrightarrow> ma_open api p) \<and>
       ds_store st' = ds_store st \<and> ds_disk st' = ds_disk st)"
proof -
  let ?mount = "ot_local_mount_path target"
  have dropped: "bookmark_get (ds_store (snd (drop_bookmark env ?mount st))) m =
      (if m = ?mount then None else bookmark_get (ds_store st) m)"
    "ds_opened (snd (drop_bookmark env ?mount st)) = ds_opened st" for m
    by (auto simp: drop_bookmark_def bookmark_remove_def bookmark_get_def Let_def delete_conv' split: prod.split)
  consider "bookmark_get (ds_store st) ?mount = None"
    | data e where "bookmark_get (ds_store st) ?mount = Some data" "dk_canonical env ?mount = Inl e"
    | data m e where "bookmark_get (ds_store st) ?mount = Some data" "dk_canonical env ?mount = Inr m" "ma_resolve api data = Inl e"
    | data m q where "bookmark_get (ds_store st) ?mount = Some data" "dk_canonical env ?mount = Inr m" "ma_resolve api data = Inr q"
    by (metis not_None_eq sum.exhaust)
  then show ?thesis
  proof cases
    case (3 data m e)
    then show ?thesis
      using assms dropped by (cases e) (auto simp: open_file_inner_def Let_def)
  next
    case (4 data m q)
    then show ?thesis
      using assms by (auto simp: open_file_inner_def Let_def split: sum.splits canon_error.splits if_splits)
  qed (use assms in \<open>auto simp: open_file_inner_def Let_def\<close>)
qed

theorem opened_inside_mount_witness:
  "let st = \<lparr>ds_store = \<lparr>bs_path = ''/d/b'', bs_map = [(''/m'', ''x'')]\<rparr>, ds_disk = Map.empty, ds_opened = []\<rparr>;
       target = \<lparr>ot_node_id = ''n'', ot_local_mount_path = ''/m'', ot_relative_path = ''f''\<rparr>;
       api = \<lparr>ma_create = Inr, ma_resolve = Inr, ma_open = (\<lambda>_. True)\<rparr>
   in ds_opened (snd (open_file_inner sample_desk api target st)) = [''/m/f'']"
proof -
  let ?st = "\<lparr>ds_store = \<lparr>bs_path = ''/d/b'', bs_map = [(''/m'', ''x'')]\<rparr>, ds_disk = Map.empty, ds_opened = []\<rparr> :: desk_state"
  let ?target = "\<lparr>ot_node_id = ''n'', ot_local_mount_path = ''/m'', ot_relative_path = ''f''\<rparr>"
  let ?api = "\<lparr>ma_create = Inr, ma_resolve = Inr, ma_open = (\<lambda>_. True)\<rparr>"
  obtain r st' where st': "open_file_inner sample_desk ?api ?target ?st = (r, st')" by (metis surj_pair)
  have "r = Inr ()"
    using st' by (auto simp: open_file_inner_def Let_def sample_desk_def bookmark_get_def path_join_def starts_with_def
        path_starts_with_def path_components_def)
  with opened_inside_mount [OF st'] have "ds_opened st' = [path_join ''/m'' ''f'']"
    by (auto simp: sample_desk_def)
  then show ?thesis by (simp add: st' path_join_def starts_with_def)
qed

text \<open>
  The watch paths the window lists, after a load of the settings that the files hold. What the store writes lies beside
  the settings.
\<close>

lemma with_extension_bookmarks:
  "with_extension (path_join dir ''bookmarks.json'') ''json.tmp'' = path_join dir ''bookmarks.json.tmp''"
proof -
  have slash: "rsplit_once (CHR ''/'') (a @ ''/bookmarks.json'') = Some (a, ''bookmarks.json'')" for a
    by (simp add: rsplit_once_Some)
  have dot: "rsplit_once (CHR ''.'') ''bookmarks.json'' = Some (''bookmarks'', ''json'')"
    by (simp add: rsplit_once_Some)
  have none: "rsplit_once (CHR ''/'') ''bookmarks.json'' = None" by (simp add: rsplit_once_None)
  consider "dir = []" | a where "dir = a @ ''/''" | "dir \<noteq> []" "last dir \<noteq> CHR ''/''"
    by (metis append_butlast_last_id)
  then show ?thesis
  proof cases
    case 1
    then show ?thesis by (simp add: with_extension_def path_join_def starts_with_def none dot)
  next
    case (2 a)
    then have "path_join dir ''bookmarks.json'' = a @ ''/bookmarks.json''"
      "path_join dir ''bookmarks.json.tmp'' = a @ ''/bookmarks.json.tmp''"
      by (simp_all add: path_join_def starts_with_def)
    then show ?thesis by (simp only: with_extension_def slash) (simp add: dot)
  next
    case 3
    then have "path_join dir ''bookmarks.json'' = dir @ ''/bookmarks.json''"
      "path_join dir ''bookmarks.json.tmp'' = dir @ ''/bookmarks.json.tmp''"
      by (simp_all add: path_join_def starts_with_def)
    then show ?thesis by (simp only: with_extension_def slash) (simp add: dot)
  qed
qed

lemma path_join_inject: "path_join dir p = path_join dir q \<Longrightarrow> \<not> starts_with p ''/'' \<Longrightarrow> \<not> starts_with q ''/'' \<Longrightarrow> p = q"
  by (auto simp: path_join_def split: if_splits)

lemma settings_apart:
  "settings_path dir \<noteq> path_join dir ''bookmarks.json''" "settings_path dir \<noteq> path_join dir ''bookmarks.json.tmp''"
  using path_join_inject [of dir "''settings.json''" "''bookmarks.json''"]
    path_join_inject [of dir "''settings.json''" "''bookmarks.json.tmp''"]
  by (auto simp: settings_path_def starts_with_def)

lemma save_bookmarks_elsewhere:
  assumes "save_bookmarks env s d = (r, d')" "bs_path s = path_join dir ''bookmarks.json''"
  shows "d' (settings_path dir) = d (settings_path dir)"
  using assms settings_apart [of dir]
  by (auto simp: save_bookmarks_def Let_def with_extension_bookmarks split: option.splits)

lemma load_settings_cong: "d' (settings_path dir) = d (settings_path dir) \<Longrightarrow> load_settings env dir d' = load_settings env dir d"
  by (simp add: load_settings_def read_text_def)

lemma put_bookmark_effect:
  assumes "put_bookmark env k v st = (r, st')" "bs_path (ds_store st) = path_join dir ''bookmarks.json''"
  shows "load_settings env dir (ds_disk st') = load_settings env dir (ds_disk st)"
    "bookmark_get (ds_store st') = (bookmark_get (ds_store st))(k \<mapsto> v)"
    "bs_path (ds_store st') = path_join dir ''bookmarks.json''"
proof -
  obtain d where save: "save_bookmarks env ((ds_store st)\<lparr>bs_map := AList.update k v (bs_map (ds_store st))\<rparr>) (ds_disk st) = (r, d)"
    and st': "st' = st\<lparr>ds_store := (ds_store st)\<lparr>bs_map := AList.update k v (bs_map (ds_store st))\<rparr>, ds_disk := d\<rparr>"
    using assms(1) by (auto simp: put_bookmark_def bookmark_insert_def Let_def split: prod.splits)
  have "d (settings_path dir) = ds_disk st (settings_path dir)"
    by (rule save_bookmarks_elsewhere [OF save]) (simp add: assms(2))
  from load_settings_cong [where env = env and dir = dir and d = "ds_disk st" and d' = d, OF this]
  show "load_settings env dir (ds_disk st') = load_settings env dir (ds_disk st)" by (simp add: st')
  show "bookmark_get (ds_store st') = (bookmark_get (ds_store st))(k \<mapsto> v)"
    by (rule ext) (simp add: st' bookmark_get_def update_conv')
  show "bs_path (ds_store st') = path_join dir ''bookmarks.json''" by (simp add: st' assms(2))
qed

lemma drop_bookmark_effect:
  assumes "drop_bookmark env k st = (r, st')" "bs_path (ds_store st) = path_join dir ''bookmarks.json''"
  shows "load_settings env dir (ds_disk st') = load_settings env dir (ds_disk st)"
    "bookmark_get (ds_store st') = (bookmark_get (ds_store st))(k := None)"
    "bs_path (ds_store st') = path_join dir ''bookmarks.json''"
proof -
  obtain d where save: "save_bookmarks env ((ds_store st)\<lparr>bs_map := AList.delete k (bs_map (ds_store st))\<rparr>) (ds_disk st) = (r, d)"
    and st': "st' = st\<lparr>ds_store := (ds_store st)\<lparr>bs_map := AList.delete k (bs_map (ds_store st))\<rparr>, ds_disk := d\<rparr>"
    using assms(1) by (auto simp: drop_bookmark_def bookmark_remove_def Let_def split: prod.splits)
  have "d (settings_path dir) = ds_disk st (settings_path dir)"
    by (rule save_bookmarks_elsewhere [OF save]) (simp add: assms(2))
  from load_settings_cong [where env = env and dir = dir and d = "ds_disk st" and d' = d, OF this]
  show "load_settings env dir (ds_disk st') = load_settings env dir (ds_disk st)" by (simp add: st')
  show "bookmark_get (ds_store st') = (bookmark_get (ds_store st))(k := None)"
    by (rule ext) (simp add: st' bookmark_get_def delete_conv')
  show "bs_path (ds_store st') = path_join dir ''bookmarks.json''" by (simp add: st' assms(2))
qed

lemma settings_roundtrip: "settings_of_json (settings_to_json s) = Some s"
proof -
  have "str_array (JArr (map JStr xs)) = Some xs" for xs
    by (simp add: str_array_def comp_def those_Some)
  then show ?thesis
    by (simp add: settings_of_json_def settings_to_json_def default_str_def default_strs_def)
qed

lemma saved_settings_load:
  assumes "text_law (dk_codec env)" "dk_readable env (settings_path dir)"
    and "save_settings_file env dir s d = (None, d')"
  shows "load_settings env dir d' = s"
  using assms
  by (auto simp: save_settings_file_def load_settings_def read_text_def text_law_def settings_roundtrip split: option.splits)

lemma listed_paths:
  "map wp_path (list_watch_paths_inner env dir s) = se_watch_paths (load_settings env dir (ds_disk s))"
  by (simp add: list_watch_paths_inner_def comp_def)

lemma added_path_listed:
  assumes codec: "text_law (dk_codec env)" and readable: "dk_readable env (settings_path dir)"
    and store: "bs_path (ds_store st) = path_join dir ''bookmarks.json''"
    and added: "add_watch_path_inner env api dir selection st = (Inr (), st')"
  shows "\<exists>key data. dk_canonical env selection = Inr key \<and> ma_create api key = Inr data \<and>
    bookmark_get (ds_store st') = (bookmark_get (ds_store st))(key \<mapsto> data) \<and>
    map wp_path (list_watch_paths_inner env dir st') =
      (let ps = map wp_path (list_watch_paths_inner env dir st) in if key \<in> set ps then ps else ps @ [key]) \<and>
    (\<forall>e \<in> set (list_watch_paths_inner env dir st'). wp_path e = key \<longrightarrow> wp_authorized e)"
proof -
  from added obtain key data st1 where key: "dk_canonical env selection = Inr key" "ma_create api key = Inr data"
    "put_bookmark env key data st = (None, st1)"
    by (auto simp: add_watch_path_inner_def split: sum.splits canon_error.splits prod.splits option.splits)
  note put = put_bookmark_effect [OF key(3) store]
  define s where "s = load_settings env dir (ds_disk st)"
  define s' where "s' = (if key \<in> set (se_watch_paths s) then s else s\<lparr>se_watch_paths := se_watch_paths s @ [key]\<rparr>)"
  obtain d where saved: "save_settings_file env dir s' (ds_disk st1) = (None, d)" "st' = st1\<lparr>ds_disk := d\<rparr>"
    using added key put(1)
    by (auto simp: add_watch_path_inner_def Let_def s_def s'_def split: prod.splits option.splits cong: if_cong)
  have now: "load_settings env dir (ds_disk st') = s'"
    using saved_settings_load [OF codec readable saved(1)] saved(2) by simp
  have marks: "bookmark_get (ds_store st') = (bookmark_get (ds_store st))(key \<mapsto> data)"
    using put(2) saved(2) by simp
  moreover have "map wp_path (list_watch_paths_inner env dir st') =
      (let ps = map wp_path (list_watch_paths_inner env dir st) in if key \<in> set ps then ps else ps @ [key])"
    unfolding listed_paths now by (simp add: s'_def s_def)
  moreover have "\<forall>e \<in> set (list_watch_paths_inner env dir st'). wp_path e = key \<longrightarrow> wp_authorized e"
    by (auto simp: list_watch_paths_inner_def marks)
  ultimately show ?thesis using key(1,2) by blast
qed

lemma removed_path_gone:
  assumes codec: "text_law (dk_codec env)" and readable: "dk_readable env (settings_path dir)"
    and store: "bs_path (ds_store st) = path_join dir ''bookmarks.json''"
    and removed: "remove_watch_path_inner env dir path st = (Inr (), st')"
  shows "bookmark_get (ds_store st') = (bookmark_get (ds_store st))(path := None) \<and>
    list_watch_paths_inner env dir st' = filter (\<lambda>e. wp_path e \<noteq> path) (list_watch_paths_inner env dir st)"
proof -
  define s' where "s' = (load_settings env dir (ds_disk st))\<lparr>se_watch_paths :=
    filter (\<lambda>p. p \<noteq> path) (se_watch_paths (load_settings env dir (ds_disk st)))\<rparr>"
  obtain d where saved: "save_settings_file env dir s' (ds_disk st) = (None, d)"
    "st' = snd (drop_bookmark env path (st\<lparr>ds_disk := d\<rparr>))"
    using removed by (auto simp: remove_watch_path_inner_def Let_def s'_def split: prod.splits option.splits)
  obtain r where "drop_bookmark env path (st\<lparr>ds_disk := d\<rparr>) = (r, st')" using saved(2) by (metis prod.collapse)
  note drop = drop_bookmark_effect [OF this, of dir, simplified, OF store]
  have now: "load_settings env dir (ds_disk st') = s'"
    using saved_settings_load [OF codec readable saved(1)] drop(1) by simp
  have marks: "bookmark_get (ds_store st') = (bookmark_get (ds_store st))(path := None)" using drop(2) by simp
  show ?thesis
    unfolding list_watch_paths_inner_def now s'_def marks by (simp add: filter_map comp_def)
qed

text \<open>The loop over the watch paths drops stale bookmarks on its way and never adds one.\<close>

lemma opened_paths_marked:
  assumes "\<forall>w data. bookmark_get (ds_store s) w = Some data \<longrightarrow> marks w = Some data"
  shows "\<forall>p \<in> set (fst (open_paths_loop env api ws s)). \<exists>w data. w \<in> set ws \<and>
    marks w = Some data \<and> ma_resolve api data = Inr p"
  using assms
proof (induction ws arbitrary: s)
  case (Cons w ws)
  have "\<forall>v data. bookmark_get (ds_store (snd (drop_bookmark env w s))) v = Some data \<longrightarrow> marks v = Some data"
    using Cons.prems
    by (auto simp: drop_bookmark_def bookmark_remove_def bookmark_get_def Let_def delete_conv' split: prod.split if_splits)
  then show ?case
    using Cons.IH [OF Cons.prems] Cons.IH [of "snd (drop_bookmark env w s)"] Cons.prems
    by (auto split: option.split sum.split resolve_error.split prod.split) (metis fst_conv)+
qed simp



text \<open>
  When the settings cannot be written, the bookmark of the path is removed even if the path was a watch path before,
  which it stays without a bookmark.
\<close>

lemma readded_path_loses_bookmark:
  assumes "dk_canonical env selection = Inr key" "ma_create api key = Inr data"
    and "put_bookmark env key data st = (None, st1)" "dk_mkdir env dir = Some e"
  shows "add_watch_path_inner env api dir selection st =
      (Inl (SettingsFailed e), snd (drop_bookmark env key st1))"
    and "bookmark_get (ds_store (snd (drop_bookmark env key st1))) key = None"
  using assms
  by (auto simp: add_watch_path_inner_def Let_def save_settings_file_def drop_bookmark_def bookmark_remove_def
      bookmark_get_def delete_conv' split: prod.split cong: if_cong)

section \<open>Properties of the connection\<close>

text \<open>
  The URL parser reports no port for the default one of the scheme, so an explicit port 80 is replaced by
  CouchDB's.
\<close>

lemma explicit_default_port_replaced:
  assumes "ul_parse ul ''http://h:80'' = Inr u" "ur_port u = None" "ur_scheme u = ''http''" "ur_host u = Some ''h''"
    and "ul_set_port ul u 5984 = Some u'"
  shows "normalize_couchdb_url ul ''http://h:80'' =
    Inr (trim_end (CHR ''/'') (ul_print ul (u'\<lparr>ur_path := [], ur_query := None, ur_fragment := None\<rparr>)))"
proof -
  have "trim ''http://h:80'' = ''http://h:80''"
    by (simp add: trim_def strip_any.simps ws_chars_def starts_with_def char_of_def)
  moreover have "contains_str ''://'' ''http://h:80'' \<or> \<not> contains_str ''://'' ''http://h:80''" by blast
  moreover have "contains_str ''://'' ''http://h:80''" by code_simp
  ultimately show ?thesis using assms by (simp add: normalize_couchdb_url_def Let_def)
qed

text \<open>
  Nothing is stored for a connection that has not just been tested; what is stored keeps the watch paths, and it is
  stored even when the server cannot be built with it.
\<close>

lemma saved_settings_tested:
  assumes "save_settings env ul probe build dir url user pw (slot, d) = (r, slot', d')"
  shows "d' = d \<or> (\<exists>n s. test_connection ul probe url user pw = Inr n \<and>
      s = (load_settings env dir d)\<lparr>se_couchdb_url := n, se_couchdb_user := user, se_couchdb_password := pw\<rparr> \<and>
      d' = d(settings_path dir \<mapsto> tc_print (dk_codec env) (settings_to_json s)) \<and>
      (r = Inr () \<longleftrightarrow> (\<exists>router. build s = Inr router)))"
    and "(\<forall>router. slot' = Some router \<longrightarrow> slot = Some router \<or> r = Inr ())"
  using assms
  by (auto simp: save_settings_def save_settings_file_def Let_def split: sum.splits option.splits prod.splits)

end
