(* ===== verification/Agent_Start.thy ===== *)
theory Agent_Start
  imports Crawler Node_Agent Notifications Server_Boot
begin

text \<open>
  The run of the agent: the identity of the machine (\<open>machine_id.rs\<close>) and of the node, the start up to the
  first crawl and the loop of \<open>start_agent\<close> in the agent's \<open>start.rs\<close>, one tick of each timer as
  a function, and the watch paths as they are configured (\<open>watch_path_provider.rs\<close>). Timers and signals give the order of
  the ticks, which is a list; the environment of each tick comes with it.
\<close>

section \<open>Identities\<close>

text \<open>
  The files a process sees; \<open>fe_toml\<close> gives the field \<open>node_id\<close> of a TOML text, if it is a string.
\<close>

record file_env =
  fe_readable :: "string \<Rightarrow> bool"
  fe_mkdir :: "string \<Rightarrow> bool"
  fe_writable :: "string \<Rightarrow> bool"
  fe_uuid :: string
  fe_toml :: "string \<Rightarrow> string option"

type_synonym text_files = "string \<rightharpoonup> string"

definition DEFAULT_STATE_DIR :: string where "DEFAULT_STATE_DIR = ''/var/lib/mosaicfs''"

text \<open>\<open>None\<close>: an I/O error, which ends the start.\<close>

definition resolve_node_id :: "file_env \<Rightarrow> string option \<Rightarrow> string \<Rightarrow> text_files \<Rightarrow> string option \<times> text_files" where
  "resolve_node_id env from_config state_dir fs =
     (case from_config of
        Some i \<Rightarrow> (Some i, fs)
      | None \<Rightarrow>
          (let node_id_file = path_join state_dir ''node_id'' in
           case fs node_id_file of
             Some content \<Rightarrow> (if fe_readable env node_id_file then Some (trim content) else None, fs)
           | None \<Rightarrow>
               (let i = ''node-'' @ take 8 (fe_uuid env) in
                if \<not> fe_mkdir env state_dir then (None, fs)
                else if fe_writable env node_id_file then (Some i, fs(node_id_file \<mapsto> i)) else (None, fs))))"

definition persisted_path :: "environment \<Rightarrow> string" where
  "persisted_path vars =
     path_join (path_join
       (case vars ''HOME'' of Some h \<Rightarrow> h
        | None \<Rightarrow> (case vars ''USERPROFILE'' of Some h \<Rightarrow> h | None \<Rightarrow> ''.'')) ''.mosaicfs'') ''node-id.toml''"

text \<open>The line that is written; a failure to write it is ignored.\<close>

definition toml_id_line :: "string \<Rightarrow> string" where
  "toml_id_line i = ''node_id = '' @ [CHR 34] @ i @ [CHR 34, CHR 0x0A]"

definition persisted_id :: "file_env \<Rightarrow> environment \<Rightarrow> text_files \<Rightarrow> string \<times> text_files" where
  "persisted_id env vars fs =
     (let path = persisted_path vars;
          stored = Option.bind (if fe_readable env path then fs path else None) (fe_toml env)
      in case stored of
           Some i \<Rightarrow>
             if i \<noteq> [] then (i, fs)
             else (fe_uuid env, if fe_writable env path then fs(path \<mapsto> toml_id_line (fe_uuid env)) else fs)
         | None \<Rightarrow>
             (fe_uuid env, if fe_writable env path then fs(path \<mapsto> toml_id_line (fe_uuid env)) else fs))"

text \<open>On Linux the platform identifier is the trimmed content of a file.\<close>

definition platform_id :: "file_env \<Rightarrow> text_files \<Rightarrow> string option" where
  "platform_id env fs =
     (case (if fe_readable env ''/etc/machine-id'' then fs ''/etc/machine-id'' else None) of
        Some s \<Rightarrow> if trim s \<noteq> [] then Some (trim s) else None
      | None \<Rightarrow> None)"

definition machine_id_get :: "file_env \<Rightarrow> environment \<Rightarrow> text_files \<Rightarrow> string \<times> text_files" where
  "machine_id_get env vars fs =
     (let other = (case platform_id env fs of Some i \<Rightarrow> (i, fs) | None \<Rightarrow> persisted_id env vars fs) in
      case vars ''MOSAICFS_MACHINE_ID'' of
        Some i \<Rightarrow> if i \<noteq> [] then (i, fs) else other
      | None \<Rightarrow> other)"

section \<open>Health checks\<close>

text \<open>
  The two numbers are the limits of watches and of instances, as the files of the kernel give them.
\<close>

definition read_limit :: "(string \<rightharpoonup> string) \<Rightarrow> string \<Rightarrow> u64 option" where
  "read_limit fs path = Option.bind (fs path) (\<lambda>s. parse_u64 (trim s))"

definition u64_text :: "u64 \<Rightarrow> string" where
  "u64_text n = nat_str (unat n)"

definition check_inotify_limits :: "'s couch \<Rightarrow> string \<Rightarrow> text_files \<Rightarrow> string \<Rightarrow> 's \<Rightarrow> unit option \<times> 's" where
  "check_inotify_limits db node_id fs now s =
     (case (read_limit fs ''/proc/sys/fs/inotify/max_user_watches'', read_limit fs ''/proc/sys/fs/inotify/max_user_instances'') of
        (Some max_w, Some cur) \<Rightarrow>
          if 0 < max_w \<and> max_w * 80 div 100 < cur
          then (Some (), emit_notification db node_id ''system'' ''inotify_limit_approaching'' ''warning''
                  ''inotify watch limit approaching''
                  (''Using ~'' @ u64_text cur @ '' of '' @ u64_text max_w @ '' max inotify watches.'') None now s)
          else resolve_notification db node_id ''inotify_limit_approaching'' now s
      | _ \<Rightarrow> (Some (), s))"

text \<open>Blocks in all and available; the arithmetic is of 64 bits and the percentage of 32.\<close>

definition usage_percent :: "u64 \<Rightarrow> u64 \<Rightarrow> 32 word" where
  "usage_percent blocks avail = (if blocks = 0 then 0 else ucast ((blocks - avail) * 100 div blocks))"

fun check_storage_capacity ::
  "'s couch \<Rightarrow> string \<Rightarrow> (string \<Rightarrow> (u64 \<times> u64) option) \<Rightarrow> string \<Rightarrow> string list \<Rightarrow> 's \<Rightarrow> unit option \<times> 's" where
  "check_storage_capacity db node_id statvfs now [] s = resolve_notification db node_id ''storage_near_capacity'' now s"
| "check_storage_capacity db node_id statvfs now (p # ps) s =
     (case statvfs p of
        Some (blocks, avail) \<Rightarrow>
          if 90 \<le> usage_percent blocks avail
          then (Some (), emit_notification db node_id ''storage'' ''storage_near_capacity'' ''warning'' ''Storage near capacity''
                  (''Disk usage at '' @ nat_str (unat (usage_percent blocks avail)) @ ''% for '' @ p @ ''.'') None now s)
          else check_storage_capacity db node_id statvfs now ps s
      | None \<Rightarrow> check_storage_capacity db node_id statvfs now ps s)"

section \<open>The start\<close>

datatype start_error =
  NoAgentSection
| NoIdentity
| NoSecret secret_error
| NoDatabase couch_error
| NotRegistered agent_failure
| NotCrawled crawl_error

record agent_world =
  aw_files :: file_env
  aw_node :: node_env
  aw_crawl :: crawl_env
  aw_open :: "string + string list"

text \<open>A provider that fails opens nothing; the one of the configured paths gives them as they are.\<close>

definition opened_paths :: "string + string list \<Rightarrow> string list" where
  "opened_paths r = (case r of Inr ps \<Rightarrow> ps | Inl _ \<Rightarrow> [])"

definition bare_open :: "string list \<Rightarrow> string + string list" where
  "bare_open configured = Inr configured"

definition first_crawl_message :: "crawl_result \<Rightarrow> string" where
  "first_crawl_message r =
     ''Indexed '' @ u64_text (files_new r) @ '' new, '' @ u64_text (files_updated r) @ '' updated, '' @
     u64_text (files_deleted r) @ '' deleted files.''"

definition first_crawl ::
  "libs \<Rightarrow> agent_world \<Rightarrow> 's couch \<Rightarrow> string \<Rightarrow> agent_config \<Rightarrow> 's \<Rightarrow> (start_error + unit) \<times> 's" where
  "first_crawl lb w db node_id ac s =
     (case crawl lb (aw_crawl w) db node_id (opened_paths (aw_open w)) (ac_excluded_paths ac) s of
        Inl (e, s1) \<Rightarrow> (Inl (NotCrawled e), s1)
      | Inr (r, s1) \<Rightarrow>
          (Inr (), emit_notification db node_id ''crawler'' ''first_crawl_complete'' ''info'' ''Initial crawl complete''
             (first_crawl_message r) None (ne_now (aw_node w)) s1))"

text \<open>Up to the loop; the node and its database are the result.\<close>

definition start_agent ::
  "libs \<Rightarrow> agent_world \<Rightarrow> 's connector \<Rightarrow> mosaicfs_config \<Rightarrow> (string \<Rightarrow> secret_error + string) \<Rightarrow>
     text_files \<times> 's \<Rightarrow> (start_error + string \<times> 's couch) \<times> text_files \<times> 's" where
  "start_agent lb w connect cfg secret st =
     (case mc_agent cfg of
        None \<Rightarrow> (Inl NoAgentSection, st)
      | Some ac \<Rightarrow>
          (case resolve_node_id (aw_files w) (mc_node_id cfg) (unwrap_or (ac_state_dir ac) DEFAULT_STATE_DIR) (fst st) of
             (None, fs) \<Rightarrow> (Inl NoIdentity, fs, snd st)
           | (Some node_id, fs) \<Rightarrow>
               (case client_of secret of
                  Inl e \<Rightarrow> (Inl (NoSecret e), fs, snd st)
                | Inr c \<Rightarrow>
                    (let (db, adm) = connect c in
                     case da_ensure_db adm (snd st) of
                       (Inl e, s1) \<Rightarrow> (Inl (NoDatabase e), fs, s1)
                     | (Inr _, s1) \<Rightarrow>
                         (case register_node (aw_node w) db node_id (ac_watch_paths ac) s1 of
                            (Inl e, s2) \<Rightarrow> (Inl (NotRegistered e), fs, s2)
                          | (Inr _, s2) \<Rightarrow>
                              (case first_crawl lb w db node_id ac s2 of
                                 (Inl e, s3) \<Rightarrow> (Inl e, fs, s3)
                               | (Inr _, s3) \<Rightarrow> (Inr (node_id, db), fs, s3)))))))"

section \<open>The loop\<close>

datatype agent_tick =
  HeartbeatTick node_env
| CrawlTick crawl_env "string + string list"
| HealthTick text_files "string \<Rightarrow> (u64 \<times> u64) option" string

text \<open>
  One turn of the loop. A failed operation is logged; \<open>None\<close> is a panic, or an inode search without end.
\<close>

fun agent_turn :: "libs \<Rightarrow> 's couch \<Rightarrow> string \<Rightarrow> agent_config \<Rightarrow> agent_tick \<Rightarrow> 's \<Rightarrow> 's option" where
  "agent_turn lb db node_id ac (HeartbeatTick env) s =
     (case agent_heartbeat env db node_id s of (Inl AgentPanic, s1) \<Rightarrow> None | (_, s1) \<Rightarrow> Some s1)"
| "agent_turn lb db node_id ac (CrawlTick env opened) s =
     (case crawl lb env db node_id (opened_paths opened) (ac_excluded_paths ac) s of
        Inl (CrawlFailed _, s1) \<Rightarrow> Some s1 | Inl (_, s1) \<Rightarrow> None | Inr (_, s1) \<Rightarrow> Some s1)"
| "agent_turn lb db node_id ac (HealthTick fs statvfs now) s =
     (case check_inotify_limits db node_id fs now s of
        (None, s1) \<Rightarrow> None
      | (Some _, s1) \<Rightarrow>
          (case check_storage_capacity db node_id statvfs now (ac_watch_paths ac) s1 of
             (None, s2) \<Rightarrow> None | (Some _, s2) \<Rightarrow> Some s2))"

fun agent_loop :: "libs \<Rightarrow> 's couch \<Rightarrow> string \<Rightarrow> agent_config \<Rightarrow> agent_tick list \<Rightarrow> 's \<Rightarrow> 's option" where
  "agent_loop lb db node_id ac [] s = Some s"
| "agent_loop lb db node_id ac (t # ts) s =
     (case agent_turn lb db node_id ac t s of None \<Rightarrow> None | Some s1 \<Rightarrow> agent_loop lb db node_id ac ts s1)"

text \<open>The ticks until the shutdown signal, and the last writes.\<close>

definition agent_run ::
  "libs \<Rightarrow> 's couch \<Rightarrow> string \<Rightarrow> agent_config \<Rightarrow> agent_tick list \<Rightarrow> node_env \<Rightarrow> 's \<Rightarrow> 's agent_result option" where
  "agent_run lb db node_id ac ticks last_env s =
     map_option (\<lambda>s1. set_offline last_env db node_id s1) (agent_loop lb db node_id ac ticks s)"

section \<open>Properties\<close>

text \<open>The characters of an identifier: none of them is white space.\<close>

definition id_char :: "char \<Rightarrow> bool" where
  "id_char c \<longleftrightarrow> is_ascii_alphanumeric c \<or> c = CHR ''-''"

lemma ws_not_id: "\<forall>w \<in> set ws_chars. \<not> id_char (hd w)" "\<forall>w \<in> set (map rev ws_chars). \<not> id_char (hd w)"
  by code_simp+

lemma trim_id:
  assumes "s \<noteq> []" "\<forall>c \<in> set s. id_char c"
  shows "trim s = s"
proof -
  obtain c r where c: "s = c # r" using assms(1) by (cases s) auto
  obtain e q where e: "rev s = e # q" using assms(1) by (cases "rev s") auto
  have "e \<in> set s" using e by (metis list.set_intros(1) set_rev)
  then have "id_char c" "id_char e" using assms(2) c by auto
  then have "strip_any ws_chars (c # r) = c # r" "strip_any (map rev ws_chars) (e # q) = e # q"
    using ws_not_id by (auto intro!: strip_any_stop)
  then show ?thesis by (simp add: trim_def flip: c e)
qed

text \<open>The platform file and the file with the identifier of its own are not the same.\<close>

lemma persisted_not_platform: "persisted_path vars \<noteq> ''/etc/machine-id''"
proof
  assume "persisted_path vars = ''/etc/machine-id''"
  moreover have "\<exists>p. persisted_path vars = p @ ''node-id.toml''"
    unfolding persisted_path_def path_join_def [of _ "''node-id.toml''"] by (auto simp: starts_with_def)
  ultimately obtain p where "p @ ''node-id.toml'' = ''/etc/machine-id''" by metis
  then have "last (p @ ''node-id.toml'') = last ''/etc/machine-id''" by simp
  then show False by simp
qed

lemma node_id_kept:
  assumes uuid: "\<forall>c \<in> set (fe_uuid env). id_char c"
    and r: "resolve_node_id env None dir fs = (Some i, fs1)" and readable: "fe_readable env (path_join dir ''node_id'')"
  shows "resolve_node_id (env\<lparr>fe_uuid := u\<rparr>) None dir fs1 = (Some i, fs1)"
proof (cases "fs (path_join dir ''node_id'')")
  case None
  have "trim (''node-'' @ take 8 (fe_uuid env)) = ''node-'' @ take 8 (fe_uuid env)"
    using uuid by (intro trim_id) (auto simp: id_char_def is_ascii_alphanumeric_def dest: in_set_takeD)
  moreover from None r have "i = ''node-'' @ take 8 (fe_uuid env)" "fs1 = fs(path_join dir ''node_id'' \<mapsto> i)"
    by (auto simp: resolve_node_id_def Let_def split: if_splits)
  ultimately show ?thesis using readable by (simp add: resolve_node_id_def)
next
  case (Some content)
  with r have "i = trim content" "fs1 = fs" by (auto simp: resolve_node_id_def split: if_splits)
  with Some readable show ?thesis by (simp add: resolve_node_id_def)
qed

lemma persisted_id_kept:
  assumes uuid: "fe_uuid env \<noteq> []" and toml: "fe_toml env (toml_id_line (fe_uuid env)) = Some (fe_uuid env)"
    and rw: "fe_readable env (persisted_path vars)" "fe_writable env (persisted_path vars)"
    and run: "persisted_id env vars fs = (j, fs')"
  shows "persisted_id (env\<lparr>fe_uuid := u\<rparr>) vars fs' = (j, fs')"
proof -
  let ?path = "persisted_path vars"
  consider k where "Option.bind (fs ?path) (fe_toml env) = Some k" "k \<noteq> []"
    | "Option.bind (fs ?path) (fe_toml env) \<in> {None, Some []}"
    by (cases "Option.bind (fs ?path) (fe_toml env)") auto
  then show ?thesis
  proof cases
    case (1 k)
    with run rw have "j = k" "fs' = fs" by (auto simp: persisted_id_def)
    with 1 rw show ?thesis by (simp add: persisted_id_def)
  next
    case 2
    with run rw have "j = fe_uuid env" "fs' = fs(?path \<mapsto> toml_id_line (fe_uuid env))"
      by (auto simp: persisted_id_def)
    with rw toml uuid show ?thesis by (simp add: persisted_id_def)
  qed
qed

text \<open>
  C39: The identities of the node and of the machine survive restarts: whatever fresh random number the
  next start would draw, it finds the identifier the first one returned, when the files written can be
  written and read back. The random identifiers consist of letters, digits and dashes, and the TOML parser
  reads the line that was written.
\<close>
theorem identities_survive_restart:
  assumes uuid: "fe_uuid env \<noteq> []" "\<forall>c \<in> set (fe_uuid env). id_char c"
    and toml: "fe_toml env (toml_id_line (fe_uuid env)) = Some (fe_uuid env)"
  shows "(resolve_node_id env None dir fs = (Some i, fs1) \<and> fe_readable env (path_join dir ''node_id'') \<longrightarrow>
      resolve_node_id (env\<lparr>fe_uuid := u\<rparr>) None dir fs1 = (Some i, fs1)) \<and>
    (machine_id_get env vars fs = (m, fs2) \<and> fe_readable env (persisted_path vars) \<and> fe_writable env (persisted_path vars) \<longrightarrow>
      machine_id_get (env\<lparr>fe_uuid := u\<rparr>) vars fs2 = (m, fs2))"
proof (intro conjI impI; elim conjE)
  assume "resolve_node_id env None dir fs = (Some i, fs1)" "fe_readable env (path_join dir ''node_id'')"
  then show "resolve_node_id (env\<lparr>fe_uuid := u\<rparr>) None dir fs1 = (Some i, fs1)" by (rule node_id_kept [OF uuid(2)])
next
  let ?path = "persisted_path vars"
  assume m: "machine_id_get env vars fs = (m, fs2)" and rw: "fe_readable env ?path" "fe_writable env ?path"
  have platform: "platform_id (env\<lparr>fe_uuid := u\<rparr>) (fs(?path \<mapsto> t)) = platform_id env fs"
    "platform_id (env\<lparr>fe_uuid := u\<rparr>) fs = platform_id env fs" for t
    using persisted_not_platform [of vars] by (simp_all add: platform_id_def)
  have "fs2 = fs \<or> (\<exists>t. fs2 = fs(?path \<mapsto> t))"
    using m by (auto simp: machine_id_get_def persisted_id_def Let_def split: option.splits if_splits)
  then have "platform_id (env\<lparr>fe_uuid := u\<rparr>) fs2 = platform_id env fs" using platform by auto
  then show "machine_id_get (env\<lparr>fe_uuid := u\<rparr>) vars fs2 = (m, fs2)"
    using m persisted_id_kept [OF uuid(1) toml rw]
    by (auto simp: machine_id_get_def Let_def split: option.splits if_splits)
qed

definition sample_file_env :: file_env where
  "sample_file_env =
     \<lparr>fe_readable = (\<lambda>_. True), fe_mkdir = (\<lambda>_. True), fe_writable = (\<lambda>_. True), fe_uuid = ''0a1b2c3d-4e'',
      fe_toml = (\<lambda>s. Some (take (length s - 13) (drop 11 s)))\<rparr>"

theorem identities_survive_restart_witness:
  "resolve_node_id (sample_file_env\<lparr>fe_uuid := ''ffff''\<rparr>) None ''/s'' [''/s/node_id'' \<mapsto> ''node-0a1b2c3d''] =
     (Some ''node-0a1b2c3d'', [''/s/node_id'' \<mapsto> ''node-0a1b2c3d''])"
proof -
  have uuid: "fe_uuid sample_file_env \<noteq> []" "\<forall>c \<in> set (fe_uuid sample_file_env). id_char c"
    "fe_toml sample_file_env (toml_id_line (fe_uuid sample_file_env)) = Some (fe_uuid sample_file_env)"
    by (simp_all add: sample_file_env_def toml_id_line_def id_char_def is_ascii_alphanumeric_def)
  have "resolve_node_id sample_file_env None ''/s'' Map.empty =
      (Some ''node-0a1b2c3d'', [''/s/node_id'' \<mapsto> ''node-0a1b2c3d''])"
    by (simp add: resolve_node_id_def sample_file_env_def path_join_def starts_with_def Let_def)
  moreover have "fe_readable sample_file_env (path_join ''/s'' ''node_id'')" by (simp add: sample_file_env_def)
  ultimately show ?thesis
    by (rule conjunct1 [OF identities_survive_restart [OF uuid], THEN mp, OF conjI])
qed

text \<open>
  A shutdown after any ticks that went without a panic leaves the node offline and its rows out of every
  filesystem document, when its document is still there and the database takes the writes.
\<close>

lemma run_ends_offline:
  assumes laws: "reads_law db docs" "writes_law db docs" "accepts_writes db"
    and ticks: "agent_loop lb db n ac ticks s = Some s1"
    and node: "docs s1 (node_doc_id n) = Some nd" "is_object nd"
    and ids: "\<forall>i d. starts_with i ''filesystem::'' \<and> docs s1 i = Some d \<longrightarrow> jget_str ''_id'' d = Some i"
  shows "\<exists>s2 nd'. agent_run lb db n ac ticks env s = Some (Inr (), s2) \<and>
    docs s2 (node_doc_id n) = Some nd' \<and> jget_str ''status'' nd' = Some ''offline''"
proof -
  obtain s2 nd' where "set_offline env db n s1 = (Inr (), s2)" "docs s2 (node_doc_id n) = Some nd'"
    "jget_str ''status'' nd' = Some ''offline''"
    using set_offline_clears_availability [OF laws node ids, of env] by blast
  then show ?thesis by (simp add: agent_run_def ticks)
qed

text \<open>
  The inotify check compares two limits of the kernel, so that the number of watches in use has no part in
  it: with the usual limits it never warns, whatever is watched.
\<close>

lemma inotify_check_ignores_use:
  assumes "read_limit fs ''/proc/sys/fs/inotify/max_user_watches'' = Some max_w"
    and "read_limit fs ''/proc/sys/fs/inotify/max_user_instances'' = Some limit"
    and "limit \<le> max_w * 80 div 100"
  shows "check_inotify_limits db n fs now s = resolve_notification db n ''inotify_limit_approaching'' now s"
  using assms by (auto simp: check_inotify_limits_def dest: leD)

text \<open>More blocks available than there are, as a file system with reserved blocks may report, wrap around.\<close>

lemma usage_wraps: "usage_percent 100 101 = ucast (((0 :: u64) - 100) div 100)"
  by (simp add: usage_percent_def)

lemma usage_bounds:
  assumes "avail \<le> blocks" "unat blocks * 100 < 2 ^ 64" "blocks \<noteq> 0"
  shows "unat (usage_percent blocks avail) = (unat blocks - unat avail) * 100 div unat blocks"
    and "unat (usage_percent blocks avail) \<le> 100"
proof -
  have sub: "unat (blocks - avail) = unat blocks - unat avail" using assms(1) by (simp add: unat_sub)
  then have "unat (blocks - avail) * unat (100 :: u64) < 2 ^ LENGTH(64)"
    using assms(2) by (simp add: le_less_trans)
  then have prod: "unat ((blocks - avail) * 100) = (unat blocks - unat avail) * 100"
    by (subst unat_mult_lem [THEN iffD1]) (simp_all add: sub)
  then have quot: "unat ((blocks - avail) * 100 div blocks) = (unat blocks - unat avail) * 100 div unat blocks"
    by (simp add: unat_div)
  have pos: "0 < unat blocks" using assms(3) by (simp add: unat_gt_0)
  have le: "(unat blocks - unat avail) * 100 div unat blocks \<le> 100"
  proof -
    have "(unat blocks - unat avail) * 100 \<le> 100 * unat blocks" by simp
    then show ?thesis using pos by (metis div_le_mono nonzero_mult_div_cancel_right not_gr_zero)
  qed
  have "unat (usage_percent blocks avail) = (unat blocks - unat avail) * 100 div unat blocks"
    using assms(3) le quot by (simp add: usage_percent_def unsigned_ucast_eq take_bit_nat_eq_self)
  then show "unat (usage_percent blocks avail) = (unat blocks - unat avail) * 100 div unat blocks"
    "unat (usage_percent blocks avail) \<le> 100" using le by simp_all
qed

end
