(* ===== verification/Command_Line.thy ===== *)
theory Command_Line
  imports Agent_Start Secrets Config
begin

text \<open>
  The \<open>mosaicfs\<close> program: the command line, the subsystems it starts and the secrets commands
  (\<open>main.rs\<close>), the sandbox of a Linux process (\<open>sandbox.rs\<close>), the certificates of the server (\<open>tls.rs\<close>) and the
  entry point of the vfs feature (\<open>start.rs\<close> of the vfs crate). What the kernel does with the rules is
  its documented behaviour: a system call on the list fails, a file is accessible below the paths of the rules
  only.
\<close>

section \<open>The command line\<close>

definition DEFAULT_CONFIG_PATH :: string where "DEFAULT_CONFIG_PATH = ''/etc/mosaicfs/mosaicfs.toml''"

fun arg_value :: "string list \<Rightarrow> string \<Rightarrow> string option" where
  "arg_value [] name = None"
| "arg_value (a # rest) name =
     (if a = name then (case rest of [] \<Rightarrow> None | v # _ \<Rightarrow> Some v)
      else (case strip_prefix (name @ ''='') a of Some v \<Rightarrow> Some v | None \<Rightarrow> arg_value rest name))"

definition config_path_of :: "string list \<Rightarrow> string" where
  "config_path_of args = unwrap_or (arg_value args ''--config'') DEFAULT_CONFIG_PATH"

definition load_config_at ::
  "(string \<Rightarrow> json option) \<Rightarrow> bool \<Rightarrow> environment \<Rightarrow> (string \<rightharpoonup> string) \<Rightarrow> string list \<Rightarrow> (config_error + mosaicfs_config \<times> string) option" where
  "load_config_at toml macos env fs args =
     map_option (\<lambda>text. map_sum id (\<lambda>c. (c, config_path_of args)) (load_config toml macos env text)) (fs (config_path_of args))"

datatype secrets_command =
  SecretsList
| SecretsGet string
| SecretsGetUsage
| SecretsImport
| SecretsUsage
| SecretsUnknown string

datatype program_command = BootstrapCommand bool | SecretsCommand secrets_command bool | RunSubsystems

definition arg_at :: "string list \<Rightarrow> nat \<Rightarrow> string option" where
  "arg_at args i = (if i < length args then Some (args ! i) else None)"

definition secrets_command_of :: "string list \<Rightarrow> secrets_command" where
  "secrets_command_of args =
     (let sub = unwrap_or (arg_at args 2) [] in
      if sub = ''list'' then SecretsList
      else if sub = ''get'' then (case arg_at args 3 of Some n \<Rightarrow> SecretsGet n | None \<Rightarrow> SecretsGetUsage)
      else if sub = ''import'' then SecretsImport
      else if sub = [] then SecretsUsage
      else SecretsUnknown sub)"

definition command_of :: "string list \<Rightarrow> program_command" where
  "command_of args =
     (if arg_at args 1 = Some ''bootstrap'' then BootstrapCommand (''--json'' \<in> set args)
      else if arg_at args 1 = Some ''secrets''
      then SecretsCommand (secrets_command_of args) (''--yes'' \<in> set args \<or> ''-y'' \<in> set args)
      else RunSubsystems)"

section \<open>The secrets commands\<close>

text \<open>What is printed on the standard output, or how the program ends instead.\<close>

datatype command_end = Printed "string list" | ExitCode nat | CommandFailed secret_error | UsageFailed

definition secrets_list :: "'b backend \<Rightarrow> 'b \<Rightarrow> command_end" where
  "secrets_list ops b =
     (case sb_list ops b of
        Inl e \<Rightarrow> CommandFailed e
      | Inr present \<Rightarrow>
          Printed ((''backend: '' @ sb_kind ops) # (if present = [] then [''(no secrets present)''] else present)))"

text \<open>The answer is trimmed and put in lower case.\<close>

definition confirmed :: "string \<Rightarrow> bool" where
  "confirmed line \<longleftrightarrow> (let answer = map ascii_lower (trim line) in answer = ''y'' \<or> answer = ''yes'')"

definition secrets_get :: "'b backend \<Rightarrow> string \<Rightarrow> bool \<Rightarrow> string \<Rightarrow> 'b \<Rightarrow> command_end" where
  "secrets_get ops name assume_yes line b =
     (if \<not> assume_yes \<and> \<not> confirmed line then ExitCode 1
      else (case sb_get ops b name of Inl e \<Rightarrow> CommandFailed e | Inr v \<Rightarrow> Printed [v]))"

definition run_secrets_subcommand ::
  "toml_files \<Rightarrow> 'b backend \<Rightarrow> string \<Rightarrow> secrets_command \<Rightarrow> bool \<Rightarrow> string \<Rightarrow> 'b \<Rightarrow> files \<Rightarrow>
     command_end \<times> 'b \<times> files" where
  "run_secrets_subcommand tf ops config_path c assume_yes line b fs =
     (case c of
        SecretsList \<Rightarrow> (secrets_list ops b, b, fs)
      | SecretsGet name \<Rightarrow> (secrets_get ops name assume_yes line b, b, fs)
      | SecretsGetUsage \<Rightarrow> (UsageFailed, b, fs)
      | SecretsImport \<Rightarrow>
          (case secrets_import tf ops config_path (assume_yes \<or> confirmed line) b fs of
             (Inl e, b', fs') \<Rightarrow> (CommandFailed e, b', fs') | (Inr _, b', fs') \<Rightarrow> (Printed [], b', fs'))
      | SecretsUsage \<Rightarrow> (ExitCode 2, b, fs)
      | SecretsUnknown sub \<Rightarrow> (ExitCode 2, b, fs))"

section \<open>The subsystems\<close>

datatype subsystem = WebUiSubsystem | AgentSubsystem | VfsSubsystem

text \<open>\<open>vfs_built\<close>: the program was built with the vfs feature.\<close>

definition subsystems :: "bool \<Rightarrow> mosaicfs_config \<Rightarrow> subsystem list" where
  "subsystems vfs_built cfg =
     (if ft_web_ui (mc_features cfg) then [WebUiSubsystem] else []) @
     (if ft_agent (mc_features cfg) then [AgentSubsystem] else []) @
     (if vfs_built \<and> ft_vfs (mc_features cfg) then [VfsSubsystem] else [])"

definition agent_watch_paths :: "mosaicfs_config \<Rightarrow> string list" where
  "agent_watch_paths cfg = (case mc_agent cfg of Some a \<Rightarrow> ac_watch_paths a | None \<Rightarrow> [])"

text \<open>The task of the vfs feature fails without its section and otherwise never ends.\<close>

definition start_vfs :: "mosaicfs_config \<Rightarrow> (unit + string) option" where
  "start_vfs cfg = (if mc_vfs cfg = None then Some (Inr ''[vfs] section missing'') else None)"

section \<open>The sandbox\<close>

text \<open>A rule allows reading below a path, and writing too if marked.\<close>

type_synonym sandbox_rule = "string \<times> bool"

definition resolve_data_dir :: "environment \<Rightarrow> string option \<Rightarrow> string option" where
  "resolve_data_dir vars passwd_home =
     (case vars ''XDG_DATA_HOME'' of
        Some xdg \<Rightarrow> if xdg \<noteq> [] then Some (path_join xdg ''mosaicfs'') else passwd_home
      | None \<Rightarrow> passwd_home)"

text \<open>The fixed paths must exist; a watch path that does not is left out.\<close>

definition landlock_rules ::
  "environment \<Rightarrow> string option \<Rightarrow> (string \<Rightarrow> bool) \<Rightarrow> string list \<Rightarrow> sandbox_rule list option" where
  "landlock_rules vars passwd_home present watch_paths =
     (case resolve_data_dir vars passwd_home of
        None \<Rightarrow> None
      | Some data_dir \<Rightarrow>
          (let fixed = [(data_dir, True), (unwrap_or (vars ''XDG_RUNTIME_DIR'') ''/run/mosaicfs'', True),
                 (''/etc/mosaicfs'', False), (''/etc/ssl/certs'', False), (''/usr/share/zoneinfo'', False)]
           in if \<forall>r \<in> set fixed. present (fst r)
              then Some (fixed @ map (\<lambda>p. (p, False)) (filter present watch_paths)) else None))"

definition denied_syscalls :: "string list" where
  "denied_syscalls =
     [''execve'', ''execveat'', ''ptrace'', ''mount'', ''umount2'', ''bpf'', ''kexec_load'', ''kexec_file_load'',
      ''init_module'', ''finit_module'', ''delete_module'', ''unshare'', ''setns'', ''keyctl'', ''add_key'',
      ''request_key'', ''pivot_root'', ''chroot'', ''perf_event_open'']"

text \<open>
  The process after a successful \<open>apply\<close>: the system calls that fail and the rules of the files. With the
  variable \<open>MOSAICFS_SECCOMP_LOG\<close> the calls are only logged.
\<close>

record sandbox =
  sx_denied :: "string list"
  sx_rules :: "sandbox_rule list"

definition sandbox_apply ::
  "(string \<Rightarrow> bool) \<Rightarrow> environment \<Rightarrow> string option \<Rightarrow> (string \<Rightarrow> bool) \<Rightarrow> string list \<Rightarrow> sandbox option" where
  "sandbox_apply step_ok vars passwd_home present watch_paths =
     (if \<not> step_ok ''no_new_privs'' \<or> \<not> step_ok ''drop_capabilities'' then None
      else (case landlock_rules vars passwd_home present watch_paths of
              None \<Rightarrow> None
            | Some rules \<Rightarrow>
                if \<not> step_ok ''landlock'' \<or> \<not> step_ok ''seccomp'' then None
                else Some \<lparr>sx_denied = (if vars ''MOSAICFS_SECCOMP_LOG'' = None then denied_syscalls else []),
                       sx_rules = rules\<rparr>))"

definition may_read :: "sandbox \<Rightarrow> string \<Rightarrow> bool" where
  "may_read sx p \<longleftrightarrow> (\<exists>r \<in> set (sx_rules sx). path_starts_with p (fst r))"

definition may_write :: "sandbox \<Rightarrow> string \<Rightarrow> bool" where
  "may_write sx p \<longleftrightarrow> (\<exists>r \<in> set (sx_rules sx). snd r \<and> path_starts_with p (fst r))"

text \<open>The files and the programs as the process in the sandbox sees them.\<close>

definition seen_files :: "sandbox \<Rightarrow> (string \<rightharpoonup> string) \<Rightarrow> (string \<rightharpoonup> string)" where
  "seen_files sx fs p = (if may_read sx p then fs p else None)"

definition run_program :: "sandbox \<Rightarrow> string option \<Rightarrow> string option" where
  "run_program sx out = (if ''execve'' \<in> set (sx_denied sx) then None else out)"

text \<open>What the program does after the configuration is loaded: the sandbox first, then the subsystems.\<close>

definition launch ::
  "bool \<Rightarrow> mosaicfs_config \<Rightarrow> sandbox option \<Rightarrow> (sandbox \<times> subsystem list) option" where
  "launch vfs_built cfg applied =
     (case applied of
        None \<Rightarrow> None
      | Some sx \<Rightarrow> if subsystems vfs_built cfg = [] then None else Some (sx, subsystems vfs_built cfg))"

section \<open>The certificates of the server\<close>

text \<open>
  Generation gives the certificate and the key of the authority and those of the server; loading parses
  the two of the server.
\<close>

record 'c tls_lib =
  tl_generate :: "(string \<times> string \<times> string \<times> string) option"
  tl_load :: "string \<Rightarrow> string \<Rightarrow> 'c option"

fun write_all :: "(string \<Rightarrow> bool) \<Rightarrow> (string \<times> string) list \<Rightarrow> (string \<rightharpoonup> string) \<Rightarrow> bool \<times> (string \<rightharpoonup> string)" where
  "write_all writable [] fs = (True, fs)"
| "write_all writable ((p, t) # pts) fs =
     (if writable p then write_all writable pts (fs(p \<mapsto> t)) else (False, fs))"

definition generate_certs ::
  "'c tls_lib \<Rightarrow> (string \<Rightarrow> bool) \<Rightarrow> string \<Rightarrow> (string \<rightharpoonup> string) \<Rightarrow> bool \<times> (string \<rightharpoonup> string)" where
  "generate_certs lib writable data_dir fs =
     (case tl_generate lib of
        None \<Rightarrow> (False, fs)
      | Some (ca_cert, ca_key, server_cert, server_key) \<Rightarrow>
          write_all writable [(path_join data_dir ''ca.crt'', ca_cert), (path_join data_dir ''ca.key'', ca_key),
            (path_join data_dir ''server.crt'', server_cert), (path_join data_dir ''server.key'', server_key)] fs)"

definition ensure_tls_certs ::
  "'c tls_lib \<Rightarrow> (string \<Rightarrow> bool) \<Rightarrow> (string \<Rightarrow> bool) \<Rightarrow> string \<Rightarrow> (string \<rightharpoonup> string) \<Rightarrow> 'c option \<times> (string \<rightharpoonup> string)" where
  "ensure_tls_certs lib readable writable data_dir fs =
     (let ca = path_join data_dir ''ca.crt''; cert = path_join data_dir ''server.crt''; key = path_join data_dir ''server.key'';
          (ok, fs1) = (if fs ca = None \<or> fs cert = None \<or> fs key = None then generate_certs lib writable data_dir fs
                       else (True, fs))
      in if \<not> ok \<or> \<not> readable cert \<or> \<not> readable key then (None, fs1)
         else (case (fs1 cert, fs1 key) of (Some c, Some k) \<Rightarrow> tl_load lib c k | _ \<Rightarrow> None, fs1))"

section \<open>Properties\<close>

text \<open>A value is printed only to someone who asked for it: with the option, or with an answer.\<close>

lemma secret_needs_consent:
  assumes "secrets_get ops name assume_yes line b = Printed vs"
  shows "(assume_yes \<or> confirmed line) \<and> (\<exists>v. vs = [v] \<and> sb_get ops b name = Inr v)"
  using assms by (auto simp: secrets_get_def split: if_splits sum.splits)

lemma listing_hides_values:
  assumes "secrets_list ops b = Printed lines" "sb_list ops b = Inr present"
  shows "set lines \<subseteq> {''backend: '' @ sb_kind ops, ''(no secrets present)''} \<union> set present"
  using assms by (auto simp: secrets_list_def split: if_splits)

text \<open>A later option of the same name has no effect, and an option without its value counts as absent.\<close>

lemma first_argument_counts:
  assumes "name \<notin> set before" "\<forall>a \<in> set before. strip_prefix (name @ ''='') a = None"
  shows "arg_value (before @ name # v # rest) name = Some v"
    and "arg_value (before @ (name @ ''='' @ v) # rest) name = Some v"
    and "arg_value (before @ [name]) name = None"
proof -
  have strip: "strip_prefix p (p @ x) = Some x" for p x by (induction p) simp_all
  show "arg_value (before @ name # v # rest) name = Some v" "arg_value (before @ [name]) name = None"
    using assms by (induction before) (auto split: option.split)
  have "name @ ''='' @ v \<noteq> name" by simp
  then show "arg_value (before @ (name @ ''='' @ v) # rest) name = Some v"
    using assms strip [of "name @ ''=''" v] by (induction before) (auto split: option.split)
qed

text \<open>The certificates are made once: files that are all there are left alone, and a run that was interrupted is repeated.\<close>

lemma certificates_kept:
  assumes "fs (path_join dir ''ca.crt'') \<noteq> None" "fs (path_join dir ''server.crt'') \<noteq> None" "fs (path_join dir ''server.key'') \<noteq> None"
  shows "snd (ensure_tls_certs lib readable writable dir fs) = fs"
  using assms by (auto simp: ensure_tls_certs_def Let_def)

lemma certificates_made_together:
  assumes "fs (path_join dir ''ca.crt'') = None \<or> fs (path_join dir ''server.crt'') = None \<or> fs (path_join dir ''server.key'') = None"
    and "tl_generate lib = Some (a, b, c, d)" "\<forall>p. writable p" "\<forall>p. readable p" "tl_load lib c d = Some cfg"
  shows "ensure_tls_certs lib readable writable dir fs =
    (Some cfg, fs(path_join dir ''ca.crt'' \<mapsto> a, path_join dir ''ca.key'' \<mapsto> b,
       path_join dir ''server.crt'' \<mapsto> c, path_join dir ''server.key'' \<mapsto> d))"
proof -
  have "path_join dir ''server.crt'' \<noteq> path_join dir ''server.key''"
    by (simp add: path_join_def starts_with_def)
  then show ?thesis
    using assms by (auto simp: ensure_tls_certs_def generate_certs_def Let_def)
qed

text \<open>The configuration that was loaded has a feature, so that the program with all features finds one to start.\<close>

lemma loaded_has_subsystem:
  assumes "load_config toml macos env text = Inr cfg"
  shows "subsystems True cfg \<noteq> []"
proof -
  have "ft_agent (mc_features cfg) \<or> ft_vfs (mc_features cfg) \<or> ft_web_ui (mc_features cfg)"
    using assms by (auto simp: load_config_def Let_def validate_def and_then_Inr split: option.splits if_splits sum.splits)
  then show ?thesis by (auto simp: subsystems_def)
qed

lemma unbuilt_vfs_not_started:
  assumes "mc_features cfg = \<lparr>ft_agent = False, ft_vfs = True, ft_web_ui = False\<rparr>"
  shows "launch False cfg (Some sx) = None"
  using assms by (simp add: launch_def subsystems_def)

end
