(* ===== verification/Spec2Isabelle.thy ===== *)
theory Spec2Isabelle
  imports
    Rust_Prelude Numbers Block_Map Json Couch Documents Steps Inodes Readdir Server_Caches File_Cache
    Tiered_Access Fuse_Fs Watcher Config Secrets Notifications Credentials Auth Crawler Node_Agent
    Glob Api Access_Tracker Labels Open_File Nodes Notification_Api Vfs_Api Agent_Api Files_Api
    System_Api Search_Api Server_Start Server_Boot Login_Api Web Web_Actions Web_Vfs Web_Vfs_Props
    Web_Views Web_Browse Routes Desktop Agent_Start Command_Line
begin

text \<open>
  MosaicFS: a file index of several machines in one CouchDB database, with a REST server and a web
  interface over it, an agent per machine that crawls its files, a read-only FUSE file system of virtual
  directories, and a desktop application. This development models the Rust crates
  \<open>mosaicfs-common\<close>, \<open>mosaicfs-agent\<close>, \<open>mosaicfs-server\<close>, \<open>mosaicfs-vfs\<close>, \<open>mosaicfs\<close> and \<open>desktop\<close>.

  Parts and how they interact. All parts share documents in the database: the agent writes file, node and
  filesystem documents (\<open>Crawler\<close>, \<open>Node_Agent\<close>); the server serves and edits them and keeps caches of labels,
  accesses and listings in step with the feed of changes (\<open>Server_Caches\<close>, \<open>Server_Start\<close>); the FUSE file system lists virtual
  directories from them and finds the bytes of a file (\<open>Readdir\<close>, \<open>Tiered_Access\<close>, \<open>Fuse_Fs\<close>); the desktop application
  looks up its own node and opens files through bookmarks (\<open>Desktop\<close>). An operation of the code is a function
  of the same name; a handler takes the database and the state \<open>'s\<close> behind it and returns its reply with the new state.

  Foundations.
  \<^item> \<open>Rust_Prelude\<close>, \<open>Numbers\<close>, \<open>Json\<close>: machine integers as words, string and path operations, binary search, hash maps as
    association lists with distinct keys, numerals, \<open>serde_json\<close> values and their accessors.
  \<^item> \<open>Couch\<close> (\<open>couchdb.rs\<close>): the client over an HTTP transport, and the record \<open>couch\<close> of its operations that every caller takes;
    \<open>http_couch\<close> is the code's own instance of it. \<open>Documents\<close> (\<open>documents.rs\<close>): one record per struct with encoder and
    decoder; the lemmas are the round trips.
  \<^item> \<open>Steps\<close>, \<open>Config\<close>, \<open>Secrets\<close>, \<open>Notifications\<close>: the files of these names in \<open>mosaicfs-common\<close>. \<open>Config\<close> includes the
    syntax of socket addresses; \<open>Secrets\<close> has the import of \<open>main.rs\<close> and the contract of both backends.

  The file system, \<open>mosaicfs-vfs\<close>.
  \<^item> \<open>Block_Map\<close> (\<open>block_map.rs\<close>): sorted disjoint ranges refine a set of bytes; insertion, missing ranges, coalescing, codec.
  \<^item> \<open>Inodes\<close>, \<open>Readdir\<close>, \<open>File_Cache\<close>, \<open>Tiered_Access\<close>: \<open>inode.rs\<close>, \<open>readdir.rs\<close>, \<open>cache.rs\<close>, \<open>tiered_access.rs\<close> with \<open>filesystem_view.rs\<close>.
  \<^item> \<open>Fuse_Fs\<close> (\<open>fuse_fs.rs\<close>, \<open>fuse_check.rs\<close>): the callbacks, the runs of a mounted file system as an inductive relation, the
    mount and the probe. \<open>Watcher\<close> (\<open>watcher.rs\<close>, \<open>reconciliation.rs\<close>): debouncing, storms, the end of the loop, reconnection.

  The agent, \<open>mosaicfs-agent\<close>: \<open>Crawler\<close> (\<open>crawler.rs\<close>) refines a description of what a pass must send; \<open>Node_Agent\<close>
  (\<open>node.rs\<close>); \<open>Agent_Start\<close> (\<open>start.rs\<close>, \<open>watch_path_provider.rs\<close>, \<open>machine_id.rs\<close>).

  The server, \<open>mosaicfs-server\<close>.
  \<^item> \<open>Server_Caches\<close>, \<open>Access_Tracker\<close>, \<open>Credentials\<close>, \<open>Auth\<close>: \<open>label_cache.rs\<close>, \<open>access_cache.rs\<close>, \<open>readdir_cache.rs\<close>, \<open>readdir.rs\<close>,
    \<open>state.rs\<close>, \<open>credentials.rs\<close> and \<open>auth\<close>.
  \<^item> \<open>Api\<close> (what handlers share), \<open>Glob\<close>, \<open>Labels\<close>, \<open>Nodes\<close>, \<open>Notification_Api\<close>, \<open>Vfs_Api\<close>, \<open>Agent_Api\<close>, \<open>Files_Api\<close>,
    \<open>System_Api\<close>, \<open>Search_Api\<close>: the modules of \<open>handlers\<close>. \<open>Login_Api\<close>: the handlers of \<open>routes.rs\<close>.
  \<^item> \<open>Open_File\<close>, \<open>Web\<close>, \<open>Web_Actions\<close>, \<open>Web_Vfs\<close>, \<open>Web_Vfs_Props\<close>, \<open>Web_Views\<close>, \<open>Web_Browse\<close>: the modules of \<open>ui\<close>. A page is
    its template with the values it shows; a session is a map, and its requests are the step relation \<open>web_step\<close>.
  \<^item> \<open>Routes\<close>: the routing tables with the guard of each route, and the dispatch of a request. \<open>Server_Boot\<close>,
    \<open>Server_Start\<close> (\<open>start.rs\<close>, \<open>tls.rs\<close> with \<open>Command_Line\<close>): the start, the feed watcher and the background tasks.

  The programs: \<open>Command_Line\<close> (\<open>main.rs\<close>, \<open>sandbox.rs\<close>), \<open>Desktop\<close> (the crate \<open>desktop\<close>). This theory composes the
  agent with the desktop application, and the sandbox with the checks of agent and server.

  What the lemmas show. Each theory has the invariant of its state and that every operation keeps it, the behaviour of
  its operations on each branch, and then its properties; where the code does not do what its comments or documents
  say, a lemma shows the behaviour as it is. The interfaces are locales: \<open>byte_index\<close> for a set
  of bytes, \<open>secrets_backend\<close> for both backends, \<open>replica_context\<close> for both step contexts, \<open>feed_rules\<close> for the
  source of changes; each is interpreted on the model's definitions.

  Parameters. What is not code of the repository is an argument: chrono, hexadecimal text and HMAC (\<open>libs\<close>), base64, Argon2 and
  JWT (\<open>cred_libs\<close>, \<open>hash_libs\<close>, \<open>jwt_libs\<close>), the TOML and JSON text formats (\<open>toml_codec\<close>, \<open>text_codec\<close>), the
  path matcher of axum, the URL parser, the macOS calls (\<open>mac_api\<close>), file systems and clocks (\<open>host\<close>, \<open>file_io\<close>,
  \<open>crawl_env\<close>, \<open>desk_env\<close> and the like). What is relied on of them is a named law, a hypothesis of the properties that need it:
  \<open>reads_law\<close>, \<open>writes_law\<close>, \<open>revision_law\<close>, \<open>admin_law\<close>, \<open>feed_law\<close> and \<open>finds_machines\<close> of CouchDB, \<open>time_codec\<close>,
  \<open>jwt_law\<close>, \<open>hash_law\<close>, \<open>text_law\<close>, \<open>matcher_law\<close>. A witness instantiates each with concrete functions.

  Bounds. No function takes fuel: loops of the code are structural recursions or have a measure (\<open>from_bytes_at\<close>,
  \<open>evict_loop\<close>, \<open>bsearch_loop\<close>, \<open>strip_any\<close>, \<open>chunks\<close>). The loops that run as long as a process
  (watcher, monitor, agent, feed, timers) are functions of the finite list of their inputs, so a statement over all lists is one
  over all prefixes of a run. Sizes and counters are 64-bit words where the code has \<open>u64\<close>, and overflow is written out: a
  release build wraps, and where a build with checks panics the text of the lemma says so.

  Not modelled, and why.
  \<^item> Threads and the interleaving inside one operation: each handler, callback and tick is one step; locks are held
    within them.
  \<^item> Sockets, the TLS protocol, the HTML templates, the windows, menus and the tray of the desktop application, its
    \<open>macos.rs\<close>, \<open>main.rs\<close> and \<open>stub.rs\<close>: calls of axum, rustls, tera, Tauri and Objective-C without decisions of their own.
  \<^item> The order in which a hash map is iterated is the order of the association list; no property depends on it
    where the code does not.
  \<^item> Texts are lists of 8-bit characters, the bytes of their UTF-8 encoding; \<open>serde\<close>'s reading of structs from JSON arrays, which
    no writer of the program produces, is left out.
  \<^item> Log output, and \<open>hostname\<close> of the agent, which nothing calls.
\<close>

section \<open>The agent and the desktop application\<close>

text \<open>
  What is relied on of a find for the node of a machine: it gives the documents of this type and
  machine identifier, each one once.
\<close>

definition finds_machines :: "'s couch \<Rightarrow> ('s \<Rightarrow> string \<Rightarrow> json option) \<Rightarrow> bool" where
  "finds_machines db docs \<longleftrightarrow> (\<forall>s m. \<exists>ids. distinct ids \<and>
     set ids = {i. \<exists>d. docs s i = Some d \<and> jget_str ''type'' d = Some ''node'' \<and> jget_str ''machine_id'' d = Some m} \<and>
     db_find db (JObj [(''type'', JStr ''node''), (''machine_id'', JStr m)]) s = (Inr (map (\<lambda>i. the (docs s i)) ids), s))"

definition node_of_machine :: "string \<Rightarrow> json \<Rightarrow> bool" where
  "node_of_machine m d \<longleftrightarrow> jget_str ''type'' d = Some ''node'' \<and> jget_str ''machine_id'' d = Some m"

text \<open>A registration adds its own document to those of the machine, and no other.\<close>

lemma registered_machines:
  assumes laws: "reads_law db docs" "writes_law db docs"
    and reg: "Node_Agent.register_node env db n paths s = (Inr (), s1)"
    and typed: "\<forall>old. docs s (node_doc_id n) = Some old \<longrightarrow> jget_str ''type'' old = Some ''node''"
  shows "(\<exists>d. docs s1 i = Some d \<and> node_of_machine (ne_machine_id env) d) \<longleftrightarrow>
    i = node_doc_id n \<or> (\<exists>d. docs s i = Some d \<and> node_of_machine (ne_machine_id env) d)"
proof -
  obtain d where d: "docs s1 (node_doc_id n) = Some d" "jget_str ''machine_id'' d = Some (ne_machine_id env)"
    "jget_str ''type'' d = (case docs s (node_doc_id n) of Some old \<Rightarrow> jget_str ''type'' old | None \<Rightarrow> Some ''node'')"
    and keeps: "keeps_types ((docs s)(node_doc_id n \<mapsto> d)) (docs s1)"
    using register_node_effect [OF laws reg] by blast
  show ?thesis
  proof (cases "i = node_doc_id n")
    case True
    have "jget_str ''type'' d = Some ''node''"
      using d(3) typed by (cases "docs s (node_doc_id n)") simp_all
    with True d show ?thesis by (simp add: node_of_machine_def)
  next
    case False
    then have at: "((docs s)(node_doc_id n \<mapsto> d)) i = docs s i" by simp
    show ?thesis
    proof (cases "docs s1 i = docs s i")
      case True
      with False show ?thesis by simp
    next
      case changed: False
      then obtain d' where d': "docs s1 i = Some d'"
        "case docs s i of None \<Rightarrow> jget_str ''type'' d' = Some ''filesystem''
         | Some e \<Rightarrow> \<forall>k. k \<notin> {''availability'', ''_id'', ''_rev''} \<longrightarrow> jget_str k d' = jget_str k e"
        using keeps [unfolded keeps_types_def, rule_format, of i] unfolding at by blast
      show ?thesis
      proof (cases "docs s i")
        case None
        with d' False show ?thesis by (simp add: node_of_machine_def)
      next
        case (Some e)
        with d'(2) have "jget_str ''type'' d' = jget_str ''type'' e" "jget_str ''machine_id'' d' = jget_str ''machine_id'' e"
          by simp_all
        with Some d'(1) False show ?thesis by (simp add: node_of_machine_def)
      qed
    qed
  qed
qed

lemma strip_node_prefix: "strip_prefix ''node::'' (node_doc_id n) = Some n"
  by (simp add: node_doc_id_def)

text \<open>
  C34: The desktop application finds the node the agent of the same machine has registered: after a
  successful registration the lookup by the machine identifier gives exactly this node, unless another node
  document has the identifier too, and then it gives none rather than the wrong one. The database answers
  reads, writes and finds as documented, and every document knows its identifier.
\<close>
theorem registered_node_found:
  assumes laws: "reads_law db docs" "writes_law db docs" "finds_machines db docs"
    and reg: "Node_Agent.register_node env db n paths s = (Inr (), s1)"
    and typed: "\<forall>old. docs s (node_doc_id n) = Some old \<longrightarrow> jget_str ''type'' old = Some ''node''"
    and ids: "\<forall>i d. docs s1 i = Some d \<longrightarrow> jget_str ''_id'' d = Some i"
    and vars: "vars ''MOSAICFS_NODE_ID'' = None"
  shows "resolve_machine_node vars (\<lambda>_. db) (ne_machine_id env) settings s1 =
    (if \<exists>i d. i \<noteq> node_doc_id n \<and> docs s i = Some d \<and> jget_str ''type'' d = Some ''node'' \<and>
          jget_str ''machine_id'' d = Some (ne_machine_id env)
     then None else Some n, s1)"
proof -
  let ?m = "ne_machine_id env" and ?i = "node_doc_id n"
  let ?other = "\<exists>i d. i \<noteq> ?i \<and> docs s i = Some d \<and> jget_str ''type'' d = Some ''node'' \<and> jget_str ''machine_id'' d = Some ?m"
  obtain found where found: "distinct found"
    "set found = {i. \<exists>d. docs s1 i = Some d \<and> jget_str ''type'' d = Some ''node'' \<and> jget_str ''machine_id'' d = Some ?m}"
    "db_find db (JObj [(''type'', JStr ''node''), (''machine_id'', JStr ?m)]) s1 = (Inr (map (\<lambda>i. the (docs s1 i)) found), s1)"
    using laws(3) unfolding finds_machines_def by blast
  have set: "i \<in> set found \<longleftrightarrow> i = ?i \<or> (\<exists>d. docs s i = Some d \<and> jget_str ''type'' d = Some ''node'' \<and> jget_str ''machine_id'' d = Some ?m)" for i
    using registered_machines [OF laws(1,2) reg typed, of i] unfolding found(2) node_of_machine_def by simp
  have run: "resolve_machine_node vars (\<lambda>_. db) ?m settings s1 =
      (case map (\<lambda>i. the (docs s1 i)) found of
         [d] \<Rightarrow> (let raw = unwrap_or (jget_str ''_id'' d) [] in Some (unwrap_or (strip_prefix ''node::'' raw) raw))
       | _ \<Rightarrow> None, s1)"
    using vars found(3) by (simp add: resolve_machine_node_def find_node_by_machine_id_def)
  show ?thesis
  proof (cases ?other)
    case True
    then obtain j where "j \<noteq> ?i" "j \<in> set found" using set by blast
    moreover have "?i \<in> set found" using set by blast
    ultimately have "\<exists>a b c. found = a # b # c"
      by (cases found; cases "List.tl found") (auto split: list.splits)
    then obtain a b c where "found = a # b # c" by blast
    with run have "resolve_machine_node vars (\<lambda>_. db) ?m settings s1 = (None, s1)" by simp
    then show ?thesis unfolding if_P [OF True] .
  next
    case False
    then have "set found = {?i}" using set by blast
    with found(1) have single: "found = [?i]"
      by (metis distinct_card card_1_singleton_iff length_0_conv length_Suc_conv list.set_intros(1) One_nat_def singletonD card_insert_disjoint card.empty finite.emptyI empty_iff)
    obtain d where d: "docs s1 ?i = Some d" using register_node_effect [OF laws(1,2) reg] by blast
    with ids have i: "jget_str ''_id'' d = Some ?i" by blast
    have "map (\<lambda>i. the (docs s1 i)) found = [d]" by (simp add: single d)
    with run i strip_node_prefix [of n] have "resolve_machine_node vars (\<lambda>_. db) ?m settings s1 = (Some n, s1)"
      by simp
    then show ?thesis unfolding if_not_P [OF False] .
  qed
qed

text \<open>A database that answers finds by its selector, for the example.\<close>

definition finding_couch :: "store couch" where
  "finding_couch = store_couch\<lparr>db_find := (\<lambda>sel s.
     (Inr (map snd (filter (\<lambda>(i, d). case sel of
        JObj kvs \<Rightarrow> \<forall>(k, v) \<in> set kvs. jget_str k d = as_str v | _ \<Rightarrow> False) (AList.clearjunk s))), s))\<rparr>"

lemma finding_couch_laws:
  "reads_law finding_couch map_of" "writes_law finding_couch map_of"
  using store_couch_reads store_couch_writes by (simp_all add: reads_law_def writes_law_def finding_couch_def)

lemma matching_keys:
  fixes P :: "'a \<Rightarrow> bool" and xs :: "('k \<times> 'a) list"
  assumes "distinct (map fst xs)"
  defines "ids \<equiv> map fst (filter (\<lambda>(i, d). P d) xs)"
  shows "distinct ids" "set ids = {i. \<exists>d. map_of xs i = Some d \<and> P d}"
    "map (\<lambda>i. the (map_of xs i)) ids = map snd (filter (\<lambda>(i, d). P d) xs)"
proof -
  have mem: "map_of xs i = Some d \<longleftrightarrow> (i, d) \<in> set xs" for i d by (rule map_of_eq_Some_iff [OF assms(1)])
  show "distinct ids" using assms(1) unfolding ids_def by (rule distinct_map_filter)
  show "set ids = {i. \<exists>d. map_of xs i = Some d \<and> P d}" unfolding ids_def mem by force
  show "map (\<lambda>i. the (map_of xs i)) ids = map snd (filter (\<lambda>(i, d). P d) xs)"
    unfolding ids_def map_map by (rule map_cong [OF refl]) (auto simp: mem [symmetric])
qed

lemma finding_couch_finds: "finds_machines finding_couch map_of"
  unfolding finds_machines_def
proof (intro allI)
  fix s :: store and m
  let ?P = "\<lambda>d. jget_str ''type'' d = Some ''node'' \<and> jget_str ''machine_id'' d = Some m"
  note keys = matching_keys [OF distinct_clearjunk [of s], of ?P, unfolded map_of_clearjunk]
  have "db_find finding_couch (JObj [(''type'', JStr ''node''), (''machine_id'', JStr m)]) s =
      (Inr (map snd (filter (\<lambda>(i, d). ?P d) (AList.clearjunk s))), s)"
    by (simp add: finding_couch_def)
  with keys show "\<exists>ids. distinct ids \<and>
     set ids = {i. \<exists>d. map_of s i = Some d \<and> jget_str ''type'' d = Some ''node'' \<and> jget_str ''machine_id'' d = Some m} \<and>
     db_find finding_couch (JObj [(''type'', JStr ''node''), (''machine_id'', JStr m)]) s =
       (Inr (map (\<lambda>i. the (map_of s i)) ids), s)"
    by (intro exI [of _ "map fst (filter (\<lambda>(i, d). ?P d) (AList.clearjunk s))"]) (simp only: keys simp_thms)
qed

theorem registered_node_found_witness:
  "let env = \<lparr>ne_now = ''t'', ne_platform = ''linux'', ne_machine_id = ''m'', ne_vfs_capable = False, ne_exists = (\<lambda>_. False)\<rparr>
   in fst (resolve_machine_node Map.empty (\<lambda>_. finding_couch) ''m'' default_settings
        (snd (Node_Agent.register_node env finding_couch ''n'' [] []))) = Some ''n''"
proof -
  let ?env = "\<lparr>ne_now = ''t'', ne_platform = ''linux'', ne_machine_id = ''m'', ne_vfs_capable = False, ne_exists = (\<lambda>_. False)\<rparr>"
  obtain s1 where s1: "Node_Agent.register_node ?env finding_couch ''n'' [] [] = (Inr (), s1)"
    and ids: "\<forall>i d. map_of s1 i = Some d \<longrightarrow> jget_str ''_id'' d = Some i"
    by (simp add: Node_Agent.register_node_def finding_couch_def registered_doc_def collect_storage_info_def republish_def
        Let_def node_doc_id_def jget_str_def)
  have "resolve_machine_node Map.empty (\<lambda>_. finding_couch) (ne_machine_id ?env) default_settings s1 = (Some ''n'', s1)"
    using registered_node_found [OF finding_couch_laws finding_couch_finds s1 _ ids, of Map.empty default_settings]
    by simp
  then show ?thesis by (simp add: s1)
qed

section \<open>The sandbox and the health checks\<close>



end
